(* ===== verification/Prelude.thy ===== *)
theory Prelude
  imports Main "HOL-Library.List_Lexorder" "HOL-Library.Char_ord" "HOL-Library.AList"
begin

text \<open>
  Shared vocabulary of the development: the parts of the TypeScript language and its
  standard library that the modelled code uses (strings, insertion-ordered maps, decimal
  printing, array sorting), the generic lemmas on them, and the interface every status
  table of the program shares.

  A string is a list of 8-bit characters, read as the code units U+0000 to U+00FF; user
  prose (labels, summaries, actions) is not modelled. A \<open>Map\<close> of the code is an
  association list: \<open>AList.update\<close> overwrites in place or appends, which is what
  \<open>Map.prototype.set\<close> does to the iteration order, and \<open>map_of\<close> is \<open>get\<close>.
\<close>

named_theorems js_simps
named_theorems table_simps

section \<open>Strings\<close>

definition js_space :: "char \<Rightarrow> bool" where
  "js_space c = (c \<in> {CHR 0x09, CHR 0x0A, CHR 0x0B, CHR 0x0C, CHR 0x0D, CHR '' '', CHR 0xA0})"

definition js_trim_start :: "string \<Rightarrow> string" where
  "js_trim_start s = dropWhile js_space s"

definition js_trim_end :: "string \<Rightarrow> string" where
  "js_trim_end s = rev (dropWhile js_space (rev s))"

definition js_trim :: "string \<Rightarrow> string" where
  "js_trim s = js_trim_end (js_trim_start s)"

definition js_lower_char :: "char \<Rightarrow> char" where
  "js_lower_char c =
     (let n = (of_char c :: nat)
      in if (65 \<le> n \<and> n \<le> 90) \<or> (192 \<le> n \<and> n \<le> 222 \<and> n \<noteq> 215) then char_of (n + 32) else c)"

definition js_lower :: "string \<Rightarrow> string" where
  "js_lower s = map js_lower_char s"

fun js_split :: "char \<Rightarrow> string \<Rightarrow> string list" where
  "js_split c [] = [[]]"
| "js_split c (x # xs) =
     (if x = c then [] # js_split c xs
      else (case js_split c xs of [] \<Rightarrow> [[x]] | y # ys \<Rightarrow> (x # y) # ys))"

fun js_join :: "string \<Rightarrow> string list \<Rightarrow> string" where
  "js_join sep [] = []"
| "js_join sep [s] = s"
| "js_join sep (s # t # ts) = s @ sep @ js_join sep (t # ts)"

definition starts_with :: "string \<Rightarrow> string \<Rightarrow> bool" where
  "starts_with s p = (take (length p) s = p)"

definition ends_with :: "string \<Rightarrow> string \<Rightarrow> bool" where
  "ends_with s p = (length p \<le> length s \<and> drop (length s - length p) s = p)"

fun js_includes :: "string \<Rightarrow> string \<Rightarrow> bool" where
  "js_includes [] p = (p = [])"
| "js_includes (x # xs) p = (starts_with (x # xs) p \<or> js_includes xs p)"

definition pad_start :: "nat \<Rightarrow> char \<Rightarrow> string \<Rightarrow> string" where
  "pad_start n c s = replicate (n - length s) c @ s"

subsection \<open>Splitting and joining\<close>

lemma js_split_ne [simp]: "js_split c s \<noteq> []"
  by (induction s) (auto split: list.splits)

lemma js_split_no_sep: "p \<in> set (js_split c s) \<Longrightarrow> c \<notin> set p"
  by (induction s arbitrary: p) (auto split: list.splits if_splits)

lemma js_join_split: "js_join [c] (js_split c s) = s"
proof (induction s)
  case Nil
  show ?case by simp
next
  case (Cons x xs)
  obtain y ys where "js_split c xs = y # ys"
    by (meson js_split_ne neq_Nil_conv)
  with Cons show ?case by (cases ys) auto
qed

lemma js_split_single: "c \<notin> set s \<Longrightarrow> js_split c s = [s]"
  by (induction s) auto

lemma js_split_append: "c \<notin> set s \<Longrightarrow> js_split c (s @ c # t) = s # js_split c t"
  by (induction s) auto

lemma js_split_join:
  "ss \<noteq> [] \<Longrightarrow> \<forall>s\<in>set ss. c \<notin> set s \<Longrightarrow> js_split c (js_join [c] ss) = ss"
proof (induction "[c]" ss rule: js_join.induct)
  case 1
  then show ?case by simp
next
  case (2 s)
  then show ?case by (simp add: js_split_single)
next
  case (3 s t ts)
  then show ?case by (simp add: js_split_append)
qed

lemma set_js_join: "set (js_join sep ss) \<subseteq> (\<Union>s\<in>set ss. set s) \<union> set sep"
  by (induction sep ss rule: js_join.induct) auto

lemma starts_with_append [simp]: "starts_with (p @ s) p"
  by (simp add: starts_with_def)

lemma ends_with_iff: "ends_with s p \<longleftrightarrow> (\<exists>q. s = q @ p)"
proof
  assume "ends_with s p"
  then show "\<exists>q. s = q @ p"
    unfolding ends_with_def by (metis append_take_drop_id)
next
  assume "\<exists>q. s = q @ p"
  then show "ends_with s p"
    by (auto simp: ends_with_def)
qed

subsection \<open>Trimming\<close>

lemma dropWhile_id: "xs = [] \<or> \<not> P (hd xs) \<Longrightarrow> dropWhile P xs = xs"
  by (cases xs) auto

lemma js_trim_id: "s = [] \<or> (\<not> js_space (hd s) \<and> \<not> js_space (last s)) \<Longrightarrow> js_trim s = s"
  by (cases "s = []")
    (auto simp: js_trim_def js_trim_start_def js_trim_end_def hd_rev dropWhile_id)

lemma set_js_trim: "set (js_trim s) \<subseteq> set s"
  by (auto simp: js_trim_def js_trim_start_def js_trim_end_def dest!: set_dropWhileD)

lemma hd_js_trim: "js_trim s \<noteq> [] \<Longrightarrow> \<not> js_space (hd (js_trim s))"
proof -
  assume ne: "js_trim s \<noteq> []"
  let ?t = "dropWhile js_space s"
  have t: "?t \<noteq> [] \<Longrightarrow> \<not> js_space (hd ?t)"
    by (rule hd_dropWhile) simp
  have "js_trim s = rev (dropWhile js_space (rev ?t))"
    by (simp add: js_trim_def js_trim_start_def js_trim_end_def)
  moreover obtain u where "rev ?t = u @ dropWhile js_space (rev ?t)"
    by (metis takeWhile_dropWhile_id)
  ultimately have "?t = js_trim s @ rev u"
    by (metis rev_append rev_rev_ident)
  with ne have "hd ?t = hd (js_trim s)" and "?t \<noteq> []"
    by (auto simp: hd_append)
  with t show ?thesis by simp
qed

section \<open>Decimal numerals\<close>

definition digit_char :: "nat \<Rightarrow> char" where
  "digit_char d = char_of (48 + d)"

definition is_digit :: "char \<Rightarrow> bool" where
  "is_digit c = (48 \<le> (of_char c :: nat) \<and> (of_char c :: nat) \<le> 57)"

definition digit_value :: "char \<Rightarrow> nat" where
  "digit_value c = of_char c - 48"

fun show_nat :: "nat \<Rightarrow> string" where
  "show_nat n = (if n < 10 then [digit_char n] else show_nat (n div 10) @ [digit_char (n mod 10)])"

declare show_nat.simps [simp del]

definition read_nat :: "string \<Rightarrow> nat" where
  "read_nat s = foldl (\<lambda>n c. 10 * n + digit_value c) 0 s"

lemma is_digit_char [simp]: "d < 10 \<Longrightarrow> is_digit (digit_char d)"
  by (simp add: is_digit_def digit_char_def)

lemma digit_value_char [simp]: "d < 10 \<Longrightarrow> digit_value (digit_char d) = d"
  by (simp add: digit_value_def digit_char_def)

lemma show_nat_digits: "c \<in> set (show_nat n) \<Longrightarrow> is_digit c"
proof (induction n rule: show_nat.induct)
  case (1 n)
  then show ?case
    by (subst (asm) (2) show_nat.simps) (auto split: if_splits)
qed

lemma show_nat_ne [simp]: "show_nat n \<noteq> []"
  by (subst show_nat.simps) simp

lemma read_show_nat [simp]: "read_nat (show_nat n) = n"
proof (induction n rule: show_nat.induct)
  case (1 n)
  show ?case
  proof (cases "n < 10")
    case True
    then show ?thesis by (subst show_nat.simps) (simp add: read_nat_def)
  next
    case False
    with 1 have "read_nat (show_nat (n div 10)) = n div 10" by simp
    with False show ?thesis by (subst show_nat.simps) (simp add: read_nat_def)
  qed
qed

section \<open>Arrays\<close>

text \<open>A stable insertion of one element, and the sort of an array by a comparator.\<close>

fun insert_by :: "('a \<Rightarrow> 'a \<Rightarrow> bool) \<Rightarrow> 'a \<Rightarrow> 'a list \<Rightarrow> 'a list" where
  "insert_by le x [] = [x]"
| "insert_by le x (y # ys) = (if le x y then x # y # ys else y # insert_by le x ys)"

definition sort_by :: "('a \<Rightarrow> 'a \<Rightarrow> bool) \<Rightarrow> 'a list \<Rightarrow> 'a list" where
  "sort_by le xs = foldr (insert_by le) xs []"

lemma set_insert_by [simp]: "set (insert_by le x ys) = insert x (set ys)"
  by (induction ys) auto

lemma set_sort_by [simp]: "set (sort_by le xs) = set xs"
  by (induction xs) (auto simp: sort_by_def)

lemma length_insert_by [simp]: "length (insert_by le x ys) = Suc (length ys)"
  by (induction ys) auto

lemma length_sort_by [simp]: "length (sort_by le xs) = length xs"
  by (induction xs) (auto simp: sort_by_def)

lemma distinct_insert_by [simp]: "distinct (insert_by le x ys) = (x \<notin> set ys \<and> distinct ys)"
  by (induction ys) auto

lemma distinct_sort_by [simp]: "distinct (sort_by le xs) = distinct xs"
proof (induction xs)
  case (Cons x xs)
  then show ?case using set_sort_by [of le xs] by (simp add: sort_by_def)
qed (simp add: sort_by_def)

text \<open>The position of the first occurrence, as \<open>Array.prototype.indexOf\<close> on a present element.\<close>

fun index_of :: "'a \<Rightarrow> 'a list \<Rightarrow> nat" where
  "index_of x [] = 0"
| "index_of x (y # ys) = (if x = y then 0 else Suc (index_of x ys))"

lemma index_of_less [simp]: "x \<in> set xs \<Longrightarrow> index_of x xs < length xs"
  by (induction xs) auto

lemma nth_index_of [simp]: "x \<in> set xs \<Longrightarrow> xs ! index_of x xs = x"
  by (induction xs) auto

section \<open>The status-table interface\<close>

text \<open>
  Every lifecycle of the program is a table from a status to the statuses it may move to,
  read through one membership test. \<open>moves_to\<close> is the least relation closed under the
  table's moves.
\<close>

inductive moves_to :: "('s \<Rightarrow> 's list) \<Rightarrow> 's \<Rightarrow> 's \<Rightarrow> bool" for tab where
  stay: "moves_to tab s s"
| move: "moves_to tab s t \<Longrightarrow> u \<in> set (tab t) \<Longrightarrow> moves_to tab s u"

inductive_cases moves_toE: "moves_to tab s t"

locale status_table =
  fixes tab :: "'s \<Rightarrow> 's list"
    and can :: "'s \<Rightarrow> 's \<Rightarrow> bool"
    and final :: "'s \<Rightarrow> bool"
  assumes can_iff: "can s t \<longleftrightarrow> t \<in> set (tab s)"
    and final_no_moves: "final s \<Longrightarrow> tab s = []"
begin

lemma final_is_stuck: "final s \<Longrightarrow> \<not> can s t"
  by (simp add: can_iff final_no_moves)

lemma final_moves_to: "moves_to tab s t \<Longrightarrow> final s \<Longrightarrow> t = s"
  by (induction rule: moves_to.induct) (auto simp: final_no_moves)

lemma invariant_moves_to:
  "moves_to tab s t \<Longrightarrow> P s \<Longrightarrow> (\<And>a b. P a \<Longrightarrow> can a b \<Longrightarrow> P b) \<Longrightarrow> P t"
  by (induction rule: moves_to.induct) (auto simp: can_iff)

end

end
