(* ===== verification/JsNumber.thy ===== *)
theory JsNumber
  imports Complex_Main Prelude
begin

text \<open>
  The numbers of the language. A \<open>number\<close> is an IEEE 754 double; a finite one is modelled
  as the rational it denotes, and an arithmetic operation of the code as the exact rational
  operation followed by \<open>round_double\<close>, the rounding to the nearest double with ties to
  even. Results beyond the largest finite double are not modelled (the schemas bound every
  quantity far below it). Integers of the code that stay below 2 to the 53 are exact and are
  modelled as \<open>int\<close> or \<open>nat\<close> where no fraction can reach them.
\<close>

section \<open>Rounding to a double\<close>

definition pow2 :: "int \<Rightarrow> rat" where
  "pow2 k = (if 0 \<le> k then 2 ^ nat k else 1 / 2 ^ nat (- k))"

fun nat_log2 :: "nat \<Rightarrow> nat" where
  "nat_log2 n = (if n < 2 then 0 else Suc (nat_log2 (n div 2)))"

declare nat_log2.simps [simp del]

definition rat_log2 :: "rat \<Rightarrow> int" where
  "rat_log2 x =
     (let (n, d) = quotient_of x;
          k = int (nat_log2 (nat n)) - int (nat_log2 (nat d))
      in if pow2 k \<le> x then k else k - 1)"

definition round_half_even :: "rat \<Rightarrow> int" where
  "round_half_even x =
     (let f = \<lfloor>x\<rfloor>; r = x - of_int f
      in if r < 1 / 2 then f else if 1 / 2 < r then f + 1 else if even f then f else f + 1)"

definition ulp_exponent :: "rat \<Rightarrow> int" where
  "ulp_exponent x = max (rat_log2 x - 52) (- 1074)"

definition round_double :: "rat \<Rightarrow> rat" where
  "round_double x =
     (if x = 0 then 0
      else let q = ulp_exponent \<bar>x\<bar>
           in of_int (round_half_even (x / pow2 q)) * pow2 q)"

definition js_div :: "rat \<Rightarrow> rat \<Rightarrow> rat" where
  "js_div x y = round_double (x / y)"

definition js_mult :: "rat \<Rightarrow> rat \<Rightarrow> rat" where
  "js_mult x y = round_double (x * y)"

definition js_plus :: "rat \<Rightarrow> rat \<Rightarrow> rat" where
  "js_plus x y = round_double (x + y)"

lemma pow2_pos [simp]: "0 < pow2 k"
  by (simp add: pow2_def)

lemma round_half_even_nonneg: "0 \<le> x \<Longrightarrow> 0 \<le> round_half_even x"
  by (auto simp: round_half_even_def Let_def)

lemma pow2_nonneg [simp]: "0 \<le> pow2 k"
  by (rule less_imp_le [OF pow2_pos])

lemma round_double_nonneg: "0 \<le> x \<Longrightarrow> 0 \<le> round_double x"
  by (auto simp: round_double_def Let_def intro!: mult_nonneg_nonneg round_half_even_nonneg
      divide_nonneg_nonneg)

section \<open>Rounding and printing helpers of the standard library\<close>

definition js_round :: "rat \<Rightarrow> int" where
  "js_round x = \<lfloor>x + 1 / 2\<rfloor>"

text \<open>\<open>Number(x.toFixed(2))\<close>: the nearest hundredth, ties away from zero, as a double again.\<close>

definition to_fixed2 :: "rat \<Rightarrow> rat" where
  "to_fixed2 x =
     (let a = \<bar>x\<bar>; v = round_double (of_int \<lfloor>a * 100 + 1 / 2\<rfloor> / 100)
      in if 10 ^ 21 \<le> a then x else if x < 0 then - v else v)"

section \<open>Reading a number from a string\<close>

definition hex_value :: "char \<Rightarrow> nat option" where
  "hex_value c =
     (let n = (of_char c :: nat)
      in if 48 \<le> n \<and> n \<le> 57 then Some (n - 48)
         else if 97 \<le> n \<and> n \<le> 102 then Some (n - 87)
         else if 65 \<le> n \<and> n \<le> 70 then Some (n - 55) else None)"

fun radix_digits :: "nat \<Rightarrow> nat \<Rightarrow> string \<Rightarrow> nat option" where
  "radix_digits b acc [] = Some acc"
| "radix_digits b acc (c # cs) =
     (case hex_value c of
        None \<Rightarrow> None
      | Some d \<Rightarrow> if d < b then radix_digits b (b * acc + d) cs else None)"

definition pow10 :: "int \<Rightarrow> rat" where
  "pow10 k = (if 0 \<le> k then 10 ^ nat k else 1 / 10 ^ nat (- k))"

definition exponent_part :: "string \<Rightarrow> int option" where
  "exponent_part s =
     (case s of
        [] \<Rightarrow> Some 0
      | c # cs \<Rightarrow>
          if c \<noteq> CHR ''e'' \<and> c \<noteq> CHR ''E'' then None
          else let neg = (cs \<noteq> [] \<and> hd cs = CHR ''-'');
                   ds = (if cs \<noteq> [] \<and> (hd cs = CHR ''-'' \<or> hd cs = CHR ''+'') then tl cs else cs)
               in if ds = [] \<or> \<not> list_all is_digit ds then None
                  else Some (if neg then - int (read_nat ds) else int (read_nat ds)))"

definition unsigned_decimal :: "string \<Rightarrow> rat option" where
  "unsigned_decimal s =
     (let ip = takeWhile is_digit s;
          rest = dropWhile is_digit s;
          dot = (rest \<noteq> [] \<and> hd rest = CHR ''.'');
          fp = (if dot then takeWhile is_digit (tl rest) else []);
          rest' = (if dot then dropWhile is_digit (tl rest) else rest)
      in if ip = [] \<and> fp = [] then None
         else case exponent_part rest' of
                None \<Rightarrow> None
              | Some e \<Rightarrow> Some (round_double
                            (of_nat (read_nat (ip @ fp)) * pow10 (e - int (length fp)))))"

text \<open>\<open>Number(s)\<close>; \<open>None\<close> stands for \<open>NaN\<close> and the infinities.\<close>

definition js_Number :: "string \<Rightarrow> rat option" where
  "js_Number str =
     (let s = js_trim str; p = map js_lower_char (take 2 s)
      in if s = [] then Some 0
         else if p = ''0x'' \<or> p = ''0b'' \<or> p = ''0o'' then
           (let b = (if p = ''0x'' then 16 else if p = ''0b'' then 2 else 8)
            in if drop 2 s = [] then None
               else map_option (\<lambda>n. round_double (of_nat n)) (radix_digits b 0 (drop 2 s)))
         else if hd s = CHR ''-'' then map_option uminus (unsigned_decimal (tl s))
         else if hd s = CHR ''+'' then unsigned_decimal (tl s)
         else unsigned_decimal s)"

definition is_integer :: "rat \<Rightarrow> bool" where
  "is_integer x = (of_int \<lfloor>x\<rfloor> = x)"

text \<open>What a closed call of the functions above is evaluated with.\<close>

lemmas js_trim_eval = js_trim_def js_trim_start_def js_trim_end_def js_space_def

lemmas round_double_eval =
  round_double_def ulp_exponent_def rat_log2_def nat_log2.simps pow2_def round_half_even_def

lemmas js_Number_eval =
  js_Number_def js_trim_eval js_lower_char_def unsigned_decimal_def exponent_part_def
  read_nat_def digit_value_def is_digit_def pow10_def round_double_eval

section \<open>Facts about rounding\<close>

lemma nat_log2_bounds: "0 < n \<Longrightarrow> 2 ^ nat_log2 n \<le> n \<and> n < 2 ^ Suc (nat_log2 n)"
proof (induction n rule: nat_log2.induct)
  case (1 n)
  show ?case
  proof (cases "n < 2")
    case True
    with 1 show ?thesis by (subst nat_log2.simps) (simp add: nat_log2.simps)
  next
    case False
    with 1 have "2 ^ nat_log2 (n div 2) \<le> n div 2 \<and> n div 2 < 2 ^ Suc (nat_log2 (n div 2))"
      by auto
    with False show ?thesis by (subst (1 2) nat_log2.simps) auto
  qed
qed

lemma pow2_diff: "pow2 (int a - int b) = 2 ^ a / 2 ^ b"
proof (cases "b \<le> a")
  case True
  then show ?thesis by (simp add: pow2_def power_diff nat_diff_distrib)
next
  case False
  then have "nat (- (int a - int b)) = b - a" by simp
  with False show ?thesis by (simp add: pow2_def power_diff)
qed

lemma pow2_split: "\<exists>a b. k = int a - int b"
  by (metis diff_0 diff_zero int_cases2 of_nat_0)

lemma pow2_add: "pow2 (j + k) = pow2 j * pow2 k"
proof -
  obtain a b c d where "j = int a - int b" "k = int c - int d"
    using pow2_split by metis
  moreover from this have "j + k = int (a + c) - int (b + d)" by simp
  ultimately show ?thesis by (simp only: pow2_diff power_add) simp
qed

lemma pow2_1 [simp]: "pow2 1 = 2" and pow2_0 [simp]: "pow2 0 = 1"
  by (simp_all add: pow2_def)

lemma pow2_ge_1: "0 \<le> k \<Longrightarrow> 1 \<le> pow2 k"
  by (simp add: pow2_def)

lemma pow2_mono: "j \<le> k \<Longrightarrow> pow2 j \<le> pow2 k"
  using pow2_add [of j "k - j"] pow2_ge_1 [of "k - j"] mult_left_mono [of 1 "pow2 (k - j)" "pow2 j"]
  by simp

lemma pow2_less_cancel: "pow2 j < pow2 k \<Longrightarrow> j < k"
  by (meson linorder_not_less pow2_mono)

lemma rat_log2_bounds:
  assumes "0 < x"
  shows "pow2 (rat_log2 x) \<le> x \<and> x < pow2 (rat_log2 x + 1)"
proof -
  obtain n d where q: "quotient_of x = (n, d)" by (cases "quotient_of x")
  have d: "0 < d" using q by (rule quotient_of_denom_pos)
  have x: "x = of_int n / of_int d" using q by (rule quotient_of_div)
  with assms d have n: "0 < n" by (simp add: zero_less_divide_iff)
  let ?a = "nat_log2 (nat n)" and ?b = "nat_log2 (nat d)"
  have a: "2 ^ ?a \<le> nat n" "nat n < 2 ^ Suc ?a" using nat_log2_bounds [of "nat n"] n by auto
  have b: "2 ^ ?b \<le> nat d" "nat d < 2 ^ Suc ?b" using nat_log2_bounds [of "nat d"] d by auto
  have cast: "(2::rat) ^ i \<le> of_int m \<and> of_int m < (2::rat) ^ Suc i"
    if "2 ^ i \<le> nat m" "nat m < 2 ^ Suc i" "0 < m" for i m
  proof -
    have "(2::int) ^ i \<le> m" "m < (2::int) ^ Suc i"
      using that by (simp_all add: le_nat_iff nat_less_iff)
    then show ?thesis
      by (metis of_int_le_iff of_int_less_iff of_int_numeral of_int_power)
  qed
  have a': "(2::rat) ^ ?a \<le> of_int n" "of_int n < (2::rat) ^ Suc ?a" using cast [OF a n] by auto
  have b': "(2::rat) ^ ?b \<le> of_int d" "of_int d < (2::rat) ^ Suc ?b" using cast [OF b d] by auto
  have "of_int n / of_int d < (2::rat) ^ Suc ?a / 2 ^ ?b"
    using a' b' n d by (intro frac_less) auto
  then have upper: "x < pow2 (int ?a - int ?b + 1)"
    using x pow2_diff [of "Suc ?a" ?b] by (simp add: algebra_simps)
  have "(2::rat) ^ ?a / 2 ^ Suc ?b \<le> of_int n / of_int d"
    using a' b' n d by (intro frac_le) auto
  then have lower: "pow2 (int ?a - int ?b - 1) \<le> x"
    using x pow2_diff [of ?a "Suc ?b"] by (simp add: algebra_simps)
  show ?thesis
    using upper lower q by (auto simp: rat_log2_def Let_def algebra_simps)
qed

lemma rat_log2_eqI:
  assumes "pow2 k \<le> x" and "x < pow2 (k + 1)"
  shows "rat_log2 x = k"
proof -
  have "0 < x" using assms(1) pow2_pos [of k] by linarith
  note b = rat_log2_bounds [OF this]
  have "pow2 k < pow2 (rat_log2 x + 1)" and "pow2 (rat_log2 x) < pow2 (k + 1)"
    using b assms by linarith+
  then show ?thesis by (auto dest!: pow2_less_cancel)
qed

lemma rat_log2_mono: "0 < x \<Longrightarrow> x \<le> y \<Longrightarrow> rat_log2 x \<le> rat_log2 y"
proof -
  assume "0 < x" "x \<le> y"
  then have "pow2 (rat_log2 x) < pow2 (rat_log2 y + 1)"
    using rat_log2_bounds [of x] rat_log2_bounds [of y] by linarith
  then show ?thesis by (auto dest: pow2_less_cancel)
qed

text \<open>Evaluation of a rounding whose binade is known.\<close>

lemma round_double_at:
  assumes "pow2 k \<le> x" and "x < pow2 (k + 1)" and "- 1022 \<le> k"
  shows "round_double x = of_int (round_half_even (x / pow2 (k - 52))) * pow2 (k - 52)"
proof -
  have "0 < x" using assms(1) pow2_pos [of k] by linarith
  moreover have "ulp_exponent x = k - 52"
    using rat_log2_eqI [OF assms(1,2)] assms(3) by (simp add: ulp_exponent_def)
  ultimately show ?thesis by (simp add: round_double_def Let_def)
qed

lemma round_half_even_int [simp]: "round_half_even (of_int n) = n"
  by (simp add: round_half_even_def)

lemma round_half_even_mono: "x \<le> y \<Longrightarrow> round_half_even x \<le> round_half_even y"
proof -
  assume le: "x \<le> y"
  then consider "\<lfloor>x\<rfloor> = \<lfloor>y\<rfloor>" | "\<lfloor>x\<rfloor> + 1 \<le> \<lfloor>y\<rfloor>" by (metis floor_mono zless_imp_add1_zle order_le_less)
  then show ?thesis
    using le by cases (auto simp: round_half_even_def Let_def)
qed

lemma round_double_le_pow2:
  assumes "0 < x" and "x \<le> pow2 k" and "- 1022 \<le> k"
  shows "round_double x \<le> pow2 k"
proof -
  let ?q = "ulp_exponent x"
  have "rat_log2 (pow2 k) = k"
    by (rule rat_log2_eqI) (simp_all add: pow2_add)
  then have "rat_log2 x \<le> k" using rat_log2_mono [OF assms(1,2)] by simp
  then have "?q \<le> k" using assms(3) by (simp add: ulp_exponent_def)
  then obtain m :: int where m: "pow2 (k - ?q) = of_int m"
    by (auto simp: pow2_def)
  have k: "pow2 k = pow2 (k - ?q) * pow2 ?q" by (simp flip: pow2_add)
  have "x / pow2 ?q \<le> of_int m"
    using assms(2) k m by (simp add: pos_divide_le_eq)
  then have "round_half_even (x / pow2 ?q) \<le> m"
    using round_half_even_mono by fastforce
  then show ?thesis
    using assms(1) k m by (simp add: round_double_def Let_def mult_right_mono)
qed

lemma round_double_int:
  assumes "\<bar>n\<bar> \<le> 2 ^ 53"
  shows "round_double (of_int n) = of_int n"
proof (cases "n = 0")
  case True
  then show ?thesis by (simp add: round_double_def)
next
  case False
  let ?x = "of_int \<bar>n\<bar> :: rat"
  have pos: "0 < ?x" using False by simp
  have "rat_log2 ?x \<le> rat_log2 (2 ^ 53)"
    using assms pos by (intro rat_log2_mono) (metis of_int_le_iff of_int_numeral of_int_power)+
  also have "rat_log2 (2 ^ 53) = 53"
    by (rule rat_log2_eqI) (simp_all add: pow2_def)
  finally have le: "rat_log2 ?x \<le> 53" .
  have ge: "0 \<le> rat_log2 ?x"
    using rat_log2_mono [of 1 ?x] False rat_log2_eqI [of 0 1] by simp
  show ?thesis
  proof (cases "rat_log2 ?x = 53")
    case True
    then have "2 ^ 53 \<le> ?x" using rat_log2_bounds [OF pos] by (simp add: pow2_def)
    then have "\<bar>n\<bar> = 2 ^ 53" using assms by (metis of_int_le_iff of_int_numeral of_int_power order_antisym)
    then have "n = 2 ^ 53 \<or> n = - (2 ^ 53)" by linarith
    with True show ?thesis
      by (elim disjE) (simp_all add: round_double_def ulp_exponent_def Let_def round_half_even_def pow2_def)
  next
    case False
    with le ge have q: "ulp_exponent ?x = rat_log2 ?x - 52" "0 \<le> 52 - rat_log2 ?x"
      by (simp_all add: ulp_exponent_def)
    have one: "pow2 (rat_log2 ?x - 52) * pow2 (52 - rat_log2 ?x) = 1"
      by (simp flip: pow2_add)
    then have inv: "y / pow2 (rat_log2 ?x - 52) = y * pow2 (52 - rat_log2 ?x)" for y
      using pow2_pos [of "rat_log2 ?x - 52"]
      by (metis divide_inverse inverse_unique)
    obtain m :: int where m: "pow2 (52 - rat_log2 ?x) = of_int m"
      using q(2) by (auto simp: pow2_def)
    have "round_half_even (of_int n / pow2 (rat_log2 ?x - 52)) = n * m"
      unfolding inv m by (metis of_int_mult round_half_even_int)
    moreover have "of_int (n * m) * pow2 (rat_log2 ?x - 52) = of_int n"
      using one m by (metis mult.assoc mult.commute mult_1_right of_int_mult)
    ultimately show ?thesis
      using q(1) \<open>n \<noteq> 0\<close> by (simp add: round_double_def Let_def)
  qed
qed

lemma round_double_ge_pow2:
  assumes "pow2 k \<le> x" and "rat_log2 x = k" and "- 1022 \<le> k"
  shows "pow2 k \<le> round_double x"
proof -
  have pos: "0 < x" using assms(1) pow2_pos [of k] by linarith
  have q: "ulp_exponent x = k - 52" using assms(2,3) by (simp add: ulp_exponent_def)
  have k: "pow2 k = of_int (2 ^ 52) * pow2 (k - 52)"
    using pow2_add [of 52 "k - 52"] by (simp add: pow2_def)
  have "of_int (2 ^ 52) \<le> x / pow2 (k - 52)"
    using assms(1) k by (simp add: pos_le_divide_eq)
  then have "2 ^ 52 \<le> round_half_even (x / pow2 (k - 52))"
    using round_half_even_mono [of "of_int (2 ^ 52)"] round_half_even_int [of "2 ^ 52"] by metis
  then have "(of_int (2 ^ 52) :: rat) \<le> of_int (round_half_even (x / pow2 (k - 52)))"
    by (rule of_int_le_iff [THEN iffD2])
  then show ?thesis
    unfolding k using pos q by (simp add: round_double_def Let_def mult_right_mono)
qed

lemma round_double_mono:
  assumes "0 \<le> x" and "x \<le> y"
  shows "round_double x \<le> round_double y"
proof (cases "x = 0")
  case True
  with assms show ?thesis using round_double_nonneg [of y] by (simp add: round_double_def)
next
  case False
  with assms have x: "0 < x" and y: "0 < y" by auto
  have le: "rat_log2 x \<le> rat_log2 y" using rat_log2_mono x assms(2) by simp
  show ?thesis
  proof (cases "ulp_exponent x = ulp_exponent y")
    case True
    have "round_half_even (x / pow2 (ulp_exponent x)) \<le> round_half_even (y / pow2 (ulp_exponent x))"
      using assms(2) by (intro round_half_even_mono divide_right_mono) auto
    then have "(of_int (round_half_even (x / pow2 (ulp_exponent x))) :: rat)
        \<le> of_int (round_half_even (y / pow2 (ulp_exponent x)))"
      by simp
    with True x y show ?thesis
      by (simp add: round_double_def Let_def mult_right_mono)
  next
    case False
    with le have lt: "rat_log2 x < rat_log2 y" and k: "- 1022 \<le> rat_log2 y"
      by (auto simp: ulp_exponent_def max_def split: if_splits)
    have "x \<le> pow2 (rat_log2 y)"
      using rat_log2_bounds [OF x] pow2_mono [of "rat_log2 x + 1" "rat_log2 y"] lt by simp
    then have "round_double x \<le> pow2 (rat_log2 y)"
      using x k by (intro round_double_le_pow2)
    also have "\<dots> \<le> round_double y"
      using rat_log2_bounds [OF y] k by (intro round_double_ge_pow2) auto
    finally show ?thesis .
  qed
qed

lemma floor_rat_numerals [simp]:
  "\<lfloor>numeral a / numeral b :: rat\<rfloor> = numeral a div numeral b"
  by (metis floor_divide_of_int_eq of_int_numeral)

section \<open>Doubles and the error of a rounding\<close>

definition is_double :: "rat \<Rightarrow> bool" where
  "is_double x = (round_double x = x)"

lemma round_half_even_error: "\<bar>of_int (round_half_even x) - x\<bar> \<le> 1 / 2"
proof -
  have "of_int \<lfloor>x\<rfloor> \<le> x" "x < of_int \<lfloor>x\<rfloor> + 1" by linarith+
  then show ?thesis
    unfolding round_half_even_def Let_def by (auto simp: abs_if; linarith)
qed

lemma round_half_even_less: "x < of_int n \<Longrightarrow> round_half_even x \<le> n"
  using round_half_even_mono [of x "of_int n"] by simp

lemma int_power_cast: "(of_int m :: rat) \<le> 2 ^ k \<longleftrightarrow> m \<le> 2 ^ k" "(2 ^ k :: rat) \<le> of_int m \<longleftrightarrow> 2 ^ k \<le> m"
  by (metis of_int_le_iff of_int_numeral of_int_power)+

lemma round_double_exact_pos:
  assumes "0 < m" and "m \<le> 2 ^ 53" and "- 1074 \<le> q"
  shows "round_double (of_int m * pow2 q) = of_int m * pow2 q"
proof -
  let ?x = "of_int m * pow2 q"
  have pos: "0 < ?x" using assms(1) by simp
  have pow: "of_int (2 ^ 53) * pow2 q = pow2 (q + 53)"
    using pow2_add [of q 53] by (simp add: pow2_def)
  have le: "?x \<le> pow2 (q + 53)"
    unfolding pow [symmetric] using assms(2) by (intro mult_right_mono) (simp_all only: of_int_le_iff pow2_nonneg)
  have int: "\<exists>n::int. ?x = of_int n * pow2 u" if "u \<le> q" for u
  proof -
    have "pow2 (q - u) = of_int (2 ^ nat (q - u))"
      using that by (simp add: pow2_def)
    then obtain k :: int where "pow2 (q - u) = of_int k" by metis
    moreover have "pow2 q = pow2 (q - u) * pow2 u" by (simp flip: pow2_add)
    ultimately have "?x = of_int (m * k) * pow2 u" by simp
    then show ?thesis by blast
  qed
  have "\<exists>n::int. ?x = of_int n * pow2 (ulp_exponent ?x)"
  proof (cases "?x = pow2 (q + 53)")
    case True
    have "rat_log2 (pow2 (q + 53)) = q + 53"
      using pow2_add [of "q + 53" 1] by (intro rat_log2_eqI) simp_all
    then have "rat_log2 ?x = q + 53" using True by simp
    then have "ulp_exponent ?x = q + 1" using assms(3) by (simp add: ulp_exponent_def)
    moreover have "?x = of_int (2 ^ 52) * pow2 (q + 1)"
      using True pow2_add [of 52 "q + 1"] by (simp add: pow2_def add.commute)
    ultimately show ?thesis by metis
  next
    case False
    with le have "?x < pow2 (q + 53)" by simp
    then have "rat_log2 ?x < q + 53"
      using rat_log2_bounds [OF pos] by (meson order_le_less_trans pow2_less_cancel)
    then have "ulp_exponent ?x \<le> q" using assms(3) by (simp add: ulp_exponent_def)
    then show ?thesis by (rule int)
  qed
  then obtain n :: int where n: "?x = of_int n * pow2 (ulp_exponent ?x)" by blast
  then have "?x / pow2 (ulp_exponent ?x) = of_int n"
    using pow2_pos [of "ulp_exponent ?x"] by (metis nonzero_mult_div_cancel_right less_irrefl)
  then have "round_half_even (?x / pow2 (ulp_exponent ?x)) = n" by (simp only: round_half_even_int)
  with n pos show ?thesis by (simp add: round_double_def Let_def)
qed

lemma round_double_pos_form:
  assumes "0 < x"
  shows "\<exists>m q. round_double x = of_int m * pow2 q \<and> 0 \<le> m \<and> m \<le> 2 ^ 53 \<and> - 1074 \<le> q"
proof -
  let ?q = "ulp_exponent x"
  have "x < pow2 (rat_log2 x + 1)" using rat_log2_bounds [OF assms] by simp
  also have "\<dots> \<le> pow2 (?q + 53)" by (intro pow2_mono) (simp add: ulp_exponent_def)
  also have "\<dots> = of_int (2 ^ 53) * pow2 ?q" using pow2_add [of ?q 53] by (simp add: pow2_def)
  finally have "x / pow2 ?q < of_int (2 ^ 53)" by (simp add: pos_divide_less_eq)
  then have "round_half_even (x / pow2 ?q) \<le> 2 ^ 53" by (rule round_half_even_less)
  moreover have "0 \<le> round_half_even (x / pow2 ?q)"
    using assms by (intro round_half_even_nonneg) simp
  moreover have "- 1074 \<le> ?q" by (simp add: ulp_exponent_def)
  moreover have "round_double x = of_int (round_half_even (x / pow2 ?q)) * pow2 ?q"
    using assms by (simp add: round_double_def Let_def)
  ultimately show ?thesis by blast
qed

lemma round_double_idem: "0 \<le> x \<Longrightarrow> round_double (round_double x) = round_double x"
proof (cases "x = 0")
  case False
  moreover assume "0 \<le> x"
  ultimately obtain m q where m: "round_double x = of_int m * pow2 q" "0 \<le> m" "m \<le> 2 ^ 53" "- 1074 \<le> q"
    using round_double_pos_form [of x] by auto
  show ?thesis
  proof (cases "m = 0")
    case True
    then show ?thesis using m by (simp add: round_double_def)
  next
    case False
    with m show ?thesis using round_double_exact_pos [of m q] by simp
  qed
qed (simp add: round_double_def)

lemma is_double_round [simp]: "0 \<le> x \<Longrightarrow> is_double (round_double x)"
  by (simp add: is_double_def round_double_idem)

lemma is_double_0 [simp]: "is_double 0" and is_double_1 [simp]: "is_double 1"
  using round_double_int [of 0] round_double_int [of 1] by (simp_all add: is_double_def)

lemma is_double_int: "\<bar>n\<bar> \<le> 2 ^ 53 \<Longrightarrow> is_double (of_int n)"
  by (simp add: is_double_def round_double_int)

text \<open>Relative error, for numbers in the normal range.\<close>

lemma round_double_error:
  assumes "pow2 (- 1022) \<le> x"
  shows "\<bar>round_double x - x\<bar> \<le> x / 2 ^ 53"
proof -
  let ?k = "rat_log2 x"
  have pos: "0 < x" using assms pow2_pos [of "- 1022"] by linarith
  have "pow2 (- 1022) < pow2 (?k + 1)" using assms rat_log2_bounds [OF pos] by linarith
  then have "- 1022 \<le> ?k" using pow2_less_cancel by fastforce
  then have r: "round_double x = of_int (round_half_even (x / pow2 (?k - 52))) * pow2 (?k - 52)"
    using rat_log2_bounds [OF pos] by (intro round_double_at) auto
  let ?u = "pow2 (?k - 52)"
  have u: "0 < ?u" by simp
  have "round_double x - x = (of_int (round_half_even (x / ?u)) - x / ?u) * ?u"
    using r less_imp_neq [OF u] by (simp add: left_diff_distrib)
  then have "\<bar>round_double x - x\<bar> = \<bar>of_int (round_half_even (x / ?u)) - x / ?u\<bar> * ?u"
    using u by (simp add: abs_mult)
  also have "\<dots> \<le> 1 / 2 * ?u"
    using round_half_even_error u by (intro mult_right_mono) auto
  also have "\<dots> = pow2 ?k / 2 ^ 53"
    using pow2_add [of ?k "- 52"] by (simp add: pow2_def)
  also have "\<dots> \<le> x / 2 ^ 53"
    using rat_log2_bounds [OF pos] by (intro divide_right_mono) auto
  finally show ?thesis .
qed

text \<open>In the range the application works in the error is far below a hundredth.\<close>

lemma round_double_near:
  assumes "0 \<le> x" and "x \<le> 2 ^ 40"
  shows "\<bar>round_double x - x\<bar> \<le> 1 / 2 ^ 13"
proof (cases "pow2 (- 1022) \<le> x")
  case True
  have "x / 2 ^ 53 \<le> 1 / 2 ^ 13" using assms(2) by simp
  with round_double_error [OF True] show ?thesis by linarith
next
  case False
  then have "x \<le> pow2 (- 13)" using pow2_mono [of "- 1022" "- 13"] by linarith
  then have "x \<le> 1 / 2 ^ 13" by (simp add: pow2_def)
  moreover have "round_double x \<le> pow2 (- 13)"
    using \<open>x \<le> pow2 (- 13)\<close> assms(1)
    by (cases "x = 0") (auto simp: round_double_def [of 0] intro: round_double_le_pow2)
  then have "round_double x \<le> 1 / 2 ^ 13" by (simp add: pow2_def)
  ultimately show ?thesis using assms(1) round_double_nonneg [OF assms(1)] by linarith
qed

section \<open>Fixed decimals\<close>

text \<open>\<open>Number(x.toFixed(d))\<close>.\<close>

definition to_fixed :: "nat \<Rightarrow> rat \<Rightarrow> rat" where
  "to_fixed d x =
     (let a = \<bar>x\<bar>; v = round_double (of_int \<lfloor>a * 10 ^ d + 1 / 2\<rfloor> / 10 ^ d)
      in if 10 ^ 21 \<le> a then x else if x < 0 then - v else v)"

definition js_minus :: "rat \<Rightarrow> rat \<Rightarrow> rat" where
  "js_minus x y = (if x < y then - round_double (y - x) else round_double (x - y))"

lemma to_fixed2_eq: "to_fixed2 = to_fixed 2"
  by (simp add: fun_eq_iff to_fixed2_def to_fixed_def)

lemma to_fixed_small:
  "0 \<le> x \<Longrightarrow> x < 10 ^ 21 \<Longrightarrow> to_fixed d x = round_double (of_int \<lfloor>x * 10 ^ d + 1 / 2\<rfloor> / 10 ^ d)"
  by (simp add: to_fixed_def Let_def)

lemma to_fixed_floor_nonneg: "0 \<le> x \<Longrightarrow> 0 \<le> (of_int \<lfloor>x * 10 ^ d + 1 / 2\<rfloor> / 10 ^ d :: rat)"
  by (intro divide_nonneg_nonneg) (auto simp: le_floor_iff intro: add_nonneg_nonneg mult_nonneg_nonneg)

lemma to_fixed_nonneg: "0 \<le> x \<Longrightarrow> 0 \<le> to_fixed d x"
  by (auto simp: to_fixed_def Let_def intro!: round_double_nonneg to_fixed_floor_nonneg)

lemma to_fixed_mono:
  assumes "0 \<le> x" and "x \<le> y" and "y < 10 ^ 21"
  shows "to_fixed d x \<le> to_fixed d y"
proof -
  have "(of_int \<lfloor>x * 10 ^ d + 1 / 2\<rfloor> :: rat) \<le> of_int \<lfloor>y * 10 ^ d + 1 / 2\<rfloor>"
    using assms(2) by (intro of_int_le_iff [THEN iffD2] floor_mono add_mono mult_right_mono) auto
  then have "(of_int \<lfloor>x * 10 ^ d + 1 / 2\<rfloor> / 10 ^ d :: rat) \<le> of_int \<lfloor>y * 10 ^ d + 1 / 2\<rfloor> / 10 ^ d"
    by (intro divide_right_mono) auto
  with assms show ?thesis
    by (simp add: to_fixed_small round_double_mono to_fixed_floor_nonneg)
qed

lemma to_fixed_int: "0 \<le> n \<Longrightarrow> n \<le> 2 ^ 53 \<Longrightarrow> to_fixed d (of_int n) = of_int n"
proof -
  assume n: "0 \<le> n" "n \<le> 2 ^ 53"
  then have "of_int n \<le> (2 ^ 53 :: rat)" by (simp only: int_power_cast)
  then have "(of_int n :: rat) < 10 ^ 21" by simp
  moreover have "\<lfloor>of_int n * 10 ^ d + 1 / 2 :: rat\<rfloor> = n * 10 ^ d"
  proof -
    have "(of_int n * 10 ^ d + 1 / 2 :: rat) = of_int (n * 10 ^ d) + 1 / 2" by simp
    then show ?thesis by (simp only: floor_eq_iff) simp
  qed
  ultimately show ?thesis
    using n by (simp add: to_fixed_small round_double_int)
qed

lemma to_fixed_is_double: "0 \<le> x \<Longrightarrow> x < 10 ^ 21 \<Longrightarrow> is_double (to_fixed d x)"
  by (simp add: to_fixed_small to_fixed_floor_nonneg)

text \<open>A hundredth is within half a hundredth of what it rounds, up to the rounding of its double.\<close>

lemma to_fixed2_near:
  assumes "0 \<le> x" and "x \<le> 2 ^ 39"
  shows "\<bar>to_fixed 2 x - x\<bar> \<le> 1 / 200 + 1 / 2 ^ 13"
proof -
  let ?c = "of_int \<lfloor>x * 10 ^ 2 + 1 / 2\<rfloor> / 10 ^ 2 :: rat"
  have fl: "of_int \<lfloor>x * 10 ^ 2 + 1 / 2\<rfloor> \<le> x * 10 ^ 2 + 1 / 2"
    "x * 10 ^ 2 + 1 / 2 < of_int \<lfloor>x * 10 ^ 2 + 1 / 2\<rfloor> + 1"
    by linarith+
  have "\<bar>of_int k / 10 ^ 2 - x\<bar> \<le> 1 / 200"
    if "of_int k \<le> x * 10 ^ 2 + 1 / 2" "x * 10 ^ 2 + 1 / 2 < of_int k + 1" for k :: int
    using that by (auto simp: abs_if field_simps)
  from this [OF fl] have near: "\<bar>?c - x\<bar> \<le> 1 / 200" .
  then have "?c \<le> 2 ^ 40" using assms(2) by (simp add: abs_le_iff)
  then have "\<bar>round_double ?c - ?c\<bar> \<le> 1 / 2 ^ 13"
    using to_fixed_floor_nonneg [OF assms(1), of 2] by (intro round_double_near) auto
  then have "\<bar>round_double ?c - x\<bar> \<le> 1 / 200 + 1 / 2 ^ 13" using near by linarith
  moreover have "x < 10 ^ 21" using assms(2) by simp
  ultimately show ?thesis using assms(1) by (simp only: to_fixed_small)
qed

text \<open>Operations on non-negative numbers.\<close>

lemma js_mult_mono: "0 \<le> x \<Longrightarrow> x \<le> x' \<Longrightarrow> 0 \<le> y \<Longrightarrow> y \<le> y' \<Longrightarrow> js_mult x y \<le> js_mult x' y'"
  unfolding js_mult_def by (intro round_double_mono mult_mono mult_nonneg_nonneg) auto

lemma js_plus_mono: "0 \<le> x \<Longrightarrow> x \<le> x' \<Longrightarrow> 0 \<le> y \<Longrightarrow> y \<le> y' \<Longrightarrow> js_plus x y \<le> js_plus x' y'"
  unfolding js_plus_def by (intro round_double_mono) auto

lemma js_nonneg [simp]:
  "0 \<le> x \<Longrightarrow> 0 \<le> y \<Longrightarrow> 0 \<le> js_mult x y" "0 \<le> x \<Longrightarrow> 0 \<le> y \<Longrightarrow> 0 \<le> js_plus x y"
  "0 \<le> x \<Longrightarrow> 0 \<le> y \<Longrightarrow> 0 \<le> js_div x y"
  by (simp_all add: js_mult_def js_plus_def js_div_def round_double_nonneg)

lemma js_mult_le_double: "0 \<le> x \<Longrightarrow> is_double x \<Longrightarrow> 0 \<le> y \<Longrightarrow> y \<le> 1 \<Longrightarrow> js_mult x y \<le> x"
  using js_mult_mono [of x x y 1] by (simp add: js_mult_def is_double_def)

lemma js_mult_ge_double: "0 \<le> x \<Longrightarrow> is_double x \<Longrightarrow> 1 \<le> y \<Longrightarrow> x \<le> js_mult x y"
  using js_mult_mono [of x x 1 y] by (simp add: js_mult_def is_double_def)

text \<open>A decimal literal of the source denotes the double nearest to it.\<close>

definition lit :: "rat \<Rightarrow> rat" where
  "lit x = round_double x"

lemma lit_mono: "0 \<le> x \<Longrightarrow> x \<le> y \<Longrightarrow> lit x \<le> lit y"
  by (simp add: lit_def round_double_mono)

lemma lit_nonneg [simp]: "0 \<le> x \<Longrightarrow> 0 \<le> lit x"
  by (simp add: lit_def round_double_nonneg)

lemma lit_le_1: "0 \<le> x \<Longrightarrow> x \<le> 1 \<Longrightarrow> lit x \<le> 1" and lit_ge_1: "1 \<le> x \<Longrightarrow> 1 \<le> lit x"
  using lit_mono [of x 1] lit_mono [of 1 x] round_double_int [of 1] by (auto simp: lit_def)

section \<open>Sums and shares of doubles\<close>

lemma rel_error:
  assumes "x = 0 \<or> 1 / 2 ^ 100 \<le> x"
  shows "\<bar>round_double x - x\<bar> \<le> x / 2 ^ 53"
proof (cases "x = 0")
  case False
  have "pow2 (- 1022) \<le> pow2 (- 100)" by (intro pow2_mono) simp
  moreover have "pow2 (- 100) = 1 / 2 ^ 100" by (simp add: pow2_def)
  ultimately show ?thesis using assms False by (intro round_double_error) auto
qed (simp add: round_double_def)

lemma foldl_js_plus_nonneg: "0 \<le> a \<Longrightarrow> \<forall>x \<in> set xs. 0 \<le> x \<Longrightarrow> 0 \<le> foldl js_plus a xs"
  by (induction xs arbitrary: a) auto

lemma js_sum_error:
  assumes "\<forall>x \<in> set xs. 1 / 2 ^ 90 \<le> x" and "length xs \<le> 2 ^ 20"
  shows "\<bar>foldl js_plus 0 xs - sum_list xs\<bar> \<le> of_nat (2 * length xs) / 2 ^ 53 * sum_list xs"
  using assms
proof (induction xs rule: rev_induct)
  case (snoc x xs)
  let ?W = "foldl js_plus 0 xs" and ?S = "sum_list xs" and ?n = "of_nat (length xs) :: rat"
  have IH: "\<bar>?W - ?S\<bar> \<le> 2 * ?n / 2 ^ 53 * ?S" using snoc by simp
  have pos: "(0 :: rat) < 1 / 2 ^ 90" by simp
  have x: "1 / 2 ^ 90 \<le> x" using snoc.prems by simp
  have nn: "\<forall>x \<in> set xs. 0 \<le> x" using snoc.prems pos by (auto intro: order_trans [OF less_imp_le])
  then have S: "0 \<le> ?S" by (intro sum_list_nonneg) auto
  have W: "0 \<le> ?W" by (rule foldl_js_plus_nonneg) (use nn in auto)
  have "of_nat (length xs) \<le> (of_nat (2 ^ 20) :: rat)" using snoc.prems by (simp only: of_nat_le_iff) simp
  then have n: "2 * ?n / 2 ^ 53 \<le> 1" by simp
  have "2 * ?n / 2 ^ 53 * ?S \<le> 1 * ?S" by (rule mult_right_mono [OF n S])
  then have W2: "?W \<le> 2 * ?S" using IH by linarith
  have "x \<le> ?W + x" using W by simp
  moreover have "1 / 2 ^ 100 \<le> (1 / 2 ^ 90 :: rat)" by simp
  ultimately have "1 / 2 ^ 100 \<le> ?W + x" using x by linarith
  then have "\<bar>round_double (?W + x) - (?W + x)\<bar> \<le> (?W + x) / 2 ^ 53" by (intro rel_error) auto
  then have e: "\<bar>foldl js_plus 0 (xs @ [x]) - (?W + x)\<bar> \<le> (?W + x) / 2 ^ 53" by (simp add: js_plus_def)
  have "(?W + x) / 2 ^ 53 \<le> 2 / 2 ^ 53 * (?S + x)" using W2 x pos by (simp add: field_simps)
  moreover have "2 * ?n / 2 ^ 53 * ?S \<le> 2 * ?n / 2 ^ 53 * (?S + x)"
    using x pos by (intro mult_left_mono) auto
  ultimately have "\<bar>foldl js_plus 0 (xs @ [x]) - (?S + x)\<bar> \<le> 2 / 2 ^ 53 * (?S + x) + 2 * ?n / 2 ^ 53 * (?S + x)"
    using e IH by linarith
  also have "\<dots> = of_nat (2 * length (xs @ [x])) / 2 ^ 53 * sum_list (xs @ [x])"
    by (simp add: algebra_simps add_divide_distrib)
  finally show ?case by simp
qed simp

lemma to_fixed2_idem:
  assumes "0 \<le> x" and "x \<le> 2 ^ 38"
  shows "to_fixed 2 (to_fixed 2 x) = to_fixed 2 x"
proof -
  define k where "k = \<lfloor>x * 10 ^ 2 + 1 / 2\<rfloor>"
  have x21: "x < 10 ^ 21" using assms(2) by (rule le_less_trans) simp
  have t: "to_fixed 2 x = round_double (of_int k / 10 ^ 2)" using assms x21 by (simp add: to_fixed_small k_def)
  have k0: "0 \<le> (of_int k / 10 ^ 2 :: rat)" unfolding k_def by (rule to_fixed_floor_nonneg [OF assms(1)])
  have "of_int k \<le> x * 10 ^ 2 + 1 / 2" unfolding k_def by linarith
  then have "of_int k / 10 ^ 2 \<le> (2 :: rat) ^ 40" using assms(2) by simp
  then have near: "\<bar>to_fixed 2 x - of_int k / 10 ^ 2\<bar> \<le> 1 / 2 ^ 13" unfolding t using k0 by (intro round_double_near)
  then have d: "to_fixed 2 x - of_int k / 100 \<le> 1 / 8192" "of_int k / 100 - to_fixed 2 x \<le> 1 / 8192"
    unfolding abs_le_iff by simp_all
  then have "\<bar>to_fixed 2 x * 10 ^ 2 - of_int k\<bar> < 1 / 2" unfolding abs_less_iff by simp
  then have "\<lfloor>to_fixed 2 x * 10 ^ 2 + 1 / 2\<rfloor> = k" by (simp only: floor_eq_iff abs_less_iff) auto
  moreover have "0 \<le> to_fixed 2 x" by (rule to_fixed_nonneg [OF assms(1)])
  moreover have "to_fixed 2 x < 10 ^ 21"
  proof -
    have "of_int k / 100 \<le> (1099511627776 :: rat)" using \<open>of_int k / 10 ^ 2 \<le> (2 :: rat) ^ 40\<close> by simp
    then have "to_fixed 2 x \<le> 1099511627777" using d(1) by linarith
    then show ?thesis by (rule le_less_trans) simp
  qed
  ultimately show ?thesis by (simp add: to_fixed_small t)
qed

end
