(* ===== verification/InferenceEndpoint.thy ===== *)
theory InferenceEndpoint
  imports JsNumber
begin

text \<open>
  packages/contracts/src/analysis/inference-endpoint.contract.ts: which inference endpoints
  the application will talk to. The URL is split by hand, a literal address is classified
  from its text, and the policy decides by class. A verdict keeps its rejection code and
  leaves out the operator's sentence. A regular expression of the code is the function that
  accepts the same strings.
\<close>

unbundle bit_operations_syntax

section \<open>Lists of hosts\<close>

definition HOSTED_INFERENCE_DOMAINS :: "string list" where
  "HOSTED_INFERENCE_DOMAINS =
     [''openai.com'', ''anthropic.com'', ''claude.ai'', ''googleapis.com'',
      ''generativelanguage.googleapis.com'', ''azure.com'', ''azure-api.net'',
      ''openai.azure.com'', ''cognitiveservices.azure.com'', ''amazonaws.com'',
      ''bedrock.amazonaws.com'', ''mistral.ai'', ''cohere.ai'', ''cohere.com'', ''together.ai'',
      ''together.xyz'', ''groq.com'', ''fireworks.ai'', ''replicate.com'', ''huggingface.co'',
      ''hf.co'', ''perplexity.ai'', ''deepseek.com'', ''x.ai'', ''openrouter.ai'',
      ''anyscale.com'', ''deepinfra.com'', ''lepton.ai'', ''baseten.co'', ''modal.com'',
      ''runpod.io'', ''vercel.ai'', ''cloudflare.com'']"

definition LOOP_THROUGH_DOMAINS :: "string list" where
  "LOOP_THROUGH_DOMAINS =
     [''nip.io'', ''sslip.io'', ''xip.io'', ''ip6.name'', ''traefik.me'', ''localtest.me'',
      ''lvh.me'', ''vcap.me'', ''1u.ms'', ''ngrok.io'', ''ngrok.app'', ''ngrok.dev'',
      ''ngrok-free.app'', ''localhost.run'', ''serveo.net'', ''trycloudflare.com'', ''loca.lt'',
      ''pagekite.me'', ''tunnelto.dev'', ''bore.pub'']"

definition METADATA_HOSTNAMES :: "string list" where
  "METADATA_HOSTNAMES =
     [''metadata.google.internal'', ''metadata.goog'', ''metadata'', ''instance-data'',
      ''instance-data.ec2.internal'', ''metadata.packet.net'', ''metadata.platformequinix.com'']"

definition METADATA_ADDRESSES :: "string list" where
  "METADATA_ADDRESSES =
     [''169.254.169.254'', ''169.254.170.2'', ''169.254.169.253'', ''100.100.100.200'',
      ''192.0.0.192'', ''fd00:ec2::254'']"

section \<open>Classes, verdicts, options\<close>

datatype address_class =
    Loopback | Private | Link_local | Metadata | Multicast | Unspecified | Broadcast
  | Shared | Reserved | Public | Malformed

datatype endpoint_rejection =
    not_configured | malformed | unsupported_scheme | hosted_provider | loop_through_service
  | metadata_endpoint | public_address | link_local_address | multicast_address
  | unspecified_address | reserved_address | malformed_address | credentials_in_url
  | no_addresses | mixed_addresses | redirect_refused

record endpoint_verdict =
  allowed :: bool
  rejection :: "endpoint_rejection option"

record endpoint_policy =
  requirePrivateAddress :: bool
  rejectLoopback :: "bool option"

definition accept :: endpoint_verdict where
  "accept = \<lparr>allowed = True, rejection = None\<rparr>"

definition refuse :: "endpoint_rejection \<Rightarrow> endpoint_verdict" where
  "refuse r = \<lparr>allowed = False, rejection = Some r\<rparr>"

lemma allowed_simps [simp]: "allowed accept" "\<not> allowed (refuse r)"
  by (simp_all add: accept_def refuse_def)

section \<open>Pieces of text\<close>

definition strip_brackets :: "string \<Rightarrow> string" where
  "strip_brackets s =
     (let a = (if s \<noteq> [] \<and> hd s = CHR ''['' then tl s else s)
      in if a \<noteq> [] \<and> last a = CHR '']'' then butlast a else a)"

definition strip_dot :: "string \<Rightarrow> string" where
  "strip_dot s = (if s \<noteq> [] \<and> last s = CHR ''.'' then butlast s else s)"

definition is_hex_lower :: "char \<Rightarrow> bool" where
  "is_hex_lower c =
     (is_digit c \<or> (97 \<le> (of_char c :: nat) \<and> (of_char c :: nat) \<le> 102))"

fun split_colons :: "string \<Rightarrow> string list" where
  "split_colons [] = [[]]"
| "split_colons [x] = [[x]]"
| "split_colons (x # y # xs) =
     (if x = CHR '':'' \<and> y = CHR '':'' then [] # split_colons xs
      else (case split_colons (y # xs) of [] \<Rightarrow> [[x]] | p # ps \<Rightarrow> (x # p) # ps))"

fun show_hex :: "nat \<Rightarrow> string" where
  "show_hex n =
     (let d = (\<lambda>k. if k < 10 then char_of (48 + k) else char_of (87 + k))
      in if n < 16 then [d n] else show_hex (n div 16) @ [d (n mod 16)])"

declare show_hex.simps [simp del]

text \<open>\<open>Number.parseInt(s, 16)\<close> as the bit operators read it: the longest prefix of hexadecimal
  digits, and 0 where there is none.\<close>

definition parse_hex :: "string \<Rightarrow> nat" where
  "parse_hex s =
     foldl (\<lambda>n c. 16 * n + (case hex_value c of Some d \<Rightarrow> d | None \<Rightarrow> 0)) 0
       (takeWhile (\<lambda>c. hex_value c \<noteq> None) s)"

section \<open>Classifying a literal address\<close>

definition dotted_quad :: "string \<Rightarrow> string list option" where
  "dotted_quad host =
     (let parts = js_split CHR ''.'' host
      in if length parts = 4 \<and>
            list_all (\<lambda>p. 1 \<le> length p \<and> length p \<le> 3 \<and> list_all is_digit p) parts
         then Some parts else None)"

definition classify_octets :: "nat \<Rightarrow> nat \<Rightarrow> nat \<Rightarrow> nat \<Rightarrow> address_class" where
  "classify_octets a b c d =
     (if a = 0 then Unspecified
      else if a = 127 then Loopback
      else if a = 10 then Private
      else if a = 172 \<and> b \<ge> 16 \<and> b \<le> 31 then Private
      else if a = 192 \<and> b = 168 then Private
      else if a = 169 \<and> b = 254 then Link_local
      else if a = 100 \<and> b \<ge> 64 \<and> b \<le> 127 then Shared
      else if a = 255 \<and> b = 255 \<and> c = 255 \<and> d = 255 then Broadcast
      else if a \<ge> 224 \<and> a \<le> 239 then Multicast
      else if a \<ge> 240 then Reserved
      else if a = 192 \<and> b = 0 \<and> c = 0 then Reserved
      else if a = 192 \<and> b = 0 \<and> c = 2 then Reserved
      else if a = 198 \<and> (b = 18 \<or> b = 19) then Reserved
      else if a = 198 \<and> b = 51 \<and> c = 100 then Reserved
      else if a = 203 \<and> b = 0 \<and> c = 113 then Reserved
      else if a = 192 \<and> b = 88 \<and> c = 99 then Reserved
      else Public)"

definition classifyIpv4 :: "string \<Rightarrow> address_class" where
  "classifyIpv4 host =
     (case dotted_quad host of
        None \<Rightarrow> Malformed
      | Some parts \<Rightarrow>
          let octets = map read_nat parts
          in if list_ex (\<lambda>octet. octet > 255) octets then Malformed
             else if list_ex (\<lambda>p. length p > 1 \<and> hd p = CHR ''0'') parts then Malformed
             else classify_octets (octets ! 0) (octets ! 1) (octets ! 2) (octets ! 3))"

definition isIpv6Syntax :: "string \<Rightarrow> bool" where
  "isIpv6Syntax address =
     (address \<noteq> [] \<and>
      list_all (\<lambda>c. is_hex_lower c \<or> c = CHR '':'' \<or> c = CHR ''.'') address \<and>
      length (split_colons address) - 1 \<le> 1 \<and> \<not> js_includes address '':::'')"

definition pad :: "string \<Rightarrow> string" where
  "pad g = pad_start 4 CHR ''0'' g"

text \<open>The two groups of a trailing dotted quad; \<open>None\<close> when it is not one.\<close>

definition embedded_groups :: "string \<Rightarrow> string list option" where
  "embedded_groups s =
     (case dotted_quad s of
        None \<Rightarrow> None
      | Some parts \<Rightarrow>
          let octets = map read_nat parts
          in if list_ex (\<lambda>octet. octet > 255) octets then None
             else Some [pad (show_hex (octets ! 0 * 256 + octets ! 1)),
                        pad (show_hex (octets ! 2 * 256 + octets ! 3))])"

definition groups_of :: "string \<Rightarrow> string list" where
  "groups_of s = (if length s > 0 then js_split CHR '':'' s else [])"

definition expand_groups ::
  "bool \<Rightarrow> string list \<Rightarrow> string list \<Rightarrow> string list \<Rightarrow> string option" where
  "expand_groups compressed headGroups tailGroups embedded =
     (let explicit = headGroups @ tailGroups @ embedded
      in if list_ex (\<lambda>g. length g = 0 \<or> length g > 4) explicit then None
         else if compressed \<and> length explicit > 8 then None
         else if \<not> compressed \<and> length explicit \<noteq> 8 then None
         else let filler = replicate (8 - length explicit) ''0000'';
                  groups = map pad headGroups @ filler @ map pad tailGroups @ map pad embedded
              in if length groups = 8 then Some (js_join '':'' groups) else None)"

definition expandIpv6 :: "string \<Rightarrow> string option" where
  "expandIpv6 address =
     (let compressed = js_includes address ''::'';
          parts = split_colons address;
          head = (if compressed then parts ! 0 else address);
          tail = (if compressed then parts ! 1 else []);
          headGroups = groups_of head;
          tailGroups = groups_of tail;
          last_group =
            (if tailGroups \<noteq> [] then last tailGroups
             else if headGroups \<noteq> [] then last headGroups else [])
      in if CHR ''.'' \<in> set last_group then
           (case embedded_groups last_group of
              None \<Rightarrow> None
            | Some embedded \<Rightarrow>
                if tailGroups \<noteq> []
                then expand_groups compressed headGroups (butlast tailGroups) embedded
                else expand_groups compressed (butlast headGroups) tailGroups embedded)
         else expand_groups compressed headGroups tailGroups [])"

definition hex_pair_after :: "string \<Rightarrow> string \<Rightarrow> (string \<times> string) option" where
  "hex_pair_after prefix expanded =
     (let r = drop (length prefix) expanded
      in if starts_with expanded prefix \<and> length r = 9 \<and> r ! 4 = CHR '':'' \<and>
            list_all is_hex_lower (take 4 r) \<and> list_all is_hex_lower (drop 5 r)
         then Some (take 4 r, drop 5 r) else None)"

definition embeddedIpv4 :: "string \<Rightarrow> string option" where
  "embeddedIpv4 expanded =
     (let mapped = hex_pair_after ''0000:0000:0000:0000:0000:ffff:'' expanded;
          compatible = hex_pair_after ''0000:0000:0000:0000:0000:0000:'' expanded
      in case (if mapped \<noteq> None then mapped else compatible) of
           None \<Rightarrow> None
         | Some (hi, lo) \<Rightarrow>
             let high = parse_hex hi; low = parse_hex lo
             in if compatible \<noteq> None \<and> high = 0 \<and> low \<le> 1 then None
                else Some (js_join ''.''
                       (map show_nat [high div 256, high mod 256, low div 256, low mod 256])))"

definition classify_expanded :: "string \<Rightarrow> address_class" where
  "classify_expanded expanded =
     (let leading = int (parse_hex (take 4 expanded))
      in if expanded = ''0000:0000:0000:0000:0000:0000:0000:0001'' then Loopback
         else if expanded = ''0000:0000:0000:0000:0000:0000:0000:0000'' then Unspecified
         else if leading AND 0xff00 = 0xff00 then Multicast
         else if leading AND 0xffc0 = 0xfe80 then Link_local
         else if leading AND 0xffc0 = 0xfec0 then Reserved
         else if leading AND 0xfe00 = 0xfc00 then Private
         else if leading AND 0xffff = 0x2002 then Reserved
         else if starts_with expanded ''0064:ff9b'' then Reserved
         else if starts_with expanded ''0100:0000:0000:0000'' then Reserved
         else if starts_with expanded ''2001:0db8'' then Reserved
         else if starts_with expanded ''2001:0000'' then Reserved
         else Public)"

definition classifyIpv6 :: "string \<Rightarrow> address_class" where
  "classifyIpv6 host =
     (let address = hd (js_split CHR ''%'' host)
      in if \<not> isIpv6Syntax address then Malformed
         else case expandIpv6 address of
                None \<Rightarrow> Malformed
              | Some expanded \<Rightarrow>
                  (case embeddedIpv4 expanded of
                     Some embedded \<Rightarrow>
                       if embedded \<in> set METADATA_ADDRESSES then Metadata
                       else classifyIpv4 embedded
                   | None \<Rightarrow> classify_expanded expanded))"

definition looks_numeric :: "string \<Rightarrow> bool" where
  "looks_numeric host =
     (let in_class = (\<lambda>s. s \<noteq> [] \<and> list_all (\<lambda>c. is_hex_lower c \<or> c = CHR ''.'') s)
      in (in_class host \<or> (starts_with host ''0x'' \<and> in_class (drop 2 host))) \<and>
         list_ex is_digit host)"

definition classifyAddress :: "string \<Rightarrow> address_class option" where
  "classifyAddress raw =
     (let host = strip_brackets (js_lower (js_trim raw))
      in if length host = 0 then None
         else if host \<in> set METADATA_ADDRESSES then Some Metadata
         else if CHR '':'' \<in> set host then Some (classifyIpv6 host)
         else if looks_numeric host then Some (classifyIpv4 host)
         else None)"

section \<open>The policy\<close>

fun verdictForClass :: "address_class \<Rightarrow> endpoint_policy \<Rightarrow> endpoint_verdict" where
  "verdictForClass Metadata opts = refuse metadata_endpoint"
| "verdictForClass Link_local opts = refuse link_local_address"
| "verdictForClass Multicast opts = refuse multicast_address"
| "verdictForClass Unspecified opts = refuse unspecified_address"
| "verdictForClass Broadcast opts = refuse unspecified_address"
| "verdictForClass Shared opts = refuse reserved_address"
| "verdictForClass Reserved opts = refuse reserved_address"
| "verdictForClass Malformed opts = refuse malformed_address"
| "verdictForClass Loopback opts =
     (if requirePrivateAddress opts \<and> rejectLoopback opts = Some True
      then refuse public_address else accept)"
| "verdictForClass Private opts = accept"
| "verdictForClass Public opts =
     (if requirePrivateAddress opts then refuse public_address else accept)"

definition matchesSuffix :: "string \<Rightarrow> string list \<Rightarrow> bool" where
  "matchesSuffix host domains =
     (let lower = strip_dot (js_lower host)
      in list_ex (\<lambda>domain. lower = domain \<or> ends_with lower (CHR ''.'' # domain)) domains)"

definition isHostedProvider :: "string \<Rightarrow> bool" where
  "isHostedProvider host = matchesSuffix host HOSTED_INFERENCE_DOMAINS"

definition isLoopThroughService :: "string \<Rightarrow> bool" where
  "isLoopThroughService host = matchesSuffix host LOOP_THROUGH_DOMAINS"

definition isMetadataHost :: "string \<Rightarrow> bool" where
  "isMetadataHost host =
     (let lower = strip_dot (js_lower host)
      in lower \<in> set METADATA_HOSTNAMES \<or> lower \<in> set METADATA_ADDRESSES)"

definition isInternalName :: "string \<Rightarrow> bool" where
  "isInternalName host =
     (let lower = strip_dot (js_lower host)
      in if isMetadataHost lower then False
         else if lower = ''localhost'' \<or> ends_with lower ''.localhost'' then True
         else let labels = js_split CHR ''.'' lower
              in if length labels = 1 then True
                 else last labels \<in>
                   {''internal'', ''local'', ''lan'', ''home'', ''intranet'', ''private'', ''corp''})"

definition isPrivateHost :: "string \<Rightarrow> bool" where
  "isPrivateHost host =
     (case classifyAddress host of
        Some c \<Rightarrow> c = Private \<or> c = Loopback
      | None \<Rightarrow> isInternalName host)"

definition checkHost :: "string \<Rightarrow> endpoint_policy \<Rightarrow> endpoint_verdict" where
  "checkHost rawHost opts =
     (let host = strip_dot (strip_brackets (js_lower rawHost))
      in if isMetadataHost host then refuse metadata_endpoint
         else if isHostedProvider host then refuse hosted_provider
         else if isLoopThroughService host then refuse loop_through_service
         else case classifyAddress host of
                Some literal \<Rightarrow> verdictForClass literal opts
              | None \<Rightarrow>
                  if requirePrivateAddress opts \<and> \<not> isInternalName host
                  then refuse public_address else accept)"

definition verdict_of_address :: "endpoint_policy \<Rightarrow> string \<Rightarrow> endpoint_verdict" where
  "verdict_of_address opts address =
     (case classifyAddress address of
        None \<Rightarrow> verdictForClass Malformed opts
      | Some classified \<Rightarrow> verdictForClass classified opts)"

definition checkResolvedAddresses :: "string list \<Rightarrow> endpoint_policy \<Rightarrow> endpoint_verdict" where
  "checkResolvedAddresses addresses opts =
     (if length addresses = 0 then refuse no_addresses
      else
        let verdicts = map (verdict_of_address opts) addresses;
            refused = filter (\<lambda>v. \<not> allowed v) verdicts
        in if length refused = 0 then accept
           else if length refused < length verdicts then refuse mixed_addresses
           else (case refused of v # _ \<Rightarrow> v | [] \<Rightarrow> refuse no_addresses))"

section \<open>Splitting a URL\<close>

record parsed_endpoint =
  pe_scheme :: string
  pe_host :: string
  pe_port :: "rat option"
  pe_path :: string
  pe_hasCredentials :: bool

definition is_letter :: "char \<Rightarrow> bool" where
  "is_letter c = (97 \<le> (of_char (js_lower_char c) :: nat) \<and> (of_char (js_lower_char c) :: nat) \<le> 122)"

definition is_scheme_char :: "char \<Rightarrow> bool" where
  "is_scheme_char c = (is_letter c \<or> is_digit c \<or> c \<in> set ''+.-'')"

text \<open>The three groups of the URL pattern: scheme, authority, path.\<close>

definition split_url :: "string \<Rightarrow> (string \<times> string \<times> string) option" where
  "split_url raw =
     (let scheme = takeWhile is_scheme_char raw;
          rest = dropWhile is_scheme_char raw
      in if scheme = [] \<or> \<not> is_letter (hd scheme) \<or> \<not> starts_with rest ''://'' then None
         else let after = drop 3 rest;
                  authority = takeWhile (\<lambda>c. c \<notin> set ''/?#'') after;
                  path = takeWhile (\<lambda>c. c \<notin> set ''?#'') (drop (length authority) after)
              in Some (scheme, authority, path))"

text \<open>The part after the last \<open>@\<close>, if there is one.\<close>

definition after_last_at :: "string \<Rightarrow> string option" where
  "after_last_at s =
     (if CHR ''@'' \<in> set s then Some (rev (takeWhile (\<lambda>c. c \<noteq> CHR ''@'') (rev s))) else None)"

definition strip_colon :: "string \<Rightarrow> string" where
  "strip_colon s = (if s \<noteq> [] \<and> hd s = CHR '':'' then tl s else s)"

definition split_host_port :: "string \<Rightarrow> string \<times> string" where
  "split_host_port hostPort =
     (if starts_with hostPort ''['' then
        (if CHR '']'' \<in> set hostPort
         then (takeWhile (\<lambda>c. c \<noteq> CHR '']'') (drop 1 hostPort),
               strip_colon (drop 1 (dropWhile (\<lambda>c. c \<noteq> CHR '']'') hostPort)))
         else (hostPort, strip_colon hostPort))
      else
        let parts = js_split CHR '':'' hostPort
        in (parts ! 0, if length parts > 1 then parts ! 1 else []))"

definition parseEndpoint :: "string \<Rightarrow> parsed_endpoint option" where
  "parseEndpoint raw =
     (case split_url raw of
        None \<Rightarrow> None
      | Some (rawScheme, authority, path) \<Rightarrow>
          let scheme = js_lower rawScheme
          in if length authority = 0 then
               Some \<lparr>pe_scheme = scheme, pe_host = [], pe_port = None, pe_path = path,
                     pe_hasCredentials = False\<rparr>
             else
               let hasCredentials = (after_last_at authority \<noteq> None);
                   hostPort = (case after_last_at authority of Some r \<Rightarrow> r | None \<Rightarrow> authority);
                   (host, portPart) = split_host_port hostPort
               in if length host = 0 then None
                  else if length portPart = 0 then
                    Some \<lparr>pe_scheme = scheme, pe_host = strip_dot (js_lower host), pe_port = None,
                          pe_path = path, pe_hasCredentials = hasCredentials\<rparr>
                  else (case js_Number portPart of
                          None \<Rightarrow> None
                        | Some port \<Rightarrow>
                            if \<not> is_integer port \<or> port < 1 \<or> port > 65535 then None
                            else Some \<lparr>pe_scheme = scheme, pe_host = strip_dot (js_lower host),
                                       pe_port = Some port, pe_path = path,
                                       pe_hasCredentials = hasCredentials\<rparr>))"

definition checkInferenceEndpoint :: "string \<Rightarrow> endpoint_policy \<Rightarrow> endpoint_verdict" where
  "checkInferenceEndpoint rawUrl opts =
     (let trimmed = js_trim rawUrl
      in if length trimmed = 0 then refuse not_configured
         else case parseEndpoint trimmed of
                None \<Rightarrow> refuse malformed
              | Some parsed \<Rightarrow>
                  if pe_scheme parsed \<noteq> ''http'' \<and> pe_scheme parsed \<noteq> ''https''
                  then refuse unsupported_scheme
                  else if length (pe_host parsed) = 0 then refuse malformed
                  else if pe_hasCredentials parsed then refuse credentials_in_url
                  else checkHost (pe_host parsed) opts)"

section \<open>Decimal and hexadecimal text\<close>

lemma digit_char_is_digit: "is_digit c \<Longrightarrow> digit_char (digit_value c) = c"
  by (simp add: is_digit_def digit_value_def digit_char_def)

lemma digit_value_less: "is_digit c \<Longrightarrow> digit_value c < 10"
  unfolding is_digit_def digit_value_def by linarith

lemma digit_zero: "digit_char 0 = CHR ''0''" "digit_value CHR ''0'' = 0"
  by code_simp+

lemma read_nat_snoc: "read_nat (s @ [c]) = 10 * read_nat s + digit_value c"
  by (simp add: read_nat_def)

lemma read_nat_pos:
  "s \<noteq> [] \<Longrightarrow> list_all is_digit s \<Longrightarrow> hd s \<noteq> CHR ''0'' \<Longrightarrow> 0 < read_nat s"
proof (induction s rule: rev_induct)
  case (snoc c s)
  show ?case
  proof (cases "s = []")
    case True
    from snoc.prems True have "is_digit c" and "c \<noteq> CHR ''0''" by auto
    then have "digit_value c \<noteq> 0"
      using digit_char_is_digit [of c] digit_zero by metis
    with True show ?thesis by (simp add: read_nat_def)
  next
    case False
    with snoc have "0 < read_nat s" by auto
    then show ?thesis by (simp add: read_nat_snoc)
  qed
qed simp

text \<open>A decimal without a leading zero is the printing of the number it reads as.\<close>

lemma show_read_nat:
  "s \<noteq> [] \<Longrightarrow> list_all is_digit s \<Longrightarrow> length s = 1 \<or> hd s \<noteq> CHR ''0'' \<Longrightarrow>
     show_nat (read_nat s) = s"
proof (induction s rule: rev_induct)
  case (snoc c s)
  from snoc.prems have c: "is_digit c" by simp
  show ?case
  proof (cases "s = []")
    case True
    with c show ?thesis
      by (subst show_nat.simps)
        (simp add: read_nat_def digit_value_less digit_char_is_digit)
  next
    case False
    with snoc have "show_nat (read_nat s) = s" and "0 < read_nat s"
      by (auto intro!: read_nat_pos)
    then show ?thesis using c digit_value_less [OF c]
      by (subst show_nat.simps) (simp add: read_nat_snoc digit_char_is_digit)
  qed
qed simp

lemma show_nat_length: "n < 1000 \<Longrightarrow> length (show_nat n) \<le> 3"
  by (subst show_nat.simps, subst show_nat.simps, subst show_nat.simps) auto

lemma show_nat_short: "length (show_nat n) > 1 \<Longrightarrow> 10 \<le> n"
  by (subst (asm) show_nat.simps) (auto split: if_splits)

lemma hd_show_nat: "0 < n \<Longrightarrow> hd (show_nat n) \<noteq> CHR ''0''"
proof (induction n rule: show_nat.induct)
  case (1 n)
  show ?case
  proof (cases "n < 10")
    case True
    with "1.prems" have "digit_char n \<noteq> CHR ''0''"
      using digit_value_char [of n] digit_zero(2) by (metis less_irrefl)
    with True show ?thesis by (subst show_nat.simps) simp
  next
    case False
    with 1 show ?thesis by (subst show_nat.simps) (simp add: hd_append)
  qed
qed

lemma show_nat_list_all: "list_all is_digit (show_nat n)"
  by (auto simp: list_all_iff dest: show_nat_digits)

lemma hex_value_lower: "is_hex_lower c \<Longrightarrow> \<exists>d < 16. hex_value c = Some d"
  by (auto simp: is_hex_lower_def is_digit_def hex_value_def Let_def)

lemma parse_hex_all:
  "list_all is_hex_lower s \<Longrightarrow>
     parse_hex s = foldl (\<lambda>n c. 16 * n + the (hex_value c)) 0 s"
proof -
  assume "list_all is_hex_lower s"
  then have "\<forall>c \<in> set s. \<exists>d. hex_value c = Some d"
    using hex_value_lower by (fastforce simp: list_all_iff)
  then have "takeWhile (\<lambda>c. hex_value c \<noteq> None) s = s"
    and "\<forall>m. foldl (\<lambda>n c. 16 * n + (case hex_value c of Some d \<Rightarrow> d | None \<Rightarrow> 0)) m s =
      foldl (\<lambda>n c. 16 * n + the (hex_value c)) m s"
    by (auto simp: takeWhile_eq_all_conv) (induction s, auto)
  then show ?thesis by (simp only: parse_hex_def)
qed

definition hex_digit :: "nat \<Rightarrow> char" where
  "hex_digit k = (if k < 10 then char_of (48 + k) else char_of (87 + k))"

lemma show_hex_rec:
  "show_hex n = (if n < 16 then [hex_digit n] else show_hex (n div 16) @ [hex_digit (n mod 16)])"
  by (subst show_hex.simps) (simp add: hex_digit_def Let_def)

lemma hex_digit_props: "k < 16 \<Longrightarrow> is_hex_lower (hex_digit k) \<and> hex_value (hex_digit k) = Some k"
  by (auto simp: hex_digit_def is_hex_lower_def is_digit_def hex_value_def Let_def)

lemma show_hex_lower: "list_all is_hex_lower (show_hex n)"
proof (induction n rule: less_induct)
  case (less n)
  then show ?case by (subst show_hex_rec) (auto simp: hex_digit_props)
qed

lemma foldl_show_hex: "foldl (\<lambda>n c. 16 * n + the (hex_value c)) 0 (show_hex n) = n"
proof (induction n rule: less_induct)
  case (less n)
  show ?case
  proof (cases "n < 16")
    case True
    then show ?thesis by (subst show_hex_rec) (simp add: hex_digit_props)
  next
    case False
    then have "foldl (\<lambda>n c. 16 * n + the (hex_value c)) 0 (show_hex (n div 16)) = n div 16"
      using less by simp
    with False show ?thesis by (subst show_hex_rec) (simp add: hex_digit_props)
  qed
qed

lemma show_hex_length: "n < 65536 \<Longrightarrow> length (show_hex n) \<le> 4"
  by (subst show_hex_rec, subst show_hex_rec, subst show_hex_rec, subst show_hex_rec) auto

lemma foldl_zeros:
  "foldl (\<lambda>n c. 16 * n + the (hex_value c)) 0 (replicate k CHR ''0'' @ s) =
   foldl (\<lambda>n c. 16 * n + the (hex_value c)) (0::nat) s"
proof -
  have "foldl (\<lambda>n c. 16 * n + the (hex_value c)) 0 (replicate k CHR ''0'') = (0::nat)"
    by (induction k) (simp_all add: hex_value_def)
  then show ?thesis by simp
qed

lemma pad_show_hex:
  assumes "n < 65536"
  shows "length (pad (show_hex n)) = 4" and "list_all is_hex_lower (pad (show_hex n))"
    and "parse_hex (pad (show_hex n)) = n"
proof -
  show "length (pad (show_hex n)) = 4"
    using show_hex_length [OF assms] by (simp add: pad_def pad_start_def)
  show all: "list_all is_hex_lower (pad (show_hex n))"
    using show_hex_lower [of n]
    by (auto simp: pad_def pad_start_def list_all_iff is_hex_lower_def is_digit_def)
  show "parse_hex (pad (show_hex n)) = n"
    by (simp only: parse_hex_all [OF all], simp only: pad_def pad_start_def foldl_zeros foldl_show_hex)
qed
section \<open>Canonical dotted quads\<close>

definition dotted :: "nat \<Rightarrow> nat \<Rightarrow> nat \<Rightarrow> nat \<Rightarrow> string" where
  "dotted a b c d = js_join ''.'' (map show_nat [a, b, c, d])"

abbreviation octet :: "nat \<Rightarrow> bool" where
  "octet n \<equiv> n \<le> 255"

lemma digit_simple:
  assumes "is_digit c \<or> is_hex_lower c \<or> c = CHR ''.'' \<or> c = CHR '':''"
  shows "js_lower_char c = c" and "\<not> js_space c" and "c \<noteq> CHR ''[''" and "c \<noteq> CHR '']''"
    and "c \<noteq> CHR ''%''"
  using assms
  by (auto simp: is_digit_def is_hex_lower_def js_lower_char_def js_space_def Let_def)

lemma dot_not_digit: "CHR ''.'' \<notin> set (show_nat n)"
  using show_nat_digits [of "CHR ''.''" n] by (auto simp: is_digit_def)

lemma colon_not_digit: "CHR '':'' \<notin> set (show_nat n)"
  using show_nat_digits [of "CHR '':''" n] by (auto simp: is_digit_def)

lemma dotted_chars: "x \<in> set (dotted a b c d) \<Longrightarrow> is_digit x \<or> x = CHR ''.''"
  by (auto simp: dotted_def dest: show_nat_digits)

lemma dotted_ne: "dotted a b c d \<noteq> []"
  by (simp add: dotted_def)

lemma hd_dotted: "is_digit (hd (dotted a b c d))"
  by (simp add: dotted_def hd_append) (metis hd_in_set show_nat_digits show_nat_ne)

lemma last_dotted: "is_digit (last (dotted a b c d))"
  by (simp add: dotted_def) (metis last_in_set show_nat_digits show_nat_ne)

lemma split_dotted: "js_split CHR ''.'' (dotted a b c d) = map show_nat [a, b, c, d]"
  unfolding dotted_def by (rule js_split_join) (auto simp: dot_not_digit)

lemma show_octet: "octet n \<Longrightarrow> length (show_nat n) \<le> 3 \<and> Suc 0 \<le> length (show_nat n)"
  using show_nat_length [of n] by (simp add: Suc_le_eq)

lemma dotted_quad_dotted:
  "octet a \<Longrightarrow> octet b \<Longrightarrow> octet c \<Longrightarrow> octet d \<Longrightarrow>
     dotted_quad (dotted a b c d) = Some (map show_nat [a, b, c, d])"
  by (simp add: dotted_quad_def split_dotted show_octet show_nat_list_all)

lemma no_leading_zero: "\<not> (length (show_nat n) > Suc 0 \<and> hd (show_nat n) = CHR ''0'')"
  using show_nat_short [of n] hd_show_nat [of n] by auto

lemma classifyIpv4_dotted:
  "octet a \<Longrightarrow> octet b \<Longrightarrow> octet c \<Longrightarrow> octet d \<Longrightarrow>
     classifyIpv4 (dotted a b c d) = classify_octets a b c d"
  by (simp add: classifyIpv4_def dotted_quad_dotted Let_def numeral_2_eq_2 numeral_3_eq_3
      no_leading_zero)

text \<open>Trimming, lower-casing and removing brackets leave such text alone.\<close>

lemma normal_text:
  assumes "\<forall>x \<in> set s. is_digit x \<or> is_hex_lower x \<or> x = CHR ''.'' \<or> x = CHR '':''" and "s \<noteq> []"
  shows "strip_brackets (js_lower (js_trim s)) = s"
proof -
  have "hd s \<in> set s" and "last s \<in> set s" using assms(2) by auto
  with assms(1) have "js_trim s = s" and "strip_brackets s = s"
    using digit_simple by (auto intro!: js_trim_id simp: strip_brackets_def Let_def)
  moreover have "js_lower s = s"
    using assms(1) digit_simple(1) by (auto simp: js_lower_def map_idI)
  ultimately show ?thesis by simp
qed

lemma normal_dotted: "strip_brackets (js_lower (js_trim (dotted a b c d))) = dotted a b c d"
  by (rule normal_text) (blast dest: dotted_chars, rule dotted_ne)

lemma colon_notin_dotted: "CHR '':'' \<notin> set (dotted a b c d)"
  using dotted_chars [of "CHR '':''"] by (auto simp: is_digit_def)

lemma looks_numeric_dotted: "looks_numeric (dotted a b c d)"
proof -
  have "list_all (\<lambda>x. is_hex_lower x \<or> x = CHR ''.'') (dotted a b c d)"
    unfolding list_all_iff is_hex_lower_def by (blast dest: dotted_chars)
  moreover have "list_ex is_digit (dotted a b c d)"
    using hd_dotted [of a b c d] dotted_ne [of a b c d] by (auto simp: list_ex_iff)
  ultimately show ?thesis by (simp add: looks_numeric_def dotted_ne)
qed

definition quad_class :: "nat \<Rightarrow> nat \<Rightarrow> nat \<Rightarrow> nat \<Rightarrow> address_class" where
  "quad_class a b c d =
     (if dotted a b c d \<in> set METADATA_ADDRESSES then Metadata else classify_octets a b c d)"

lemma classify_dotted:
  "octet a \<Longrightarrow> octet b \<Longrightarrow> octet c \<Longrightarrow> octet d \<Longrightarrow>
     classifyAddress (dotted a b c d) = Some (quad_class a b c d)"
  by (simp add: classifyAddress_def normal_dotted dotted_ne colon_notin_dotted
      looks_numeric_dotted classifyIpv4_dotted quad_class_def)

section \<open>The same address in IPv6 notation\<close>

lemma split_colons_single: "CHR '':'' \<notin> set s \<Longrightarrow> split_colons s = [s]"
  by (induction s rule: split_colons.induct) auto

lemma js_includes_hd: "p \<noteq> [] \<Longrightarrow> hd p \<notin> set s \<Longrightarrow> \<not> js_includes s p"
proof (induction s)
  case (Cons x s)
  then show ?case by (cases p) (auto simp: starts_with_def)
qed simp

definition mapped :: "string \<Rightarrow> string" where
  "mapped q = ''::ffff:'' @ q"

lemma split_colons_mapped:
  assumes "q \<noteq> []" and "CHR '':'' \<notin> set q"
  shows "split_colons (mapped q) = [[], ''ffff:'' @ q]"
proof -
  obtain x q' where q: "q = x # q'" using assms(1) by (cases q) auto
  with assms(2) have "x \<noteq> CHR '':''" by auto
  with assms(2) q split_colons_single [of q] show ?thesis by (simp add: mapped_def)
qed

lemma mapped_syntax: "isIpv6Syntax (mapped (dotted a b c d))"
proof -
  let ?q = "dotted a b c d"
  have "list_all (\<lambda>x. is_hex_lower x \<or> x = CHR '':'' \<or> x = CHR ''.'') (mapped ?q)"
    using dotted_chars [of _ a b c d]
    by (auto simp: mapped_def list_all_iff is_hex_lower_def is_digit_def)
  moreover have "\<not> js_includes (mapped ?q) '':::''"
    using js_includes_hd [of "'':::''" ?q] colon_notin_dotted [of a b c d]
    by (cases ?q) (auto simp: mapped_def starts_with_def)
  ultimately show ?thesis
    by (simp add: isIpv6Syntax_def split_colons_mapped dotted_ne colon_notin_dotted)
      (simp add: mapped_def)
qed

lemma expand_mapped:
  assumes "octet a" "octet b" "octet c" "octet d"
  shows "expandIpv6 (mapped (dotted a b c d)) =
    Some (''0000:0000:0000:0000:0000:ffff:'' @ pad (show_hex (a * 256 + b)) @ '':'' @
      pad (show_hex (c * 256 + d)))"
proof -
  let ?q = "dotted a b c d"
  let ?h = "pad (show_hex (a * 256 + b))" and ?l = "pad (show_hex (c * 256 + d))"
  have len: "length ?h = 4" "length ?l = 4"
    using assms by (auto intro!: pad_show_hex)
  then have ne: "?h \<noteq> []" "?l \<noteq> []" by auto
  have pads: "pad ?h = ?h" "pad ?l = ?l"
    using len by (simp_all add: pad_def [of "pad _"] pad_start_def)
  have groups: "groups_of (''ffff:'' @ ?q) = [''ffff'', ?q]"
    using js_split_single [OF colon_notin_dotted, of a b c d]
    by (simp add: groups_of_def)
  have emb: "embedded_groups ?q = Some [?h, ?l]"
    using assms by (simp add: embedded_groups_def dotted_quad_dotted numeral_2_eq_2 numeral_3_eq_3)
  have dot: "CHR ''.'' \<in> set ?q" by (simp add: dotted_def)
  have incl: "js_includes (mapped ?q) ''::''" by (simp add: mapped_def starts_with_def)
  have "expandIpv6 (mapped ?q) = expand_groups True [] [''ffff''] [?h, ?l]"
    using groups emb dot incl
    by (simp add: expandIpv6_def split_colons_mapped dotted_ne colon_notin_dotted Let_def
        groups_of_def [of "[]"])
  also have "\<dots> = Some (''0000:0000:0000:0000:0000:ffff:'' @ ?h @ '':'' @ ?l)"
    using len ne pads by (simp add: expand_groups_def pad_def [of "''ffff''"] pad_start_def
        eval_nat_numeral)
  finally show ?thesis .
qed

lemma hex_pair_after_append:
  "length h = 4 \<Longrightarrow> length l = 4 \<Longrightarrow> list_all is_hex_lower h \<Longrightarrow> list_all is_hex_lower l \<Longrightarrow>
     hex_pair_after p (p @ h @ '':'' @ l) = Some (h, l)"
  by (simp add: hex_pair_after_def Let_def nth_append)

lemma hex_pair_after_other:
  "take (length p) s \<noteq> p \<Longrightarrow> hex_pair_after p s = None"
  by (simp add: hex_pair_after_def starts_with_def Let_def)

lemma embedded_mapped:
  assumes "octet a" "octet b" "octet c" "octet d"
  shows "embeddedIpv4 (''0000:0000:0000:0000:0000:ffff:'' @ pad (show_hex (a * 256 + b)) @ '':'' @
      pad (show_hex (c * 256 + d))) = Some (dotted a b c d)"
proof -
  let ?h = "pad (show_hex (a * 256 + b))" and ?l = "pad (show_hex (c * 256 + d))"
  have small: "a * 256 + b < 65536" "c * 256 + d < 65536" using assms by auto
  have "hex_pair_after ''0000:0000:0000:0000:0000:ffff:''
      (''0000:0000:0000:0000:0000:ffff:'' @ ?h @ '':'' @ ?l) = Some (?h, ?l)"
    by (rule hex_pair_after_append) (simp_all only: pad_show_hex [OF small(1)] pad_show_hex [OF small(2)])
  moreover have "hex_pair_after ''0000:0000:0000:0000:0000:0000:''
      (''0000:0000:0000:0000:0000:ffff:'' @ ?h @ '':'' @ ?l) = None"
    by (rule hex_pair_after_other) simp
  ultimately show ?thesis
    using assms
    by (simp add: embeddedIpv4_def Let_def pad_show_hex [OF small(1)] pad_show_hex [OF small(2)]
        dotted_def del: append.simps append_Cons)
qed

lemma mapped_not_metadata: "mapped q \<notin> set METADATA_ADDRESSES"
  by (simp add: mapped_def METADATA_ADDRESSES_def)

lemma mapped_chars:
  "x \<in> set (mapped (dotted a b c d)) \<Longrightarrow> is_digit x \<or> is_hex_lower x \<or> x = CHR ''.'' \<or> x = CHR '':''"
  by (auto simp: mapped_def is_hex_lower_def is_digit_def dest: dotted_chars)

lemma classify_mapped:
  assumes "octet a" "octet b" "octet c" "octet d"
  shows "classifyAddress (mapped (dotted a b c d)) = Some (quad_class a b c d)"
proof -
  let ?m = "mapped (dotted a b c d)"
  have ne: "?m \<noteq> []" and colon: "CHR '':'' \<in> set ?m" by (simp_all add: mapped_def)
  have normal: "strip_brackets (js_lower (js_trim ?m)) = ?m"
    by (rule normal_text) (blast dest: mapped_chars, rule ne)
  have "CHR ''%'' \<notin> set ?m"
    using mapped_chars [of "CHR ''%''"] by (auto simp: is_hex_lower_def is_digit_def)
  then have "classifyIpv6 ?m = quad_class a b c d"
    using assms by (simp only: classifyIpv6_def Let_def js_split_single list.sel mapped_syntax
        expand_mapped embedded_mapped option.case classifyIpv4_dotted quad_class_def simp_thms if_False)
  then show ?thesis
    using ne colon by (simp add: classifyAddress_def normal mapped_not_metadata)
qed

section \<open>No second spelling\<close>

lemma dotted_quad_Some:
  assumes "dotted_quad s = Some parts"
  shows "\<exists>p q r t. parts = [p, q, r, t] \<and> s = js_join ''.'' [p, q, r, t]"
    and "\<forall>p \<in> set parts. p \<noteq> [] \<and> list_all is_digit p"
proof -
  from assms have parts: "parts = js_split CHR ''.'' s" "length parts = 4"
    and all: "list_all (\<lambda>p. 1 \<le> length p \<and> length p \<le> 3 \<and> list_all is_digit p) parts"
    by (auto simp: dotted_quad_def Let_def split: if_splits)
  then show "\<exists>p q r t. parts = [p, q, r, t] \<and> s = js_join ''.'' [p, q, r, t]"
    using js_join_split [of "CHR ''.''" s] by (auto simp: length_Suc_conv eval_nat_numeral)
  from all show "\<forall>p \<in> set parts. p \<noteq> [] \<and> list_all is_digit p"
    by (auto simp: list_all_iff)
qed

lemma classifyIpv4_canonical:
  assumes "classifyIpv4 s \<noteq> Malformed"
  shows "\<exists>a b c d. octet a \<and> octet b \<and> octet c \<and> octet d \<and> s = dotted a b c d \<and>
    classifyIpv4 s = classify_octets a b c d"
proof -
  from assms obtain parts where parts: "dotted_quad s = Some parts"
    and small: "\<forall>p \<in> set parts. read_nat p \<le> 255"
    and lead: "\<forall>p \<in> set parts. \<not> (length p > 1 \<and> hd p = CHR ''0'')"
    by (auto simp: classifyIpv4_def Let_def list_ex_iff not_less split: option.splits if_splits)
  from dotted_quad_Some [OF parts] obtain p q r t
    where prt: "parts = [p, q, r, t]" and s: "s = js_join ''.'' [p, q, r, t]"
      and digs: "\<forall>u \<in> {p, q, r, t}. u \<noteq> [] \<and> list_all is_digit u" by auto
  have "\<forall>u \<in> {p, q, r, t}. show_nat (read_nat u) = u"
    using digs lead prt by (auto intro!: show_read_nat simp: less_Suc_eq_le)
      (metis One_nat_def Suc_lessI length_greater_0_conv)+
  with s have "s = dotted (read_nat p) (read_nat q) (read_nat r) (read_nat t)"
    by (simp add: dotted_def)
  then show ?thesis using small prt classifyIpv4_dotted by fastforce
qed

section \<open>The registry the classifier implements\<close>

text \<open>
  The specification of \<open>classify_octets\<close>: the address blocks of the IANA special-purpose
  registry in CIDR notation, each with the class the policy gives it, the first block that
  contains the address deciding.
\<close>

definition quad_number :: "nat \<Rightarrow> nat \<Rightarrow> nat \<Rightarrow> nat \<Rightarrow> nat" where
  "quad_number a b c d = a * 2 ^ 24 + b * 2 ^ 16 + c * 2 ^ 8 + d"

definition in_block :: "nat \<Rightarrow> nat \<Rightarrow> nat \<Rightarrow> bool" where
  "in_block addr base len = (addr div 2 ^ (32 - len) = base div 2 ^ (32 - len))"

definition special_blocks :: "(nat \<times> nat \<times> address_class) list" where
  "special_blocks =
     [(quad_number 0 0 0 0, 8, Unspecified), (quad_number 127 0 0 0, 8, Loopback),
      (quad_number 10 0 0 0, 8, Private), (quad_number 172 16 0 0, 12, Private),
      (quad_number 192 168 0 0, 16, Private), (quad_number 169 254 0 0, 16, Link_local),
      (quad_number 100 64 0 0, 10, Shared), (quad_number 255 255 255 255, 32, Broadcast),
      (quad_number 224 0 0 0, 4, Multicast), (quad_number 240 0 0 0, 4, Reserved),
      (quad_number 192 0 0 0, 24, Reserved), (quad_number 192 0 2 0, 24, Reserved),
      (quad_number 198 18 0 0, 15, Reserved), (quad_number 198 51 100 0, 24, Reserved),
      (quad_number 203 0 113 0, 24, Reserved), (quad_number 192 88 99 0, 24, Reserved)]"

definition registry_class :: "nat \<Rightarrow> address_class" where
  "registry_class addr =
     (case find (\<lambda>(base, len, _). in_block addr base len) special_blocks of
        Some (_, _, cls) \<Rightarrow> cls
      | None \<Rightarrow> Public)"

lemma quad_number_div:
  assumes "octet b" "octet c" "octet d"
  shows "quad_number a b c d div 268435456 = a div 16"
    and "quad_number a b c d div 16777216 = a"
    and "quad_number a b c d div 4194304 = a * 4 + b div 64"
    and "quad_number a b c d div 1048576 = a * 16 + b div 16"
    and "quad_number a b c d div 131072 = a * 128 + b div 2"
    and "quad_number a b c d div 65536 = a * 256 + b"
    and "quad_number a b c d div 256 = a * 65536 + b * 256 + c"
proof -
  show "quad_number a b c d div 268435456 = a div 16"
    using assms by (simp add: quad_number_def)
  show "quad_number a b c d div 16777216 = a"
    using assms by (simp add: quad_number_def)
  show "quad_number a b c d div 4194304 = a * 4 + b div 64"
    using assms by (simp add: quad_number_def)
  show "quad_number a b c d div 1048576 = a * 16 + b div 16"
    using assms by (simp add: quad_number_def)
  show "quad_number a b c d div 131072 = a * 128 + b div 2"
    using assms by (simp add: quad_number_def)
  show "quad_number a b c d div 65536 = a * 256 + b"
    using assms by (simp add: quad_number_def)
  show "quad_number a b c d div 256 = a * 65536 + b * 256 + c"
    using assms by (simp add: quad_number_def)
qed

lemma mixed_radix: "b < k \<Longrightarrow> (a * k + b = m) = (a = m div k \<and> b = m mod (k::nat))"
  by auto

lemma radix_256: "octet b \<Longrightarrow> (a * 256 + b = m) = (a = m div 256 \<and> b = m mod 256)"
  by (rule mixed_radix) simp

lemma mixed_radix3:
  "octet b \<Longrightarrow> octet c \<Longrightarrow>
     (a * 65536 + b * 256 + c = m) =
     (a = m div 256 div 256 \<and> b = m div 256 mod 256 \<and> c = m mod 256)"
proof -
  assume small: "octet b" "octet c"
  have "(a * 65536 + b * 256 + c = m) = ((a * 256 + b) * 256 + c = m)"
    by (simp add: mult.commute)
  also have "\<dots> = (a * 256 + b = m div 256 \<and> c = m mod 256)" by (rule radix_256 [OF small(2)])
  also have "\<dots> = ((a = m div 256 div 256 \<and> b = m div 256 mod 256) \<and> c = m mod 256)"
    by (simp only: radix_256 [OF small(1)])
  finally show ?thesis by simp
qed

lemma octet_parts:
  shows "(b div 16 = Suc 0) = (16 \<le> b \<and> b \<le> (31::nat))"
    and "(b div 64 = Suc 0) = (64 \<le> b \<and> b \<le> (127::nat))"
    and "(b div 2 = 9) = (18 \<le> b \<and> b \<le> (19::nat))"
  by (intro iffI conjI; linarith)+

lemma octet_div: "octet b \<Longrightarrow> b div 16 < 16 \<and> b div 64 < 4 \<and> b div 2 < 128"
  by auto

lemma blocks:
  assumes "octet a" "octet b" "octet c" "octet d"
  shows "in_block (quad_number a b c d) (quad_number 0 0 0 0) 8 = (a = 0)"
    and "in_block (quad_number a b c d) (quad_number 127 0 0 0) 8 = (a = 127)"
    and "in_block (quad_number a b c d) (quad_number 10 0 0 0) 8 = (a = 10)"
    and "in_block (quad_number a b c d) (quad_number 172 16 0 0) 12 = (a = 172 \<and> b \<ge> 16 \<and> b \<le> 31)"
    and "in_block (quad_number a b c d) (quad_number 192 168 0 0) 16 = (a = 192 \<and> b = 168)"
    and "in_block (quad_number a b c d) (quad_number 169 254 0 0) 16 = (a = 169 \<and> b = 254)"
    and "in_block (quad_number a b c d) (quad_number 100 64 0 0) 10 = (a = 100 \<and> b \<ge> 64 \<and> b \<le> 127)"
    and "in_block (quad_number a b c d) (quad_number 192 0 0 0) 24 = (a = 192 \<and> b = 0 \<and> c = 0)"
    and "in_block (quad_number a b c d) (quad_number 192 0 2 0) 24 = (a = 192 \<and> b = 0 \<and> c = 2)"
    and "in_block (quad_number a b c d) (quad_number 198 18 0 0) 15 = (a = 198 \<and> b \<ge> 18 \<and> b \<le> 19)"
    and "in_block (quad_number a b c d) (quad_number 198 51 100 0) 24 = (a = 198 \<and> b = 51 \<and> c = 100)"
    and "in_block (quad_number a b c d) (quad_number 203 0 113 0) 24 = (a = 203 \<and> b = 0 \<and> c = 113)"
    and "in_block (quad_number a b c d) (quad_number 192 88 99 0) 24 = (a = 192 \<and> b = 88 \<and> c = 99)"
  using assms by (simp_all add: in_block_def quad_number_div radix_256 mixed_radix mixed_radix3 octet_div octet_parts)

lemma wide_blocks:
  assumes "octet a" "octet b" "octet c" "octet d"
  shows "in_block (quad_number a b c d) (quad_number 255 255 255 255) 32 = (a = 255 \<and> b = 255 \<and> c = 255 \<and> d = 255)"
    and "in_block (quad_number a b c d) (quad_number 224 0 0 0) 4 = (a \<ge> 224 \<and> a \<le> 239)"
    and "in_block (quad_number a b c d) (quad_number 240 0 0 0) 4 = (a \<ge> 240)"
  using assms by (simp_all add: in_block_def quad_number_div) (simp add: quad_number_def, linarith+)

lemma case_find_Cons:
  "(case find P (x # xs) of Some y \<Rightarrow> f y | None \<Rightarrow> z) =
   (if P x then f x else case find P xs of Some y \<Rightarrow> f y | None \<Rightarrow> z)"
  by simp

lemma registry_class_quad:
  assumes "octet a" "octet b" "octet c" "octet d"
  shows "registry_class (quad_number a b c d) = classify_octets a b c d"
proof -
  have two: "(18 \<le> b \<and> b \<le> 19) = (b = 18 \<or> b = 19)" by auto
  show ?thesis
    by (simp only: registry_class_def special_blocks_def classify_octets_def case_find_Cons prod.case
        blocks [OF assms] wide_blocks [OF assms] find.simps(1) option.case two)
qed

section \<open>What a non-malformed literal is\<close>

lemma js_lower_colon: "CHR '':'' \<in> set (js_lower s) \<Longrightarrow> CHR '':'' \<in> set s"
proof -
  assume "CHR '':'' \<in> set (js_lower s)"
  then obtain c where c: "c \<in> set s" "js_lower_char c = CHR '':''" by (auto simp: js_lower_def)
  have "c = CHR '':''"
  proof (rule ccontr)
    assume "c \<noteq> CHR '':''"
    with c(2) have low: "(char_of (of_char c + 32 :: nat) :: char) = CHR '':''"
      and range: "65 \<le> (of_char c :: nat) \<and> (of_char c :: nat) \<le> 222"
      by (auto simp: js_lower_char_def Let_def split: if_splits)
    from low have "(of_char (char_of (of_char c + 32 :: nat) :: char) :: nat) = of_char CHR '':''"
      by (simp only:)
    with range show False by simp
  qed
  with c(1) show ?thesis by simp
qed

lemma set_strip_brackets: "set (strip_brackets s) \<subseteq> set s"
  by (auto simp: strip_brackets_def Let_def dest: in_set_butlastD list.set_sel(2) split: if_splits)

lemma normal_colon:
  "CHR '':'' \<notin> set s \<Longrightarrow> CHR '':'' \<notin> set (strip_brackets (js_lower (js_trim s)))"
  using set_strip_brackets set_js_trim js_lower_colon by blast

lemma metadata_quads:
  assumes "m \<in> set METADATA_ADDRESSES" and "CHR '':'' \<notin> set m"
  shows "\<exists>a b c d. octet a \<and> octet b \<and> octet c \<and> octet d \<and> m = dotted a b c d"
proof -
  let ?quads = "[(169, 254, 169, 254), (169, 254, 170, 2), (169, 254, 169, 253),
    (100, 100, 100, 200), (192, 0, 0, 192)] :: (nat \<times> nat \<times> nat \<times> nat) list"
  have "filter (\<lambda>m. CHR '':'' \<notin> set m) METADATA_ADDRESSES = map (\<lambda>(a, b, c, d). dotted a b c d) ?quads"
    by code_simp
  moreover have "m \<in> set (filter (\<lambda>m. CHR '':'' \<notin> set m) METADATA_ADDRESSES)"
    using assms by simp
  ultimately have "m \<in> (\<lambda>(a, b, c, d). dotted a b c d) ` set ?quads" by (simp only: set_map)
  then obtain a b c d where q: "(a, b, c, d) \<in> set ?quads" and m: "m = dotted a b c d" by auto
  from q have "octet a \<and> octet b \<and> octet c \<and> octet d" by auto
  with m show ?thesis by blast
qed

text \<open>
  A literal without a colon that is not refused as malformed is the one canonical
  spelling of some quad (after trimming, lower-casing and removing brackets), and its class is
  that quad's class: there is no second decimal, octal, hexadecimal or short spelling.\<close>

theorem ipv4_literal_is_canonical:
  assumes "classifyAddress s = Some cls" and "cls \<noteq> Malformed" and "CHR '':'' \<notin> set s"
  shows "\<exists>a b c d. octet a \<and> octet b \<and> octet c \<and> octet d \<and>
    strip_brackets (js_lower (js_trim s)) = dotted a b c d \<and> cls = quad_class a b c d"
proof -
  let ?h = "strip_brackets (js_lower (js_trim s))"
  have colon: "CHR '':'' \<notin> set ?h" by (rule normal_colon [OF assms(3)])
  with assms have cls: "cls = (if ?h \<in> set METADATA_ADDRESSES then Metadata else classifyIpv4 ?h)"
    by (auto simp: classifyAddress_def Let_def split: if_splits)
  show ?thesis
  proof (cases "?h \<in> set METADATA_ADDRESSES")
    case True
    then show ?thesis using metadata_quads [OF True colon] cls unfolding quad_class_def by metis
  next
    case False
    with cls assms(2) have "classifyIpv4 ?h \<noteq> Malformed" by simp
    from classifyIpv4_canonical [OF this] False cls show ?thesis unfolding quad_class_def by metis
  qed
qed

lemma ipv4_literal_is_canonical_witness:
  "\<exists>a b c d. octet a \<and> octet b \<and> octet c \<and> octet d \<and>
    strip_brackets (js_lower (js_trim '' 10.0.0.1 '')) = dotted a b c d \<and> Private = quad_class a b c d"
  by (rule ipv4_literal_is_canonical) (code_simp, simp, simp)



lemma combined_verdict_allowed:
  "allowed (if length (filter (\<lambda>v. \<not> allowed v) vs) = 0 then accept
     else if length (filter (\<lambda>v. \<not> allowed v) vs) < length vs then refuse r
     else case filter (\<lambda>v. \<not> allowed v) vs of w # ws \<Rightarrow> w | [] \<Rightarrow> refuse r') = list_all allowed vs"
proof (cases "filter (\<lambda>v. \<not> allowed v) vs")
  case Nil
  then show ?thesis by (auto simp: filter_empty_conv list_all_iff)
next
  case (Cons w ws)
  then have "w \<in> set (filter (\<lambda>v. \<not> allowed v) vs)" by (simp only: list.set_intros)
  then have "\<not> allowed w" and "\<not> list_all allowed vs" by (auto simp: list_all_iff)
  with Cons show ?thesis by simp
qed

lemma checkResolvedAddresses_allowed:
  "allowed (checkResolvedAddresses addrs opts) =
   (addrs \<noteq> [] \<and> list_all (\<lambda>a. allowed (verdict_of_address opts a)) addrs)"
proof (cases "addrs = []")
  case False
  then show ?thesis
    unfolding checkResolvedAddresses_def Let_def
    using combined_verdict_allowed [of "map (verdict_of_address opts) addrs"]
    by (simp only: length_0_conv if_False list.pred_map comp_def simp_thms)
qed (simp add: checkResolvedAddresses_def)

text \<open>
  With private addresses required, a resolution is allowed exactly when it is not
  empty and every address in it is a private literal, or a loopback literal where loopback is
  not rejected: one public address among private ones is enough to refuse.\<close>

theorem resolved_addresses_private:
  "allowed (checkResolvedAddresses addrs \<lparr>requirePrivateAddress = True, rejectLoopback = rej\<rparr>) =
   (addrs \<noteq> [] \<and>
    list_all (\<lambda>a. classifyAddress a = Some Private \<or>
                  (classifyAddress a = Some Loopback \<and> rej \<noteq> Some True)) addrs)"
proof -
  let ?opts = "\<lparr>requirePrivateAddress = True, rejectLoopback = rej\<rparr>"
  have one: "allowed (verdictForClass c ?opts) = (c = Private \<or> (c = Loopback \<and> rej \<noteq> Some True))" for c
    by (cases c) auto
  show ?thesis
    by (simp add: checkResolvedAddresses_allowed verdict_of_address_def one list_all_iff
        split: option.split) (metis address_class.distinct(1) option.inject option.distinct(1) option.exhaust)
qed


text \<open>Bundles that evaluate the classifier and the URL check on a literal.\<close>

lemmas literal_eval = classifyAddress_def js_trim_eval js_lower_def js_lower_char_def
  strip_brackets_def METADATA_ADDRESSES_def

lemmas ipv4_eval = classifyIpv4_def dotted_quad_def looks_numeric_def read_nat_def digit_value_def
  classify_octets_def is_hex_lower_def is_digit_def

lemmas ipv6_eval = classifyIpv6_def isIpv6Syntax_def is_hex_lower_def is_digit_def starts_with_def
  expandIpv6_def groups_of_def expand_groups_def pad_def pad_start_def

lemmas embedded_eval = embeddedIpv4_def hex_pair_after_def starts_with_def classify_expanded_def
  parse_hex_def hex_value_def

lemmas endpoint_eval = literal_eval ipv4_eval starts_with_def eval_nat_numeral

lemmas url_eval = checkInferenceEndpoint_def parseEndpoint_def split_url_def is_scheme_char_def is_letter_def after_last_at_def split_host_port_def strip_colon_def strip_dot_def checkHost_def isMetadataHost_def METADATA_HOSTNAMES_def isHostedProvider_def isLoopThroughService_def matchesSuffix_def HOSTED_INFERENCE_DOMAINS_def LOOP_THROUGH_DOMAINS_def ends_with_def isInternalName_def


lemma metadata_address_listed: "classifyAddress ''fd00:ec2::254'' = Some Metadata"
  by (simp add: endpoint_eval)

text \<open>The IPv6 spelling of the metadata address is recognised in one form only, and a group may be a
  short dotted text.\<close>

lemma metadata_alias_is_private: "classifyAddress ''fd00:ec2:0::254'' = Some Private"
  by (simp add: literal_eval, simp add: ipv6_eval eval_nat_numeral, simp add: embedded_eval)

lemma dotted_group_is_private: "classifyAddress ''fc00:1.2::1'' = Some Private"
  by (simp add: literal_eval, simp add: ipv6_eval eval_nat_numeral, simp add: embedded_eval)

end
