(* ===== verification/FeatureListing.thy ===== *)
theory FeatureListing
  imports JsNumber
begin

text \<open>
  packages/contracts/src/documents/feature-listing.contract.ts: the rows of the feature listing,
  its coverage of the approved requirements, the reconciliation of its hours with the approved
  estimate, duplicate rows and contradictory hierarchy. A \<open>Record\<close> is the association list of
  its entries; \<open>localeCompare\<close> is the parameter \<open>collate\<close>. Length limits of the schema and the
  reference list of a row are not modelled.
\<close>

section \<open>Sets of the language\<close>

text \<open>A \<open>Set\<close> iterates in the order of first insertion.\<close>

definition set_add :: "'a list \<Rightarrow> 'a \<Rightarrow> 'a list" where
  "set_add s x = (if x \<in> set s then s else s @ [x])"

definition js_set :: "'a list \<Rightarrow> 'a list" where
  "js_set xs = foldl set_add [] xs"

lemma foldl_set_add:
  "set (foldl set_add s xs) = set s \<union> set xs \<and> (distinct s \<longrightarrow> distinct (foldl set_add s xs))"
  by (induction xs arbitrary: s) (auto simp: set_add_def)

lemma set_js_set [simp]: "set (js_set xs) = set xs"
  using foldl_set_add [of "[]" xs] by (simp add: js_set_def)

lemma distinct_js_set [simp]: "distinct (js_set xs)"
  using foldl_set_add [of "[]" xs] by (simp add: js_set_def)

lemma length_js_set: "length (js_set xs) = card (set xs)"
  by (metis distinct_card distinct_js_set set_js_set)

section \<open>Rows\<close>

definition CSV_ROLE_COLUMNS :: "string list" where
  "CSV_ROLE_COLUMNS = [''BACKEND'', ''FRONTEND'', ''QA'']"

definition OTHER_ROLE_LABELS :: "(string \<times> string) list" where
  "OTHER_ROLE_LABELS =
     [(''MOBILE'', ''Mobile Dev''), (''UI_UX'', ''UI/UX''), (''DEVOPS'', ''DevOps''),
      (''BUSINESS_ANALYST'', ''BA''), (''PROJECT_MANAGER'', ''PM''),
      (''SOLUTION_ARCHITECT'', ''SA''), (''AI_ML'', ''AI/ML''),
      (''DATA_ENGINEER'', ''Data Engineer''), (''SECURITY'', ''Security''),
      (''TECHNICAL_WRITER'', ''Technical Writer'')]"

definition DETAIL_SEPARATOR :: char where "DETAIL_SEPARATOR = CHR ''|''"

datatype feature_review_status = GENERATED | USER_EDITED | USER_AUTHORED

type_synonym effort = "(string \<times> rat) list"

record feature_wording =
  feature_module :: string
  submodule :: string
  screen :: string
  description :: string

record feature_row =
  featureId :: string
  requirementIds :: "string list"
  wording :: feature_wording
  row_effort :: effort
  row_totalHours :: rat
  estimateUnitIds :: "string list"
  technologyIds :: "string list"
  reviewStatus :: feature_review_status
  mappingConfidence :: rat
  feature_notes :: string
  row_order :: nat
  proposed :: "feature_wording option"

definition hasFeatureProposal :: "feature_row \<Rightarrow> bool" where
  "hasFeatureProposal row = (proposed row \<noteq> None)"

definition mayReplaceFeatureDirectly :: "feature_row \<Rightarrow> bool" where
  "mayReplaceFeatureDirectly row = (reviewStatus row = GENERATED)"

definition featureTotalHours :: "effort \<Rightarrow> rat" where
  "featureTotalHours e = to_fixed2 (foldl js_plus 0 (map snd e))"

definition otherRoleEffort :: "(string \<Rightarrow> string \<Rightarrow> bool) \<Rightarrow> effort \<Rightarrow> (string \<times> rat) list" where
  "otherRoleEffort collate e =
     sort_by (\<lambda>a b. collate (fst a) (fst b))
       (filter (\<lambda>(role, hours). 0 < hours \<and> role \<notin> set CSV_ROLE_COLUMNS) e)"

section \<open>Coverage\<close>

record coverage =
  applicable :: nat
  represented :: nat
  excluded :: nat
  unresolved :: nat
  unsupportedRows :: nat
  percentage :: rat
  unresolvedRequirementIds :: "string list"
  unsupportedFeatureIds :: "string list"

record coverage_input =
  applicableRequirementIds :: "string list"
  coverage_rows :: "(string \<times> string list) list"
  excludedRequirementIds :: "string list"

text \<open>\<open>Number(x.toFixed(1))\<close> of a non-negative number below \<open>10 ^ 21\<close>.\<close>

definition to_fixed1 :: "rat \<Rightarrow> rat" where
  "to_fixed1 x = round_double (of_int \<lfloor>x * 10 + 1 / 2\<rfloor> / 10)"

definition coverage_percentage :: "nat \<Rightarrow> nat \<Rightarrow> rat" where
  "coverage_percentage handled n =
     (if n = 0 then 0 else to_fixed1 (js_mult (js_div (of_nat handled) (of_nat n)) 100))"

definition cover_row ::
  "string list \<Rightarrow> string list \<times> string list \<Rightarrow> string \<times> string list \<Rightarrow> string list \<times> string list" where
  "cover_row app acc row =
     (let supported = filter (\<lambda>i. i \<in> set app) (snd row)
      in (foldl set_add (fst acc) supported,
          if supported = [] then snd acc @ [fst row] else snd acc))"

definition calculateFeatureCoverage :: "coverage_input \<Rightarrow> coverage" where
  "calculateFeatureCoverage input =
     (let app = js_set (applicableRequirementIds input);
          excl = js_set (filter (\<lambda>i. i \<in> set app) (excludedRequirementIds input));
          (rep, unsup) = foldl (cover_row app) ([], []) (coverage_rows input);
          unres = filter (\<lambda>i. i \<notin> set rep \<and> i \<notin> set excl) app;
          handled = length rep + length (filter (\<lambda>i. i \<notin> set rep) excl)
      in \<lparr> applicable = length app, represented = length rep, excluded = length excl,
           unresolved = length unres, unsupportedRows = length unsup,
           percentage = coverage_percentage handled (length app),
           unresolvedRequirementIds = sort unres, unsupportedFeatureIds = sort unsup \<rparr>)"

section \<open>Hours\<close>

definition add_role :: "effort \<Rightarrow> string \<times> rat \<Rightarrow> effort" where
  "add_role acc entry =
     (let old = (case map_of acc (fst entry) of None \<Rightarrow> 0 | Some h \<Rightarrow> h)
      in AList.update (fst entry) (to_fixed2 (js_plus old (snd entry))) acc)"

definition aggregateFeatureEffort :: "effort list \<Rightarrow> effort" where
  "aggregateFeatureEffort units = foldl (\<lambda>acc unit. foldl add_role acc unit) [] units"

record estimate_unit =
  unit_id :: string
  unit_hours :: rat
  unit_excluded :: bool

record effort_reconciliation =
  estimateHours :: rat
  documentHours :: rat
  differenceHours :: rat
  reconciles :: bool
  uncitedUnitIds :: "string list"
  unknownUnitIds :: "string list"

definition reconcileFeatureEffort ::
  "estimate_unit list \<Rightarrow> string list list \<Rightarrow> effort_reconciliation" where
  "reconcileFeatureEffort units rows =
     (let counted = filter (\<lambda>u. \<not> unit_excluded u) units;
          byId = foldl (\<lambda>m u. AList.update (unit_id u) (unit_hours u) m) [] counted;
          cited = js_set (concat rows);
          unknown = filter (\<lambda>i. map_of byId i = None) cited;
          uncited = map unit_id (filter (\<lambda>u. unit_id u \<notin> set cited) counted);
          est = to_fixed2 (foldl js_plus 0 (map unit_hours counted));
          docu = to_fixed2 (foldl js_plus 0
            (map (\<lambda>i. case map_of byId i of None \<Rightarrow> 0 | Some h \<Rightarrow> h) cited));
          difference = to_fixed2 \<bar>js_plus est (- docu)\<bar>
      in \<lparr> estimateHours = est, documentHours = docu, differenceHours = difference,
           reconciles = (difference = 0 \<and> unknown = []),
           uncitedUnitIds = sort uncited, unknownUnitIds = sort unknown \<rparr>)"

section \<open>Duplicates and hierarchy\<close>

text \<open>\<open>part.toLowerCase().replace(/[^a-z0-9]+/g, ' ').trim()\<close>.\<close>

definition ascii_word :: "char \<Rightarrow> bool" where
  "ascii_word c =
     (let n = (of_char c :: nat) in (97 \<le> n \<and> n \<le> 122) \<or> (48 \<le> n \<and> n \<le> 57))"

function squash_other :: "string \<Rightarrow> string" where
  "squash_other [] = []"
| "squash_other (c # cs) =
     (if ascii_word c then c # squash_other cs
      else CHR '' '' # squash_other (dropWhile (\<lambda>d. \<not> ascii_word d) cs))"
  by pat_completeness auto
termination
  by (relation "measure length") (auto simp: le_imp_less_Suc length_dropWhile_le)

definition normalise_part :: "string \<Rightarrow> string" where
  "normalise_part s = js_trim (squash_other (js_lower s))"

definition feature_key :: "feature_wording \<Rightarrow> string" where
  "feature_key w =
     js_join ''::'' (map normalise_part [feature_module w, submodule w, screen w, description w])"

definition add_group :: "(string \<times> 'a list) list \<Rightarrow> string \<Rightarrow> 'a \<Rightarrow> (string \<times> 'a list) list" where
  "add_group groups key x =
     AList.update key ((case map_of groups key of None \<Rightarrow> [] | Some xs \<Rightarrow> xs) @ [x]) groups"

definition findDuplicateFeatures :: "(string \<times> feature_wording) list \<Rightarrow> string list list" where
  "findDuplicateFeatures rows =
     filter (\<lambda>ids. 1 < length ids)
       (map snd (foldl (\<lambda>g row. add_group g (feature_key (snd row)) (fst row)) [] rows))"

definition add_module ::
  "(string \<times> string list) list \<Rightarrow> feature_wording \<Rightarrow> (string \<times> string list) list" where
  "add_module acc w =
     (if submodule w = [] then acc
      else let key = js_trim (js_lower (submodule w));
               mods = (case map_of acc key of None \<Rightarrow> [] | Some ms \<Rightarrow> ms)
           in AList.update key (set_add mods (feature_module w)) acc)"

definition inconsistentHierarchy :: "feature_wording list \<Rightarrow> (string \<times> string list) list" where
  "inconsistentHierarchy rows =
     map (\<lambda>(key, mods). (key, sort mods))
       (filter (\<lambda>(_, mods). 1 < length mods) (foldl add_module [] rows))"

section \<open>Write shapes\<close>

definition EDITABLE_FEATURE_FIELDS :: "string list" where
  "EDITABLE_FEATURE_FIELDS = [''module'', ''submodule'', ''screen'', ''description'', ''notes'']"

definition EFFORT_FIELD_NAMES :: "string list" where
  "EFFORT_FIELD_NAMES =
     [''effort'', ''totalHours'', ''backendHours'', ''frontendHours'', ''qaHours'', ''hours'',
      ''estimatedHours'']"

definition attemptsEffortEdit :: "string list \<Rightarrow> bool" where
  "attemptsEffortEdit payload_keys = list_ex (\<lambda>k. k \<in> set EFFORT_FIELD_NAMES) payload_keys"

lemma editable_fields_are_not_effort: "\<not> attemptsEffortEdit EDITABLE_FEATURE_FIELDS"
  by (simp add: attemptsEffortEdit_def EDITABLE_FEATURE_FIELDS_def EFFORT_FIELD_NAMES_def)

section \<open>What coverage counts\<close>

definition cited_ids :: "coverage_input \<Rightarrow> string set" where
  "cited_ids input =
     (\<Union>row\<in>set (coverage_rows input). set (snd row)) \<inter> set (applicableRequirementIds input)"

definition left_out_ids :: "coverage_input \<Rightarrow> string set" where
  "left_out_ids input =
     set (excludedRequirementIds input) \<inter> set (applicableRequirementIds input)"

lemma cover_rows_represented:
  "set (fst (foldl (cover_row app) acc rows)) =
     set (fst acc) \<union> ((\<Union>row\<in>set rows. set (snd row)) \<inter> set app)"
  by (induction rows arbitrary: acc) (auto simp: cover_row_def foldl_set_add Let_def)

lemma cover_rows_distinct:
  "distinct (fst acc) \<Longrightarrow> distinct (fst (foldl (cover_row app) acc rows))"
  by (induction rows arbitrary: acc) (simp_all add: cover_row_def foldl_set_add Let_def)

lemma cover_rows_unsupported:
  "snd (foldl (cover_row app) acc rows) =
     snd acc @ map fst (filter (\<lambda>row. set (snd row) \<inter> set app = {}) rows)"
proof (induction rows arbitrary: acc)
  case (Cons row rows)
  have "filter (\<lambda>i. i \<in> set app) (snd row) = [] \<longleftrightarrow> set (snd row) \<inter> set app = {}"
    by (auto simp: filter_empty_conv)
  with Cons show ?case by (simp add: cover_row_def Let_def)
qed simp

lemma coverage_unfold:
  assumes "app = js_set (applicableRequirementIds input)"
    and "excl = js_set (filter (\<lambda>i. i \<in> set app) (excludedRequirementIds input))"
    and "rep = fst (foldl (cover_row app) ([], []) (coverage_rows input))"
    and "unres = filter (\<lambda>i. i \<notin> set rep \<and> i \<notin> set excl) app"
    and "unsup = snd (foldl (cover_row app) ([], []) (coverage_rows input))"
  shows "calculateFeatureCoverage input =
    \<lparr> applicable = length app, represented = length rep, excluded = length excl,
      unresolved = length unres, unsupportedRows = length unsup,
      percentage = coverage_percentage
        (length rep + length (filter (\<lambda>i. i \<notin> set rep) excl)) (length app),
      unresolvedRequirementIds = sort unres, unsupportedFeatureIds = sort unsup \<rparr>"
  unfolding assms calculateFeatureCoverage_def by (simp add: Let_def split_beta)

lemma coverage_counts:
  "applicable (calculateFeatureCoverage input) = card (set (applicableRequirementIds input))
   \<and> represented (calculateFeatureCoverage input) = card (cited_ids input)
   \<and> excluded (calculateFeatureCoverage input) = card (left_out_ids input)
   \<and> set (unresolvedRequirementIds (calculateFeatureCoverage input)) =
       set (applicableRequirementIds input) - (cited_ids input \<union> left_out_ids input)
   \<and> unresolved (calculateFeatureCoverage input) =
       applicable (calculateFeatureCoverage input) - card (cited_ids input \<union> left_out_ids input)
   \<and> percentage (calculateFeatureCoverage input) =
       coverage_percentage (card (cited_ids input \<union> left_out_ids input))
         (card (set (applicableRequirementIds input)))
   \<and> (unresolved (calculateFeatureCoverage input) = 0 \<longleftrightarrow>
       set (applicableRequirementIds input) \<subseteq> cited_ids input \<union> left_out_ids input)"
proof -
  define app where "app = js_set (applicableRequirementIds input)"
  define excl where "excl = js_set (filter (\<lambda>i. i \<in> set app) (excludedRequirementIds input))"
  define rep where "rep = fst (foldl (cover_row app) ([], []) (coverage_rows input))"
  define unres where "unres = filter (\<lambda>i. i \<notin> set rep \<and> i \<notin> set excl) app"
  note c = coverage_unfold [OF app_def excl_def rep_def unres_def refl]
  have app: "set app = set (applicableRequirementIds input)" "distinct app"
    by (simp_all add: app_def)
  have rep: "set rep = cited_ids input" "distinct rep"
    by (simp_all add: rep_def cover_rows_represented cover_rows_distinct cited_ids_def app)
  have excl: "set excl = left_out_ids input" "distinct excl"
    by (auto simp: excl_def left_out_ids_def app)
  have unres: "set unres = set app - (cited_ids input \<union> left_out_ids input)" "distinct unres"
    by (auto simp: unres_def rep excl app)
  have sub: "cited_ids input \<union> left_out_ids input \<subseteq> set app"
    by (auto simp: app cited_ids_def left_out_ids_def)
  have "length unres = card (set app) - card (cited_ids input \<union> left_out_ids input)"
    using unres sub by (metis card_Diff_subset distinct_card finite_set rev_finite_subset)
  moreover have "length rep + length (filter (\<lambda>i. i \<notin> set rep) excl) =
      card (cited_ids input \<union> left_out_ids input)"
  proof -
    have "length (filter (\<lambda>i. i \<notin> set rep) excl) = card (left_out_ids input - cited_ids input)"
      using excl by (metis distinct_card distinct_filter rep(1) set_diff_eq set_filter)
    moreover have "length rep = card (cited_ids input)"
      using rep by (metis distinct_card)
    ultimately show ?thesis
      by (metis List.finite_set Un_Diff_cancel card_Un_disjoint Diff_disjoint excl(1)
          finite_Diff rep(1))
  qed
  moreover have "length unres = 0 \<longleftrightarrow> set app \<subseteq> cited_ids input \<union> left_out_ids input"
    using unres(1) by (metis Diff_eq_empty_iff length_0_conv set_empty)
  ultimately show ?thesis
    using app rep excl unres by (simp add: c distinct_card [symmetric])
qed

text \<open>
  Coverage is the disposition of the requirements and nothing else: every applicable
  requirement is counted once, as represented by a row, as excluded or as unresolved; the
  percentage is taken over the distinct requirements that are represented or excluded; and
  the unresolved requirements are listed exactly, none remaining just when every applicable
  one is represented or excluded.
\<close>
theorem coverage_counts_dispositions:
  "applicable (calculateFeatureCoverage input) = card (set (applicableRequirementIds input))
   \<and> represented (calculateFeatureCoverage input) = card (cited_ids input)
   \<and> excluded (calculateFeatureCoverage input) = card (left_out_ids input)
   \<and> set (unresolvedRequirementIds (calculateFeatureCoverage input)) =
       set (applicableRequirementIds input) - (cited_ids input \<union> left_out_ids input)
   \<and> unresolved (calculateFeatureCoverage input) =
       applicable (calculateFeatureCoverage input) - card (cited_ids input \<union> left_out_ids input)
   \<and> percentage (calculateFeatureCoverage input) =
       coverage_percentage (card (cited_ids input \<union> left_out_ids input))
         (card (set (applicableRequirementIds input)))
   \<and> (unresolved (calculateFeatureCoverage input) = 0 \<longleftrightarrow>
       set (applicableRequirementIds input) \<subseteq> cited_ids input \<union> left_out_ids input)"
  by (rule coverage_counts)

lemma complete_coverage_is_100:
  assumes all: "set (applicableRequirementIds input) \<subseteq> cited_ids input \<union> left_out_ids input"
    and "applicableRequirementIds input \<noteq> []"
  shows "percentage (calculateFeatureCoverage input) = 100"
proof -
  have "cited_ids input \<union> left_out_ids input = set (applicableRequirementIds input)"
    using assms(1) by (auto simp: cited_ids_def left_out_ids_def)
  moreover have "to_fixed1 (js_mult (round_double 1) 100) = 100"
    by code_simp
  then have "n \<noteq> 0 \<Longrightarrow> coverage_percentage n n = 100" for n
    by (simp add: coverage_percentage_def js_div_def)
  ultimately show ?thesis
    using assms(2) coverage_counts [of input] by (simp add: card_gt_0_iff)
qed

lemma rounded_to_complete: "coverage_percentage 2000 2001 = 100"
proof -
  have "js_div 2000 2001 = 4501348952894049 / 4503599627370496"
    unfolding js_div_def
    by (subst round_double_at [of "- 1"]) (simp_all add: pow2_def round_half_even_def)
  then have "coverage_percentage 2000 2001
      = to_fixed1 (js_mult (4501348952894049 / 4503599627370496) 100)"
    unfolding coverage_percentage_def by (simp only: of_nat_numeral) simp
  also have "js_mult (4501348952894049 / 4503599627370496) 100 = 879169717362119 / 8796093022208"
    unfolding js_mult_def
    by (subst round_double_at [of 6]) (simp_all add: pow2_def round_half_even_def)
  also have "to_fixed1 (879169717362119 / 8796093022208) = 100"
    unfolding to_fixed1_def
    by (subst round_double_at [of 6]) (simp_all add: pow2_def round_half_even_def)
  finally show ?thesis .
qed

section \<open>What counts as a duplicate\<close>

definition ids_with_key :: "(string \<times> feature_wording) list \<Rightarrow> string \<Rightarrow> string list" where
  "ids_with_key rows key = map fst (filter (\<lambda>row. feature_key (snd row) = key) rows)"

lemma group_rows:
  "map_of (foldl (\<lambda>g row. add_group g (feature_key (snd row)) (fst row)) g0 rows) key =
     (if map_of g0 key = None \<and> ids_with_key rows key = [] then None
      else Some ((case map_of g0 key of None \<Rightarrow> [] | Some xs \<Rightarrow> xs) @ ids_with_key rows key))"
  by (induction rows arbitrary: g0)
    (auto simp: add_group_def ids_with_key_def update_conv split: option.splits)

lemma group_keys_distinct:
  "distinct (map fst g0) \<Longrightarrow>
   distinct (map fst (foldl (\<lambda>g row. add_group g (feature_key (snd row)) (fst row)) g0 rows))"
  by (induction rows arbitrary: g0) (simp_all add: add_group_def distinct_update)

text \<open>
  A duplicate group is exactly the rows, in their order, whose module, submodule, screen
  and description agree once lower-cased and stripped of everything but letters a to z and
  digits, and every such class of two or more rows is reported.
\<close>
theorem duplicate_groups_exact:
  "ids \<in> set (findDuplicateFeatures rows) \<longleftrightarrow>
     (\<exists>key. ids = ids_with_key rows key \<and> 1 < length ids)"
proof -
  let ?g = "foldl (\<lambda>g row. add_group g (feature_key (snd row)) (fst row)) [] rows"
  have look: "map_of ?g key = (if ids_with_key rows key = [] then None
      else Some (ids_with_key rows key))" for key
    using group_rows [of "[]" rows key] by simp
  have "ids \<in> snd ` set ?g \<longleftrightarrow> (\<exists>key. map_of ?g key = Some ids)"
    using map_of_eq_Some_iff [OF group_keys_distinct [of "[]" rows]]
    by (force simp: image_iff)
  also have "\<dots> \<longleftrightarrow> (\<exists>key. ids = ids_with_key rows key \<and> ids \<noteq> [])"
    unfolding look by (metis option.distinct(1) option.inject)
  finally show ?thesis
    by (auto simp: findDuplicateFeatures_def)
qed

text \<open>Two features described in letters outside a to z are one feature to the check.\<close>

definition accented :: "char \<Rightarrow> feature_wording" where
  "accented c = \<lparr> feature_module = ''M'', submodule = [], screen = [], description = [c] \<rparr>"

lemma accented_features_collide:
  "findDuplicateFeatures [(''f1'', accented (CHR 0xE9)), (''f2'', accented (CHR 0xFC))]
     = [[''f1'', ''f2'']]"
  by code_simp

end
