(* ===== verification/DocumentLifecycle.thy ===== *)
theory DocumentLifecycle
  imports Prelude "HOL-Library.Sublist"
begin

text \<open>
  The controlled documents: their types and order (document-type.contract.ts), their
  lifecycle status and currentness (document-status.contract.ts), and the dependency
  graph that decides what is locked, what is downstream and what is out of date
  (document-dependency.ts), all under packages/contracts/src/documents. The labels,
  descriptions and summary sentences are prose and are left out; the reason of a lock and
  the cause, document and versions of an outdated reason are kept.
\<close>

section \<open>Document types\<close>

datatype document_type =
    OUR_UNDERSTANDING
  | FEATURE_LISTING
  | ACCEPTANCE_CRITERIA
  | ASSUMPTIONS
  | STATEMENT_OF_WORK
  | WORK_BREAKDOWN_STRUCTURE
  | CLIENT_DEPENDENCY_SHEET

definition DOCUMENT_TYPES :: "document_type list" where
  "DOCUMENT_TYPES =
     [OUR_UNDERSTANDING, FEATURE_LISTING, ACCEPTANCE_CRITERIA, ASSUMPTIONS,
      STATEMENT_OF_WORK, WORK_BREAKDOWN_STRUCTURE, CLIENT_DEPENDENCY_SHEET]"

definition IMPLEMENTED_DOCUMENT_TYPES :: "document_type list" where
  "IMPLEMENTED_DOCUMENT_TYPES =
     [OUR_UNDERSTANDING, FEATURE_LISTING, ACCEPTANCE_CRITERIA, ASSUMPTIONS,
      STATEMENT_OF_WORK, WORK_BREAKDOWN_STRUCTURE, CLIENT_DEPENDENCY_SHEET]"

definition isImplementedDocumentType :: "document_type \<Rightarrow> bool" where
  "isImplementedDocumentType t = (t \<in> set IMPLEMENTED_DOCUMENT_TYPES)"

fun DOCUMENT_ORDER :: "document_type \<Rightarrow> nat" where
  "DOCUMENT_ORDER OUR_UNDERSTANDING = 1"
| "DOCUMENT_ORDER FEATURE_LISTING = 2"
| "DOCUMENT_ORDER ACCEPTANCE_CRITERIA = 3"
| "DOCUMENT_ORDER ASSUMPTIONS = 4"
| "DOCUMENT_ORDER STATEMENT_OF_WORK = 5"
| "DOCUMENT_ORDER WORK_BREAKDOWN_STRUCTURE = 6"
| "DOCUMENT_ORDER CLIENT_DEPENDENCY_SHEET = 7"

datatype document_shape = SECTIONS | ROWS

fun DOCUMENT_SHAPE_BY_TYPE :: "document_type \<Rightarrow> document_shape" where
  "DOCUMENT_SHAPE_BY_TYPE OUR_UNDERSTANDING = SECTIONS"
| "DOCUMENT_SHAPE_BY_TYPE FEATURE_LISTING = ROWS"
| "DOCUMENT_SHAPE_BY_TYPE ACCEPTANCE_CRITERIA = ROWS"
| "DOCUMENT_SHAPE_BY_TYPE ASSUMPTIONS = ROWS"
| "DOCUMENT_SHAPE_BY_TYPE STATEMENT_OF_WORK = SECTIONS"
| "DOCUMENT_SHAPE_BY_TYPE WORK_BREAKDOWN_STRUCTURE = ROWS"
| "DOCUMENT_SHAPE_BY_TYPE CLIENT_DEPENDENCY_SHEET = ROWS"

fun DOCUMENT_ROW_KIND_BY_TYPE :: "document_type \<Rightarrow> string option" where
  "DOCUMENT_ROW_KIND_BY_TYPE FEATURE_LISTING = Some ''FEATURE''"
| "DOCUMENT_ROW_KIND_BY_TYPE ACCEPTANCE_CRITERIA = Some ''ACCEPTANCE_CRITERION''"
| "DOCUMENT_ROW_KIND_BY_TYPE ASSUMPTIONS = Some ''ASSUMPTION''"
| "DOCUMENT_ROW_KIND_BY_TYPE WORK_BREAKDOWN_STRUCTURE = Some ''WORK_PACKAGE''"
| "DOCUMENT_ROW_KIND_BY_TYPE CLIENT_DEPENDENCY_SHEET = Some ''CLIENT_DEPENDENCY''"
| "DOCUMENT_ROW_KIND_BY_TYPE OUR_UNDERSTANDING = None"
| "DOCUMENT_ROW_KIND_BY_TYPE STATEMENT_OF_WORK = None"

lemma all_document_types [simp]: "t \<in> set DOCUMENT_TYPES"
  by (cases t) (simp_all add: DOCUMENT_TYPES_def)

lemma DOCUMENT_ORDER_inj: "DOCUMENT_ORDER t = DOCUMENT_ORDER u \<Longrightarrow> t = u"
  by (cases t; cases u) simp_all

text \<open>The canonical order makes the type an instance of the library's linear orders.\<close>

instantiation document_type :: linorder
begin

definition less_eq_document_type :: "document_type \<Rightarrow> document_type \<Rightarrow> bool" where
  "less_eq_document_type t u = (DOCUMENT_ORDER t \<le> DOCUMENT_ORDER u)"

definition less_document_type :: "document_type \<Rightarrow> document_type \<Rightarrow> bool" where
  "less_document_type t u = (DOCUMENT_ORDER t < DOCUMENT_ORDER u)"

instance
  by standard (auto simp: less_eq_document_type_def less_document_type_def intro: DOCUMENT_ORDER_inj)

end

lemma sorted_document_types: "sorted DOCUMENT_TYPES" "distinct DOCUMENT_TYPES"
  by (simp_all add: DOCUMENT_TYPES_def less_eq_document_type_def)

section \<open>Status and currentness\<close>

datatype document_status =
    NOT_STARTED
  | QUEUED
  | GENERATING
  | DRAFT
  | NEEDS_REVISION
  | APPROVED
  | FINAL
  | FAILED

datatype document_currentness = CURRENT | OUTDATED

record document_state =
  ds_status :: document_status
  ds_currentness :: document_currentness

fun DOCUMENT_TRANSITIONS :: "document_status \<Rightarrow> document_status list" where
  "DOCUMENT_TRANSITIONS NOT_STARTED = [QUEUED]"
| "DOCUMENT_TRANSITIONS QUEUED = [GENERATING, FAILED]"
| "DOCUMENT_TRANSITIONS GENERATING = [DRAFT, FAILED]"
| "DOCUMENT_TRANSITIONS DRAFT = [QUEUED, DRAFT, NEEDS_REVISION, APPROVED]"
| "DOCUMENT_TRANSITIONS NEEDS_REVISION = [QUEUED, DRAFT, NEEDS_REVISION, APPROVED]"
| "DOCUMENT_TRANSITIONS APPROVED = [QUEUED, DRAFT, NEEDS_REVISION, FINAL]"
| "DOCUMENT_TRANSITIONS FINAL = []"
| "DOCUMENT_TRANSITIONS FAILED = [QUEUED, NOT_STARTED]"

definition canTransitionDocument :: "document_status \<Rightarrow> document_status \<Rightarrow> bool" where
  "canTransitionDocument from to = (to \<in> set (DOCUMENT_TRANSITIONS from))"

definition AUTHORITATIVE_DOCUMENT_STATUSES :: "document_status list" where
  "AUTHORITATIVE_DOCUMENT_STATUSES = [APPROVED, FINAL]"

definition isDocumentAuthoritative :: "document_status \<Rightarrow> bool" where
  "isDocumentAuthoritative status = (status \<in> set AUTHORITATIVE_DOCUMENT_STATUSES)"

definition isAuthoritativeState :: "document_state \<Rightarrow> bool" where
  "isAuthoritativeState s =
     (isDocumentAuthoritative (ds_status s) \<and> ds_currentness s = CURRENT)"

definition isDocumentEditable :: "document_status \<Rightarrow> bool" where
  "isDocumentEditable status = (status = DRAFT \<or> status = NEEDS_REVISION \<or> status = APPROVED)"

definition canGenerateDocument :: "document_status \<Rightarrow> bool" where
  "canGenerateDocument status = canTransitionDocument status QUEUED"

definition canApproveDocument :: "document_state \<Rightarrow> bool" where
  "canApproveDocument s =
     (ds_currentness s = CURRENT \<and> canTransitionDocument (ds_status s) APPROVED)"

definition canIssueDocument :: "document_state \<Rightarrow> bool" where
  "canIssueDocument s =
     (ds_currentness s = CURRENT \<and> canTransitionDocument (ds_status s) FINAL)"

definition isDocumentRunning :: "document_status \<Rightarrow> bool" where
  "isDocumentRunning status = (status = QUEUED \<or> status = GENERATING)"

lemmas [table_simps] =
  canTransitionDocument_def AUTHORITATIVE_DOCUMENT_STATUSES_def isDocumentAuthoritative_def
  isAuthoritativeState_def isDocumentEditable_def canGenerateDocument_def
  canApproveDocument_def canIssueDocument_def isDocumentRunning_def

interpretation docs: status_table DOCUMENT_TRANSITIONS canTransitionDocument "\<lambda>s. s = FINAL"
  by unfold_locales (auto simp: canTransitionDocument_def)

section \<open>Runs of the lifecycle\<close>

fun lifecycle_run :: "document_status list \<Rightarrow> bool" where
  "lifecycle_run [] = True"
| "lifecycle_run [s] = (s = NOT_STARTED)"
| "lifecycle_run (t # s # run) = (canTransitionDocument s t \<and> lifecycle_run (s # run))"

text \<open>The statuses every run must have been through before it can be in a given one.\<close>

fun required_before :: "document_status \<Rightarrow> document_status list" where
  "required_before NOT_STARTED = []"
| "required_before QUEUED = [NOT_STARTED]"
| "required_before GENERATING = [QUEUED, NOT_STARTED]"
| "required_before FAILED = [QUEUED, NOT_STARTED]"
| "required_before DRAFT = [GENERATING, QUEUED, NOT_STARTED]"
| "required_before NEEDS_REVISION = [DRAFT, GENERATING, QUEUED, NOT_STARTED]"
| "required_before APPROVED = [DRAFT, GENERATING, QUEUED, NOT_STARTED]"
| "required_before FINAL = [APPROVED, DRAFT, GENERATING, QUEUED, NOT_STARTED]"

lemma required_step:
  "canTransitionDocument s t \<Longrightarrow> subseq (required_before t) (s # required_before s)"
  by (cases s; cases t) (simp_all add: canTransitionDocument_def)

lemma lifecycle_required: "lifecycle_run (s # run) \<Longrightarrow> subseq (required_before s) run"
proof (induction run arbitrary: s)
  case (Cons t run)
  then have "canTransitionDocument t s" and "subseq (required_before t) run" by auto
  then have "subseq (required_before s) (t # required_before t)"
    and "subseq (t # required_before t) (t # run)"
    by (auto intro: required_step)
  then show ?case by (rule subseq_order.trans)
qed simp

text \<open>
  The lifecycle, written newest first: a document that was issued has been
  queued, generated, drafted and approved, in that order, whatever detours its run took;
  the step before the issue is the approved status, and nothing follows an issue.
\<close>

theorem issued_document_history:
  "lifecycle_run (newer @ FINAL # older) \<Longrightarrow>
     subseq [APPROVED, DRAFT, GENERATING, QUEUED, NOT_STARTED] older \<and>
     hd older = APPROVED \<and> newer = []"
proof -
  assume run: "lifecycle_run (newer @ FINAL # older)"
  then have final: "lifecycle_run (FINAL # older)"
    by (induction newer rule: lifecycle_run.induct) (auto simp: neq_Nil_conv)
  have "newer = []"
  proof (rule ccontr)
    assume "newer \<noteq> []"
    then obtain n t where "newer = n @ [t]" by (metis rev_exhaust)
    with run have "lifecycle_run (t # FINAL # older)"
      by (induction n arbitrary: newer) (auto elim: lifecycle_run.elims)
    then show False using docs.final_is_stuck by simp
  qed
  moreover from final have "hd older = APPROVED"
  proof (cases older)
    case (Cons s run)
    with final show ?thesis by (cases s) (auto simp: canTransitionDocument_def)
  qed simp
  ultimately show ?thesis using lifecycle_required [OF final] by simp
qed

theorem issued_document_history_witness:
  "subseq [APPROVED, DRAFT, GENERATING, QUEUED, NOT_STARTED]
     [APPROVED, DRAFT, APPROVED, NEEDS_REVISION, DRAFT, GENERATING, QUEUED, NOT_STARTED, FAILED,
      QUEUED, NOT_STARTED]"
  (is "subseq _ ?older")
proof -
  have "lifecycle_run ([] @ FINAL # ?older)"
    by (simp add: canTransitionDocument_def)
  then show ?thesis using issued_document_history [of "[]" ?older] by blast
qed

end
