(* ===== verification/DocumentDependency.thy ===== *)
theory DocumentDependency
  imports DocumentLifecycle
begin

text \<open>
  packages/contracts/src/documents/document-dependency.ts: the table of what each document
  is built from, the transitive propagation over it, the lock of a document and the
  reasons it is out of date. The engine of the code knows nothing about a particular
  document, it only reads the table: what it relies on is the locale \<open>document_graph\<close>,
  interpreted on the table at the end of the first section.
\<close>

section \<open>The table\<close>

datatype upstream_kind = REQUIREMENT_BASELINE | TECHNOLOGY_STACK | ESTIMATION_SNAPSHOT

record document_dependencies =
  dd_upstream :: "upstream_kind list"
  dd_documents :: "document_type list"

fun DOCUMENT_DEPENDENCIES :: "document_type \<Rightarrow> document_dependencies" where
  "DOCUMENT_DEPENDENCIES OUR_UNDERSTANDING =
     \<lparr>dd_upstream = [REQUIREMENT_BASELINE], dd_documents = []\<rparr>"
| "DOCUMENT_DEPENDENCIES FEATURE_LISTING =
     \<lparr>dd_upstream = [REQUIREMENT_BASELINE, TECHNOLOGY_STACK, ESTIMATION_SNAPSHOT],
      dd_documents = [OUR_UNDERSTANDING]\<rparr>"
| "DOCUMENT_DEPENDENCIES ACCEPTANCE_CRITERIA =
     \<lparr>dd_upstream = [REQUIREMENT_BASELINE], dd_documents = [FEATURE_LISTING]\<rparr>"
| "DOCUMENT_DEPENDENCIES ASSUMPTIONS =
     \<lparr>dd_upstream = [REQUIREMENT_BASELINE, TECHNOLOGY_STACK],
      dd_documents = [ACCEPTANCE_CRITERIA]\<rparr>"
| "DOCUMENT_DEPENDENCIES STATEMENT_OF_WORK =
     \<lparr>dd_upstream = [REQUIREMENT_BASELINE, TECHNOLOGY_STACK, ESTIMATION_SNAPSHOT],
      dd_documents = [ASSUMPTIONS]\<rparr>"
| "DOCUMENT_DEPENDENCIES WORK_BREAKDOWN_STRUCTURE =
     \<lparr>dd_upstream = [REQUIREMENT_BASELINE, TECHNOLOGY_STACK, ESTIMATION_SNAPSHOT],
      dd_documents = [STATEMENT_OF_WORK]\<rparr>"
| "DOCUMENT_DEPENDENCIES CLIENT_DEPENDENCY_SHEET =
     \<lparr>dd_upstream = [REQUIREMENT_BASELINE, TECHNOLOGY_STACK],
      dd_documents = [ASSUMPTIONS, WORK_BREAKDOWN_STRUCTURE]\<rparr>"

definition documentBefore :: "document_type \<Rightarrow> document_type option" where
  "documentBefore t =
     (let order = DOCUMENT_ORDER t
      in find (\<lambda>candidate. DOCUMENT_ORDER candidate = order - 1) DOCUMENT_TYPES)"

definition documentsDependingOn :: "document_type \<Rightarrow> document_type list" where
  "documentsDependingOn t =
     filter (\<lambda>candidate. t \<in> set (dd_documents (DOCUMENT_DEPENDENCIES candidate))) DOCUMENT_TYPES"

definition documentsDependingOnUpstream :: "upstream_kind \<Rightarrow> document_type list" where
  "documentsDependingOnUpstream kind =
     filter (\<lambda>candidate. kind \<in> set (dd_upstream (DOCUMENT_DEPENDENCIES candidate))) DOCUMENT_TYPES"

text \<open>
  The work list of \<open>downstreamDocuments\<close>: the found set in insertion order and the queue.
  The inner loop offers one dependent, the outer loop takes the head of the queue.
\<close>

definition offer_dependent ::
  "document_type \<Rightarrow> document_type list \<times> document_type list
    \<Rightarrow> document_type list \<times> document_type list" where
  "offer_dependent d fq =
     (case fq of (found, queue) \<Rightarrow>
        if d \<in> set found then (found, queue) else (found @ [d], queue @ [d]))"

definition unfound :: "document_type list \<Rightarrow> nat" where
  "unfound found = length (filter (\<lambda>d. d \<notin> set found) DOCUMENT_TYPES)"

lemma unfound_snoc: "d \<notin> set found \<Longrightarrow> Suc (unfound (found @ [d])) = unfound found"
  by (cases d) (auto simp: unfound_def DOCUMENT_TYPES_def)

lemma offer_measure:
  "fold offer_dependent ds (found, queue) = (f, q) \<Longrightarrow>
     2 * unfound f + length q \<le> 2 * unfound found + length queue"
proof (induction ds arbitrary: found queue)
  case (Cons d ds)
  show ?case
  proof (cases "d \<in> set found")
    case True
    with Cons show ?thesis by (simp add: offer_dependent_def)
  next
    case False
    with Cons.prems
    have "2 * unfound f + length q \<le> 2 * unfound (found @ [d]) + length (queue @ [d])"
      by (intro Cons.IH) (simp add: offer_dependent_def)
    with unfound_snoc [OF False] show ?thesis by simp
  qed
qed simp

function downstream_loop :: "document_type list \<Rightarrow> document_type list \<Rightarrow> document_type list" where
  "downstream_loop found [] = found"
| "downstream_loop found (x # queue) =
     (case fold offer_dependent (documentsDependingOn x) (found, queue) of
        (f, q) \<Rightarrow> downstream_loop f q)"
  by pat_completeness auto
termination
  by (relation "measure (\<lambda>(found, queue). 2 * unfound found + length queue)")
    (auto simp: less_Suc_eq_le dest!: sym [of "(_, _)"] intro: offer_measure)

definition downstreamDocuments :: "document_type \<Rightarrow> document_type list" where
  "downstreamDocuments t =
     (let found = downstream_loop [] [t]
      in filter (\<lambda>candidate. candidate \<in> set found) DOCUMENT_TYPES)"

section \<open>What the engine relies on\<close>

locale document_graph =
  fixes prereqs :: "'d \<Rightarrow> 'd list"
    and ord :: "'d \<Rightarrow> nat"
  assumes prereq_before: "p \<in> set (prereqs d) \<Longrightarrow> ord p < ord d"
    and sequential: "ord p < ord d \<Longrightarrow> \<exists>q. q \<in> set (prereqs d) \<and> ord p \<le> ord q"
    and ord_inj: "ord p = ord q \<Longrightarrow> p = q"
begin

lemma feeds_before: "(p, d) \<in> {(p, d). p \<in> set (prereqs d)}\<^sup>+ \<Longrightarrow> ord p < ord d"
  by (induction rule: trancl_induct) (auto dest: prereq_before)

lemma before_feeds: "ord p < ord d \<Longrightarrow> (p, d) \<in> {(p, d). p \<in> set (prereqs d)}\<^sup>+"
proof (induction "ord d" arbitrary: d rule: less_induct)
  case less
  from sequential [OF less.prems]
  obtain q where q: "q \<in> set (prereqs d)" and "ord p \<le> ord q" by blast
  then consider "p = q" | "ord p < ord q" by (auto dest: ord_inj simp: le_less)
  then show ?case
  proof cases
    case 1
    with q show ?thesis by blast
  next
    case 2
    with less.hyps [OF prereq_before [OF q]] q show ?thesis
      by (simp add: trancl.trancl_into_trancl)
  qed
qed

lemma feeds_iff: "(p, d) \<in> {(p, d). p \<in> set (prereqs d)}\<^sup>+ \<longleftrightarrow> ord p < ord d"
  using feeds_before before_feeds by blast

lemma feeds_acyclic: "acyclic {(p, d). p \<in> set (prereqs d)}"
  by (rule acyclicI) (auto dest: feeds_before)

end

definition feeds :: "(document_type \<times> document_type) set" where
  "feeds = {(p, d). p \<in> set (dd_documents (DOCUMENT_DEPENDENCIES d))}"

lemma table_sequential:
  "DOCUMENT_ORDER p < DOCUMENT_ORDER d \<Longrightarrow>
     \<exists>q. q \<in> set (dd_documents (DOCUMENT_DEPENDENCIES d)) \<and> DOCUMENT_ORDER p \<le> DOCUMENT_ORDER q"
  by (cases d; cases p) auto

interpretation graph: document_graph
    "\<lambda>d. dd_documents (DOCUMENT_DEPENDENCIES d)" DOCUMENT_ORDER
proof unfold_locales
  fix p d
  assume "p \<in> set (dd_documents (DOCUMENT_DEPENDENCIES d))"
  then show "DOCUMENT_ORDER p < DOCUMENT_ORDER d" by (cases d) auto
qed (auto intro: table_sequential DOCUMENT_ORDER_inj)

lemma dependents_iff: "d \<in> set (documentsDependingOn t) \<longleftrightarrow> (t, d) \<in> feeds"
  by (simp add: documentsDependingOn_def feeds_def)

subsection \<open>The work list computes the transitive closure\<close>

lemma set_offer:
  "fold offer_dependent ds (found, queue) = (f, q) \<Longrightarrow>
     set f = set found \<union> set ds \<and> set q = set queue \<union> (set ds - set found)"
proof (induction ds arbitrary: found queue)
  case (Cons d ds)
  show ?case
  proof (cases "d \<in> set found")
    case True
    with Cons.prems Cons.IH [of found queue] show ?thesis by (auto simp: offer_dependent_def)
  next
    case False
    with Cons.prems Cons.IH [of "found @ [d]" "queue @ [d]"] show ?thesis
      by (auto simp: offer_dependent_def)
  qed
qed simp

lemma downstream_loop_sound:
  "\<forall>d \<in> set found. (t, d) \<in> feeds\<^sup>+ \<Longrightarrow> \<forall>d \<in> set queue. (t, d) \<in> feeds\<^sup>* \<Longrightarrow>
     d \<in> set (downstream_loop found queue) \<Longrightarrow> (t, d) \<in> feeds\<^sup>+"
proof (induction found queue rule: downstream_loop.induct)
  case (2 found x queue)
  obtain f q where fq: "fold offer_dependent (documentsDependingOn x) (found, queue) = (f, q)"
    by fastforce
  from "2.prems"(2) have "(t, x) \<in> feeds\<^sup>*" by simp
  then have "\<forall>e \<in> set (documentsDependingOn x). (t, e) \<in> feeds\<^sup>+"
    by (auto simp: dependents_iff intro: rtrancl_into_trancl1)
  with "2.prems"(1,2) set_offer [OF fq]
  have "\<forall>e \<in> set f. (t, e) \<in> feeds\<^sup>+" and "\<forall>e \<in> set q. (t, e) \<in> feeds\<^sup>*"
    by (auto intro: trancl_into_rtrancl)
  with "2.IH" [OF fq [symmetric]] "2.prems"(3) fq show ?case by simp
qed simp

lemma downstream_loop_closed:
  "\<forall>x \<in> insert t (set found) - set queue. feeds `` {x} \<subseteq> set found \<Longrightarrow>
     t \<in> set queue \<or> feeds `` {t} \<subseteq> set found \<Longrightarrow>
     (\<forall>x \<in> insert t (set (downstream_loop found queue)).
        feeds `` {x} \<subseteq> set (downstream_loop found queue))"
proof (induction found queue rule: downstream_loop.induct)
  case (2 found x queue)
  obtain f q where fq: "fold offer_dependent (documentsDependingOn x) (found, queue) = (f, q)"
    by fastforce
  have x: "feeds `` {x} = set (documentsDependingOn x)" by (auto simp: dependents_iff)
  from "2.prems" set_offer [OF fq] x
  have "\<forall>y \<in> insert t (set f) - set q. feeds `` {y} \<subseteq> set f"
    and "t \<in> set q \<or> feeds `` {t} \<subseteq> set f" by auto
  with "2.IH" [OF fq [symmetric]] fq show ?case by simp
qed auto

lemma feeds_trancl: "(p, d) \<in> feeds\<^sup>+ \<longleftrightarrow> DOCUMENT_ORDER p < DOCUMENT_ORDER d"
  using graph.feeds_iff [of p d] by (simp add: feeds_def)

lemma set_downstream_loop: "set (downstream_loop [] [t]) = {d. (t, d) \<in> feeds\<^sup>+}"
proof -
  let ?r = "downstream_loop [] [t]"
  have closed: "\<forall>x \<in> insert t (set ?r). feeds `` {x} \<subseteq> set ?r"
    by (rule downstream_loop_closed) auto
  have "d \<in> set ?r" if "(t, d) \<in> feeds\<^sup>+" for d
    using that by (induction rule: trancl_induct) (use closed in blast)+
  moreover have "(t, d) \<in> feeds\<^sup>+" if "d \<in> set ?r" for d
    using downstream_loop_sound [of "[]" t "[t]" d] that by simp
  ultimately show ?thesis by blast
qed

lemma downstream_is_tail:
  "downstreamDocuments t = filter (\<lambda>d. DOCUMENT_ORDER t < DOCUMENT_ORDER d) DOCUMENT_TYPES"
  by (simp add: downstreamDocuments_def Let_def set_downstream_loop feeds_trancl
      del: downstream_loop.simps)

section \<open>Locking\<close>

text \<open>
  A lock carries what its summary sentence names: the missing upstream artifacts, or the
  prerequisite documents that are not authoritative.
\<close>

datatype document_lock =
    not_implemented
  | upstream_missing "upstream_kind list"
  | prerequisite_document "document_type list"

record dependency_state =
  availableUpstream :: "upstream_kind list"
  documentStates :: "document_type \<Rightarrow> document_state option"

definition state_or_default :: "document_state option \<Rightarrow> document_state" where
  "state_or_default s =
     (case s of None \<Rightarrow> \<lparr>ds_status = NOT_STARTED, ds_currentness = CURRENT\<rparr> | Some st \<Rightarrow> st)"

definition lockFor ::
  "document_type \<Rightarrow> dependency_state \<Rightarrow> document_type list \<Rightarrow> document_lock option" where
  "lockFor t st implemented =
     (if t \<notin> set implemented then Some not_implemented
      else
        let deps = DOCUMENT_DEPENDENCIES t;
            missing = filter (\<lambda>kind. kind \<notin> set (availableUpstream st)) (dd_upstream deps);
            unapproved =
              filter (\<lambda>p. \<not> isAuthoritativeState (state_or_default (documentStates st p)))
                (dd_documents deps)
        in if missing \<noteq> [] then Some (upstream_missing missing)
           else if unapproved \<noteq> [] then Some (prerequisite_document unapproved)
           else None)"

lemma default_not_authoritative [simp]:
  "isAuthoritativeState (state_or_default s) \<longleftrightarrow> (\<exists>st. s = Some st \<and> isAuthoritativeState st)"
  by (auto simp: state_or_default_def table_simps split: option.splits)

lemma lockFor_None:
  "lockFor t st implemented = None \<longleftrightarrow>
     t \<in> set implemented \<and>
     set (dd_upstream (DOCUMENT_DEPENDENCIES t)) \<subseteq> set (availableUpstream st) \<and>
     (\<forall>p \<in> set (dd_documents (DOCUMENT_DEPENDENCIES t)).
        \<exists>s. documentStates st p = Some s \<and> isAuthoritativeState s)"
  by (auto simp: lockFor_def Let_def filter_empty_conv)

lemma documentBefore_prereq:
  "documentBefore t = Some p \<Longrightarrow> p \<in> set (dd_documents (DOCUMENT_DEPENDENCIES t))"
  by (cases t) (auto simp: documentBefore_def DOCUMENT_TYPES_def)

section \<open>Outdated propagation\<close>

datatype outdated_cause =
    baseline_changed
  | stack_changed
  | estimate_changed
  | prerequisite_document_changed

record outdated_reason =
  or_cause :: outdated_cause
  or_documentType :: "document_type option"
  or_generatedAgainst :: "string option"
  or_currentVersion :: "string option"

definition currentnessFrom :: "outdated_reason list \<Rightarrow> document_currentness" where
  "currentnessFrom reasons = (if length reasons > 0 then OUTDATED else CURRENT)"

record upstream_versions =
  baselineVersion :: "nat option"
  stackVersion :: "nat option"
  estimateVersion :: "nat option"

record outdated_input =
  oi_type :: document_type
  oi_generatedAgainst :: upstream_versions
  oi_current :: upstream_versions
  oi_changedPrerequisites :: "document_type list"

definition version_label :: "nat \<Rightarrow> string" where
  "version_label v = ''v'' @ show_nat v"

definition compare_version ::
  "document_dependencies \<Rightarrow> upstream_kind \<Rightarrow> outdated_cause \<Rightarrow> nat option \<Rightarrow> nat option
    \<Rightarrow> outdated_reason list" where
  "compare_version deps kind cause was now =
     (case was of
        None \<Rightarrow> []
      | Some w \<Rightarrow>
          if kind \<notin> set (dd_upstream deps) then []
          else (case now of
                  None \<Rightarrow>
                    [\<lparr>or_cause = cause, or_documentType = None,
                      or_generatedAgainst = Some (version_label w), or_currentVersion = None\<rparr>]
                | Some n \<Rightarrow>
                    if w \<noteq> n
                    then [\<lparr>or_cause = cause, or_documentType = None,
                           or_generatedAgainst = Some (version_label w),
                           or_currentVersion = Some (version_label n)\<rparr>]
                    else []))"

definition documentOutdatedReasons :: "outdated_input \<Rightarrow> outdated_reason list" where
  "documentOutdatedReasons inp =
     (let deps = DOCUMENT_DEPENDENCIES (oi_type inp);
          was = oi_generatedAgainst inp;
          now = oi_current inp
      in compare_version deps REQUIREMENT_BASELINE baseline_changed
           (baselineVersion was) (baselineVersion now)
       @ compare_version deps TECHNOLOGY_STACK stack_changed
           (stackVersion was) (stackVersion now)
       @ compare_version deps ESTIMATION_SNAPSHOT estimate_changed
           (estimateVersion was) (estimateVersion now)
       @ map (\<lambda>p. \<lparr>or_cause = prerequisite_document_changed, or_documentType = Some p,
                     or_generatedAgainst = None, or_currentVersion = None\<rparr>)
           (filter (\<lambda>p. p \<in> set (dd_documents deps)) (oi_changedPrerequisites inp)))"

fun version_of :: "upstream_kind \<Rightarrow> upstream_versions \<Rightarrow> nat option" where
  "version_of REQUIREMENT_BASELINE v = baselineVersion v"
| "version_of TECHNOLOGY_STACK v = stackVersion v"
| "version_of ESTIMATION_SNAPSHOT v = estimateVersion v"

lemma compare_version_Nil:
  "compare_version deps kind cause was now = [] \<longleftrightarrow>
     (was \<noteq> None \<and> kind \<in> set (dd_upstream deps) \<longrightarrow> now = was)"
  by (auto simp: compare_version_def split: option.splits)

lemma all_upstream_kinds:
  "(\<forall>k. P k) \<longleftrightarrow> P REQUIREMENT_BASELINE \<and> P TECHNOLOGY_STACK \<and> P ESTIMATION_SNAPSHOT"
  by (metis upstream_kind.exhaust)

lemma documentOutdatedReasons_Nil:
  "documentOutdatedReasons inp = [] \<longleftrightarrow>
     (\<forall>kind. kind \<in> set (dd_upstream (DOCUMENT_DEPENDENCIES (oi_type inp))) \<and>
        version_of kind (oi_generatedAgainst inp) \<noteq> None \<longrightarrow>
        version_of kind (oi_current inp) = version_of kind (oi_generatedAgainst inp)) \<and>
     set (oi_changedPrerequisites inp) \<inter> set (dd_documents (DOCUMENT_DEPENDENCIES (oi_type inp))) = {}"
  by (auto simp: documentOutdatedReasons_def Let_def compare_version_Nil all_upstream_kinds
      filter_empty_conv)

section \<open>Properties\<close>

text \<open>
  Propagation is transitive and in canonical order: the documents reported
  downstream of a document are exactly those its table edges reach in one or more hops,
  each once, and because every document names the one before it, they are exactly the
  documents after it in the canonical sequence.
\<close>

theorem downstream_documents_exact:
  "set (downstreamDocuments t) = {d. (t, d) \<in> feeds\<^sup>+} \<and>
   sorted (downstreamDocuments t) \<and> distinct (downstreamDocuments t) \<and>
   downstreamDocuments t = drop (DOCUMENT_ORDER t) DOCUMENT_TYPES"
proof (intro conjI)
  show tail: "downstreamDocuments t = drop (DOCUMENT_ORDER t) DOCUMENT_TYPES"
    by (cases t) (simp_all add: downstream_is_tail DOCUMENT_TYPES_def)
  show "set (downstreamDocuments t) = {d. (t, d) \<in> feeds\<^sup>+}"
    by (simp add: downstream_is_tail feeds_trancl)
  show "sorted (downstreamDocuments t)" and "distinct (downstreamDocuments t)"
    by (simp_all add: tail sorted_document_types sorted_wrt_drop)
qed

text \<open>
  A document is unlocked exactly when it is implemented, every upstream
  artifact it names is available, and every document it names is approved or issued and
  still current; in particular the document before it in the sequence is.
\<close>

theorem unlocked_iff_foundation:
  "(lockFor t st implemented = None \<longleftrightarrow>
      t \<in> set implemented \<and>
      set (dd_upstream (DOCUMENT_DEPENDENCIES t)) \<subseteq> set (availableUpstream st) \<and>
      (\<forall>p. (p, t) \<in> feeds \<longrightarrow>
         (\<exists>s. documentStates st p = Some s \<and> ds_currentness s = CURRENT \<and>
              ds_status s \<in> {APPROVED, FINAL}))) \<and>
   (lockFor t st implemented = None \<and> documentBefore t = Some p \<longrightarrow> (p, t) \<in> feeds)"
  using documentBefore_prereq [of t p]
  by (auto simp: lockFor_None feeds_def table_simps)

theorem unlocked_iff_foundation_witness:
  "lockFor FEATURE_LISTING
     \<lparr>availableUpstream = [ESTIMATION_SNAPSHOT, REQUIREMENT_BASELINE, TECHNOLOGY_STACK],
      documentStates = [OUR_UNDERSTANDING \<mapsto> \<lparr>ds_status = APPROVED, ds_currentness = CURRENT\<rparr>]\<rparr>
     IMPLEMENTED_DOCUMENT_TYPES = None \<and>
   (OUR_UNDERSTANDING, FEATURE_LISTING) \<in> feeds"
  (is "lockFor ?t ?st ?impl = None \<and> _")
proof -
  have "lockFor ?t ?st ?impl = None"
    by (simp add: lockFor_def IMPLEMENTED_DOCUMENT_TYPES_def state_or_default_def table_simps)
  moreover have "documentBefore ?t = Some OUR_UNDERSTANDING"
    by (simp add: documentBefore_def DOCUMENT_TYPES_def)
  ultimately show ?thesis
    using unlocked_iff_foundation [of ?t ?st ?impl OUR_UNDERSTANDING] by blast
qed

text \<open>
  A document is reported current exactly when nothing it was written against
  has moved: for each upstream artifact its table row names and it recorded a version of,
  the same version is authoritative now, and none of the changed prerequisite documents
  is one it is built on.
\<close>

theorem current_iff_inputs_unmoved:
  "currentnessFrom (documentOutdatedReasons inp) = CURRENT \<longleftrightarrow>
     (\<forall>kind v. (kind \<in> set (dd_upstream (DOCUMENT_DEPENDENCIES (oi_type inp))) \<and>
        version_of kind (oi_generatedAgainst inp) = Some v) \<longrightarrow>
        version_of kind (oi_current inp) = Some v) \<and>
     (\<forall>p. p \<in> set (oi_changedPrerequisites inp) \<longrightarrow> (p, oi_type inp) \<notin> feeds)"
  by (auto simp: currentnessFrom_def documentOutdatedReasons_Nil feeds_def)

theorem current_iff_inputs_unmoved_witness:
  "currentnessFrom (documentOutdatedReasons
     \<lparr>oi_type = ASSUMPTIONS,
      oi_generatedAgainst = \<lparr>baselineVersion = Some 2, stackVersion = None, estimateVersion = Some 4\<rparr>,
      oi_current = \<lparr>baselineVersion = Some 2, stackVersion = Some 1, estimateVersion = Some 5\<rparr>,
      oi_changedPrerequisites = [OUR_UNDERSTANDING]\<rparr>) = CURRENT"
  (is "currentnessFrom (documentOutdatedReasons ?inp) = CURRENT")
  using current_iff_inputs_unmoved [of ?inp] by (auto simp: feeds_def)

end
