(* ===== verification/DocumentBlockers.thy ===== *)
theory DocumentBlockers
  imports FeatureListing DocumentDependency
begin

text \<open>
  What stands between a document and its approval: sections and their edit authority
  (document-section.contract.ts), the generic rows of a list document
  (document-row.contract.ts), validation results (document-validation.contract.ts) and the
  blocker calculation (document-blockers.ts), under packages/contracts/src/documents. Text
  that is absent and text that is empty are one value, the empty string: the storage mappers
  turn the one into the other. Timestamps and operator sentences are left out.
\<close>

section \<open>Sections\<close>

record reference =
  ref_kind :: string
  ref_id :: string

datatype section_origin = S_GENERATED | S_USER_EDITED | S_USER_AUTHORED

definition isSectionProtected :: "section_origin \<Rightarrow> bool" where
  "isSectionProtected origin = (origin = S_USER_EDITED \<or> origin = S_USER_AUTHORED)"

datatype revision_decision =
  KEEP_CURRENT | ACCEPT_GENERATED_REVISION | EDIT_GENERATED_REVISION

record doc_section =
  sectionId :: string
  sec_key :: string
  sec_title :: string
  sec_order :: nat
  sec_body :: string
  sec_origin :: section_origin
  omittedReason :: string
  sec_references :: "reference list"
  proposedBody :: string
  sec_regenerationReason :: string

definition hasProposal :: "doc_section \<Rightarrow> bool" where
  "hasProposal s = (proposedBody s \<noteq> [])"

definition mayReplaceDirectly :: "doc_section \<Rightarrow> bool" where
  "mayReplaceDirectly s = (\<not> isSectionProtected (sec_origin s))"

section \<open>Rows\<close>

text \<open>
  A payload is the record of its fields; a field is a string or any other JSON value, kept by
  its text.
\<close>

datatype field_value = Text string | Json string

type_synonym payload = "(string \<times> field_value) list"

datatype row_origin = R_GENERATED | R_USER_EDITED | R_USER_DEFINED

definition isRowProtected :: "row_origin \<Rightarrow> bool" where
  "isRowProtected origin = (origin = R_USER_EDITED \<or> origin = R_USER_DEFINED)"

definition mayReplaceRowDirectly :: "row_origin \<Rightarrow> bool" where
  "mayReplaceRowDirectly origin = (\<not> isRowProtected origin)"

record doc_row =
  rowId :: string
  rowOrder :: nat
  rowOrigin :: row_origin
  attribution :: string
  rowPayload :: payload
  rowProposed :: "payload option"
  rowReferences :: "reference list"
  excludedReason :: string

definition hasRowProposal :: "doc_row \<Rightarrow> bool" where
  "hasRowProposal row = (rowProposed row \<noteq> None)"

definition rowNeedsAttribution :: "doc_row \<Rightarrow> bool" where
  "rowNeedsAttribution row =
     (rowOrigin row = R_USER_DEFINED \<and> rowReferences row = [] \<and> js_trim (attribution row) = [])"

definition rowsAwaitingDecision :: "doc_row list \<Rightarrow> string list" where
  "rowsAwaitingDecision rows = map rowId (filter hasRowProposal rows)"

section \<open>Validation\<close>

datatype validation_severity = PASS | WARNING | BLOCKING

datatype detected_by = DETERMINISTIC | MODEL

record finding =
  f_kind :: string
  f_severity :: validation_severity
  f_detectedBy :: detected_by
  f_subjectIds :: "string list"
  f_acknowledged :: bool

record validation =
  v_documentVersion :: nat
  v_severity :: validation_severity
  v_findings :: "finding list"
  v_modelAssisted :: bool

definition worstSeverity :: "finding list \<Rightarrow> validation_severity" where
  "worstSeverity fs =
     (if list_ex (\<lambda>f. f_severity f = BLOCKING) fs then BLOCKING
      else if list_ex (\<lambda>f. f_severity f = WARNING \<and> \<not> f_acknowledged f) fs then WARNING
      else PASS)"

definition validationPermitsApproval :: "validation option \<Rightarrow> bool" where
  "validationPermitsApproval v =
     (case v of
        None \<Rightarrow> False
      | Some val \<Rightarrow> \<not> list_ex (\<lambda>f. f_severity f = BLOCKING) (v_findings val))"

definition validationIsCurrent :: "validation option \<Rightarrow> nat \<Rightarrow> bool" where
  "validationIsCurrent v version =
     (case v of None \<Rightarrow> False | Some val \<Rightarrow> v_documentVersion val = version)"

section \<open>Blockers\<close>

datatype blocker_kind =
    not_generated | prerequisite_not_approved | outdated_inputs | blocking_validation
  | unresolved_proposal | empty_required_section | coverage_incomplete | attribution_missing
  | unconfirmed_assumptions | blocking_assumption | scope_not_reconciled | wbs_not_reconciled
  | effort_mismatch

record blocker =
  bl_kind :: blocker_kind
  bl_count :: nat
  bl_subjectIds :: "string list"

record criteria_coverage =
  cc_complete :: bool
  cc_uncoveredRequirementIds :: "string list"
  cc_uncoveredFeatureIds :: "string list"
  cc_unsupportedCriterionKeys :: "string list"

record assumption_summary =
  as_candidates :: nat
  as_blockingUnresolved :: "string list"

record scope_reconciliation =
  sr_reconciled :: bool
  sr_missingFeatureIds :: "string list"
  sr_unknownFeatureIds :: "string list"
  sr_contradictedExclusions :: "string list"

record wbs_reconciliation =
  wr_reconciles :: bool
  wr_mismatchedRoles :: "string list"
  wr_unmappedEstimateUnitIds :: "string list"
  wr_unknownEstimateUnitIds :: "string list"

record wbs_coverage =
  wc_complete :: bool
  wc_unmappedRequirementIds :: "string list"
  wc_unsupportedWbsIds :: "string list"

text \<open>The assessments a document of a given type brings; the others are \<open>null\<close>.\<close>

record assessment =
  a_coverage :: "coverage option"
  a_reconciliation :: "effort_reconciliation option"
  a_criteriaCoverage :: "criteria_coverage option"
  a_assumptionSummary :: "assumption_summary option"
  a_scopeReconciliation :: "scope_reconciliation option"
  a_wbsReconciliation :: "wbs_reconciliation option"
  a_wbsCoverage :: "wbs_coverage option"

record blocker_input =
  bi_generated :: bool
  bi_sections :: "doc_section list"
  bi_requiredSectionKeys :: "string list"
  bi_validation :: "validation option"
  bi_outdatedReasons :: "outdated_reason list"
  bi_unapprovedPrerequisites :: "document_type list"
  bi_pendingFeatureIds :: "string list"
  bi_pendingRowIds :: "string list"
  bi_unattributedRowIds :: "string list"
  bi_assessment :: assessment

fun document_type_id :: "document_type \<Rightarrow> string" where
  "document_type_id OUR_UNDERSTANDING = ''OUR_UNDERSTANDING''"
| "document_type_id FEATURE_LISTING = ''FEATURE_LISTING''"
| "document_type_id ACCEPTANCE_CRITERIA = ''ACCEPTANCE_CRITERIA''"
| "document_type_id ASSUMPTIONS = ''ASSUMPTIONS''"
| "document_type_id STATEMENT_OF_WORK = ''STATEMENT_OF_WORK''"
| "document_type_id WORK_BREAKDOWN_STRUCTURE = ''WORK_BREAKDOWN_STRUCTURE''"
| "document_type_id CLIENT_DEPENDENCY_SHEET = ''CLIENT_DEPENDENCY_SHEET''"

fun outdated_cause_id :: "outdated_cause \<Rightarrow> string" where
  "outdated_cause_id baseline_changed = ''baseline_changed''"
| "outdated_cause_id stack_changed = ''stack_changed''"
| "outdated_cause_id estimate_changed = ''estimate_changed''"
| "outdated_cause_id prerequisite_document_changed = ''prerequisite_document_changed''"

definition raise_if :: "bool \<Rightarrow> blocker_kind \<Rightarrow> nat \<Rightarrow> string list \<Rightarrow> blocker list" where
  "raise_if b kind n subjects =
     (if b then [\<lparr> bl_kind = kind, bl_count = n, bl_subjectIds = subjects \<rparr>] else [])"

definition section_is_empty :: "doc_section list \<Rightarrow> string \<Rightarrow> bool" where
  "section_is_empty sections key =
     (case find (\<lambda>s. sec_key s = key) sections of
        None \<Rightarrow> True | Some s \<Rightarrow> js_trim (sec_body s) = [])"

definition criteria_blockers :: "criteria_coverage option \<Rightarrow> blocker list" where
  "criteria_blockers c =
     (case c of
        None \<Rightarrow> []
      | Some cc \<Rightarrow>
          if cc_complete cc then []
          else
            let uncovered = cc_uncoveredRequirementIds cc @ cc_uncoveredFeatureIds cc;
                unsupported = cc_unsupportedCriterionKeys cc
            in raise_if (uncovered \<noteq> []) coverage_incomplete (length uncovered) (take 200 uncovered)
             @ raise_if (unsupported \<noteq> []) blocking_validation (length unsupported) unsupported)"

definition assumption_blockers :: "assumption_summary option \<Rightarrow> blocker list" where
  "assumption_blockers a =
     (case a of
        None \<Rightarrow> []
      | Some s \<Rightarrow>
          raise_if (0 < as_candidates s) unconfirmed_assumptions (as_candidates s) []
          @ raise_if (as_blockingUnresolved s \<noteq> []) blocking_assumption
              (length (as_blockingUnresolved s)) (as_blockingUnresolved s))"

definition scope_blockers :: "scope_reconciliation option \<Rightarrow> blocker list" where
  "scope_blockers r =
     (case r of
        None \<Rightarrow> []
      | Some s \<Rightarrow>
          let subjects = sr_missingFeatureIds s @ sr_unknownFeatureIds s
          in raise_if (\<not> sr_reconciled s) scope_not_reconciled
               (max (length subjects) (length (sr_contradictedExclusions s))) (take 200 subjects))"

definition wbs_blockers :: "wbs_reconciliation option \<Rightarrow> wbs_coverage option \<Rightarrow> blocker list" where
  "wbs_blockers r c =
     (case r of
        None \<Rightarrow> []
      | Some w \<Rightarrow>
          raise_if (\<not> wr_reconciles w) wbs_not_reconciled
            (max (max (length (wr_mismatchedRoles w)) (length (wr_unmappedEstimateUnitIds w)))
               (max (length (wr_unknownEstimateUnitIds w)) 1))
            (take 200 (wr_mismatchedRoles w @ wr_unmappedEstimateUnitIds w
               @ wr_unknownEstimateUnitIds w)))
     @ (case c of
          None \<Rightarrow> []
        | Some w \<Rightarrow>
            let subjects = wc_unmappedRequirementIds w @ wc_unsupportedWbsIds w
            in raise_if (\<not> wc_complete w) coverage_incomplete (length subjects) (take 200 subjects))"

definition content_blockers :: "blocker_input \<Rightarrow> blocker list" where
  "content_blockers inp =
     (let outdated = bi_outdatedReasons inp;
          blocking = (case bi_validation inp of
                        None \<Rightarrow> []
                      | Some v \<Rightarrow> filter (\<lambda>f. f_severity f = BLOCKING) (v_findings v));
          pendingSections = filter hasProposal (bi_sections inp);
          pendingRows = bi_pendingFeatureIds inp @ bi_pendingRowIds inp;
          pending = length pendingSections + length pendingRows;
          empty = filter (section_is_empty (bi_sections inp)) (bi_requiredSectionKeys inp)
      in raise_if (outdated \<noteq> []) outdated_inputs (length outdated)
           (map (outdated_cause_id \<circ> or_cause) outdated)
       @ raise_if (blocking \<noteq> []) blocking_validation (length blocking)
           (take 200 (concat (map f_subjectIds blocking)))
       @ raise_if (0 < pending) unresolved_proposal pending
           (map sectionId pendingSections @ pendingRows)
       @ raise_if (empty \<noteq> []) empty_required_section (length empty) empty)"

definition assessment_blockers :: "string list \<Rightarrow> assessment \<Rightarrow> blocker list" where
  "assessment_blockers unattributed a =
     (case a_coverage a of
        None \<Rightarrow> []
      | Some c \<Rightarrow> raise_if (0 < unresolved c) coverage_incomplete (unresolved c)
                     (unresolvedRequirementIds c))
     @ raise_if (unattributed \<noteq> []) attribution_missing (length unattributed) unattributed
     @ criteria_blockers (a_criteriaCoverage a)
     @ assumption_blockers (a_assumptionSummary a)
     @ scope_blockers (a_scopeReconciliation a)
     @ wbs_blockers (a_wbsReconciliation a) (a_wbsCoverage a)
     @ (case a_reconciliation a of
          None \<Rightarrow> []
        | Some r \<Rightarrow> raise_if (\<not> reconciles r) effort_mismatch 1
                       (take 200 (unknownUnitIds r @ uncitedUnitIds r)))"

definition calculateDocumentBlockers :: "blocker_input \<Rightarrow> blocker list" where
  "calculateDocumentBlockers inp =
     (if \<not> bi_generated inp then raise_if True not_generated 1 []
      else if bi_unapprovedPrerequisites inp \<noteq> [] then
        raise_if True prerequisite_not_approved (length (bi_unapprovedPrerequisites inp))
          (map document_type_id (bi_unapprovedPrerequisites inp))
      else content_blockers inp
           @ assessment_blockers (bi_unattributedRowIds inp) (bi_assessment inp))"

section \<open>When nothing blocks\<close>

lemma raise_if_Nil [simp]: "raise_if b kind n subjects = [] \<longleftrightarrow> \<not> b"
  by (simp add: raise_if_def)

definition assessment_clear :: "assessment \<Rightarrow> bool" where
  "assessment_clear a =
     ((case a_coverage a of None \<Rightarrow> True | Some c \<Rightarrow> unresolved c = 0)
      \<and> (case a_reconciliation a of None \<Rightarrow> True | Some r \<Rightarrow> reconciles r)
      \<and> (case a_criteriaCoverage a of None \<Rightarrow> True
         | Some c \<Rightarrow> cc_complete c \<or> cc_uncoveredRequirementIds c = [] \<and> cc_uncoveredFeatureIds c = []
             \<and> cc_unsupportedCriterionKeys c = [])
      \<and> (case a_assumptionSummary a of None \<Rightarrow> True
         | Some s \<Rightarrow> as_candidates s = 0 \<and> as_blockingUnresolved s = [])
      \<and> (case a_scopeReconciliation a of None \<Rightarrow> True | Some s \<Rightarrow> sr_reconciled s)
      \<and> (case a_wbsReconciliation a of None \<Rightarrow> True | Some w \<Rightarrow> wr_reconciles w)
      \<and> (case a_wbsCoverage a of None \<Rightarrow> True | Some w \<Rightarrow> wc_complete w))"

lemma assessment_blockers_Nil:
  "assessment_blockers unattributed a = [] \<longleftrightarrow> unattributed = [] \<and> assessment_clear a"
  by (auto simp: assessment_blockers_def assessment_clear_def criteria_blockers_def
      assumption_blockers_def scope_blockers_def wbs_blockers_def Let_def split: option.splits)

lemma content_blockers_Nil:
  "content_blockers inp = [] \<longleftrightarrow>
     bi_outdatedReasons inp = []
     \<and> (case bi_validation inp of None \<Rightarrow> True
        | Some v \<Rightarrow> list_all (\<lambda>f. f_severity f \<noteq> BLOCKING) (v_findings v))
     \<and> list_all (\<lambda>s. \<not> hasProposal s) (bi_sections inp)
     \<and> bi_pendingFeatureIds inp = [] \<and> bi_pendingRowIds inp = []
     \<and> list_all (\<lambda>k. \<not> section_is_empty (bi_sections inp) k) (bi_requiredSectionKeys inp)"
  by (auto simp: content_blockers_def Let_def filter_empty_conv list_all_iff split: option.splits)

text \<open>
  The approval gate, exactly: a document has no blocker when it has been generated, its
  prerequisites are approved, nothing it is built on moved, no finding blocks, no suggested
  rewrite of a section, feature or row waits for a decision, every required section has text,
  every hand-written row is attributed, and each assessment its type brings is complete; and
  anything less leaves a blocker.
\<close>
theorem no_blockers_iff:
  "calculateDocumentBlockers inp = [] \<longleftrightarrow>
     bi_generated inp \<and> bi_unapprovedPrerequisites inp = [] \<and> bi_outdatedReasons inp = []
     \<and> (case bi_validation inp of None \<Rightarrow> True
        | Some v \<Rightarrow> list_all (\<lambda>f. f_severity f \<noteq> BLOCKING) (v_findings v))
     \<and> list_all (\<lambda>s. proposedBody s = []) (bi_sections inp)
     \<and> bi_pendingFeatureIds inp = [] \<and> bi_pendingRowIds inp = [] \<and> bi_unattributedRowIds inp = []
     \<and> list_all (\<lambda>k. \<not> section_is_empty (bi_sections inp) k) (bi_requiredSectionKeys inp)
     \<and> assessment_clear (bi_assessment inp)"
  by (auto simp: calculateDocumentBlockers_def content_blockers_Nil assessment_blockers_Nil
      hasProposal_def)

end
