(* ===== verification/DocumentStore.thy ===== *)
theory DocumentStore
  imports DocumentBlockers
begin

text \<open>
  The stored state of one project's documents and the repository over it
  (apps/api/src/documents/documents.repository.ts, schemas/document.schema.ts), with the
  parts of documents.service.ts that only read it or copy it: the content of a version, the
  immutable archive, the outdated reasons and what is computed from a document on every
  read. Each collection is a list in insertion order; a filter of the code is a filter here.
  Random identifiers come from the parameter \<open>mint\<close>; timestamps are \<open>int\<close>.
\<close>

section \<open>Records\<close>

record doc_record =
  dr_version :: nat
  dr_status :: document_status
  dr_recordVersion :: nat
  dr_upstream :: upstream_versions
  dr_prerequisiteVersions :: "(document_type \<times> nat) list"
  dr_validation :: "validation option"
  dr_outdatedReasons :: "outdated_reason list"
  dr_exclusions :: "(string \<times> string) list"
  dr_supersedesVersion :: "nat option"
  dr_regenerationReason :: string
  dr_approvedAt :: "int option"
  dr_finalAt :: "int option"

record stored_content =
  c_sections :: "doc_section list"
  c_features :: "feature_row list"
  c_rows :: "doc_row list"

record version_record =
  vr_version :: nat
  vr_status :: document_status
  vr_content :: stored_content
  vr_validation :: "validation option"
  vr_regenerationReason :: string
  vr_upstream :: upstream_versions
  vr_approvedAt :: "int option"
  vr_finalAt :: "int option"
  vr_changeType :: "string option"
  vr_restoredFrom :: "nat option"
  vr_revisedFrom :: "nat option"

type_synonym version_key = "document_type \<times> nat"

record doc_store =
  st_docs :: "(document_type \<times> doc_record) list"
  st_sections :: "(version_key \<times> doc_section) list"
  st_features :: "(version_key \<times> feature_row) list"
  st_rows :: "(version_key \<times> doc_row) list"
  st_versions :: "(document_type \<times> version_record) list"
  st_minted :: nat

section \<open>The repository\<close>

definition find_doc :: "document_type \<Rightarrow> doc_store \<Rightarrow> doc_record option" where
  "find_doc t st = map_of (st_docs st) t"

definition create_doc :: "document_type \<Rightarrow> doc_record \<Rightarrow> doc_store \<Rightarrow> doc_store" where
  "create_doc t r st = st\<lparr> st_docs := st_docs st @ [(t, r)] \<rparr>"

definition put_doc :: "document_type \<Rightarrow> doc_record \<Rightarrow> doc_store \<Rightarrow> doc_store" where
  "put_doc t r st = st\<lparr> st_docs := AList.update t r (st_docs st) \<rparr>"

definition update_doc ::
  "document_type \<Rightarrow> nat \<Rightarrow> (doc_record \<Rightarrow> doc_record) \<Rightarrow> doc_store \<Rightarrow> doc_store option" where
  "update_doc t expected f st =
     (case find_doc t st of
        None \<Rightarrow> None
      | Some r \<Rightarrow>
          if dr_recordVersion r \<noteq> expected then None
          else Some (put_doc t ((f r)\<lparr> dr_recordVersion := expected + 1 \<rparr>) st))"

definition touch_doc :: "document_type \<Rightarrow> (doc_record \<Rightarrow> doc_record) \<Rightarrow> doc_store \<Rightarrow> doc_store" where
  "touch_doc t f st =
     (case find_doc t st of
        None \<Rightarrow> st
      | Some r \<Rightarrow> put_doc t ((f r)\<lparr> dr_recordVersion := dr_recordVersion r + 1 \<rparr>) st)"

definition versions_of :: "document_type \<Rightarrow> doc_store \<Rightarrow> version_record list" where
  "versions_of t st = map snd (filter (\<lambda>p. fst p = t) (st_versions st))"

definition nextVersion :: "document_type \<Rightarrow> doc_store \<Rightarrow> nat" where
  "nextVersion t st = foldr max (map vr_version (versions_of t st)) 0 + 1"

definition findVersion :: "document_type \<Rightarrow> nat \<Rightarrow> doc_store \<Rightarrow> version_record option" where
  "findVersion t v st = find (\<lambda>r. vr_version r = v) (versions_of t st)"

definition createVersion :: "document_type \<Rightarrow> version_record \<Rightarrow> doc_store \<Rightarrow> doc_store" where
  "createVersion t r st = st\<lparr> st_versions := st_versions st @ [(t, r)] \<rparr>"

fun update_first_match :: "('a \<Rightarrow> bool) \<Rightarrow> ('a \<Rightarrow> 'a) \<Rightarrow> 'a list \<Rightarrow> 'a list" where
  "update_first_match p f [] = []"
| "update_first_match p f (x # xs) = (if p x then f x # xs else x # update_first_match p f xs)"

definition updateVersion ::
  "document_type \<Rightarrow> nat \<Rightarrow> (version_record \<Rightarrow> version_record) \<Rightarrow> doc_store \<Rightarrow> doc_store" where
  "updateVersion t v f st =
     st\<lparr> st_versions :=
       update_first_match (\<lambda>p. fst p = t \<and> vr_version (snd p) = v) (map_prod id f) (st_versions st) \<rparr>"

definition at_version :: "version_key \<Rightarrow> (version_key \<times> 'a) list \<Rightarrow> 'a list" where
  "at_version k ps = map snd (filter (\<lambda>p. fst p = k) ps)"

definition replaceSections ::
  "document_type \<Rightarrow> nat \<Rightarrow> doc_section list \<Rightarrow> doc_store \<Rightarrow> doc_store" where
  "replaceSections t v ss st =
     st\<lparr> st_sections := filter (\<lambda>p. fst p \<noteq> (t, v)) (st_sections st) @ map (Pair (t, v)) ss \<rparr>"

definition listSections :: "document_type \<Rightarrow> nat \<Rightarrow> doc_store \<Rightarrow> doc_section list" where
  "listSections t v st = sort_key sec_order (at_version (t, v) (st_sections st))"

definition findSection :: "string \<Rightarrow> nat \<Rightarrow> doc_store \<Rightarrow> (document_type \<times> doc_section) option" where
  "findSection i v st =
     map_option (\<lambda>p. (fst (fst p), snd p))
       (find (\<lambda>p. snd (fst p) = v \<and> sectionId (snd p) = i) (st_sections st))"

definition updateStoredSection ::
  "string \<Rightarrow> nat \<Rightarrow> (doc_section \<Rightarrow> doc_section) \<Rightarrow> doc_store \<Rightarrow> doc_store" where
  "updateStoredSection i v f st =
     st\<lparr> st_sections :=
       update_first_match (\<lambda>p. snd (fst p) = v \<and> sectionId (snd p) = i) (map_prod id f)
         (st_sections st) \<rparr>"

definition replaceFeatures ::
  "document_type \<Rightarrow> nat \<Rightarrow> feature_row list \<Rightarrow> doc_store \<Rightarrow> doc_store" where
  "replaceFeatures t v fs st =
     st\<lparr> st_features := filter (\<lambda>p. fst p \<noteq> (t, v)) (st_features st) @ map (Pair (t, v)) fs \<rparr>"

definition listFeatures :: "document_type \<Rightarrow> nat \<Rightarrow> doc_store \<Rightarrow> feature_row list" where
  "listFeatures t v st = sort_key row_order (at_version (t, v) (st_features st))"

definition findFeature :: "string \<Rightarrow> nat \<Rightarrow> doc_store \<Rightarrow> (document_type \<times> feature_row) option" where
  "findFeature i v st =
     map_option (\<lambda>p. (fst (fst p), snd p))
       (find (\<lambda>p. snd (fst p) = v \<and> featureId (snd p) = i) (st_features st))"

definition updateStoredFeature ::
  "string \<Rightarrow> nat \<Rightarrow> (feature_row \<Rightarrow> feature_row) \<Rightarrow> doc_store \<Rightarrow> doc_store" where
  "updateStoredFeature i v f st =
     st\<lparr> st_features :=
       update_first_match (\<lambda>p. snd (fst p) = v \<and> featureId (snd p) = i) (map_prod id f)
         (st_features st) \<rparr>"

text \<open>Rows of every version of the type are deleted before the new ones are inserted.\<close>

definition insertRows :: "document_type \<Rightarrow> nat \<Rightarrow> doc_row list \<Rightarrow> doc_store \<Rightarrow> doc_store" where
  "insertRows t v rs st = st\<lparr> st_rows := st_rows st @ map (Pair (t, v)) rs \<rparr>"

definition replaceRows :: "document_type \<Rightarrow> nat \<Rightarrow> doc_row list \<Rightarrow> doc_store \<Rightarrow> doc_store" where
  "replaceRows t v rs st =
     insertRows t v rs (st\<lparr> st_rows := filter (\<lambda>p. fst (fst p) \<noteq> t) (st_rows st) \<rparr>)"

definition listRows :: "document_type \<Rightarrow> nat \<Rightarrow> doc_store \<Rightarrow> doc_row list" where
  "listRows t v st = sort_key rowOrder (at_version (t, v) (st_rows st))"

definition findRow :: "string \<Rightarrow> nat \<Rightarrow> doc_store \<Rightarrow> (document_type \<times> doc_row) option" where
  "findRow i v st =
     map_option (\<lambda>p. (fst (fst p), snd p))
       (find (\<lambda>p. snd (fst p) = v \<and> rowId (snd p) = i) (st_rows st))"

definition updateStoredRow :: "string \<Rightarrow> nat \<Rightarrow> (doc_row \<Rightarrow> doc_row) \<Rightarrow> doc_store \<Rightarrow> doc_store" where
  "updateStoredRow i v f st =
     st\<lparr> st_rows :=
       update_first_match (\<lambda>p. snd (fst p) = v \<and> rowId (snd p) = i) (map_prod id f) (st_rows st) \<rparr>"

fun remove_first_match :: "('a \<Rightarrow> bool) \<Rightarrow> 'a list \<Rightarrow> 'a list" where
  "remove_first_match p [] = []"
| "remove_first_match p (x # xs) = (if p x then xs else x # remove_first_match p xs)"

definition deleteRow :: "string \<Rightarrow> nat \<Rightarrow> doc_store \<Rightarrow> doc_store" where
  "deleteRow i v st =
     st\<lparr> st_rows := remove_first_match (\<lambda>p. snd (fst p) = v \<and> rowId (snd p) = i) (st_rows st) \<rparr>"

text \<open>\<open>DocumentsRepository.newId\<close>, for a whole list of records at once.\<close>

definition mint_ids :: "(nat \<Rightarrow> string) \<Rightarrow> nat \<Rightarrow> doc_store \<Rightarrow> string list" where
  "mint_ids mint n st = map (\<lambda>i. mint (st_minted st + i)) [0..<n]"

definition minted :: "nat \<Rightarrow> doc_store \<Rightarrow> doc_store" where
  "minted n st = st\<lparr> st_minted := st_minted st + n \<rparr>"

section \<open>Content and archive\<close>

definition currentContent :: "document_type \<Rightarrow> doc_record \<Rightarrow> doc_store \<Rightarrow> stored_content" where
  "currentContent t r st =
     \<lparr> c_sections = listSections t (dr_version r) st,
       c_features = listFeatures t (dr_version r) st,
       c_rows = listRows t (dr_version r) st \<rparr>"

record lineage =
  ln_changeType :: "string option"
  ln_restoredFrom :: "nat option"
  ln_revisedFrom :: "nat option"

definition no_lineage :: lineage where
  "no_lineage = \<lparr> ln_changeType = None, ln_restoredFrom = None, ln_revisedFrom = None \<rparr>"

definition change_lineage :: "string \<Rightarrow> lineage" where
  "change_lineage s = no_lineage\<lparr> ln_changeType := Some s \<rparr>"

definition or_else :: "'a option \<Rightarrow> 'a option \<Rightarrow> 'a option" where
  "or_else x y = (case x of None \<Rightarrow> y | Some _ \<Rightarrow> x)"

definition merge_upstream :: "upstream_versions \<Rightarrow> upstream_versions \<Rightarrow> upstream_versions" where
  "merge_upstream new old =
     \<lparr> baselineVersion = or_else (baselineVersion new) (baselineVersion old),
       stackVersion = or_else (stackVersion new) (stackVersion old),
       estimateVersion = or_else (estimateVersion new) (estimateVersion old) \<rparr>"

definition archive ::
  "document_type \<Rightarrow> doc_record \<Rightarrow> stored_content \<Rightarrow> document_status option \<Rightarrow> int option
    \<Rightarrow> lineage \<Rightarrow> doc_store \<Rightarrow> doc_store" where
  "archive t r content status approvedAt lin st =
     (let status' = (case status of None \<Rightarrow> dr_status r | Some s \<Rightarrow> s)
      in case findVersion t (dr_version r) st of
           Some _ \<Rightarrow>
             updateVersion t (dr_version r)
               (\<lambda>e. e\<lparr> vr_status := status', vr_content := content,
                      vr_validation := dr_validation r,
                      vr_regenerationReason := dr_regenerationReason r,
                      vr_upstream := merge_upstream (dr_upstream r) (vr_upstream e),
                      vr_approvedAt := or_else approvedAt (vr_approvedAt e),
                      vr_changeType := or_else (vr_changeType e) (ln_changeType lin),
                      vr_restoredFrom := or_else (vr_restoredFrom e) (ln_restoredFrom lin),
                      vr_revisedFrom := or_else (vr_revisedFrom e) (ln_revisedFrom lin) \<rparr>) st
         | None \<Rightarrow>
             createVersion t
               \<lparr> vr_version = dr_version r, vr_status = status', vr_content = content,
                 vr_validation = dr_validation r,
                 vr_regenerationReason = dr_regenerationReason r,
                 vr_upstream = dr_upstream r, vr_approvedAt = approvedAt, vr_finalAt = None,
                 vr_changeType = ln_changeType lin, vr_restoredFrom = ln_restoredFrom lin,
                 vr_revisedFrom = ln_revisedFrom lin \<rparr> st)"

section \<open>What is derived on every read\<close>

record upstream =
  u_versions :: upstream_versions
  u_baselineCurrent :: bool
  u_requirementKeys :: "string list"

definition documentOutdatedReasonsFor ::
  "document_type \<Rightarrow> doc_record \<Rightarrow> upstream \<Rightarrow> outdated_reason list" where
  "documentOutdatedReasonsFor t r up =
     documentOutdatedReasons
       \<lparr> oi_type = t, oi_generatedAgainst = dr_upstream r, oi_current = u_versions up,
         oi_changedPrerequisites = [] \<rparr>
     @ (case baselineVersion (dr_upstream r) of
          None \<Rightarrow> []
        | Some v \<Rightarrow>
            if \<not> u_baselineCurrent up
               \<and> REQUIREMENT_BASELINE \<in> set (dd_upstream (DOCUMENT_DEPENDENCIES t))
            then [\<lparr> or_cause = baseline_changed, or_documentType = None,
                    or_generatedAgainst = Some (version_label v), or_currentVersion = None \<rparr>]
            else [])
     @ dr_outdatedReasons r"

definition document_states :: "upstream \<Rightarrow> doc_store \<Rightarrow> document_type \<Rightarrow> document_state option" where
  "document_states up st t =
     map_option
       (\<lambda>r. \<lparr> ds_status = dr_status r,
              ds_currentness = currentnessFrom (documentOutdatedReasonsFor t r up) \<rparr>)
       (find_doc t st)"

definition available_upstream :: "upstream \<Rightarrow> upstream_kind list" where
  "available_upstream up =
     (if baselineVersion (u_versions up) \<noteq> None then [REQUIREMENT_BASELINE] else [])
     @ (if stackVersion (u_versions up) \<noteq> None then [TECHNOLOGY_STACK] else [])
     @ (if estimateVersion (u_versions up) \<noteq> None then [ESTIMATION_SNAPSHOT] else [])"

definition prerequisiteVersions :: "document_type \<Rightarrow> doc_store \<Rightarrow> (document_type \<times> nat) list" where
  "prerequisiteVersions t st =
     concat (map (\<lambda>p. case find_doc p st of None \<Rightarrow> [] | Some r \<Rightarrow> [(p, dr_version r)])
       (dd_documents (DOCUMENT_DEPENDENCIES t)))"

definition prerequisite_reason :: "document_type \<Rightarrow> outdated_reason" where
  "prerequisite_reason t =
     \<lparr> or_cause = prerequisite_document_changed, or_documentType = Some t,
       or_generatedAgainst = None, or_currentVersion = None \<rparr>"

definition mark_dependent :: "document_type \<Rightarrow> document_type \<Rightarrow> doc_store \<Rightarrow> doc_store" where
  "mark_dependent t d st =
     (case find_doc d st of
        None \<Rightarrow> st
      | Some r \<Rightarrow>
          if dr_status r = NOT_STARTED then st
          else touch_doc d
                 (\<lambda>e. e\<lparr> dr_outdatedReasons :=
                    filter (\<lambda>reason. or_documentType reason \<noteq> Some t) (dr_outdatedReasons r)
                    @ [prerequisite_reason t] \<rparr>) st)"

definition markDependentsOutdated :: "document_type \<Rightarrow> doc_store \<Rightarrow> doc_store" where
  "markDependentsOutdated t st = fold (mark_dependent t) (downstreamDocuments t) st"

end
