(* ===== verification/DocumentRows.thy ===== *)
theory DocumentRows
  imports DocumentStore
begin

text \<open>
  The rows of a list document as the engine edits them: their identity and the next free key
  (documents.service.ts, acceptance-criteria.contract.ts, assumptions.contract.ts,
  client-dependency.contract.ts, work-breakdown.contract.ts), the lifecycles of assumptions
  and client dependencies, and the gate every payload passes before it is stored. The field
  schemas of the four documents and the search for credential-like text are the parameters
  \<open>parse\<close> and \<open>secrets\<close>.
\<close>

section \<open>Fields and identity\<close>

definition present :: "payload \<Rightarrow> string \<Rightarrow> field_value option" where
  "present p f =
     (case map_of p f of Some (Json j) \<Rightarrow> if j = ''null'' then None else Some (Json j) | v \<Rightarrow> v)"

definition rowKey :: "payload \<Rightarrow> string" where
  "rowKey p =
     (case or_else (present p ''criterionKey'') (or_else (present p ''assumptionKey'')
             (or_else (present p ''wbsId'') (present p ''dependencyKey''))) of
        Some (Text s) \<Rightarrow> s
      | _ \<Rightarrow> [])"

definition payloadText :: "payload \<Rightarrow> string \<Rightarrow> string" where
  "payloadText p f = (case map_of p f of Some (Text s) \<Rightarrow> s | _ \<Rightarrow> [])"

text \<open>\<open>{ ...old, ...changes }\<close>.\<close>

definition spread :: "payload \<Rightarrow> payload \<Rightarrow> payload" where
  "spread old changes = foldl (\<lambda>p fv. AList.update (fst fv) (snd fv) p) old changes"

lemma map_of_spread: "map_of (spread old changes) = map_of old ++ map_of (rev changes)"
  unfolding spread_def
  by (induction changes arbitrary: old) (auto simp: update_conv' map_add_def fun_eq_iff split: option.splits)

section \<open>The next free key\<close>

definition keyed_number :: "string \<Rightarrow> string \<Rightarrow> nat option" where
  "keyed_number pre key =
     (let d = drop (length pre) key
      in if starts_with key pre \<and> 3 \<le> length d \<and> length d \<le> 5 \<and> list_all is_digit d
         then Some (read_nat d) else None)"

definition highest :: "('a \<Rightarrow> nat option) \<Rightarrow> 'a list \<Rightarrow> nat" where
  "highest f xs = foldl (\<lambda>best x. case f x of None \<Rightarrow> best | Some n \<Rightarrow> max best n) 0 xs"

definition next_key :: "string \<Rightarrow> string list \<Rightarrow> string" where
  "next_key pre existing =
     pre @ pad_start 3 (CHR ''0'') (show_nat (highest (keyed_number pre) existing + 1))"

definition nextCriterionKey :: "string list \<Rightarrow> string" where
  "nextCriterionKey = next_key ''AC-''"

definition nextAssumptionKey :: "string list \<Rightarrow> string" where
  "nextAssumptionKey = next_key ''AS-''"

definition nextDependencyKey :: "string list \<Rightarrow> string" where
  "nextDependencyKey = next_key ''CD-''"

definition outline_number :: "string \<Rightarrow> string \<Rightarrow> nat option" where
  "outline_number pre i =
     (let tail = drop (length pre) i
      in if starts_with i pre \<and> tail \<noteq> [] \<and> list_all is_digit tail
         then Some (read_nat tail) else None)"

definition nextOutlineNumber :: "string option \<Rightarrow> string list \<Rightarrow> string" where
  "nextOutlineNumber parentId siblings =
     (let pre = (case parentId of None \<Rightarrow> [] | Some p \<Rightarrow> p @ ''.'')
      in pre @ show_nat (highest (outline_number pre) siblings + 1))"

section \<open>Lifecycles of rows\<close>

datatype assumption_status =
  A_DRAFT | A_CONFIRMED | A_REJECTED | A_SUPERSEDED | A_VALIDATED | A_INVALIDATED

fun ASSUMPTION_TRANSITIONS :: "assumption_status \<Rightarrow> assumption_status list" where
  "ASSUMPTION_TRANSITIONS A_DRAFT = [A_CONFIRMED, A_REJECTED, A_SUPERSEDED]"
| "ASSUMPTION_TRANSITIONS A_CONFIRMED = [A_VALIDATED, A_INVALIDATED, A_REJECTED, A_SUPERSEDED]"
| "ASSUMPTION_TRANSITIONS A_REJECTED = [A_DRAFT]"
| "ASSUMPTION_TRANSITIONS A_SUPERSEDED = []"
| "ASSUMPTION_TRANSITIONS A_VALIDATED = [A_INVALIDATED, A_SUPERSEDED]"
| "ASSUMPTION_TRANSITIONS A_INVALIDATED = [A_SUPERSEDED, A_DRAFT]"

definition canTransitionAssumption :: "assumption_status \<Rightarrow> assumption_status \<Rightarrow> bool" where
  "canTransitionAssumption from to = (to \<in> set (ASSUMPTION_TRANSITIONS from))"

datatype dependency_status =
  D_NOT_REQUESTED | D_REQUESTED | D_PARTIALLY_RECEIVED | D_RECEIVED | D_VALIDATING | D_ACCEPTED
| D_REJECTED | D_WAIVED | D_SUPERSEDED

fun DEPENDENCY_TRANSITIONS :: "dependency_status \<Rightarrow> dependency_status list" where
  "DEPENDENCY_TRANSITIONS D_NOT_REQUESTED = [D_REQUESTED, D_WAIVED, D_SUPERSEDED]"
| "DEPENDENCY_TRANSITIONS D_REQUESTED = [D_PARTIALLY_RECEIVED, D_RECEIVED, D_WAIVED, D_SUPERSEDED]"
| "DEPENDENCY_TRANSITIONS D_PARTIALLY_RECEIVED = [D_RECEIVED, D_REJECTED, D_WAIVED, D_SUPERSEDED]"
| "DEPENDENCY_TRANSITIONS D_RECEIVED = [D_VALIDATING, D_ACCEPTED, D_REJECTED, D_SUPERSEDED]"
| "DEPENDENCY_TRANSITIONS D_VALIDATING = [D_ACCEPTED, D_REJECTED, D_SUPERSEDED]"
| "DEPENDENCY_TRANSITIONS D_ACCEPTED = [D_SUPERSEDED]"
| "DEPENDENCY_TRANSITIONS D_REJECTED = [D_REQUESTED, D_WAIVED, D_SUPERSEDED]"
| "DEPENDENCY_TRANSITIONS D_WAIVED = [D_REQUESTED]"
| "DEPENDENCY_TRANSITIONS D_SUPERSEDED = []"

definition canTransitionDependency :: "dependency_status \<Rightarrow> dependency_status \<Rightarrow> bool" where
  "canTransitionDependency from to = (to \<in> set (DEPENDENCY_TRANSITIONS from))"

definition isDependencySatisfied :: "dependency_status \<Rightarrow> bool" where
  "isDependencySatisfied s = (s = D_ACCEPTED \<or> s = D_WAIVED)"

interpretation assumption_table: status_table ASSUMPTION_TRANSITIONS canTransitionAssumption
  "\<lambda>s. s = A_SUPERSEDED"
  by unfold_locales (auto simp: canTransitionAssumption_def)

interpretation dependency_table: status_table DEPENDENCY_TRANSITIONS canTransitionDependency
  "\<lambda>s. s = D_SUPERSEDED"
  by unfold_locales (auto simp: canTransitionDependency_def)

definition assumption_status_names :: "(string \<times> assumption_status) list" where
  "assumption_status_names =
     [(''DRAFT'', A_DRAFT), (''CONFIRMED'', A_CONFIRMED), (''REJECTED'', A_REJECTED),
      (''SUPERSEDED'', A_SUPERSEDED), (''VALIDATED'', A_VALIDATED), (''INVALIDATED'', A_INVALIDATED)]"

definition dependency_status_names :: "(string \<times> dependency_status) list" where
  "dependency_status_names =
     [(''NOT_REQUESTED'', D_NOT_REQUESTED), (''REQUESTED'', D_REQUESTED),
      (''PARTIALLY_RECEIVED'', D_PARTIALLY_RECEIVED), (''RECEIVED'', D_RECEIVED),
      (''VALIDATING'', D_VALIDATING), (''ACCEPTED'', D_ACCEPTED), (''REJECTED'', D_REJECTED),
      (''WAIVED'', D_WAIVED), (''SUPERSEDED'', D_SUPERSEDED)]"

section \<open>The gate before storage\<close>

datatype doc_error =
    DOCUMENT_NOT_FOUND | version_conflict | DOCUMENT_NOT_IMPLEMENTED | DOCUMENT_LOCKED document_lock
  | DOCUMENT_GENERATING | DOCUMENT_FINAL | INVALID_STATUS_TRANSITION | SECTION_NOT_FOUND
  | NO_PROPOSAL_TO_RESOLVE | FEATURE_NOT_FOUND | MODULE_NOT_FOUND | NO_FEATURE_PROPOSAL
  | UNKNOWN_REQUIREMENT | UNKNOWN_FEATURE | DOCUMENT_NOT_GENERATED | NO_FINDING_TO_ACKNOWLEDGE
  | DOCUMENT_UPSTREAM_STALE "outdated_reason list" | DOCUMENT_ALREADY_APPROVED
  | DOCUMENT_NOT_VALIDATED | DOCUMENT_HAS_BLOCKERS "blocker list" | DOCUMENT_NOT_APPROVED
  | VERSION_NOT_FOUND | WRONG_DOCUMENT_SHAPE | ROW_NOT_FOUND | CATEGORY_NOT_FOUND
  | NO_ROW_PROPOSAL | ASSUMPTION_PROVENANCE_REQUIRED | SCHEDULE_NOT_EDITABLE_HERE
  | DEPENDENCY_STATUS_NOT_EDITABLE_HERE | CREDENTIAL_VALUE_REFUSED "string list"
  | ASSUMPTION_NOT_CONFIRMABLE | DEPENDENCY_TRANSITION_INVALID | UNKNOWN_WBS_REFERENCE "string list"
  | WBS_PARENT_NOT_FOUND

definition GUARDED_ASSUMPTION_FIELDS :: "string list" where
  "GUARDED_ASSUMPTION_FIELDS = [''status'', ''provenance'', ''confirmedBy'', ''confirmedAt'']"

definition DERIVED_WBS_FIELDS :: "string list" where
  "DERIVED_WBS_FIELDS =
     [''relativeStartDay'', ''relativeFinishDay'', ''actualStartDate'', ''actualFinishDate'',
      ''workingDuration'', ''calendarDuration'', ''slackDays'', ''onCriticalPath'']"

definition GUARDED_DEPENDENCY_FIELDS :: "string list" where
  "GUARDED_DEPENDENCY_FIELDS = [''status'', ''requestedAt'', ''receivedAt'', ''validatedAt'']"

definition touches :: "string list \<Rightarrow> payload \<Rightarrow> payload \<Rightarrow> bool" where
  "touches guarded candidate previous =
     list_ex (\<lambda>f. case map_of candidate f of None \<Rightarrow> False | Some v \<Rightarrow> map_of previous f \<noteq> Some v)
       guarded"

record row_schema =
  parse :: "document_type \<Rightarrow> payload \<Rightarrow> payload option"
  secrets :: "payload \<Rightarrow> string list"

definition parseRowPayload ::
  "row_schema \<Rightarrow> document_type \<Rightarrow> payload \<Rightarrow> payload option \<Rightarrow> bool \<Rightarrow> doc_error + payload" where
  "parseRowPayload sch t candidate previous allowStatusChange =
     (let touched = (\<lambda>guarded. case previous of None \<Rightarrow> False | Some p \<Rightarrow> touches guarded candidate p)
      in if t = ASSUMPTIONS \<and> \<not> allowStatusChange \<and> touched GUARDED_ASSUMPTION_FIELDS
         then Inl ASSUMPTION_PROVENANCE_REQUIRED
         else if t = WORK_BREAKDOWN_STRUCTURE \<and> touched DERIVED_WBS_FIELDS
         then Inl SCHEDULE_NOT_EDITABLE_HERE
         else if t = CLIENT_DEPENDENCY_SHEET \<and> \<not> allowStatusChange
           \<and> touched GUARDED_DEPENDENCY_FIELDS
         then Inl DEPENDENCY_STATUS_NOT_EDITABLE_HERE
         else case parse sch t candidate of
                None \<Rightarrow> Inl WRONG_DOCUMENT_SHAPE
              | Some data \<Rightarrow>
                  if t = CLIENT_DEPENDENCY_SHEET \<and> secrets sch data \<noteq> []
                  then Inl (CREDENTIAL_VALUE_REFUSED (secrets sch data))
                  else Inr data)"

fun rewritable :: "document_type \<Rightarrow> string list" where
  "rewritable ACCEPTANCE_CRITERIA =
     [''module'', ''submodule'', ''screen'', ''actor'', ''given'', ''when'', ''then'', ''rule'', ''notes'']"
| "rewritable WORK_BREAKDOWN_STRUCTURE = [''task'', ''description'', ''deliverable'', ''notes'']"
| "rewritable CLIENT_DEPENDENCY_SHEET =
     [''dependency'', ''description'', ''purpose'', ''expectedFormat'', ''impactIfDelayed'', ''remarks'']"
| "rewritable _ =
     [''statement'', ''category'', ''impact'', ''impactAreas'', ''impactIfFalse'',
      ''validationNeeded'', ''notes'']"

definition rewritableFields :: "document_type \<Rightarrow> payload \<Rightarrow> payload" where
  "rewritableFields t candidate = filter (\<lambda>fv. fst fv \<in> set (rewritable t)) candidate"

datatype selection = By_rows "string list" | By_group string | Nothing_selected

fun selectRows :: "document_type \<Rightarrow> doc_row list \<Rightarrow> selection \<Rightarrow> doc_row list" where
  "selectRows t rows (By_rows ids) = filter (\<lambda>r. rowId r \<in> set ids) rows"
| "selectRows t rows (By_group g) =
     filter (\<lambda>r. map_of (rowPayload r) (if t = ACCEPTANCE_CRITERIA then ''module'' else ''category'')
                  = Some (Text g)) rows"
| "selectRows t rows Nothing_selected = []"

definition withNextKey ::
  "document_type \<Rightarrow> payload \<Rightarrow> doc_row list \<Rightarrow> doc_error + payload" where
  "withNextKey t p existing =
     (let ks = map (\<lambda>r. rowKey (rowPayload r)) existing
      in if t = ACCEPTANCE_CRITERIA then
           Inr (spread p [(''criterionKey'', Text (nextCriterionKey ks))])
         else if t = CLIENT_DEPENDENCY_SHEET then
           Inr (spread p [(''dependencyKey'', Text (nextDependencyKey ks))])
         else if t = WORK_BREAKDOWN_STRUCTURE then
           (let parentId = (case map_of p ''parentId'' of Some (Text i) \<Rightarrow> Some i | _ \<Rightarrow> None)
            in case parentId of
                 Some i \<Rightarrow>
                   if list_ex (\<lambda>r. map_of (rowPayload r) ''wbsId'' = Some (Text i)) existing
                   then Inr (spread p [(''wbsId'', Text (nextOutlineNumber parentId ks))])
                   else Inl WBS_PARENT_NOT_FOUND
               | None \<Rightarrow> Inr (spread p [(''wbsId'', Text (nextOutlineNumber None ks))]))
         else Inr (spread p [(''assumptionKey'', Text (nextAssumptionKey ks))]))"

section \<open>Freshness of keys\<close>

lemma highest_ge:
  "x \<in> set xs \<Longrightarrow> f x = Some (n::nat) \<Longrightarrow> n \<le> foldl (\<lambda>best x. case f x of None \<Rightarrow> best | Some n \<Rightarrow> max best n) b xs"
proof (induction xs arbitrary: b)
  case (Cons y ys)
  have mono: "c \<le> foldl (\<lambda>best x. case f x of None \<Rightarrow> best | Some n \<Rightarrow> max best n) c zs" for c zs
  proof (induction zs arbitrary: c)
    case (Cons z zs)
    show ?case
    proof (cases "f z")
      case None
      with Cons show ?thesis by simp
    next
      case (Some n)
      have "c \<le> max c n" by simp
      also note Cons [of "max c n"]
      finally show ?thesis using Some by simp
    qed
  qed simp
  show ?case
  proof (cases "x = y")
    case True
    with Cons.prems(2) mono [of "max b n" ys] show ?thesis by simp
  next
    case False
    with Cons show ?thesis by simp
  qed
qed simp

lemma not_above_highest: "f x = Some (highest f xs + 1) \<Longrightarrow> x \<notin> set xs"
  using highest_ge [of x xs f "highest f xs + 1" 0] by (auto simp: highest_def)

lemma length_show_nat: "n < 10 ^ Suc k \<Longrightarrow> length (show_nat n) \<le> Suc k"
proof (induction k arbitrary: n)
  case 0
  then show ?case by (subst show_nat.simps) simp
next
  case (Suc k)
  show ?case
  proof (cases "n < 10")
    case True
    then show ?thesis by (subst show_nat.simps) simp
  next
    case False
    have "n div 10 < 10 ^ Suc k" using Suc.prems by (simp add: div_less_iff_less_mult)
    with Suc.IH False show ?thesis by (subst show_nat.simps) simp
  qed
qed

lemma read_zeros: "foldl (\<lambda>n c. 10 * n + digit_value c) 0 (replicate k (CHR ''0'')) = 0"
  by (induction k) (simp_all add: digit_value_def)

lemma read_pad_start: "read_nat (pad_start n (CHR ''0'') s) = read_nat s"
  by (simp add: read_nat_def pad_start_def read_zeros)

lemma pad_show_digits: "list_all is_digit (pad_start n (CHR ''0'') (show_nat m))"
  by (auto simp: pad_start_def list_all_iff is_digit_def [of "CHR ''0''"] dest: show_nat_digits)

lemma keyed_next:
  assumes "m < 10 ^ 5"
  shows "keyed_number pre (pre @ pad_start 3 (CHR ''0'') (show_nat m)) = Some m"
proof -
  have "length (pad_start 3 (CHR ''0'') (show_nat m)) \<le> 5"
    using length_show_nat [of m 4] assms by (simp add: pad_start_def)
  moreover have "3 \<le> length (pad_start 3 (CHR ''0'') (show_nat m))"
    by (simp add: pad_start_def)
  ultimately show ?thesis
    by (simp add: keyed_number_def pad_show_digits read_pad_start)
qed

lemma outline_next: "outline_number pre (pre @ show_nat m) = Some m"
  by (simp add: outline_number_def list_all_iff show_nat_digits)

text \<open>
  A hand-added entry never takes an existing identity: the next criterion, assumption
  and dependency key is unused while fewer than 99999 are numbered, and the next outline number under
  a parent is unused whatever the outline holds.
\<close>
theorem next_keys_are_fresh:
  assumes "highest (keyed_number ''AC-'') ks < 99999" and "highest (keyed_number ''AS-'') ks < 99999"
    and "highest (keyed_number ''CD-'') ks < 99999"
  shows "nextCriterionKey ks \<notin> set ks \<and> nextAssumptionKey ks \<notin> set ks
    \<and> nextDependencyKey ks \<notin> set ks \<and> nextOutlineNumber parentId ks \<notin> set ks"
proof -
  have fresh: "next_key pre ks \<notin> set ks" if "highest (keyed_number pre) ks < 99999" for pre
    unfolding next_key_def using that
    by (intro not_above_highest [of "keyed_number pre"] keyed_next) simp
  have "nextOutlineNumber parentId ks \<notin> set ks"
    unfolding nextOutlineNumber_def Let_def
    by (rule not_above_highest [where f = "outline_number _"]) (rule outline_next)
  with fresh assms show ?thesis
    by (simp add: nextCriterionKey_def nextAssumptionKey_def nextDependencyKey_def)
qed

lemma next_keys_are_fresh_witness:
  "nextCriterionKey [''AC-001'', ''AC-007'', ''1.2''] = ''AC-008''
   \<and> ''AC-008'' \<notin> set [''AC-001'', ''AC-007'', ''1.2'']
   \<and> nextOutlineNumber (Some ''1'') [''AC-001'', ''AC-007'', ''1.2''] = ''1.3''"
proof -
  let ?ks = "[''AC-001'', ''AC-007'', ''1.2'']"
  have "highest (keyed_number ''AC-'') ?ks = 7" "highest (keyed_number ''AS-'') ?ks = 0"
    "highest (keyed_number ''CD-'') ?ks = 0"
    by code_simp+
  then have "highest (keyed_number ''AC-'') ?ks < 99999" "highest (keyed_number ''AS-'') ?ks < 99999"
    "highest (keyed_number ''CD-'') ?ks < 99999"
    by simp_all
  from next_keys_are_fresh [OF this, of None] have "nextCriterionKey ?ks \<notin> set ?ks" by blast
  moreover have "nextCriterionKey ?ks = ''AC-008''" "nextOutlineNumber (Some ''1'') ?ks = ''1.3''"
    by code_simp+
  ultimately show ?thesis by simp
qed

section \<open>The gate keeps lifecycle fields\<close>

lemma parse_keeps_guarded:
  assumes "parseRowPayload sch t candidate (Some previous) allow = Inr data"
    and "guarded = (if t = WORK_BREAKDOWN_STRUCTURE then DERIVED_WBS_FIELDS
           else if allow then [] else if t = ASSUMPTIONS then GUARDED_ASSUMPTION_FIELDS
           else if t = CLIENT_DEPENDENCY_SHEET then GUARDED_DEPENDENCY_FIELDS else [])"
    and "f \<in> set guarded" and "map_of candidate f = Some v"
  shows "map_of previous f = Some v"
proof -
  have "\<not> touches guarded candidate previous"
    using assms(1,2) by (auto simp: parseRowPayload_def Let_def touches_def split: if_splits option.splits)
  with assms(3,4) show ?thesis by (auto simp: touches_def list_ex_iff)
qed

end
