(* ===== verification/DocumentEngine.thy ===== *)
theory DocumentEngine
  imports DocumentRows
begin

text \<open>
  The shared document engine (apps/api/src/documents/documents.service.ts): every operation
  that writes, as a function from the store to the store and an error. The composer of each
  document type, the field schemas and the identifier source are the parameters of
  \<open>engine\<close>; audit events and the reloaded snapshot that ends each operation are left out.
  An operation reads the document, checks, and writes; the write itself is guarded again by
  the record version, so both the checks and a lost race are branches here.
\<close>

section \<open>Parameters\<close>

record composed_section =
  cs_key :: string
  cs_title :: string
  cs_order :: nat
  cs_body :: string
  cs_omittedReason :: string
  cs_references :: "reference list"

record composed_row =
  cr_order :: nat
  cr_references :: "reference list"
  cr_payload :: payload

record composed_content =
  cmp_sections :: "composed_section list"
  cmp_features :: "feature_row list"
  cmp_rows :: "composed_row list"

record composer =
  compose :: "upstream \<Rightarrow> doc_store \<Rightarrow> composed_content"
  composer_validate :: "upstream \<Rightarrow> stored_content \<Rightarrow> string list \<Rightarrow> bool \<Rightarrow> finding list"
  assess :: "upstream \<Rightarrow> stored_content \<Rightarrow> string list \<Rightarrow> assessment"
  requiredSectionKeys :: "string list"

record engine =
  mint :: "nat \<Rightarrow> string"
  composer_for :: "document_type \<Rightarrow> composer"
  row_schema_of :: row_schema

fun has_row_kind :: "document_type \<Rightarrow> bool" where
  "has_row_kind ACCEPTANCE_CRITERIA = True"
| "has_row_kind ASSUMPTIONS = True"
| "has_row_kind WORK_BREAKDOWN_STRUCTURE = True"
| "has_row_kind CLIENT_DEPENDENCY_SHEET = True"
| "has_row_kind _ = False"

definition mayBeEmpty :: "document_type \<Rightarrow> bool" where
  "mayBeEmpty t = (t = ASSUMPTIONS)"

type_synonym result = "doc_store \<times> doc_error option"

section \<open>Checks\<close>

definition lock_of :: "document_type \<Rightarrow> upstream \<Rightarrow> doc_store \<Rightarrow> document_lock option" where
  "lock_of t up st =
     lockFor t
       \<lparr> availableUpstream = available_upstream up, documentStates = document_states up st \<rparr>
       IMPLEMENTED_DOCUMENT_TYPES"

definition expect :: "document_type \<Rightarrow> nat \<Rightarrow> doc_store \<Rightarrow> doc_error + doc_record" where
  "expect t expected st =
     (case find_doc t st of
        None \<Rightarrow> Inl DOCUMENT_NOT_FOUND
      | Some r \<Rightarrow> if dr_recordVersion r \<noteq> expected then Inl version_conflict else Inr r)"

definition editableDocument ::
  "document_type \<Rightarrow> upstream \<Rightarrow> nat \<Rightarrow> doc_store \<Rightarrow> doc_error + doc_record" where
  "editableDocument t up expected st =
     (if \<not> isImplementedDocumentType t then Inl DOCUMENT_NOT_IMPLEMENTED
      else case expect t expected st of
             Inl e \<Rightarrow> Inl e
           | Inr r \<Rightarrow>
               if \<not> isDocumentEditable (dr_status r) then
                 Inl (if dr_status r = FINAL then DOCUMENT_FINAL else INVALID_STATUS_TRANSITION)
               else case lock_of t up st of
                      Some lock \<Rightarrow> Inl (DOCUMENT_LOCKED lock)
                    | None \<Rightarrow> Inr r)"

definition commit ::
  "document_type \<Rightarrow> nat \<Rightarrow> (doc_record \<Rightarrow> doc_record) \<Rightarrow> doc_store \<Rightarrow> doc_error + doc_store" where
  "commit t expected f st =
     (case update_doc t expected f st of None \<Rightarrow> Inl version_conflict | Some st' \<Rightarrow> Inr st')"

section \<open>Copying content\<close>

definition renumber :: "doc_row list \<Rightarrow> doc_row list" where
  "renumber rows = map (\<lambda>(i, r). r\<lparr> rowOrder := i \<rparr>) (zip [0..<length rows] rows)"

definition toFeatureRecord :: "feature_wording option \<Rightarrow> feature_row \<Rightarrow> feature_row" where
  "toFeatureRecord suggestion row = row\<lparr> proposed := suggestion \<rparr>"

definition with_section_ids :: "string list \<Rightarrow> doc_section list \<Rightarrow> doc_section list" where
  "with_section_ids ids ss = map (\<lambda>(i, s). s\<lparr> sectionId := i \<rparr>) (zip ids ss)"

definition with_feature_ids :: "string list \<Rightarrow> feature_row list \<Rightarrow> feature_row list" where
  "with_feature_ids ids fs = map (\<lambda>(i, f). f\<lparr> featureId := i \<rparr>) (zip ids fs)"

definition with_row_ids :: "string list \<Rightarrow> doc_row list \<Rightarrow> doc_row list" where
  "with_row_ids ids rs = map (\<lambda>(i, r). r\<lparr> rowId := i \<rparr>) (zip ids rs)"

text \<open>Fresh identifiers for the items of a new version, then the three replacements.\<close>

definition store_fresh ::
  "engine \<Rightarrow> document_type \<Rightarrow> nat \<Rightarrow> stored_content \<Rightarrow> doc_store \<Rightarrow> doc_store" where
  "store_fresh eng t v c st =
     (let n = length (c_sections c); k = length (c_features c); m = length (c_rows c);
          ids = mint_ids (mint eng) (n + k + m) st;
          st1 = replaceSections t v (with_section_ids (take n ids) (c_sections c)) (minted (n + k + m) st);
          st2 = replaceFeatures t v (with_feature_ids (take k (drop n ids)) (c_features c)) st1
      in if has_row_kind t then replaceRows t v (with_row_ids (drop (n + k) ids) (c_rows c)) st2
         else st2)"

section \<open>Composition\<close>

definition section_map :: "doc_section list \<Rightarrow> string \<Rightarrow> doc_section option" where
  "section_map ss = map_of (rev (map (\<lambda>s. (sec_key s, s)) ss))"

definition merge_section :: "doc_section list \<Rightarrow> composed_section \<Rightarrow> doc_section" where
  "merge_section previous c =
     (let fresh = \<lparr> sectionId = [], sec_key = cs_key c, sec_title = cs_title c, sec_order = cs_order c,
                    sec_body = cs_body c, sec_origin = S_GENERATED,
                    omittedReason = cs_omittedReason c, sec_references = cs_references c,
                    proposedBody = [], sec_regenerationReason = [] \<rparr>
      in case section_map previous (cs_key c) of
           None \<Rightarrow> fresh
         | Some existing \<Rightarrow>
             if mayReplaceDirectly existing then fresh
             else fresh\<lparr> sec_body := sec_body existing, sec_origin := sec_origin existing,
                         proposedBody := cs_body c \<rparr>)"

definition mergeSections :: "composed_section list \<Rightarrow> doc_section list \<Rightarrow> doc_section list" where
  "mergeSections composed previous = map (merge_section previous) composed"

definition unit_key :: "feature_row \<Rightarrow> string" where
  "unit_key row = js_join ''|'' (estimateUnitIds row)"

definition buildFeatures :: "feature_row list \<Rightarrow> feature_row list \<Rightarrow> feature_row list" where
  "buildFeatures composed previous =
     (let byUnit = map_of (rev (map (\<lambda>r. (unit_key r, r))
            (filter (\<lambda>r. reviewStatus r \<noteq> FeatureListing.GENERATED) previous)))
      in map (\<lambda>c. case byUnit (unit_key c) of
                    None \<Rightarrow> c\<lparr> proposed := None \<rparr>
                  | Some e \<Rightarrow> c\<lparr> wording := wording e, feature_notes := feature_notes e,
                                 reviewStatus := reviewStatus e, proposed := None \<rparr>) composed)"

definition kept_row :: "composed_row \<Rightarrow> doc_row \<Rightarrow> doc_row" where
  "kept_row c e =
     e\<lparr> rowOrder := cr_order c, rowProposed := Some (cr_payload c), rowReferences := cr_references c \<rparr>"

definition composed_new_row :: "composed_row \<Rightarrow> doc_row" where
  "composed_new_row c =
     \<lparr> rowId = [], rowOrder = cr_order c, rowOrigin = R_GENERATED, attribution = [],
       rowPayload = cr_payload c, rowProposed = None, rowReferences = cr_references c,
       excludedReason = [] \<rparr>"

fun build_rows_loop ::
  "(string \<times> doc_row) list \<Rightarrow> composed_row list \<Rightarrow> doc_row list \<times> (string \<times> doc_row) list" where
  "build_rows_loop byKey [] = ([], byKey)"
| "build_rows_loop byKey (c # cs) =
     (case map_of byKey (rowKey (cr_payload c)) of
        Some e \<Rightarrow>
          (let (rows, left) = build_rows_loop (AList.delete (rowKey (cr_payload c)) byKey) cs
           in (kept_row c e # rows, left))
      | None \<Rightarrow>
          (let (rows, left) = build_rows_loop byKey cs in (composed_new_row c # rows, left)))"

definition buildRows :: "composed_row list \<Rightarrow> doc_row list \<Rightarrow> doc_row list" where
  "buildRows composed previous =
     (let byKey = foldl (\<lambda>m r. AList.update (rowKey (rowPayload r)) r m) []
            (filter (\<lambda>r. isRowProtected (rowOrigin r)) previous);
          (rows, left) = build_rows_loop byKey composed
      in rows @ map (\<lambda>(i, e). e\<lparr> rowOrder := length rows + i, rowProposed := None \<rparr>)
                  (zip [0..<length left] (map snd left)))"

section \<open>Generation\<close>

definition generate ::
  "engine \<Rightarrow> upstream \<Rightarrow> document_type \<Rightarrow> nat \<Rightarrow> string \<Rightarrow> composed_content option \<Rightarrow> doc_store
    \<Rightarrow> result" where
  "generate eng up t expected reason composed st =
     (if \<not> isImplementedDocumentType t then (st, Some DOCUMENT_NOT_IMPLEMENTED)
      else case lock_of t up st of
        Some lock \<Rightarrow> (st, Some (DOCUMENT_LOCKED lock))
      | None \<Rightarrow>
          (case find_doc t st of
             Some e \<Rightarrow>
               if dr_recordVersion e \<noteq> expected then (st, Some version_conflict)
               else if isDocumentRunning (dr_status e) then (st, Some DOCUMENT_GENERATING)
               else if dr_status e = FINAL then (st, Some DOCUMENT_FINAL)
               else if \<not> canGenerateDocument (dr_status e) then (st, Some INVALID_STATUS_TRANSITION)
               else
                 let content = (case composed of Some c \<Rightarrow> c | None \<Rightarrow> compose (composer_for eng t) up st);
                     previous = currentContent t e st;
                     st1 = archive t e previous None None no_lineage st;
                     v = nextVersion t st1;
                     c = \<lparr> c_sections = mergeSections (cmp_sections content) (c_sections previous),
                           c_features = buildFeatures (cmp_features content) (c_features previous),
                           c_rows = buildRows (cmp_rows content) (c_rows previous) \<rparr>
                 in (case update_doc t (dr_recordVersion e)
                       (\<lambda>r. r\<lparr> dr_version := v, dr_status := DRAFT,
                              dr_upstream := merge_upstream (u_versions up) (dr_upstream r),
                              dr_outdatedReasons := [],
                              dr_prerequisiteVersions := prerequisiteVersions t st1,
                              dr_supersedesVersion := Some (dr_version e),
                              dr_regenerationReason := reason, dr_validation := None \<rparr>) st1 of
                       None \<Rightarrow> (st1, Some version_conflict)
                     | Some st2 \<Rightarrow>
                         let st3 = store_fresh eng t v c st2
                         in (case find_doc t st3 of
                               None \<Rightarrow> (st3, Some DOCUMENT_NOT_FOUND)
                             | Some r \<Rightarrow>
                                 (archive t r (currentContent t r st3) None None
                                    (change_lineage ''REGENERATED'') st3, None)))
           | None \<Rightarrow>
               let content = (case composed of Some c \<Rightarrow> c | None \<Rightarrow> compose (composer_for eng t) up st);
                   v = nextVersion t st;
                   c = \<lparr> c_sections = mergeSections (cmp_sections content) [],
                         c_features = buildFeatures (cmp_features content) [],
                         c_rows = buildRows (cmp_rows content) [] \<rparr>;
                   r = \<lparr> dr_version = v, dr_status = DRAFT, dr_recordVersion = 0,
                         dr_upstream = u_versions up,
                         dr_prerequisiteVersions = prerequisiteVersions t st,
                         dr_validation = None, dr_outdatedReasons = [], dr_exclusions = [],
                         dr_supersedesVersion = None, dr_regenerationReason = reason,
                         dr_approvedAt = None, dr_finalAt = None \<rparr>;
                   st1 = store_fresh eng t v c (create_doc t r st)
               in (archive t r (currentContent t r st1) None None (change_lineage ''GENERATED'') st1,
                   None)))"

section \<open>After any content change\<close>

text \<open>
  \<open>record\<close> is the document as the operation read it, which may be older than the stored one.
  Sections and rows keep their identity at the new version.
\<close>

definition afterContentChange ::
  "document_type \<Rightarrow> doc_record \<Rightarrow> string option \<Rightarrow> doc_store \<Rightarrow> result" where
  "afterContentChange t rcd changeType st =
     (let wasApproved = (dr_status rcd = APPROVED);
          content = currentContent t rcd st;
          v = nextVersion t st;
          live = (case find_doc t st of Some r \<Rightarrow> r | None \<Rightarrow> rcd)
      in case commit t (dr_recordVersion live)
                (\<lambda>r. r\<lparr> dr_version := v,
                       dr_status := (if wasApproved then DRAFT else dr_status r),
                       dr_supersedesVersion := Some (dr_version rcd), dr_validation := None \<rparr>) st of
           Inl e \<Rightarrow> (st, Some e)
         | Inr st1 \<Rightarrow>
             let st2 = replaceSections t v
                   (map (\<lambda>s. s\<lparr> sec_regenerationReason := [] \<rparr>) (c_sections content)) st1;
                 st3 = replaceFeatures t v (map (toFeatureRecord None) (c_features content)) st2;
                 st4 = (if has_row_kind t then replaceRows t v (renumber (c_rows content)) st3 else st3);
                 st5 = (case find_doc t st4 of
                          None \<Rightarrow> st4
                        | Some r \<Rightarrow> archive t r (currentContent t r st4) None None
                                     (no_lineage\<lparr> ln_changeType := changeType \<rparr>) st4)
             in (if wasApproved then markDependentsOutdated t st5 else st5, None))"

section \<open>Sections and features\<close>

definition updateSection ::
  "upstream \<Rightarrow> document_type \<Rightarrow> string \<Rightarrow> nat \<Rightarrow> string option \<Rightarrow> string \<Rightarrow> doc_store \<Rightarrow> result" where
  "updateSection up t i expected title body st =
     (case editableDocument t up expected st of
        Inl e \<Rightarrow> (st, Some e)
      | Inr r \<Rightarrow>
          (case findSection i (dr_version r) st of
             Some (t', s) \<Rightarrow>
               if t' \<noteq> t then (st, Some SECTION_NOT_FOUND)
               else
                 let origin = (if js_trim (sec_body s) = [] then S_USER_AUTHORED else S_USER_EDITED);
                     st1 = updateStoredSection i (dr_version r)
                       (\<lambda>s. s\<lparr> sec_body := body,
                              sec_title := (case title of None \<Rightarrow> sec_title s
                                            | Some x \<Rightarrow> if x = [] then sec_title s else x),
                              sec_origin := origin, proposedBody := [] \<rparr>) st
                 in afterContentChange t r (Some ''SECTION_EDITED'') st1
           | None \<Rightarrow> (st, Some SECTION_NOT_FOUND)))"

definition regenerateSection ::
  "upstream \<Rightarrow> document_type \<Rightarrow> string \<Rightarrow> nat \<Rightarrow> string \<Rightarrow> string \<Rightarrow> doc_store \<Rightarrow> result" where
  "regenerateSection up t i expected body reason st =
     (case editableDocument t up expected st of
        Inl e \<Rightarrow> (st, Some e)
      | Inr r \<Rightarrow>
          (case findSection i (dr_version r) st of
             Some (t', s) \<Rightarrow>
               if t' \<noteq> t then (st, Some SECTION_NOT_FOUND)
               else
                 let st1 = updateStoredSection i (dr_version r)
                       (if isSectionProtected (sec_origin s)
                        then (\<lambda>s. s\<lparr> proposedBody := body, sec_regenerationReason := reason \<rparr>)
                        else (\<lambda>s. s\<lparr> sec_body := body, sec_regenerationReason := reason \<rparr>)) st
                 in afterContentChange t r (Some ''TARGETED_REGENERATION'') st1
           | None \<Rightarrow> (st, Some SECTION_NOT_FOUND)))"

definition resolved_body :: "revision_decision \<Rightarrow> string option \<Rightarrow> doc_section \<Rightarrow> string" where
  "resolved_body d body s =
     (case d of
        KEEP_CURRENT \<Rightarrow> sec_body s
      | ACCEPT_GENERATED_REVISION \<Rightarrow> proposedBody s
      | EDIT_GENERATED_REVISION \<Rightarrow> (case body of Some b \<Rightarrow> b | None \<Rightarrow> proposedBody s))"

definition resolveProposal ::
  "upstream \<Rightarrow> document_type \<Rightarrow> string \<Rightarrow> nat \<Rightarrow> revision_decision \<Rightarrow> string option \<Rightarrow> doc_store
    \<Rightarrow> result" where
  "resolveProposal up t i expected d body st =
     (case editableDocument t up expected st of
        Inl e \<Rightarrow> (st, Some e)
      | Inr r \<Rightarrow>
          (case findSection i (dr_version r) st of
             Some (t', s) \<Rightarrow>
               if t' \<noteq> t then (st, Some SECTION_NOT_FOUND)
               else if proposedBody s = [] then (st, Some NO_PROPOSAL_TO_RESOLVE)
               else
                 let st1 = updateStoredSection i (dr_version r)
                       (\<lambda>x. x\<lparr> sec_body := resolved_body d body s, sec_origin := S_USER_EDITED,
                              proposedBody := [] \<rparr>) st
                 in afterContentChange t r None st1
           | None \<Rightarrow> (st, Some SECTION_NOT_FOUND)))"

text \<open>The fields of \<open>UpdateFeatureRow\<close>; an absent one keeps its value.\<close>

record feature_update =
  fu_module :: "string option"
  fu_submodule :: "string option"
  fu_screen :: "string option"
  fu_description :: "string option"
  fu_notes :: "string option"

definition get_or :: "'a \<Rightarrow> 'a option \<Rightarrow> 'a" where
  "get_or d x = (case x of None \<Rightarrow> d | Some y \<Rightarrow> y)"

definition apply_feature_update :: "feature_update \<Rightarrow> feature_row \<Rightarrow> feature_row" where
  "apply_feature_update u f =
     (let w = wording f
      in f\<lparr> wording := \<lparr> feature_module = get_or (feature_module w) (fu_module u),
                          submodule = get_or (submodule w) (fu_submodule u),
                          screen = get_or (screen w) (fu_screen u),
                          description = get_or (description w) (fu_description u) \<rparr>,
             feature_notes := get_or (feature_notes f) (fu_notes u),
             reviewStatus := FeatureListing.USER_EDITED \<rparr>)"

definition updateFeature ::
  "upstream \<Rightarrow> document_type \<Rightarrow> string \<Rightarrow> nat \<Rightarrow> feature_update \<Rightarrow> doc_store \<Rightarrow> result" where
  "updateFeature up t i expected u st =
     (case editableDocument t up expected st of
        Inl e \<Rightarrow> (st, Some e)
      | Inr r \<Rightarrow>
          (case findFeature i (dr_version r) st of
             Some (t', f) \<Rightarrow>
               if t' \<noteq> t then (st, Some FEATURE_NOT_FOUND)
               else afterContentChange t r None
                      (updateStoredFeature i (dr_version r) (apply_feature_update u) st)
           | None \<Rightarrow> (st, Some FEATURE_NOT_FOUND)))"

definition chosen_wording ::
  "revision_decision \<Rightarrow> feature_update \<Rightarrow> feature_wording \<Rightarrow> feature_row \<Rightarrow> feature_wording" where
  "chosen_wording d u s f =
     (case d of
        KEEP_CURRENT \<Rightarrow> wording f
      | ACCEPT_GENERATED_REVISION \<Rightarrow> s
      | EDIT_GENERATED_REVISION \<Rightarrow>
          \<lparr> feature_module = get_or (feature_module s) (fu_module u),
            submodule = get_or (submodule s) (fu_submodule u),
            screen = get_or (screen s) (fu_screen u),
            description = get_or (description s) (fu_description u) \<rparr>)"

definition resolveFeatureProposal ::
  "upstream \<Rightarrow> document_type \<Rightarrow> string \<Rightarrow> nat \<Rightarrow> revision_decision \<Rightarrow> feature_update \<Rightarrow> doc_store
    \<Rightarrow> result" where
  "resolveFeatureProposal up t i expected d u st =
     (case editableDocument t up expected st of
        Inl e \<Rightarrow> (st, Some e)
      | Inr r \<Rightarrow>
          (case findFeature i (dr_version r) st of
             Some (t', f) \<Rightarrow>
               if t' \<noteq> t then (st, Some FEATURE_NOT_FOUND)
               else (case proposed f of
                       None \<Rightarrow> (st, Some NO_FEATURE_PROPOSAL)
                     | Some s \<Rightarrow>
                         afterContentChange t r None
                           (updateStoredFeature i (dr_version r)
                              (\<lambda>x. x\<lparr> wording := chosen_wording d u s f,
                                     reviewStatus := FeatureListing.USER_EDITED, proposed := None \<rparr>) st))
           | None \<Rightarrow> (st, Some FEATURE_NOT_FOUND)))"

definition excludeRequirement ::
  "upstream \<Rightarrow> document_type \<Rightarrow> string \<Rightarrow> string \<Rightarrow> nat \<Rightarrow> doc_store \<Rightarrow> result" where
  "excludeRequirement up t requirementId reason expected st =
     (case editableDocument t up expected st of
        Inl e \<Rightarrow> (st, Some e)
      | Inr r \<Rightarrow>
          if requirementId \<notin> set (u_requirementKeys up) then (st, Some UNKNOWN_REQUIREMENT)
          else (case commit t (dr_recordVersion r)
                       (\<lambda>x. x\<lparr> dr_exclusions :=
                          filter (\<lambda>e. fst e \<noteq> requirementId) (dr_exclusions r)
                          @ [(requirementId, reason)] \<rparr>) st of
                  Inl e \<Rightarrow> (st, Some e)
                | Inr st1 \<Rightarrow> afterContentChange t r None st1))"

section \<open>Validation\<close>

definition baseline_is_current :: "doc_record \<Rightarrow> upstream \<Rightarrow> bool" where
  "baseline_is_current r up =
     (u_baselineCurrent up
      \<and> (baselineVersion (dr_upstream r) = None
         \<or> baselineVersion (dr_upstream r) = baselineVersion (u_versions up)))"

definition validate ::
  "engine \<Rightarrow> upstream \<Rightarrow> document_type \<Rightarrow> finding list \<Rightarrow> bool \<Rightarrow> doc_store \<Rightarrow> result" where
  "validate eng up t extra modelAssisted st =
     (if \<not> isImplementedDocumentType t then (st, Some DOCUMENT_NOT_IMPLEMENTED)
      else case find_doc t st of
        None \<Rightarrow> (st, Some DOCUMENT_NOT_GENERATED)
      | Some r \<Rightarrow>
          let found = composer_validate (composer_for eng t) up (currentContent t r st)
                (map fst (dr_exclusions r)) (baseline_is_current r up) @ extra;
              val = \<lparr> v_documentVersion = dr_version r, v_severity = worstSeverity found,
                      v_findings = found, v_modelAssisted = modelAssisted \<rparr>
          in (case commit t (dr_recordVersion r) (\<lambda>x. x\<lparr> dr_validation := Some val \<rparr>) st of
                Inl e \<Rightarrow> (st, Some e)
              | Inr st1 \<Rightarrow> (st1, None)))"

definition acknowledgeFinding ::
  "upstream \<Rightarrow> document_type \<Rightarrow> string \<Rightarrow> nat \<Rightarrow> doc_store \<Rightarrow> result" where
  "acknowledgeFinding up t kind expected st =
     (case editableDocument t up expected st of
        Inl e \<Rightarrow> (st, Some e)
      | Inr r \<Rightarrow>
          (case dr_validation r of
             None \<Rightarrow> (st, Some NO_FINDING_TO_ACKNOWLEDGE)
           | Some v \<Rightarrow>
               if \<not> list_ex (\<lambda>f. f_kind f = kind \<and> f_severity f = WARNING) (v_findings v)
               then (st, Some NO_FINDING_TO_ACKNOWLEDGE)
               else
                 let fs = map (\<lambda>f. if f_kind f = kind \<and> f_severity f = WARNING
                                    then f\<lparr> f_acknowledged := True \<rparr> else f) (v_findings v)
                 in (case commit t (dr_recordVersion r)
                            (\<lambda>x. x\<lparr> dr_validation :=
                               Some (v\<lparr> v_findings := fs, v_severity := worstSeverity fs \<rparr>) \<rparr>) st of
                       Inl e \<Rightarrow> (st, Some e)
                     | Inr st1 \<Rightarrow> (st1, None))))"

section \<open>Approval and issue\<close>

definition blockers_of ::
  "engine \<Rightarrow> upstream \<Rightarrow> document_type \<Rightarrow> doc_record \<Rightarrow> doc_store \<Rightarrow> blocker list" where
  "blockers_of eng up t r st =
     (let content = currentContent t r st; cm = composer_for eng t;
          excluded = map fst (dr_exclusions r);
          unapproved = filter (\<lambda>p. case document_states up st p of
                                       None \<Rightarrow> False | Some s \<Rightarrow> \<not> isAuthoritativeState s)
                         (dd_documents (DOCUMENT_DEPENDENCIES t))
      in calculateDocumentBlockers
           \<lparr> bi_generated = (c_sections content \<noteq> [] \<or> c_features content \<noteq> []
                \<or> c_rows content \<noteq> [] \<or> mayBeEmpty t),
             bi_sections = c_sections content, bi_requiredSectionKeys = requiredSectionKeys cm,
             bi_validation = dr_validation r,
             bi_outdatedReasons = documentOutdatedReasonsFor t r up,
             bi_unapprovedPrerequisites = unapproved,
             bi_pendingFeatureIds = map featureId (filter hasFeatureProposal (c_features content)),
             bi_pendingRowIds = rowsAwaitingDecision (c_rows content),
             bi_unattributedRowIds = map rowId (filter rowNeedsAttribution (c_rows content)),
             bi_assessment = assess cm up content excluded \<rparr>)"

definition approve ::
  "engine \<Rightarrow> upstream \<Rightarrow> document_type \<Rightarrow> nat \<Rightarrow> int \<Rightarrow> doc_store \<Rightarrow> result" where
  "approve eng up t expected now st =
     (if \<not> isImplementedDocumentType t then (st, Some DOCUMENT_NOT_IMPLEMENTED)
      else case expect t expected st of
        Inl e \<Rightarrow> (st, Some e)
      | Inr r \<Rightarrow>
          let reasons = documentOutdatedReasonsFor t r up; blockers = blockers_of eng up t r st
          in if reasons \<noteq> [] then (st, Some (DOCUMENT_UPSTREAM_STALE reasons))
             else if isDocumentAuthoritative (dr_status r) then (st, Some DOCUMENT_ALREADY_APPROVED)
             else if \<not> canTransitionDocument (dr_status r) APPROVED
               then (st, Some INVALID_STATUS_TRANSITION)
             else if \<not> validationIsCurrent (dr_validation r) (dr_version r)
               then (st, Some DOCUMENT_NOT_VALIDATED)
             else if \<not> validationPermitsApproval (dr_validation r) \<or> blockers \<noteq> []
               then (st, Some (DOCUMENT_HAS_BLOCKERS blockers))
             else (case commit t (dr_recordVersion r)
                          (\<lambda>x. x\<lparr> dr_status := APPROVED, dr_approvedAt := Some now \<rparr>) st of
                     Inl e \<Rightarrow> (st, Some e)
                   | Inr st1 \<Rightarrow>
                       (archive t r (currentContent t r st1) (Some APPROVED) (Some now) no_lineage st1,
                        None)))"

definition markFinal ::
  "upstream \<Rightarrow> document_type \<Rightarrow> nat \<Rightarrow> int \<Rightarrow> doc_store \<Rightarrow> result" where
  "markFinal up t expected now st =
     (if \<not> isImplementedDocumentType t then (st, Some DOCUMENT_NOT_IMPLEMENTED)
      else case expect t expected st of
        Inl e \<Rightarrow> (st, Some e)
      | Inr r \<Rightarrow>
          let reasons = documentOutdatedReasonsFor t r up
          in if reasons \<noteq> [] then (st, Some (DOCUMENT_UPSTREAM_STALE reasons))
             else if \<not> canTransitionDocument (dr_status r) FINAL
               then (st, Some (if dr_status r = FINAL then DOCUMENT_FINAL else DOCUMENT_NOT_APPROVED))
             else (case commit t (dr_recordVersion r)
                          (\<lambda>x. x\<lparr> dr_status := FINAL, dr_finalAt := Some now \<rparr>) st of
                     Inl e \<Rightarrow> (st, Some e)
                   | Inr st1 \<Rightarrow>
                       (updateVersion t (dr_version r)
                          (\<lambda>e. e\<lparr> vr_status := FINAL, vr_finalAt := Some now \<rparr>) st1, None)))"

section \<open>Reopening, revising, restoring\<close>

text \<open>
  The result of the guarded write is not looked at by these two operations: when the write
  matches nothing the store keeps its record.
\<close>

definition update_or_ignore ::
  "document_type \<Rightarrow> nat \<Rightarrow> (doc_record \<Rightarrow> doc_record) \<Rightarrow> doc_store \<Rightarrow> doc_store" where
  "update_or_ignore t expected f st =
     (case update_doc t expected f st of None \<Rightarrow> st | Some st' \<Rightarrow> st')"

definition archive_current :: "document_type \<Rightarrow> lineage \<Rightarrow> doc_store \<Rightarrow> doc_store" where
  "archive_current t lin st =
     (case find_doc t st of
        None \<Rightarrow> st
      | Some r \<Rightarrow> archive t r (currentContent t r st) None None lin st)"

text \<open>What \<open>revise\<close> does once it has read the document.\<close>

definition revise_from ::
  "engine \<Rightarrow> upstream \<Rightarrow> document_type \<Rightarrow> doc_record \<Rightarrow> string \<Rightarrow> doc_store \<Rightarrow> doc_store" where
  "revise_from eng up t r reason st =
     (let issued = currentContent t r st;
          st1 = archive t r issued (Some FINAL) None (change_lineage ''ISSUED'') st;
          v = nextVersion t st1;
          n = length (c_sections issued); k = length (c_features issued);
          ids = mint_ids (mint eng) (n + k) st1;
          ss = map (\<lambda>s. s\<lparr> sec_origin := S_USER_EDITED, proposedBody := [],
                           sec_regenerationReason :=
                             ''Revised from issued version '' @ show_nat (dr_version r) \<rparr>)
                 (c_sections issued);
          st2 = replaceSections t v (with_section_ids (take n ids) ss) (minted (n + k) st1);
          st3 = replaceFeatures t v
                  (with_feature_ids (drop n ids) (map (toFeatureRecord None) (c_features issued))) st2;
          st4 = update_or_ignore t (dr_recordVersion r)
                  (\<lambda>x. x\<lparr> dr_version := v, dr_status := DRAFT,
                         dr_supersedesVersion := Some (dr_version r),
                         dr_regenerationReason := reason, dr_validation := None,
                         dr_outdatedReasons := [],
                         dr_upstream := merge_upstream (u_versions up) (dr_upstream x),
                         dr_prerequisiteVersions := prerequisiteVersions t st3,
                         dr_finalAt := None, dr_approvedAt := None \<rparr>) st3;
          st5 = archive_current t
                  \<lparr> ln_changeType = Some ''REVISED_FROM_FINAL'', ln_restoredFrom = None,
                    ln_revisedFrom = Some (dr_version r) \<rparr> st4
      in markDependentsOutdated t st5)"

definition revise ::
  "engine \<Rightarrow> upstream \<Rightarrow> document_type \<Rightarrow> nat \<Rightarrow> string \<Rightarrow> doc_store \<Rightarrow> result" where
  "revise eng up t expected reason st =
     (if \<not> isImplementedDocumentType t then (st, Some DOCUMENT_NOT_IMPLEMENTED)
      else case expect t expected st of
        Inl e \<Rightarrow> (st, Some e)
      | Inr r \<Rightarrow>
          if dr_status r \<noteq> FINAL then (st, Some DOCUMENT_NOT_APPROVED)
          else (revise_from eng up t r reason st, None))"

definition reopen_from ::
  "engine \<Rightarrow> document_type \<Rightarrow> doc_record \<Rightarrow> string \<Rightarrow> doc_store \<Rightarrow> doc_store" where
  "reopen_from eng t r reason st =
     (let approved = currentContent t r st;
          st1 = archive t r approved (Some APPROVED) (dr_approvedAt r) no_lineage st;
          v = nextVersion t st1;
          c = \<lparr> c_sections = map (\<lambda>s. s\<lparr> proposedBody := [], sec_regenerationReason := [] \<rparr>)
                  (c_sections approved),
                c_features = map (toFeatureRecord None) (c_features approved),
                c_rows = renumber (c_rows approved) \<rparr>;
          st2 = store_fresh eng t v c st1;
          st3 = update_or_ignore t (dr_recordVersion r)
                  (\<lambda>x. x\<lparr> dr_version := v, dr_status := NEEDS_REVISION,
                         dr_supersedesVersion := Some (dr_version r),
                         dr_regenerationReason := reason, dr_validation := None,
                         dr_approvedAt := None \<rparr>) st2;
          st4 = archive_current t
                  \<lparr> ln_changeType = Some ''REOPENED'', ln_restoredFrom = None,
                    ln_revisedFrom = Some (dr_version r) \<rparr> st3
      in markDependentsOutdated t st4)"

definition reopen ::
  "engine \<Rightarrow> upstream \<Rightarrow> document_type \<Rightarrow> nat \<Rightarrow> string \<Rightarrow> doc_store \<Rightarrow> result" where
  "reopen eng up t expected reason st =
     (if \<not> isImplementedDocumentType t then (st, Some DOCUMENT_NOT_IMPLEMENTED)
      else case expect t expected st of
        Inl e \<Rightarrow> (st, Some e)
      | Inr r \<Rightarrow>
          if dr_status r = FINAL then revise eng up t expected reason st
          else if dr_status r \<noteq> APPROVED then (st, Some DOCUMENT_NOT_APPROVED)
          else (reopen_from eng t r reason st, None))"

definition restored_content :: "nat \<Rightarrow> stored_content \<Rightarrow> stored_content" where
  "restored_content v c =
     \<lparr> c_sections = map (\<lambda>s. s\<lparr> sec_origin := S_USER_EDITED, proposedBody := [],
                              sec_regenerationReason := ''Restored from version '' @ show_nat v \<rparr>)
         (c_sections c),
       c_features = map (toFeatureRecord None) (c_features c),
       c_rows = map (\<lambda>r. r\<lparr> rowOrigin := R_USER_EDITED, rowProposed := None \<rparr>) (renumber (c_rows c)) \<rparr>"

definition restore ::
  "engine \<Rightarrow> upstream \<Rightarrow> document_type \<Rightarrow> nat \<Rightarrow> nat \<Rightarrow> doc_store \<Rightarrow> result" where
  "restore eng up t expected from st =
     (case editableDocument t up expected st of
        Inl e \<Rightarrow> (st, Some e)
      | Inr r \<Rightarrow>
          (case findVersion t from st of
             None \<Rightarrow> (st, Some VERSION_NOT_FOUND)
           | Some stored \<Rightarrow>
               let st1 = archive t r (currentContent t r st) None None no_lineage st;
                   v = nextVersion t st1
               in (case commit t (dr_recordVersion r)
                          (\<lambda>x. x\<lparr> dr_version := v, dr_status := DRAFT,
                                 dr_supersedesVersion := Some (dr_version r),
                                 dr_regenerationReason := ''Restored from version '' @ show_nat from,
                                 dr_validation := None \<rparr>) st1 of
                     Inl e \<Rightarrow> (st1, Some e)
                   | Inr st2 \<Rightarrow>
                       (archive_current t
                          \<lparr> ln_changeType = Some ''RESTORED'', ln_restoredFrom = Some from,
                            ln_revisedFrom = None \<rparr>
                          (store_fresh eng t v (restored_content from (vr_content stored)) st2), None))))"

section \<open>Rows\<close>

definition expectRow :: "document_type \<Rightarrow> nat \<Rightarrow> string \<Rightarrow> doc_store \<Rightarrow> doc_error + doc_row" where
  "expectRow t v i st =
     (case findRow i v st of
        None \<Rightarrow> Inl ROW_NOT_FOUND
      | Some (t', row) \<Rightarrow> if t' = t then Inr row else Inl ROW_NOT_FOUND)"

text \<open>Every row operation: read the document and the row, decide, write the row, cut a version.\<close>

definition change_row ::
  "upstream \<Rightarrow> document_type \<Rightarrow> string \<Rightarrow> nat \<Rightarrow> string option
    \<Rightarrow> (doc_row \<Rightarrow> doc_error + (doc_row \<Rightarrow> doc_row)) \<Rightarrow> doc_store \<Rightarrow> result" where
  "change_row up t i expected changeType decide st =
     (case editableDocument t up expected st of
        Inl e \<Rightarrow> (st, Some e)
      | Inr r \<Rightarrow>
          (case expectRow t (dr_version r) i st of
             Inl e \<Rightarrow> (st, Some e)
           | Inr row \<Rightarrow>
               (case decide row of
                  Inl e \<Rightarrow> (st, Some e)
                | Inr f \<Rightarrow> afterContentChange t r changeType (updateStoredRow i (dr_version r) f st))))"

definition known_wbs_ids :: "doc_store \<Rightarrow> string list" where
  "known_wbs_ids st =
     (case find_doc WORK_BREAKDOWN_STRUCTURE st of
        None \<Rightarrow> []
      | Some b \<Rightarrow> map (\<lambda>r. payloadText (rowPayload r) ''wbsId'')
                    (listRows WORK_BREAKDOWN_STRUCTURE (dr_version b) st))"

text \<open>
  \<open>wbs_refs\<close> reads the \<open>wbsIds\<close> array of a payload; \<open>requirement_reference\<close> and \<open>feature_ids\<close> stand for
  the requirements and the approved feature listing of the upstream snapshot.
\<close>

record citation_context =
  wbs_refs :: "payload \<Rightarrow> string list"
  feature_ids :: "string list"

definition unknown_wbs :: "citation_context \<Rightarrow> document_type \<Rightarrow> payload \<Rightarrow> doc_store \<Rightarrow> string list" where
  "unknown_wbs cc t p st =
     (if t \<noteq> CLIENT_DEPENDENCY_SHEET then []
      else filter (\<lambda>i. i \<notin> set (known_wbs_ids st)) (wbs_refs cc p))"

fun verifiedReferences :: "citation_context \<Rightarrow> upstream \<Rightarrow> string list \<Rightarrow> doc_error + reference list" where
  "verifiedReferences cc up [] = Inr []"
| "verifiedReferences cc up (i # ids) =
     (if i \<in> set (u_requirementKeys up) then
        (case verifiedReferences cc up ids of
           Inl e \<Rightarrow> Inl e
         | Inr rs \<Rightarrow> Inr (\<lparr> ref_kind = ''REQUIREMENT'', ref_id = i \<rparr> # rs))
      else if i \<in> set (feature_ids cc) then
        (case verifiedReferences cc up ids of
           Inl e \<Rightarrow> Inl e
         | Inr rs \<Rightarrow> Inr (\<lparr> ref_kind = ''ESTIMATE_UNIT'', ref_id = i \<rparr> # rs))
      else Inl (if u_requirementKeys up = [] \<or> starts_with i ''REQ-''
                then UNKNOWN_REQUIREMENT else UNKNOWN_FEATURE))"

definition updateRow ::
  "engine \<Rightarrow> citation_context \<Rightarrow> upstream \<Rightarrow> document_type \<Rightarrow> string \<Rightarrow> nat \<Rightarrow> payload
    \<Rightarrow> string list option \<Rightarrow> string option \<Rightarrow> doc_store \<Rightarrow> result" where
  "updateRow eng cc up t i expected changes refIds attr st =
     change_row up t i expected (Some ''ROW_EDITED'')
       (\<lambda>row. case parseRowPayload (row_schema_of eng) t (spread (rowPayload row) changes)
                     (Some (rowPayload row)) False of
                Inl e \<Rightarrow> Inl e
              | Inr p \<Rightarrow>
                  if unknown_wbs cc t p st \<noteq> []
                  then Inl (UNKNOWN_WBS_REFERENCE (take 20 (unknown_wbs cc t p st)))
                  else (case (case refIds of None \<Rightarrow> Inr (rowReferences row)
                              | Some ids \<Rightarrow> verifiedReferences cc up ids) of
                          Inl e \<Rightarrow> Inl e
                        | Inr rs \<Rightarrow>
                            Inr (\<lambda>x. x\<lparr> rowPayload := p, rowReferences := rs,
                                   rowOrigin := (if rowOrigin row = R_USER_DEFINED then R_USER_DEFINED
                                                 else R_USER_EDITED),
                                   attribution := get_or (attribution x) attr \<rparr>))) st"

definition addRow ::
  "engine \<Rightarrow> citation_context \<Rightarrow> upstream \<Rightarrow> document_type \<Rightarrow> nat \<Rightarrow> payload \<Rightarrow> string list \<Rightarrow> string
    \<Rightarrow> doc_store \<Rightarrow> result" where
  "addRow eng cc up t expected p refIds attr st =
     (case editableDocument t up expected st of
        Inl e \<Rightarrow> (st, Some e)
      | Inr r \<Rightarrow>
          if \<not> has_row_kind t then (st, Some WRONG_DOCUMENT_SHAPE)
          else
            let existing = listRows t (dr_version r) st
            in (case withNextKey t p existing of
                  Inl e \<Rightarrow> (st, Some e)
                | Inr keyed \<Rightarrow>
                    (case parseRowPayload (row_schema_of eng) t keyed None False of
                       Inl e \<Rightarrow> (st, Some e)
                     | Inr data \<Rightarrow>
                         if unknown_wbs cc t data st \<noteq> []
                         then (st, Some (UNKNOWN_WBS_REFERENCE (take 20 (unknown_wbs cc t data st))))
                         else (case verifiedReferences cc up refIds of
                                 Inl e \<Rightarrow> (st, Some e)
                               | Inr rs \<Rightarrow>
                                   afterContentChange t r None
                                     (insertRows t (dr_version r)
                                        [\<lparr> rowId = mint eng (st_minted st), rowOrder = length existing,
                                           rowOrigin = R_USER_DEFINED, attribution = attr,
                                           rowPayload = data, rowProposed = None,
                                           rowReferences = rs, excludedReason = [] \<rparr>]
                                        (minted 1 st))))))"

definition excludeRow ::
  "upstream \<Rightarrow> document_type \<Rightarrow> string \<Rightarrow> nat \<Rightarrow> string \<Rightarrow> doc_store \<Rightarrow> result" where
  "excludeRow up t i expected reason st =
     change_row up t i expected None (\<lambda>row. Inr (\<lambda>x. x\<lparr> excludedReason := reason \<rparr>)) st"

definition removeRow :: "upstream \<Rightarrow> document_type \<Rightarrow> string \<Rightarrow> nat \<Rightarrow> doc_store \<Rightarrow> result" where
  "removeRow up t i expected st =
     (case editableDocument t up expected st of
        Inl e \<Rightarrow> (st, Some e)
      | Inr r \<Rightarrow>
          (case expectRow t (dr_version r) i st of
             Inl e \<Rightarrow> (st, Some e)
           | Inr row \<Rightarrow>
               afterContentChange t r (Some ''ROW_REMOVED'') (deleteRow i (dr_version r) st)))"

definition chosen_payload :: "document_type \<Rightarrow> revision_decision \<Rightarrow> payload \<Rightarrow> payload \<Rightarrow> doc_row \<Rightarrow> payload" where
  "chosen_payload t d edit suggestion row =
     (case d of
        KEEP_CURRENT \<Rightarrow> rowPayload row
      | ACCEPT_GENERATED_REVISION \<Rightarrow> suggestion
      | EDIT_GENERATED_REVISION \<Rightarrow> spread suggestion (rewritableFields t edit))"

definition resolveRowProposal ::
  "engine \<Rightarrow> upstream \<Rightarrow> document_type \<Rightarrow> string \<Rightarrow> nat \<Rightarrow> revision_decision \<Rightarrow> payload \<Rightarrow> doc_store
    \<Rightarrow> result" where
  "resolveRowProposal eng up t i expected d edit st =
     change_row up t i expected (Some ''PROPOSAL_ACCEPTED'')
       (\<lambda>row. case rowProposed row of
                None \<Rightarrow> Inl NO_ROW_PROPOSAL
              | Some suggestion \<Rightarrow>
                  (case parseRowPayload (row_schema_of eng) t (chosen_payload t d edit suggestion row)
                          (Some (rowPayload row)) False of
                     Inl e \<Rightarrow> Inl e
                   | Inr p \<Rightarrow> Inr (\<lambda>x. x\<lparr> rowPayload := p, rowProposed := None \<rparr>))) st"

text \<open>
  A stored status outside the table would make the table lookup throw; the schemas exclude it,
  and here it counts as a transition that is not allowed.
\<close>

definition may_move_assumption :: "payload \<Rightarrow> assumption_status \<Rightarrow> bool" where
  "may_move_assumption p to =
     (case map_of assumption_status_names (payloadText p ''status'') of
        None \<Rightarrow> False | Some from \<Rightarrow> canTransitionAssumption from to)"

definition may_move_dependency :: "payload \<Rightarrow> dependency_status \<Rightarrow> bool" where
  "may_move_dependency p to =
     (case map_of dependency_status_names (payloadText p ''status'') of
        None \<Rightarrow> False | Some from \<Rightarrow> canTransitionDependency from to)"

definition move_row ::
  "engine \<Rightarrow> upstream \<Rightarrow> document_type \<Rightarrow> string \<Rightarrow> nat \<Rightarrow> (payload \<Rightarrow> bool) \<Rightarrow> doc_error
    \<Rightarrow> (payload \<Rightarrow> payload) \<Rightarrow> doc_store \<Rightarrow> result" where
  "move_row eng up t i expected allowed err changes st =
     change_row up t i expected None
       (\<lambda>row. if \<not> allowed (rowPayload row) then Inl err
              else (case parseRowPayload (row_schema_of eng) t
                            (spread (rowPayload row) (changes (rowPayload row)))
                            (Some (rowPayload row)) True of
                      Inl e \<Rightarrow> Inl e
                    | Inr p \<Rightarrow> Inr (\<lambda>x. x\<lparr> rowPayload := p \<rparr>))) st"

definition optional_field :: "string \<Rightarrow> string option \<Rightarrow> payload" where
  "optional_field f x = (case x of None \<Rightarrow> [] | Some v \<Rightarrow> [(f, Text v)])"

definition truthy_field :: "string \<Rightarrow> string option \<Rightarrow> payload" where
  "truthy_field f x = (case x of None \<Rightarrow> [] | Some v \<Rightarrow> if v = [] then [] else [(f, Text v)])"

definition confirmAssumption ::
  "engine \<Rightarrow> upstream \<Rightarrow> document_type \<Rightarrow> string \<Rightarrow> nat \<Rightarrow> string \<Rightarrow> string \<Rightarrow> string option
    \<Rightarrow> string option \<Rightarrow> string \<Rightarrow> doc_store \<Rightarrow> result" where
  "confirmAssumption eng up t i expected provenance basis owner validateBy now =
     move_row eng up t i expected (\<lambda>p. may_move_assumption p A_CONFIRMED) ASSUMPTION_NOT_CONFIRMABLE
       (\<lambda>p. [(''status'', Text ''CONFIRMED''), (''provenance'', Text provenance), (''basis'', Text basis)]
            @ optional_field ''owner'' owner @ optional_field ''validateBy'' validateBy
            @ [(''confirmedBy'', Text ''USER''), (''confirmedAt'', Text now)])"

definition rejectAssumption ::
  "engine \<Rightarrow> upstream \<Rightarrow> document_type \<Rightarrow> string \<Rightarrow> nat \<Rightarrow> string \<Rightarrow> doc_store \<Rightarrow> result" where
  "rejectAssumption eng up t i expected reason =
     move_row eng up t i expected (\<lambda>p. may_move_assumption p A_REJECTED) ASSUMPTION_NOT_CONFIRMABLE
       (\<lambda>p. [(''status'', Text ''REJECTED''), (''rejectedReason'', Text reason)])"

definition settleAssumption ::
  "engine \<Rightarrow> upstream \<Rightarrow> document_type \<Rightarrow> string \<Rightarrow> nat \<Rightarrow> bool \<Rightarrow> string \<Rightarrow> doc_store \<Rightarrow> result" where
  "settleAssumption eng up t i expected validated remark =
     move_row eng up t i expected
       (\<lambda>p. may_move_assumption p (if validated then A_VALIDATED else A_INVALIDATED))
       ASSUMPTION_NOT_CONFIRMABLE
       (\<lambda>p. [(''status'', Text (if validated then ''VALIDATED'' else ''INVALIDATED'')),
             (''notes'', Text (js_join [CHR 0x0A]
                (filter (\<lambda>s. s \<noteq> []) [payloadText p ''notes'', remark])))])"

definition moveDependency ::
  "engine \<Rightarrow> upstream \<Rightarrow> document_type \<Rightarrow> string \<Rightarrow> nat \<Rightarrow> dependency_status \<Rightarrow> string \<Rightarrow> payload
    \<Rightarrow> doc_store \<Rightarrow> result" where
  "moveDependency eng up t i expected to name changes =
     move_row eng up t i expected (\<lambda>p. may_move_dependency p to) DEPENDENCY_TRANSITION_INVALID
       (\<lambda>p. changes @ [(''status'', Text name)])"

definition requestDependency ::
  "engine \<Rightarrow> upstream \<Rightarrow> document_type \<Rightarrow> string \<Rightarrow> nat \<Rightarrow> string option \<Rightarrow> string \<Rightarrow> doc_store
    \<Rightarrow> result" where
  "requestDependency eng up t i expected remark now =
     moveDependency eng up t i expected D_REQUESTED ''REQUESTED''
       ([(''requestedAt'', Text now)] @ truthy_field ''remarks'' remark)"

definition receiveDependency ::
  "engine \<Rightarrow> upstream \<Rightarrow> document_type \<Rightarrow> string \<Rightarrow> nat \<Rightarrow> bool \<Rightarrow> string option \<Rightarrow> string \<Rightarrow> doc_store
    \<Rightarrow> result" where
  "receiveDependency eng up t i expected partial remark now =
     moveDependency eng up t i expected
       (if partial then D_PARTIALLY_RECEIVED else D_RECEIVED)
       (if partial then ''PARTIALLY_RECEIVED'' else ''RECEIVED'')
       ([(''receivedAt'', Text now)] @ truthy_field ''remarks'' remark)"

definition validateDependency ::
  "engine \<Rightarrow> upstream \<Rightarrow> document_type \<Rightarrow> string \<Rightarrow> nat \<Rightarrow> bool \<Rightarrow> string \<Rightarrow> string \<Rightarrow> doc_store
    \<Rightarrow> result" where
  "validateDependency eng up t i expected accepted remark now =
     moveDependency eng up t i expected
       (if accepted then D_ACCEPTED else D_REJECTED) (if accepted then ''ACCEPTED'' else ''REJECTED'')
       [(''validatedAt'', Text now), (''validationNote'', Text remark)]"

section \<open>Targeted regeneration\<close>

definition rewrite_row ::
  "engine \<Rightarrow> document_type \<Rightarrow> doc_row list \<Rightarrow> (string \<Rightarrow> payload option) \<Rightarrow> composed_row list
    \<Rightarrow> doc_row \<Rightarrow> doc_error + doc_row" where
  "rewrite_row eng t selected named composed row =
     (let replacement = or_else (named (rowId row))
            (map_option cr_payload
               (find (\<lambda>c. rowKey (cr_payload c) = rowKey (rowPayload row)) composed))
      in case replacement of
           None \<Rightarrow> Inr row
         | Some p \<Rightarrow>
             if rowId row \<notin> set (map rowId selected) then Inr row
             else (case parseRowPayload (row_schema_of eng) t
                           (spread (rowPayload row) (rewritableFields t p)) (Some (rowPayload row)) False of
                     Inl e \<Rightarrow> Inl e
                   | Inr rewritten \<Rightarrow>
                       Inr (if isRowProtected (rowOrigin row)
                            then row\<lparr> rowProposed := Some rewritten \<rparr>
                            else row\<lparr> rowPayload := rewritten, rowProposed := None \<rparr>)))"

fun collect :: "('a \<Rightarrow> doc_error + 'b) \<Rightarrow> 'a list \<Rightarrow> doc_error + 'b list" where
  "collect f [] = Inr []"
| "collect f (x # xs) =
     (case f x of
        Inl e \<Rightarrow> Inl e
      | Inr y \<Rightarrow> (case collect f xs of Inl e \<Rightarrow> Inl e | Inr ys \<Rightarrow> Inr (y # ys)))"

definition regenerateRows ::
  "engine \<Rightarrow> upstream \<Rightarrow> document_type \<Rightarrow> selection \<Rightarrow> nat \<Rightarrow> (string \<Rightarrow> payload option)
    \<Rightarrow> string option \<Rightarrow> doc_store \<Rightarrow> result" where
  "regenerateRows eng up t sel expected named reason st =
     (case editableDocument t up expected st of
        Inl e \<Rightarrow> (st, Some e)
      | Inr r \<Rightarrow>
          if \<not> has_row_kind t then (st, Some WRONG_DOCUMENT_SHAPE)
          else
            let stored = listRows t (dr_version r) st; selected = selectRows t stored sel
            in if selected = [] then
                 (st, Some (case sel of By_group _ \<Rightarrow> CATEGORY_NOT_FOUND | _ \<Rightarrow> ROW_NOT_FOUND))
               else (case collect (rewrite_row eng t selected named
                            (cmp_rows (compose (composer_for eng t) up st))) stored of
                       Inl e \<Rightarrow> (st, Some e)
                     | Inr rows \<Rightarrow>
                         let v = nextVersion t st; previous = currentContent t r st;
                             st1 = archive t r previous None None no_lineage st
                         in (case commit t (dr_recordVersion r)
                                    (\<lambda>x. x\<lparr> dr_version := v, dr_status := DRAFT,
                                           dr_supersedesVersion := Some (dr_version r),
                                           dr_regenerationReason :=
                                             get_or ''Rewrote selected entries'' reason,
                                           dr_validation := None \<rparr>) st1 of
                               Inl e \<Rightarrow> (st1, Some e)
                             | Inr st2 \<Rightarrow>
                                 let n = length (c_sections previous); m = length rows;
                                     ids = mint_ids (mint eng) (m + n) st2;
                                     st3 = replaceSections t v
                                       (with_section_ids (drop m ids)
                                          (map (\<lambda>s. s\<lparr> sec_regenerationReason := [] \<rparr>)
                                             (c_sections previous))) (minted (m + n) st2);
                                     st4 = replaceRows t v
                                       (with_row_ids (take m ids) (renumber rows)) st3
                                 in (archive_current t (change_lineage ''TARGETED_REGENERATION'') st4,
                                     None))))"

datatype feature_selection = By_features "string list" | By_module string

definition selected_features :: "feature_selection \<Rightarrow> feature_row list \<Rightarrow> feature_row list" where
  "selected_features sel fs =
     (case sel of
        By_module m \<Rightarrow> filter (\<lambda>f. js_lower (feature_module (wording f)) = js_lower m) fs
      | By_features ids \<Rightarrow> filter (\<lambda>f. featureId f \<in> set ids) fs)"

definition rewrite_feature ::
  "string list \<Rightarrow> (string \<Rightarrow> feature_wording option) \<Rightarrow> feature_row \<Rightarrow> feature_row" where
  "rewrite_feature selectedIds named f =
     (if featureId f \<notin> set selectedIds then toFeatureRecord None f
      else let w = get_or (wording f) (named (unit_key f))
           in if mayReplaceFeatureDirectly f then toFeatureRecord None (f\<lparr> wording := w \<rparr>)
              else toFeatureRecord (Some w) f)"

definition regenerateFeatures ::
  "engine \<Rightarrow> upstream \<Rightarrow> document_type \<Rightarrow> feature_selection \<Rightarrow> nat
    \<Rightarrow> (string \<Rightarrow> feature_wording option) \<Rightarrow> string \<Rightarrow> doc_store \<Rightarrow> result" where
  "regenerateFeatures eng up t sel expected named reason st =
     (case editableDocument t up expected st of
        Inl e \<Rightarrow> (st, Some e)
      | Inr r \<Rightarrow>
          if DOCUMENT_SHAPE_BY_TYPE t \<noteq> ROWS then (st, Some WRONG_DOCUMENT_SHAPE)
          else
            let content = currentContent t r st; selected = selected_features sel (c_features content)
            in if selected = [] then
                 (st, Some (case sel of By_module _ \<Rightarrow> MODULE_NOT_FOUND | _ \<Rightarrow> FEATURE_NOT_FOUND))
               else
                 let st1 = archive t r content None None no_lineage st;
                     v = nextVersion t st1;
                     fs = map (rewrite_feature (map featureId selected) named) (c_features content)
                 in (case commit t (dr_recordVersion r)
                            (\<lambda>x. x\<lparr> dr_version := v,
                                   dr_status := (if dr_status r = APPROVED then DRAFT else dr_status r),
                                   dr_supersedesVersion := Some (dr_version r),
                                   dr_regenerationReason := reason, dr_validation := None \<rparr>) st1 of
                       Inl e \<Rightarrow> (st1, Some e)
                     | Inr st2 \<Rightarrow>
                         let n = length (c_sections content); k = length fs;
                             ids = mint_ids (mint eng) (k + n) st2;
                             st3 = replaceSections t v
                               (with_section_ids (drop k ids) (c_sections content)) (minted (k + n) st2);
                             st4 = replaceFeatures t v (with_feature_ids (take k ids) fs) st3
                         in (if dr_status r = APPROVED then markDependentsOutdated t st4 else st4,
                             None)))"

section \<open>Suggested assumptions\<close>

text \<open>
  The statement of a candidate, its fingerprint, and the payload \<open>candidateToAssumption\<close> makes of
  it with the key and the known requirements it cites.
\<close>

record candidate =
  ca_statement :: string
  ca_requirementKeys :: "string list"
  ca_payload :: "string \<Rightarrow> string list \<Rightarrow> payload"

function collapse_runs :: "string \<Rightarrow> string" where
  "collapse_runs [] = []"
| "collapse_runs (c # cs) =
     (if js_space c then CHR '' '' # collapse_runs (dropWhile js_space cs) else c # collapse_runs cs)"
  by pat_completeness auto
termination
  by (relation "measure length") (auto simp: le_imp_less_Suc length_dropWhile_le)

definition fingerprint :: "string \<Rightarrow> string" where
  "fingerprint s = js_trim (collapse_runs (js_lower s))"

fun candidate_rows ::
  "upstream \<Rightarrow> nat \<Rightarrow> string list \<Rightarrow> string list \<Rightarrow> candidate list \<Rightarrow> doc_row list" where
  "candidate_rows up n ks seen [] = []"
| "candidate_rows up n ks seen (c # cs) =
     (if fingerprint (ca_statement c) \<in> set seen then candidate_rows up n ks seen cs
      else
        let reqs = filter (\<lambda>k. k \<in> set (u_requirementKeys up)) (ca_requirementKeys c);
            key = nextAssumptionKey ks;
            p = ca_payload c key reqs
        in \<lparr> rowId = [], rowOrder = n, rowOrigin = R_GENERATED, attribution = [], rowPayload = p,
             rowProposed = None,
             rowReferences = map (\<lambda>k. \<lparr> ref_kind = ''REQUIREMENT'', ref_id = k \<rparr>) reqs,
             excludedReason = [] \<rparr>
           # candidate_rows up (n + 1) (ks @ [rowKey p]) (fingerprint (ca_statement c) # seen) cs)"

definition addAssumptionCandidates ::
  "engine \<Rightarrow> upstream \<Rightarrow> document_type \<Rightarrow> candidate list \<Rightarrow> nat \<Rightarrow> doc_store \<Rightarrow> result" where
  "addAssumptionCandidates eng up t cands expected st =
     (case editableDocument t up expected st of
        Inl e \<Rightarrow> (st, Some e)
      | Inr r \<Rightarrow>
          if \<not> has_row_kind t then (st, Some WRONG_DOCUMENT_SHAPE)
          else
            let existing = listRows t (dr_version r) st;
                rows = candidate_rows up (length existing) (map (\<lambda>x. rowKey (rowPayload x)) existing)
                  (map (\<lambda>x. fingerprint (payloadText (rowPayload x) ''statement'')) existing) cands;
                n = length rows
            in (insertRows t (dr_version r) (with_row_ids (mint_ids (mint eng) n st) rows) (minted n st),
                None))"

end
