(* ===== verification/DocumentHistory.thy ===== *)
theory DocumentHistory
  imports DocumentEngine
begin

text \<open>
  What each write of the document engine leaves alone, and the invariant of the archive: the row of
  a version that is left is the content the document had under it, and later writes only touch the
  current version. The theories of the steps and runs lift it to whole histories.
\<close>

section \<open>Observations\<close>

definition content_at :: "document_type \<Rightarrow> nat \<Rightarrow> doc_store \<Rightarrow> stored_content" where
  "content_at t v st =
     \<lparr> c_sections = listSections t v st, c_features = listFeatures t v st, c_rows = listRows t v st \<rparr>"

lemma currentContent_at: "currentContent t r st = content_at t (dr_version r) st"
  by (simp add: currentContent_def content_at_def)

lemmas store_defs =
  find_doc_def put_doc_def create_doc_def versions_of_def listSections_def listFeatures_def
  listRows_def replaceSections_def replaceFeatures_def replaceRows_def insertRows_def minted_def
  updateStoredSection_def updateStoredFeature_def updateStoredRow_def deleteRow_def
  createVersion_def updateVersion_def

subsection \<open>The document record\<close>

lemma find_doc_other [simp]:
  "find_doc u (replaceSections t v ss st) = find_doc u st"
  "find_doc u (replaceFeatures t v fs st) = find_doc u st"
  "find_doc u (replaceRows t v rs st) = find_doc u st"
  "find_doc u (insertRows t v rs st) = find_doc u st"
  "find_doc u (minted n st) = find_doc u st"
  "find_doc u (updateStoredSection i v fsec st) = find_doc u st"
  "find_doc u (updateStoredFeature i v ffea st) = find_doc u st"
  "find_doc u (updateStoredRow i v frow st) = find_doc u st"
  "find_doc u (deleteRow i v st) = find_doc u st"
  "find_doc u (createVersion t vr st) = find_doc u st"
  "find_doc u (updateVersion t v fver st) = find_doc u st"
  by (simp_all add: store_defs)

lemma find_doc_archive [simp]: "find_doc u (archive t r c s a lin st) = find_doc u st"
  by (simp add: archive_def Let_def split: option.splits)

lemma find_doc_put [simp]: "find_doc u (put_doc t r st) = (if u = t then Some r else find_doc u st)"
  by (simp add: store_defs update_conv')

lemma find_doc_create:
  "find_doc t st = None \<Longrightarrow>
   find_doc u (create_doc t r st) = (if u = t then Some r else find_doc u st)"
  by (auto simp: store_defs map_add_def split: option.splits)

lemma find_doc_store_fresh [simp]: "find_doc u (store_fresh eng t v c st) = find_doc u st"
  by (simp add: store_fresh_def Let_def)

subsection \<open>The archive\<close>

lemma versions_other [simp]:
  "versions_of u (replaceSections t v ss st) = versions_of u st"
  "versions_of u (replaceFeatures t v fs st) = versions_of u st"
  "versions_of u (replaceRows t v rs st) = versions_of u st"
  "versions_of u (insertRows t v rs st) = versions_of u st"
  "versions_of u (minted n st) = versions_of u st"
  "versions_of u (updateStoredSection i v fsec st) = versions_of u st"
  "versions_of u (updateStoredFeature i v ffea st) = versions_of u st"
  "versions_of u (updateStoredRow i v frow st) = versions_of u st"
  "versions_of u (deleteRow i v st) = versions_of u st"
  "versions_of u (put_doc t r st) = versions_of u st"
  "versions_of u (create_doc t r st) = versions_of u st"
  by (simp_all add: store_defs)

lemma versions_store_fresh [simp]: "versions_of u (store_fresh eng t v c st) = versions_of u st"
  by (simp add: store_fresh_def Let_def)

lemma findVersion_cong: "versions_of u st = versions_of u st' \<Longrightarrow> findVersion u w st = findVersion u w st'"
  by (simp add: findVersion_def)

lemma nextVersion_cong: "versions_of u st = versions_of u st' \<Longrightarrow> nextVersion u st = nextVersion u st'"
  by (simp add: nextVersion_def)

lemma find_update_first:
  assumes "\<And>x. p (f x) = p x"
  shows "find q (update_first_match p f xs) =
    (if \<exists>x\<in>set xs. p x then
       find q (update_first_match p f xs) else find q xs)"
proof -
  have "\<forall>x\<in>set xs. \<not> p x \<Longrightarrow> update_first_match p f xs = xs" by (induction xs) auto
  then show ?thesis by auto
qed

lemma versions_updateVersion:
  "versions_of u (updateVersion t v f st) =
     (if u = t then update_first_match (\<lambda>r. vr_version r = v) f (versions_of u st)
      else versions_of u st)"
proof -
  have "map snd (filter (\<lambda>p. fst p = u)
          (update_first_match (\<lambda>p. fst p = t \<and> vr_version (snd p) = v) (map_prod id f) ps)) =
        (if u = t then update_first_match (\<lambda>r. vr_version r = v) f (map snd (filter (\<lambda>p. fst p = u) ps))
         else map snd (filter (\<lambda>p. fst p = u) ps))" for ps
    by (induction ps) auto
  then show ?thesis by (simp add: versions_of_def updateVersion_def)
qed

lemma versions_createVersion:
  "versions_of u (createVersion t r st) = (if u = t then versions_of u st @ [r] else versions_of u st)"
  by (simp add: versions_of_def createVersion_def)

lemma findVersion_updateVersion:
  assumes "\<And>r. vr_version (f r) = vr_version r"
  shows "findVersion u w (updateVersion t v f st) =
    (if u = t \<and> w = v then map_option f (findVersion u w st) else findVersion u w st)"
proof -
  have same: "find (\<lambda>r. vr_version r = w) (update_first_match (\<lambda>r. vr_version r = w) f xs)
      = map_option f (find (\<lambda>r. vr_version r = w) xs)" for xs
    by (induction xs) (auto simp: assms)
  have other: "w \<noteq> v \<Longrightarrow> find (\<lambda>r. vr_version r = w) (update_first_match (\<lambda>r. vr_version r = v) f xs)
      = find (\<lambda>r. vr_version r = w) xs" for xs
    by (induction xs) (auto simp: assms)
  show ?thesis
    using same other by (auto simp: findVersion_def versions_updateVersion)
qed

lemma find_append: "find p (xs @ ys) = (case find p xs of None \<Rightarrow> find p ys | Some x \<Rightarrow> Some x)"
  by (induction xs) auto

lemma findVersion_createVersion:
  "findVersion u w (createVersion t r st) =
     (case findVersion u w st of
        None \<Rightarrow> if u = t \<and> w = vr_version r then Some r else None | Some e \<Rightarrow> Some e)"
  by (auto simp: findVersion_def versions_createVersion find_append split: option.splits)

text \<open>What an archived row holds after an archive of the record's version.\<close>

lemma findVersion_archive:
  "findVersion u w (archive t r c s a lin st) =
     (if u = t \<and> w = dr_version r
      then findVersion t (dr_version r) (archive t r c s a lin st)
      else findVersion u w st)"
  by (auto simp: archive_def Let_def findVersion_updateVersion findVersion_createVersion
      split: option.splits)

lemma archived_row:
  "\<exists>e. findVersion t (dr_version r) (archive t r c s a lin st) = Some e
     \<and> vr_content e = c \<and> vr_version e = dr_version r
     \<and> vr_status e = (case s of None \<Rightarrow> dr_status r | Some s' \<Rightarrow> s')"
proof (cases "findVersion t (dr_version r) st")
  case None
  then show ?thesis
    by (auto simp: archive_def Let_def findVersion_createVersion)
next
  case (Some e)
  then have "vr_version e = dr_version r" by (auto simp: findVersion_def find_Some_iff)
  with Some show ?thesis
    by (auto simp: archive_def Let_def findVersion_updateVersion)
qed

lemma foldr_max_ge: "w \<in> set ns \<Longrightarrow> w \<le> foldr max ns (0::nat)"
  by (induction ns) (auto simp: le_max_iff_disj)

lemma foldr_max_le: "\<forall>w\<in>set ns. w \<le> n \<Longrightarrow> foldr max ns (0::nat) \<le> n"
  by (induction ns) auto

lemma nextVersion_above: "findVersion t w st = Some e \<Longrightarrow> w < nextVersion t st"
  using foldr_max_ge [of w "map vr_version (versions_of t st)"]
  by (auto simp: findVersion_def find_Some_iff nextVersion_def less_Suc_eq_le)

lemma nextVersion_le:
  "(\<And>w. findVersion t w st \<noteq> None \<Longrightarrow> w \<le> n) \<Longrightarrow> nextVersion t st \<le> n + 1"
proof -
  assume le: "\<And>w. findVersion t w st \<noteq> None \<Longrightarrow> w \<le> n"
  have "\<forall>w\<in>set (map vr_version (versions_of t st)). w \<le> n"
    using le by (auto simp: findVersion_def find_None_iff)
  then show ?thesis using foldr_max_le by (simp add: nextVersion_def)
qed

subsection \<open>Content\<close>

lemma content_other [simp]:
  "content_at u w (put_doc t r st) = content_at u w st"
  "content_at u w (create_doc t r st) = content_at u w st"
  "content_at u w (minted n st) = content_at u w st"
  "content_at u w (createVersion t vr st) = content_at u w st"
  "content_at u w (updateVersion t v fver st) = content_at u w st"
  by (simp_all add: content_at_def store_defs)

lemma content_archive [simp]: "content_at u w (archive t r c s a lin st) = content_at u w st"
  by (simp add: archive_def Let_def split: option.splits)

lemma at_version_append [simp]: "at_version k (xs @ ys) = at_version k xs @ at_version k ys"
  by (simp add: at_version_def)

lemma at_version_pair [simp]: "at_version k (map (Pair k') xs) = (if k = k' then xs else [])"
  by (induction xs) (auto simp: at_version_def)

lemma at_version_filter [simp]:
  "at_version k (filter (\<lambda>p. fst p \<noteq> k') ps) = (if k = k' then [] else at_version k ps)"
  by (induction ps) (auto simp: at_version_def)

lemma at_version_filter_type [simp]:
  "at_version (u, w) (filter (\<lambda>p. fst (fst p) \<noteq> t) ps) = (if u = t then [] else at_version (u, w) ps)"
  by (induction ps) (auto simp: at_version_def)

lemma lists_replaceSections [simp]:
  "listSections u w (replaceSections t v ss st) =
     (if u = t \<and> w = v then sort_key sec_order ss else listSections u w st)"
  "listFeatures u w (replaceSections t v ss st) = listFeatures u w st"
  "listRows u w (replaceSections t v ss st) = listRows u w st"
  by (auto simp: store_defs)

lemma lists_replaceFeatures [simp]:
  "listFeatures u w (replaceFeatures t v fs st) =
     (if u = t \<and> w = v then sort_key row_order fs else listFeatures u w st)"
  "listSections u w (replaceFeatures t v fs st) = listSections u w st"
  "listRows u w (replaceFeatures t v fs st) = listRows u w st"
  by (auto simp: store_defs)

lemma lists_replaceRows [simp]:
  "listRows u w (replaceRows t v rs st) =
     (if u = t then (if w = v then sort_key rowOrder rs else []) else listRows u w st)"
  "listSections u w (replaceRows t v rs st) = listSections u w st"
  "listFeatures u w (replaceRows t v rs st) = listFeatures u w st"
  by (auto simp: store_defs)

lemma lists_other [simp]:
  "listSections u w (minted n st) = listSections u w st"
  "listFeatures u w (minted n st) = listFeatures u w st"
  "listRows u w (minted n st) = listRows u w st"
  "listSections u w (put_doc t r st) = listSections u w st"
  "listFeatures u w (put_doc t r st) = listFeatures u w st"
  "listRows u w (put_doc t r st) = listRows u w st"
  by (simp_all add: store_defs)

text \<open>Another document's content is out of reach of the replacements of one.\<close>

lemma content_replace_other [simp]:
  "u \<noteq> t \<Longrightarrow> content_at u w (replaceSections t v ss st) = content_at u w st"
  "u \<noteq> t \<Longrightarrow> content_at u w (replaceFeatures t v fs st) = content_at u w st"
  "u \<noteq> t \<Longrightarrow> content_at u w (replaceRows t v rs st) = content_at u w st"
  "u \<noteq> t \<Longrightarrow> content_at u w (insertRows t v rs st) = content_at u w st"
  "u \<noteq> t \<Longrightarrow> content_at u w (store_fresh eng t v c st) = content_at u w st"
  by (simp_all add: content_at_def store_fresh_def Let_def) (simp_all add: store_defs)

section \<open>Edits of one version in place\<close>

text \<open>What a handler may do to the content of version \<open>v\<close> of \<open>t\<close> before it cuts a new one.\<close>

definition edits :: "document_type \<Rightarrow> nat \<Rightarrow> doc_store \<Rightarrow> doc_store \<Rightarrow> bool" where
  "edits t v st st' =
     ((\<forall>u. find_doc u st' = find_doc u st) \<and> (\<forall>u. versions_of u st' = versions_of u st)
      \<and> (\<forall>u w. (u, w) \<noteq> (t, v) \<longrightarrow> content_at u w st' = content_at u w st))"

lemma at_version_update_first:
  assumes "find P ps = Some (k, x)" and "k' \<noteq> k"
  shows "at_version k' (update_first_match P (map_prod id f) ps) = at_version k' ps"
  using assms(1)
proof (induction ps)
  case (Cons p ps)
  then show ?case using assms(2) by (cases p) (auto simp: at_version_def split: if_splits)
qed simp

lemma at_version_remove_first:
  assumes "find P ps = Some (k, x)" and "k' \<noteq> k"
  shows "at_version k' (remove_first_match P ps) = at_version k' ps"
  using assms(1)
proof (induction ps)
  case (Cons p ps)
  then show ?case using assms(2) by (cases p) (auto simp: at_version_def split: if_splits)
qed simp

lemma find_at_key:
  "find (\<lambda>p. snd (fst p) = v \<and> q (snd p)) ps = Some p \<Longrightarrow> p = ((fst (fst p), v), snd p)"
  by (auto simp: find_Some_iff prod_eq_iff)

lemma edits_section:
  assumes "findSection i v st = Some (t, s)"
  shows "edits t v st (updateStoredSection i v f st)"
proof -
  obtain p where p: "find (\<lambda>p. snd (fst p) = v \<and> sectionId (snd p) = i) (st_sections st) = Some p"
    "t = fst (fst p)"
    using assms by (auto simp: findSection_def)
  then have "find (\<lambda>p. snd (fst p) = v \<and> sectionId (snd p) = i) (st_sections st) = Some ((t, v), snd p)"
    using find_at_key [OF p(1)] by metis
  from at_version_update_first [OF this] show ?thesis
    by (auto simp: edits_def content_at_def) (auto simp: store_defs)
qed

lemma edits_feature:
  assumes "findFeature i v st = Some (t, s)"
  shows "edits t v st (updateStoredFeature i v f st)"
proof -
  obtain p where p: "find (\<lambda>p. snd (fst p) = v \<and> featureId (snd p) = i) (st_features st) = Some p"
    "t = fst (fst p)"
    using assms by (auto simp: findFeature_def)
  then have "find (\<lambda>p. snd (fst p) = v \<and> featureId (snd p) = i) (st_features st) = Some ((t, v), snd p)"
    using find_at_key [OF p(1)] by metis
  from at_version_update_first [OF this] show ?thesis
    by (auto simp: edits_def content_at_def) (auto simp: store_defs)
qed

lemma found_row_key:
  assumes "findRow i v st = Some (t, s)"
  shows "find (\<lambda>p. snd (fst p) = v \<and> rowId (snd p) = i) (st_rows st) = Some ((t, v), s)"
proof -
  obtain p where p: "find (\<lambda>p. snd (fst p) = v \<and> rowId (snd p) = i) (st_rows st) = Some p"
    "t = fst (fst p)" "s = snd p"
    using assms by (auto simp: findRow_def)
  then show ?thesis using find_at_key [OF p(1)] by metis
qed

lemma edits_row: "findRow i v st = Some (t, s) \<Longrightarrow> edits t v st (updateStoredRow i v f st)"
  using at_version_update_first [OF found_row_key]
  by (auto simp: edits_def content_at_def) (auto simp: store_defs)

lemma edits_delete: "findRow i v st = Some (t, s) \<Longrightarrow> edits t v st (deleteRow i v st)"
  using at_version_remove_first [OF found_row_key]
  by (auto simp: edits_def content_at_def) (auto simp: store_defs)

lemma edits_insert: "edits t v st (insertRows t v rs (minted n st))"
  by (auto simp: edits_def content_at_def) (auto simp: store_defs)

lemma edits_refl: "edits t v st st"
  by (simp add: edits_def)

section \<open>The invariant of a document's history\<close>

definition authoritative :: "document_status \<Rightarrow> bool" where
  "authoritative s = (s = APPROVED \<or> s = FINAL)"

definition doc_inv :: "document_type \<Rightarrow> doc_store \<Rightarrow> bool" where
  "doc_inv t st =
     (case find_doc t st of
        None \<Rightarrow> versions_of t st = []
      | Some r \<Rightarrow>
          (\<forall>w. findVersion t w st \<noteq> None \<longrightarrow> w \<le> dr_version r)
          \<and> dr_version r \<le> nextVersion t st
          \<and> (authoritative (dr_status r) \<longrightarrow>
               (\<exists>e. findVersion t (dr_version r) st = Some e \<and> vr_status e = dr_status r
                  \<and> vr_content e = content_at t (dr_version r) st)))"

text \<open>A version is settled when a later one replaced it, or when it is approved or issued.\<close>

definition settled :: "document_type \<Rightarrow> nat \<Rightarrow> doc_store \<Rightarrow> bool" where
  "settled t w st =
     (case find_doc t st of
        None \<Rightarrow> False
      | Some r \<Rightarrow> w < dr_version r \<or> (w = dr_version r \<and> authoritative (dr_status r)))"

definition keeps :: "document_type \<Rightarrow> doc_store \<Rightarrow> doc_store \<Rightarrow> bool" where
  "keeps t st st' =
     (\<forall>w e. settled t w st \<and> findVersion t w st = Some e \<longrightarrow>
        settled t w st' \<and>
        (\<exists>e'. findVersion t w st' = Some e' \<and> vr_content e' = vr_content e
           \<and> (authoritative (vr_status e) \<longrightarrow> authoritative (vr_status e'))))"

definition safe_step :: "document_type \<Rightarrow> doc_store \<Rightarrow> doc_store \<Rightarrow> bool" where
  "safe_step t st st' = (doc_inv t st \<longrightarrow> doc_inv t st' \<and> keeps t st st')"

lemma keeps_refl [simp]: "keeps t st st"
  by (auto simp: keeps_def)

lemma safe_refl [simp]: "safe_step t st st"
  by (simp add: safe_step_def)

lemma keeps_trans: "keeps t st st' \<Longrightarrow> keeps t st' st'' \<Longrightarrow> keeps t st st''"
  unfolding keeps_def by (metis (no_types, lifting))

subsection \<open>Steps that leave a document alone\<close>

definition core :: "doc_record \<Rightarrow> nat \<times> document_status" where
  "core r = (dr_version r, dr_status r)"

definition same_doc :: "document_type \<Rightarrow> doc_store \<Rightarrow> doc_store \<Rightarrow> bool" where
  "same_doc u st st' =
     (map_option core (find_doc u st') = map_option core (find_doc u st)
      \<and> versions_of u st' = versions_of u st
      \<and> (\<forall>w. content_at u w st' = content_at u w st))"

lemma same_doc_refl [simp]: "same_doc u st st"
  by (simp add: same_doc_def)

lemma same_doc_trans: "same_doc u st st' \<Longrightarrow> same_doc u st' st'' \<Longrightarrow> same_doc u st st''"
  by (simp add: same_doc_def)

lemma same_doc_safe:
  assumes "same_doc u st st'"
  shows "safe_step u st st'"
proof -
  have v: "findVersion u w st' = findVersion u w st" "nextVersion u st' = nextVersion u st" for w
    using assms by (auto simp: same_doc_def intro: findVersion_cong nextVersion_cong)
  show ?thesis
  proof (cases "find_doc u st")
    case None
    with assms have "find_doc u st' = None" by (simp add: same_doc_def)
    with None assms show ?thesis
      by (simp add: safe_step_def doc_inv_def keeps_def settled_def same_doc_def)
  next
    case (Some r)
    with assms obtain r' where "find_doc u st' = Some r'" "core r' = core r"
      by (auto simp: same_doc_def)
    with Some assms v show ?thesis
      by (simp add: safe_step_def doc_inv_def keeps_def settled_def same_doc_def core_def)
  qed
qed

subsection \<open>Steps that advance a document\<close>

definition advances :: "document_type \<Rightarrow> doc_store \<Rightarrow> doc_store \<Rightarrow> bool" where
  "advances t st st' =
     (\<exists>r r'. find_doc t st = Some r \<and> find_doc t st' = Some r' \<and> \<not> authoritative (dr_status r')
        \<and> dr_version r \<le> dr_version r' \<and> dr_version r' \<le> nextVersion t st'
        \<and> (authoritative (dr_status r) \<longrightarrow> dr_version r < dr_version r')
        \<and> (\<forall>w. w \<noteq> dr_version r \<and> w \<noteq> dr_version r' \<longrightarrow> findVersion t w st' = findVersion t w st)
        \<and> (authoritative (dr_status r) \<longrightarrow>
             (\<exists>e. findVersion t (dr_version r) st' = Some e \<and> authoritative (vr_status e)
                \<and> vr_content e = content_at t (dr_version r) st)))"

lemma advances_safe:
  assumes "advances t st st'"
  shows "safe_step t st st'"
proof -
  obtain r r' where r: "find_doc t st = Some r" "find_doc t st' = Some r'"
    and na: "\<not> authoritative (dr_status r')" and le: "dr_version r \<le> dr_version r'"
    and bnd: "dr_version r' \<le> nextVersion t st'"
    and lt: "authoritative (dr_status r) \<longrightarrow> dr_version r < dr_version r'"
    and same: "\<And>w. w \<noteq> dr_version r \<Longrightarrow> w \<noteq> dr_version r' \<Longrightarrow>
      findVersion t w st' = findVersion t w st"
    and row: "authoritative (dr_status r) \<longrightarrow>
      (\<exists>e. findVersion t (dr_version r) st' = Some e \<and> authoritative (vr_status e)
         \<and> vr_content e = content_at t (dr_version r) st)"
    using assms by (auto simp: advances_def)
  show ?thesis
    unfolding safe_step_def
  proof (intro impI conjI)
    assume inv: "doc_inv t st"
    then have old: "w \<le> dr_version r" if "findVersion t w st \<noteq> None" for w
      using r that by (simp add: doc_inv_def)
    have "w \<le> dr_version r'" if "findVersion t w st' \<noteq> None" for w
      using same [of w] old [of w] that le by (metis le_trans order_refl)
    with r na bnd show "doc_inv t st'" by (simp add: doc_inv_def)
    show "keeps t st st'"
      unfolding keeps_def
    proof (intro allI impI, elim conjE)
      fix w e
      assume s: "settled t w st" and e: "findVersion t w st = Some e"
      show "settled t w st' \<and> (\<exists>e'. findVersion t w st' = Some e' \<and> vr_content e' = vr_content e
          \<and> (authoritative (vr_status e) \<longrightarrow> authoritative (vr_status e')))"
      proof (cases "w = dr_version r")
        case True
        with s r have a: "authoritative (dr_status r)" by (simp add: settled_def)
        with inv r obtain e0 where "findVersion t (dr_version r) st = Some e0"
          "vr_content e0 = content_at t (dr_version r) st"
          by (auto simp: doc_inv_def)
        with True e a row lt r show ?thesis by (auto simp: settled_def)
      next
        case False
        with s r have "w < dr_version r" by (auto simp: settled_def)
        with same [of w] False le e r show ?thesis by (simp add: settled_def)
      qed
    qed
  qed
qed

section \<open>Marking dependents\<close>

lemma same_doc_mark: "same_doc u st (mark_dependent t d st)"
  by (auto simp: mark_dependent_def touch_doc_def same_doc_def core_def split: option.splits)

lemma same_doc_mark_all: "same_doc u st (markDependentsOutdated t st)"
proof -
  have "same_doc u st (fold (mark_dependent t) ds st)" for ds
    by (induction ds arbitrary: st) (auto intro: same_doc_trans same_doc_mark)
  then show ?thesis by (simp add: markDependentsOutdated_def)
qed

lemma find_doc_mark_other: "u \<noteq> d \<Longrightarrow> find_doc u (mark_dependent t d st) = find_doc u st"
  by (auto simp: mark_dependent_def touch_doc_def split: option.splits)

lemma downstream_irrefl: "t \<notin> set (downstreamDocuments t)"
  by (cases t) (simp_all add: downstream_is_tail DOCUMENT_TYPES_def)

lemma find_doc_mark_all_self [simp]: "find_doc t (markDependentsOutdated t st) = find_doc t st"
proof -
  have "t \<notin> set ds \<Longrightarrow> find_doc t (fold (mark_dependent t) ds st) = find_doc t st" for ds
    by (induction ds arbitrary: st) (auto simp: find_doc_mark_other)
  then show ?thesis using downstream_irrefl by (simp add: markDependentsOutdated_def)
qed

lemma versions_mark_all [simp]: "versions_of u (markDependentsOutdated t st) = versions_of u st"
  using same_doc_mark_all by (simp add: same_doc_def)

lemma content_mark_all [simp]: "content_at u w (markDependentsOutdated t st) = content_at u w st"
  using same_doc_mark_all by (simp add: same_doc_def)

lemma findVersion_mark_all [simp]: "findVersion u w (markDependentsOutdated t st) = findVersion u w st"
  by (rule findVersion_cong) simp

section \<open>Writes under the record version\<close>

lemma update_docE:
  assumes "update_doc t n f st = Some st'"
  obtains r where "find_doc t st = Some r" "dr_recordVersion r = n"
    "st' = put_doc t ((f r)\<lparr> dr_recordVersion := n + 1 \<rparr>) st"
  using assms by (auto simp: update_doc_def split: option.splits if_splits)

lemma commitE:
  assumes "commit t n f st = Inr st'"
  obtains r where "find_doc t st = Some r" "dr_recordVersion r = n"
    "st' = put_doc t ((f r)\<lparr> dr_recordVersion := n + 1 \<rparr>) st"
  using assms by (auto simp: commit_def split: option.splits elim: update_docE)

lemma commit_live:
  "find_doc t st = Some r \<Longrightarrow>
   commit t (dr_recordVersion r) f st = Inr (put_doc t ((f r)\<lparr> dr_recordVersion := dr_recordVersion r + 1 \<rparr>) st)"
  by (simp add: commit_def update_doc_def)

lemma update_live:
  "find_doc t st = Some r \<Longrightarrow>
   update_doc t (dr_recordVersion r) f st = Some (put_doc t ((f r)\<lparr> dr_recordVersion := dr_recordVersion r + 1 \<rparr>) st)"
  by (simp add: update_doc_def)

lemma findVersion_other [simp]:
  "findVersion u w (put_doc t r st) = findVersion u w st"
  "findVersion u w (create_doc t r st) = findVersion u w st"
  "findVersion u w (replaceSections t v ss st) = findVersion u w st"
  "findVersion u w (replaceFeatures t v fs st) = findVersion u w st"
  "findVersion u w (replaceRows t v rs st) = findVersion u w st"
  "findVersion u w (insertRows t v rs st) = findVersion u w st"
  "findVersion u w (minted n st) = findVersion u w st"
  "findVersion u w (store_fresh eng t v c st) = findVersion u w st"
  by (auto intro: findVersion_cong)

lemma nextVersion_other [simp]:
  "nextVersion u (put_doc t r st) = nextVersion u st"
  "nextVersion u (replaceSections t v ss st) = nextVersion u st"
  "nextVersion u (replaceFeatures t v fs st) = nextVersion u st"
  "nextVersion u (replaceRows t v rs st) = nextVersion u st"
  "nextVersion u (minted n st) = nextVersion u st"
  "nextVersion u (store_fresh eng t v c st) = nextVersion u st"
  "nextVersion u (markDependentsOutdated t st) = nextVersion u st"
  by (auto intro: nextVersion_cong)

lemma archive_other [simp]:
  "u \<noteq> t \<Longrightarrow> versions_of u (archive t r c s a lin st) = versions_of u st"
  by (simp add: archive_def Let_def versions_updateVersion versions_createVersion split: option.splits)

lemma findVersion_archive_ne [simp]:
  "w \<noteq> dr_version r \<Longrightarrow> findVersion u w (archive t r c s a lin st) = findVersion u w st"
  by (subst findVersion_archive) simp

lemma next_after_archive: "dr_version r < nextVersion t (archive t r c s a lin st)"
  using archived_row nextVersion_above by blast

section \<open>Advancing\<close>

lemma advances_next:
  assumes inv: "doc_inv t st" and r: "find_doc t st = Some r" and r': "find_doc t st' = Some r'"
    and v: "dr_version r' = nextVersion t st" and na: "\<not> authoritative (dr_status r')"
    and same: "\<And>w. w \<noteq> nextVersion t st \<Longrightarrow> findVersion t w st' = findVersion t w st"
    and row: "findVersion t (nextVersion t st) st' \<noteq> None"
  shows "advances t st st'"
proof -
  have bound: "dr_version r' \<le> nextVersion t st'"
    using row v nextVersion_above [of t "nextVersion t st" st'] by (auto intro: less_imp_le)
  have le: "dr_version r \<le> dr_version r'"
    using inv r v by (simp add: doc_inv_def)
  have kept: "dr_version r < nextVersion t st \<and> (\<exists>e. findVersion t (dr_version r) st' = Some e
      \<and> authoritative (vr_status e) \<and> vr_content e = content_at t (dr_version r) st)"
    if "authoritative (dr_status r)"
  proof -
    from inv r that obtain e where e: "findVersion t (dr_version r) st = Some e"
      "vr_status e = dr_status r" "vr_content e = content_at t (dr_version r) st"
      by (auto simp: doc_inv_def)
    from e(1) have "dr_version r < nextVersion t st" by (rule nextVersion_above)
    with e same [of "dr_version r"] that show ?thesis by simp
  qed
  show ?thesis
    unfolding advances_def
    by (rule exI [of _ r], rule exI [of _ r']) (use r r' v na same bound le kept in auto)
qed

lemma advances_archived:
  assumes r: "find_doc t st = Some r" and r': "find_doc t st' = Some r'"
    and lt: "dr_version r < dr_version r'" and bound: "dr_version r' \<le> nextVersion t st'"
    and na: "\<not> authoritative (dr_status r')"
    and same: "\<And>w. w \<noteq> dr_version r \<Longrightarrow> w \<noteq> dr_version r' \<Longrightarrow>
      findVersion t w st' = findVersion t w st"
    and row: "\<exists>e. findVersion t (dr_version r) st' = Some e
      \<and> vr_content e = content_at t (dr_version r) st
      \<and> (authoritative (dr_status r) \<longrightarrow> authoritative (vr_status e))"
  shows "advances t st st'"
  unfolding advances_def
  by (rule exI [of _ r], rule exI [of _ r']) (use assms in auto)

text \<open>What both documents of a step need: the one written is safe, the others are left alone.\<close>

definition step_ok :: "document_type \<Rightarrow> doc_store \<Rightarrow> doc_store \<Rightarrow> bool" where
  "step_ok t st st' = (safe_step t st st' \<and> (\<forall>u. u \<noteq> t \<longrightarrow> same_doc u st st'))"

lemma step_ok_refl [simp]: "step_ok t st st"
  by (simp add: step_ok_def)

lemma step_ok_safe: "step_ok t st st' \<Longrightarrow> safe_step u st st'"
  by (cases "u = t") (auto simp: step_ok_def same_doc_safe)

lemma step_okI:
  "(doc_inv t st \<Longrightarrow> advances t st st') \<Longrightarrow> (\<And>u. u \<noteq> t \<Longrightarrow> same_doc u st st') \<Longrightarrow> step_ok t st st'"
  using advances_safe by (auto simp: step_ok_def safe_step_def)

lemma editable_not_final: "isDocumentEditable s \<Longrightarrow> s \<noteq> FINAL"
  by (auto simp: isDocumentEditable_def)

lemma afterContentChange_spec:
  assumes r: "find_doc t st = Some r" and e: "edits t (dr_version r) st st1"
    and ed: "dr_status r \<noteq> FINAL"
  shows "\<exists>st2 r'. afterContentChange t r ct st1 = (st2, None) \<and> find_doc t st2 = Some r'
    \<and> dr_version r' = nextVersion t st
    \<and> dr_status r' = (if dr_status r = APPROVED then DRAFT else dr_status r)
    \<and> dr_recordVersion r' = dr_recordVersion r + 1 \<and> dr_validation r' = None
    \<and> (\<forall>w. w \<noteq> nextVersion t st \<longrightarrow> findVersion t w st2 = findVersion t w st)
    \<and> findVersion t (nextVersion t st) st2 \<noteq> None
    \<and> (\<forall>u. u \<noteq> t \<longrightarrow> same_doc u st st2)"
proof -
  let ?v = "nextVersion t st"
  have fd: "find_doc u st1 = find_doc u st" and vs: "versions_of u st1 = versions_of u st" for u
    using e by (simp_all add: edits_def)
  have nv: "nextVersion t st1 = ?v" and fv: "findVersion t w st1 = findVersion t w st" for w
    using vs by (auto intro: nextVersion_cong findVersion_cong)
  have co: "u \<noteq> t \<Longrightarrow> content_at u w st1 = content_at u w st" for u w
    using e by (simp add: edits_def)
  define r1 where "r1 = r\<lparr> dr_version := ?v, dr_status := (if dr_status r = APPROVED then DRAFT else dr_status r),
    dr_supersedesVersion := Some (dr_version r), dr_validation := None,
    dr_recordVersion := dr_recordVersion r + 1 \<rparr>"
  define st4 where "st4 =
    (let content = currentContent t r st1;
         a = replaceSections t ?v (map (\<lambda>s. s\<lparr> sec_regenerationReason := [] \<rparr>) (c_sections content))
               (put_doc t r1 st1);
         b = replaceFeatures t ?v (map (toFeatureRecord None) (c_features content)) a
     in if has_row_kind t then replaceRows t ?v (renumber (c_rows content)) b else b)"
  have d4: "find_doc u st4 = (if u = t then Some r1 else find_doc u st)" for u
    by (simp add: st4_def Let_def fd)
  have v4: "versions_of u st4 = versions_of u st" for u
    by (simp add: st4_def Let_def vs)
  have c4: "u \<noteq> t \<Longrightarrow> content_at u w st4 = content_at u w st" for u w
    by (simp add: st4_def Let_def co)
  define st5 where "st5 = archive t r1 (currentContent t r1 st4) None None
    (no_lineage\<lparr> ln_changeType := ct \<rparr>) st4"
  define st2 where "st2 = (if dr_status r = APPROVED then markDependentsOutdated t st5 else st5)"
  have "afterContentChange t r ct st1 = (st2, None)"
    using r fd [of t] commit_live [of t st1 r] d4 [of t]
    by (simp add: afterContentChange_def nv Let_def st2_def st5_def st4_def r1_def)
  moreover have "find_doc t st2 = Some r1"
    by (simp add: st2_def st5_def d4)
  moreover have "findVersion t w st2 = findVersion t w st" if "w \<noteq> ?v" for w
    using that v4 by (simp add: st2_def st5_def r1_def findVersion_cong [of t st4 st])
  moreover have "findVersion t ?v st2 \<noteq> None"
  proof -
    have "dr_version r1 = ?v" by (simp add: r1_def)
    with archived_row [of t r1 "currentContent t r1 st4" None None "no_lineage\<lparr> ln_changeType := ct \<rparr>" st4]
    show ?thesis by (auto simp: st2_def st5_def)
  qed
  moreover have "same_doc u st st2" if "u \<noteq> t" for u
  proof -
    have "same_doc u st st5"
      using that by (simp add: same_doc_def st5_def d4 v4 c4)
    then show ?thesis
      by (auto simp: st2_def intro: same_doc_trans same_doc_mark_all)
  qed
  ultimately show ?thesis
    by (intro exI [of _ st2] exI [of _ r1]) (simp add: r1_def)
qed

lemma afterContentChange_ok:
  assumes "find_doc t st = Some r" and "edits t (dr_version r) st st1" and "dr_status r \<noteq> FINAL"
  shows "step_ok t st (fst (afterContentChange t r ct st1))"
proof -
  obtain st2 r' where a: "afterContentChange t r ct st1 = (st2, None)" "find_doc t st2 = Some r'"
    "dr_version r' = nextVersion t st"
    "dr_status r' = (if dr_status r = APPROVED then DRAFT else dr_status r)"
    "\<And>w. w \<noteq> nextVersion t st \<Longrightarrow> findVersion t w st2 = findVersion t w st"
    "findVersion t (nextVersion t st) st2 \<noteq> None" "\<And>u. u \<noteq> t \<Longrightarrow> same_doc u st st2"
    using afterContentChange_spec [OF assms, of ct] by blast
  have "\<not> authoritative (dr_status r')"
    using a(4) assms(3) by (auto simp: authoritative_def)
  then have "doc_inv t st \<Longrightarrow> advances t st st2"
    using a assms(1) by (intro advances_next) auto
  with a show ?thesis by (intro step_okI) auto
qed

text \<open>Handlers that end in \<open>afterContentChange\<close>.\<close>

lemma editableE:
  assumes "editableDocument t up n st = Inr r"
  shows "find_doc t st = Some r" and "dr_recordVersion r = n" and "isDocumentEditable (dr_status r)"
    and "dr_status r \<noteq> FINAL" and "isImplementedDocumentType t" and "lock_of t up st = None"
  using assms
  by (auto simp: editableDocument_def expect_def isDocumentEditable_def
      split: if_splits option.splits sum.splits)

lemma edit_ok:
  assumes "editableDocument t up n st = Inr r" and "edits t (dr_version r) st st1"
  shows "step_ok t st (fst (afterContentChange t r ct st1))"
  using afterContentChange_ok [OF editableE(1) [OF assms(1)] assms(2) editableE(4) [OF assms(1)]] .

lemma updateSection_ok: "step_ok t st (fst (updateSection up t i n title body st))"
  by (auto simp: updateSection_def Let_def split: sum.splits option.splits
      intro: edit_ok edits_section)

lemma regenerateSection_ok: "step_ok t st (fst (regenerateSection up t i n body reason st))"
  by (auto simp: regenerateSection_def Let_def split: sum.splits option.splits
      intro: edit_ok edits_section)

lemma resolveProposal_ok: "step_ok t st (fst (resolveProposal up t i n d body st))"
  by (auto simp: resolveProposal_def Let_def split: sum.splits option.splits
      intro: edit_ok edits_section)

lemma updateFeature_ok: "step_ok t st (fst (updateFeature up t i n u st))"
  by (auto simp: updateFeature_def Let_def split: sum.splits option.splits
      intro: edit_ok edits_feature)

lemma resolveFeatureProposal_ok: "step_ok t st (fst (resolveFeatureProposal up t i n d u st))"
  by (auto simp: resolveFeatureProposal_def Let_def split: sum.splits option.splits
      intro: edit_ok edits_feature)

lemma expectRow_found: "expectRow t v i st = Inr row \<Longrightarrow> findRow i v st = Some (t, row)"
  by (auto simp: expectRow_def split: option.splits if_splits)

lemma change_row_ok: "step_ok t st (fst (change_row up t i n ct decide st))"
  by (auto simp: change_row_def Let_def split: sum.splits
      intro: edit_ok edits_row [OF expectRow_found])

lemma updateRow_ok: "step_ok t st (fst (updateRow eng cc up t i n changes refs attr st))"
  by (simp add: updateRow_def change_row_ok)

lemma excludeRow_ok: "step_ok t st (fst (excludeRow up t i n reason st))"
  by (simp add: excludeRow_def change_row_ok)

lemma resolveRowProposal_ok: "step_ok t st (fst (resolveRowProposal eng up t i n d e st))"
  by (simp add: resolveRowProposal_def change_row_ok)

lemma move_row_ok: "step_ok t st (fst (move_row eng up t i n allowed err changes st))"
  by (simp add: move_row_def change_row_ok)

lemma removeRow_ok: "step_ok t st (fst (removeRow up t i n st))"
  by (auto simp: removeRow_def Let_def split: sum.splits
      intro: edit_ok edits_delete [OF expectRow_found])

lemma addRow_ok: "step_ok t st (fst (addRow eng cc up t n p refs attr st))"
  by (auto simp: addRow_def Let_def split: sum.splits intro: edit_ok edits_insert)

text \<open>Handlers that only write the document's own fields.\<close>

lemma commit_same_core:
  assumes "commit t n f st = Inr st1" and "\<And>r. core (f r) = core r"
  shows "same_doc u st st1"
  using assms(1)
  by (rule commitE) (use assms(2) in \<open>auto simp: same_doc_def core_def\<close>)

lemma same_doc_ok: "(\<And>u. same_doc u st st') \<Longrightarrow> step_ok t st st'"
  by (simp add: step_ok_def same_doc_safe)

lemma validate_ok: "step_ok t st (fst (validate eng up t extra m st))"
  by (auto simp: validate_def Let_def core_def split: sum.splits option.splits
      intro!: same_doc_ok commit_same_core)

lemma acknowledgeFinding_ok: "step_ok t st (fst (acknowledgeFinding up t kind n st))"
  by (auto simp: acknowledgeFinding_def Let_def core_def split: sum.splits option.splits
      intro!: same_doc_ok commit_same_core)

text \<open>\<open>excludeRequirement\<close> writes the record, then cuts a version from the record it read.\<close>

lemma afterContentChange_commit_ok:
  assumes r: "find_doc t st = Some r" and c: "commit t (dr_recordVersion r) f st = Inr st1"
    and f: "core (f r) = core r" and nf: "dr_status r \<noteq> FINAL"
  shows "step_ok t st (fst (afterContentChange t r ct st1))"
proof -
  let ?r1 = "(f r)\<lparr> dr_recordVersion := dr_recordVersion r + 1 \<rparr>"
  have st1: "st1 = put_doc t ?r1 st"
    using c r by (auto elim: commitE)
  have eq: "afterContentChange t r ct st1 = afterContentChange t ?r1 ct st1"
    using f by (simp add: afterContentChange_def Let_def core_def currentContent_at st1)
  have same: "same_doc u st st1" for u
    using f r by (auto simp: st1 same_doc_def core_def)
  have "step_ok t st1 (fst (afterContentChange t ?r1 ct st1))"
    using f nf by (intro afterContentChange_ok) (auto simp: st1 core_def edits_refl)
  with same eq show ?thesis
    unfolding step_ok_def safe_step_def
    by (metis keeps_trans same_doc_safe same_doc_trans safe_step_def)
qed

lemma excludeRequirement_ok: "step_ok t st (fst (excludeRequirement up t q reason n st))"
  by (auto simp: excludeRequirement_def Let_def core_def split: sum.splits
      intro!: afterContentChange_commit_ok editableE)

text \<open>Approval and issue keep the version and record what it holds.\<close>

definition settles :: "document_type \<Rightarrow> doc_store \<Rightarrow> doc_store \<Rightarrow> bool" where
  "settles t st st' =
     (\<exists>r r' e. find_doc t st = Some r \<and> find_doc t st' = Some r' \<and> dr_version r' = dr_version r
        \<and> authoritative (dr_status r') \<and> findVersion t (dr_version r) st' = Some e
        \<and> vr_status e = dr_status r' \<and> vr_content e = content_at t (dr_version r) st
        \<and> content_at t (dr_version r) st' = content_at t (dr_version r) st
        \<and> (\<forall>w. w \<noteq> dr_version r \<longrightarrow> findVersion t w st' = findVersion t w st))"

lemma settles_safe:
  assumes "settles t st st'"
  shows "safe_step t st st'"
proof -
  obtain r r' e where r: "find_doc t st = Some r" "find_doc t st' = Some r'"
    and v: "dr_version r' = dr_version r" and a: "authoritative (dr_status r')"
    and e: "findVersion t (dr_version r) st' = Some e" "vr_status e = dr_status r'"
      "vr_content e = content_at t (dr_version r) st"
    and c: "content_at t (dr_version r) st' = content_at t (dr_version r) st"
    and same: "\<And>w. w \<noteq> dr_version r \<Longrightarrow> findVersion t w st' = findVersion t w st"
    using assms by (auto simp: settles_def)
  show ?thesis
    unfolding safe_step_def
  proof (intro impI conjI)
    assume inv: "doc_inv t st"
    then have old: "w \<le> dr_version r" if "findVersion t w st \<noteq> None" for w
      using r that by (simp add: doc_inv_def)
    have "w \<le> dr_version r" if "findVersion t w st' \<noteq> None" for w
      using same [of w] old [of w] that by (metis order_refl)
    moreover have "dr_version r < nextVersion t st'"
      using nextVersion_above e by blast
    ultimately show "doc_inv t st'"
      using r v e c by (simp add: doc_inv_def)
    show "keeps t st st'"
      unfolding keeps_def
    proof (intro allI impI, elim conjE)
      fix w e0
      assume s: "settled t w st" and e0: "findVersion t w st = Some e0"
      have s': "settled t w st'" using s r v a by (auto simp: settled_def)
      show "settled t w st' \<and> (\<exists>e'. findVersion t w st' = Some e' \<and> vr_content e' = vr_content e0
          \<and> (authoritative (vr_status e0) \<longrightarrow> authoritative (vr_status e')))"
      proof (cases "w = dr_version r")
        case True
        with s r have "authoritative (dr_status r)" by (simp add: settled_def)
        with inv r True e0 have "vr_content e0 = content_at t (dr_version r) st"
          by (auto simp: doc_inv_def)
        with True e a s' show ?thesis by auto
      next
        case False
        with same [of w] e0 s' show ?thesis by simp
      qed
    qed
  qed
qed

lemma expectE:
  assumes "expect t n st = Inr r"
  shows "find_doc t st = Some r" and "dr_recordVersion r = n"
  using assms by (auto simp: expect_def split: option.splits if_splits)

lemma not_authoritative: "\<not> isDocumentAuthoritative s \<Longrightarrow> \<not> authoritative s"
  by (auto simp: isDocumentAuthoritative_def AUTHORITATIVE_DOCUMENT_STATUSES_def authoritative_def)

lemma approve_writes:
  assumes r: "find_doc t st = Some r" and c: "commit t (dr_recordVersion r)
      (\<lambda>x. x\<lparr> dr_status := APPROVED, dr_approvedAt := Some now \<rparr>) st = Inr st1"
  shows "step_ok t st (archive t r (currentContent t r st1) (Some APPROVED) (Some now) no_lineage st1)"
    (is "step_ok t st ?st'")
proof -
  have st1: "st1 = put_doc t (r\<lparr> dr_status := APPROVED, dr_approvedAt := Some now,
      dr_recordVersion := dr_recordVersion r + 1 \<rparr>) st"
    using c r by (auto elim: commitE)
  obtain e where "findVersion t (dr_version r) ?st' = Some e"
    "vr_content e = content_at t (dr_version r) st" "vr_status e = APPROVED"
    using archived_row [of t r "currentContent t r st1" "Some APPROVED" "Some now" no_lineage st1]
    by (auto simp: currentContent_at st1)
  then have "settles t st ?st'"
    by (auto simp: settles_def r st1 authoritative_def)
  moreover have "same_doc u st ?st'" if "u \<noteq> t" for u
    using that by (simp add: same_doc_def st1)
  ultimately show ?thesis by (simp add: step_ok_def settles_safe)
qed

lemma approve_ok: "step_ok t st (fst (approve eng up t n now st))"
  by (auto simp: approve_def Let_def split: sum.splits intro!: approve_writes dest: expectE)

lemma markFinal_writes:
  assumes r: "find_doc t st = Some r" and a: "authoritative (dr_status r)" and c: "commit t (dr_recordVersion r)
      (\<lambda>x. x\<lparr> dr_status := FINAL, dr_finalAt := Some now \<rparr>) st = Inr st1"
  shows "step_ok t st (updateVersion t (dr_version r)
      (\<lambda>e. e\<lparr> vr_status := FINAL, vr_finalAt := Some now \<rparr>) st1)"
    (is "step_ok t st ?st'")
proof -
  have st1: "st1 = put_doc t (r\<lparr> dr_status := FINAL, dr_finalAt := Some now,
      dr_recordVersion := dr_recordVersion r + 1 \<rparr>) st"
    using c r by (auto elim: commitE)
  have fv: "findVersion u w ?st' = (if u = t \<and> w = dr_version r
      then map_option (\<lambda>e. e\<lparr> vr_status := FINAL, vr_finalAt := Some now \<rparr>) (findVersion u w st)
      else findVersion u w st)" for u w
    by (simp add: findVersion_updateVersion st1)
  have "safe_step t st ?st'"
  proof (cases "doc_inv t st")
    case True
    with r a obtain e where "findVersion t (dr_version r) st = Some e"
      "vr_content e = content_at t (dr_version r) st"
      by (auto simp: doc_inv_def)
    then have "settles t st ?st'"
      using r by (simp add: settles_def fv) (simp add: st1 authoritative_def)
    then show ?thesis by (rule settles_safe)
  qed (simp add: safe_step_def)
  moreover have "same_doc u st ?st'" if "u \<noteq> t" for u
    using that by (simp add: same_doc_def st1 versions_updateVersion)
  ultimately show ?thesis by (simp add: step_ok_def)
qed

lemma final_from_approved: "canTransitionDocument s FINAL \<Longrightarrow> authoritative s"
  by (cases s) (auto simp: canTransitionDocument_def authoritative_def)

lemma markFinal_ok: "step_ok t st (fst (markFinal up t n now st))"
  by (auto simp: markFinal_def Let_def split: sum.splits
      intro!: markFinal_writes dest: expectE final_from_approved)

end
