(* ===== verification/DocumentSteps.thy ===== *)
theory DocumentSteps
  imports DocumentHistory
begin

text \<open>
  The operations of the document engine that archive the version they leave before they open
  the next one (generate, restore, reopen, revise and the two targeted regenerations), and the
  sequences of operations a project sees. Shown: every operation keeps the invariant of
  \<open>DocumentHistory\<close> for the document it writes and leaves the history of every other alone.
\<close>

section \<open>Operations that archive first\<close>

lemma archived_advances:
  assumes r: "find_doc t st = Some r"
    and st1: "st1 = archive t r (content_at t (dr_version r) st) s a lin st"
    and s: "authoritative (dr_status r) \<Longrightarrow>
      authoritative (case s of None \<Rightarrow> dr_status r | Some s' \<Rightarrow> s')"
    and r': "find_doc t st' = Some r'" and v: "dr_version r' = nextVersion t st1"
    and na: "\<not> authoritative (dr_status r')"
    and same: "\<And>w. w \<noteq> nextVersion t st1 \<Longrightarrow> findVersion t w st' = findVersion t w st1"
    and bound: "nextVersion t st1 \<le> nextVersion t st'"
  shows "advances t st st'"
proof -
  obtain e where e: "findVersion t (dr_version r) st1 = Some e"
    "vr_content e = content_at t (dr_version r) st"
    "vr_status e = (case s of None \<Rightarrow> dr_status r | Some s' \<Rightarrow> s')"
    using archived_row [of t r "content_at t (dr_version r) st" s a lin st] by (auto simp: st1)
  have lt: "dr_version r < nextVersion t st1"
    using e(1) by (rule nextVersion_above)
  with e(1) same [of "dr_version r"] have row: "findVersion t (dr_version r) st' = Some e" by simp
  show ?thesis
    by (rule advances_archived [OF r r']) (use lt v bound na same row e s st1 in auto)
qed

lemma step_ok_then: "step_ok t st st' \<Longrightarrow> (\<And>u. same_doc u st' st'') \<Longrightarrow> step_ok t st st''"
  unfolding step_ok_def safe_step_def
  by (metis keeps_trans same_doc_safe same_doc_trans safe_step_def)

lemma step_ok_mark: "step_ok t st st' \<Longrightarrow> step_ok t st (markDependentsOutdated t st')"
  by (erule step_ok_then) (rule same_doc_mark_all)

text \<open>The shape these operations share, with the writes between the two archives abstracted.\<close>

definition opens :: "document_type \<Rightarrow> doc_record \<Rightarrow> doc_store \<Rightarrow> doc_store \<Rightarrow> bool" where
  "opens t r' st1 st2 =
     (find_doc t st2 = Some r' \<and> \<not> authoritative (dr_status r')
      \<and> (\<forall>u. u \<noteq> t \<longrightarrow> find_doc u st2 = find_doc u st1)
      \<and> (\<forall>u. versions_of u st2 = versions_of u st1)
      \<and> (\<forall>u w. u \<noteq> t \<longrightarrow> content_at u w st2 = content_at u w st1))"

lemma opens_find: "opens t r' st1 st2 \<Longrightarrow> find_doc t st2 = Some r'"
  by (simp add: opens_def)

lemma opens_versions:
  "opens t r' st1 st2 \<Longrightarrow> findVersion u w st2 = findVersion u w st1"
  "opens t r' st1 st2 \<Longrightarrow> nextVersion u st2 = nextVersion u st1"
  by (auto simp: opens_def intro: findVersion_cong nextVersion_cong)

lemma opens_same:
  "opens t r' (archive t r c s a lin st) st2 \<Longrightarrow> u \<noteq> t \<Longrightarrow> same_doc u st st2"
  by (simp add: opens_def same_doc_def)

lemma same_doc_archive: "u \<noteq> t \<Longrightarrow> same_doc u st (archive t r c s a lin st)"
  by (simp add: same_doc_def)

lemma reopened_ok:
  assumes r: "find_doc t st = Some r"
    and s: "authoritative (dr_status r) \<Longrightarrow>
      authoritative (case s of None \<Rightarrow> dr_status r | Some s' \<Rightarrow> s')"
    and o: "opens t r' (archive t r (content_at t (dr_version r) st) s a lin st) st2"
    and v: "dr_version r' = nextVersion t (archive t r (content_at t (dr_version r) st) s a lin st)"
  shows "step_ok t st (archive t r' c' None None lin' st2)"
    and "step_ok t st st2"
proof -
  have na: "\<not> authoritative (dr_status r')" and f: "find_doc t st2 = Some r'"
    using o by (simp_all add: opens_def)
  have "nextVersion t (archive t r (content_at t (dr_version r) st) s a lin st)
      \<le> nextVersion t (archive t r' c' None None lin' st2)"
    using next_after_archive [of r' t c' None None lin' st2] v by simp
  then have "advances t st (archive t r' c' None None lin' st2)"
    by (intro archived_advances [OF r refl s _ v na])
      (use f v in \<open>simp_all add: opens_versions [OF o]\<close>)
  then show "step_ok t st (archive t r' c' None None lin' st2)"
    using opens_same [OF o] by (auto intro!: step_okI intro: same_doc_trans same_doc_archive)
  have "advances t st st2"
    by (rule archived_advances [OF r refl s f v na]) (simp_all add: opens_versions [OF o])
  then show "step_ok t st st2"
    using opens_same [OF o] by (intro step_okI)
qed

lemma create_ok:
  assumes n: "find_doc t st = None" and na: "\<not> authoritative (dr_status r)"
    and v: "dr_version r = nextVersion t st"
  shows "step_ok t st (archive t r c None None lin (store_fresh eng t v' c' (create_doc t r st)))"
    (is "step_ok t st ?st'")
proof -
  have f: "find_doc u ?st' = (if u = t then Some r else find_doc u st)" for u
    using n by (simp add: find_doc_create)
  have fv: "w \<noteq> dr_version r \<Longrightarrow> findVersion t w ?st' = findVersion t w st" for w
    by simp
  have "safe_step t st ?st'"
    unfolding safe_step_def
  proof (intro impI conjI)
    assume "doc_inv t st"
    with n have e: "versions_of t st = []" by (simp add: doc_inv_def)
    have "findVersion t w st = None" for w using e by (simp add: findVersion_def)
    then have "w \<le> dr_version r" if "findVersion t w ?st' \<noteq> None" for w
      using fv [of w] that by (cases "w = dr_version r") auto
    with next_after_archive [of r t c None None lin "store_fresh eng t v' c' (create_doc t r st)"]
    show "doc_inv t ?st'" using f na by (simp add: doc_inv_def)
    show "keeps t st ?st'" using n by (simp add: keeps_def settled_def)
  qed
  moreover have "same_doc u st ?st'" if "u \<noteq> t" for u
    using that f by (simp add: same_doc_def)
  ultimately show ?thesis by (simp add: step_ok_def)
qed

lemma generate_ok: "step_ok t st (fst (generate eng up t n reason composed st))"
proof (cases "find_doc t st")
  case None
  then show ?thesis
    by (auto simp: generate_def Let_def authoritative_def split: option.splits intro!: create_ok)
next
  case (Some r)
  let ?st1 = "archive t r (content_at t (dr_version r) st) None None no_lineage st"
  have up: "update_doc t (dr_recordVersion r) f ?st1
      = Some (put_doc t ((f r)\<lparr> dr_recordVersion := dr_recordVersion r + 1 \<rparr>) ?st1)" for f
    by (rule update_live) (simp add: Some)
  have "\<not> authoritative (dr_status r') \<Longrightarrow> opens t r' ?st1 (store_fresh eng t v c (put_doc t r' ?st1))"
    for r' v c
    by (simp add: opens_def)
  then have "\<not> authoritative (dr_status r') \<Longrightarrow> dr_version r' = nextVersion t ?st1 \<Longrightarrow>
      step_ok t st (archive t r' c' None None lin' (store_fresh eng t v c (put_doc t r' ?st1)))"
    for r' v c c' lin'
    by (intro reopened_ok [OF Some]) auto
  with Some show ?thesis
    by (auto simp: generate_def Let_def currentContent_at up authoritative_def split: option.splits)
qed

lemma restore_ok: "step_ok t st (fst (restore eng up t n from st))"
proof -
  have "step_ok t st (fst (restore eng up t n from st))"
    if e: "editableDocument t up n st = Inr r" for r
  proof -
    let ?st1 = "archive t r (content_at t (dr_version r) st) None None no_lineage st"
    note r = editableE(1) [OF e]
    have c: "commit t (dr_recordVersion r) f ?st1
        = Inr (put_doc t ((f r)\<lparr> dr_recordVersion := dr_recordVersion r + 1 \<rparr>) ?st1)" for f
      by (rule commit_live) (simp add: r)
    have "\<not> authoritative (dr_status r') \<Longrightarrow> opens t r' ?st1 (store_fresh eng t v c (put_doc t r' ?st1))"
      for r' v c
      by (simp add: opens_def)
    then have "\<not> authoritative (dr_status r') \<Longrightarrow> dr_version r' = nextVersion t ?st1 \<Longrightarrow>
        step_ok t st (archive t r' c' None None lin' (store_fresh eng t v c (put_doc t r' ?st1)))"
      for r' v c c' lin'
      by (intro reopened_ok [OF r]) auto
    with e show ?thesis
      by (auto simp: restore_def Let_def currentContent_at c archive_current_def authoritative_def
          split: option.splits)
  qed
  then show ?thesis
    by (cases "editableDocument t up n st") (auto simp: restore_def)
qed

lemma reopen_from_ok:
  assumes r: "find_doc t st = Some r" and s: "dr_status r = APPROVED"
  shows "step_ok t st (reopen_from eng t r reason st)"
proof -
  let ?st1 = "archive t r (content_at t (dr_version r) st) (Some APPROVED) (dr_approvedAt r) no_lineage st"
  have u: "update_or_ignore t (dr_recordVersion r) f (store_fresh eng t v c ?st1)
      = put_doc t ((f r)\<lparr> dr_recordVersion := dr_recordVersion r + 1 \<rparr>) (store_fresh eng t v c ?st1)"
    for f v c
    using r by (simp add: update_or_ignore_def update_live)
  have "\<not> authoritative (dr_status r') \<Longrightarrow> opens t r' ?st1 (put_doc t r' (store_fresh eng t v c ?st1))"
    for r' v c
    by (simp add: opens_def)
  then have "\<not> authoritative (dr_status r') \<Longrightarrow> dr_version r' = nextVersion t ?st1 \<Longrightarrow>
      step_ok t st (archive t r' c' None None lin' (put_doc t r' (store_fresh eng t v c ?st1)))"
    for r' v c c' lin'
    by (intro reopened_ok [OF r]) (auto simp: authoritative_def)
  then show ?thesis
    unfolding reopen_from_def Let_def currentContent_at u archive_current_def
    by (intro step_ok_mark) (simp add: authoritative_def)
qed

lemma revise_from_ok:
  assumes r: "find_doc t st = Some r" and s: "dr_status r = FINAL"
  shows "step_ok t st (revise_from eng up t r reason st)"
proof -
  let ?st1 = "archive t r (content_at t (dr_version r) st) (Some FINAL) None (change_lineage ''ISSUED'') st"
  let ?w = "\<lambda>v ss fs k. replaceFeatures t v fs (replaceSections t v ss (minted k ?st1))"
  have u: "update_or_ignore t (dr_recordVersion r) f (?w v ss fs k)
      = put_doc t ((f r)\<lparr> dr_recordVersion := dr_recordVersion r + 1 \<rparr>) (?w v ss fs k)" for f v ss fs k
    using r by (simp add: update_or_ignore_def update_live)
  have "\<not> authoritative (dr_status r') \<Longrightarrow> opens t r' ?st1 (put_doc t r' (?w v ss fs k))" for r' v ss fs k
    by (simp add: opens_def)
  then have "\<not> authoritative (dr_status r') \<Longrightarrow> dr_version r' = nextVersion t ?st1 \<Longrightarrow>
      step_ok t st (archive t r' c' None None lin' (put_doc t r' (?w v ss fs k)))"
    for r' v ss fs k c' lin'
    by (intro reopened_ok [OF r]) (auto simp: authoritative_def)
  then show ?thesis
    unfolding revise_from_def Let_def currentContent_at u archive_current_def
    by (intro step_ok_mark) (simp add: authoritative_def)
qed

lemma revise_ok: "step_ok t st (fst (revise eng up t n reason st))"
  by (auto simp: revise_def split: sum.splits intro!: revise_from_ok dest: expectE)

lemma reopen_ok: "step_ok t st (fst (reopen eng up t n reason st))"
  by (auto simp: reopen_def revise_ok split: sum.splits intro!: reopen_from_ok dest: expectE)

lemma regenerateFeatures_ok: "step_ok t st (fst (regenerateFeatures eng up t sel n named reason st))"
proof -
  have "step_ok t st (fst (regenerateFeatures eng up t sel n named reason st))"
    if e: "editableDocument t up n st = Inr r" for r
  proof -
    let ?st1 = "archive t r (content_at t (dr_version r) st) None None no_lineage st"
    let ?w = "\<lambda>r' v ss fs k. replaceFeatures t v fs (replaceSections t v ss (minted k (put_doc t r' ?st1)))"
    note r = editableE(1) [OF e]
    have c: "commit t (dr_recordVersion r) f ?st1
        = Inr (put_doc t ((f r)\<lparr> dr_recordVersion := dr_recordVersion r + 1 \<rparr>) ?st1)" for f
      by (rule commit_live) (simp add: r)
    have "\<not> authoritative (dr_status r') \<Longrightarrow> opens t r' ?st1 (?w r' v ss fs k)" for r' v ss fs k
      by (simp add: opens_def)
    then have w: "\<not> authoritative (dr_status r') \<Longrightarrow> dr_version r' = nextVersion t ?st1 \<Longrightarrow>
        step_ok t st (?w r' v ss fs k)" for r' v ss fs k
      by (intro reopened_ok(2) [OF r]) auto
    have "dr_status r \<noteq> APPROVED \<Longrightarrow> \<not> authoritative (dr_status r)"
      using editableE(4) [OF e] by (simp add: authoritative_def)
    with e w show ?thesis
      by (auto simp: regenerateFeatures_def Let_def currentContent_at c authoritative_def
          intro!: step_ok_mark)
  qed
  then show ?thesis
    by (cases "editableDocument t up n st") (auto simp: regenerateFeatures_def)
qed

text \<open>\<open>regenerateRows\<close> reads the next version before it archives.\<close>

lemma regenerated_rows_advance:
  assumes r: "find_doc t st = Some r" and inv: "doc_inv t st"
    and o: "opens t r' (archive t r (content_at t (dr_version r) st) None None no_lineage st) st2"
    and v: "dr_version r' = nextVersion t st"
  shows "advances t st (archive t r' c' None None lin' st2)"
proof -
  let ?st1 = "archive t r (content_at t (dr_version r) st) None None no_lineage st"
  let ?st' = "archive t r' c' None None lin' st2"
  have le: "dr_version r \<le> dr_version r'" using inv r v by (simp add: doc_inv_def)
  have lt: "dr_version r < dr_version r'" if "authoritative (dr_status r)"
  proof -
    from inv r that obtain e where "findVersion t (dr_version r) st = Some e"
      by (auto simp: doc_inv_def)
    then show ?thesis using v nextVersion_above by simp
  qed
  obtain e where e: "findVersion t (dr_version r) ?st1 = Some e"
    "vr_content e = content_at t (dr_version r) st" "vr_status e = dr_status r"
    using archived_row [of t r "content_at t (dr_version r) st" None None no_lineage st] by auto
  have row: "findVersion t (dr_version r) ?st' = Some e" if "authoritative (dr_status r)"
    using e lt [OF that] by (simp add: opens_versions [OF o])
  have same: "findVersion t w ?st' = findVersion t w st"
    if "w \<noteq> dr_version r" "w \<noteq> dr_version r'" for w
    using that by (simp add: opens_versions [OF o])
  have bound: "dr_version r' \<le> nextVersion t ?st'"
    using next_after_archive less_imp_le by blast
  show ?thesis
    unfolding advances_def
    by (rule exI [of _ r], rule exI [of _ r'])
      (use o r le lt row e same bound in \<open>auto simp: opens_def\<close>)
qed

lemma regenerateRows_ok: "step_ok t st (fst (regenerateRows eng up t sel n named reason st))"
proof -
  have "step_ok t st (fst (regenerateRows eng up t sel n named reason st))"
    if e: "editableDocument t up n st = Inr r" for r
  proof -
    let ?st1 = "archive t r (content_at t (dr_version r) st) None None no_lineage st"
    let ?w = "\<lambda>r' v ss rs k. replaceRows t v rs (replaceSections t v ss (minted k (put_doc t r' ?st1)))"
    note r = editableE(1) [OF e]
    have c: "commit t (dr_recordVersion r) f ?st1
        = Inr (put_doc t ((f r)\<lparr> dr_recordVersion := dr_recordVersion r + 1 \<rparr>) ?st1)" for f
      by (rule commit_live) (simp add: r)
    have o: "\<not> authoritative (dr_status r') \<Longrightarrow> opens t r' ?st1 (?w r' v ss rs k)" for r' v ss rs k
      by (simp add: opens_def)
    have w: "step_ok t st (archive t r' c' None None lin' (?w r' v ss rs k))"
      if "\<not> authoritative (dr_status r')" "dr_version r' = nextVersion t st" for r' v ss rs k c' lin'
    proof (rule step_okI)
      show "doc_inv t st \<Longrightarrow> advances t st (archive t r' c' None None lin' (?w r' v ss rs k))"
        using regenerated_rows_advance [OF r _ o [OF that(1)] that(2)] .
      show "u \<noteq> t \<Longrightarrow> same_doc u st (archive t r' c' None None lin' (?w r' v ss rs k))" for u
        using opens_same [OF o [OF that(1)]] same_doc_archive same_doc_trans by blast
    qed
    with e show ?thesis
      by (auto simp: regenerateRows_def Let_def currentContent_at c authoritative_def
          archive_current_def split: sum.splits)
  qed
  then show ?thesis
    by (cases "editableDocument t up n st") (auto simp: regenerateRows_def)
qed

end
