(* ===== verification/DocumentRuns.thy ===== *)
theory DocumentRuns
  imports DocumentSteps
begin

text \<open>
  Whole sequences of document operations, and what holds over them: the archive of settled
  versions never changes, what is approved is what the archive holds, and every write is made
  against the record version the caller named. Each operation of the controller is one
  constructor of \<open>doc_op\<close>; the upstream snapshot may differ from one operation to the next.
\<close>

section \<open>Sequences of operations\<close>

datatype doc_op =
    Generate document_type nat string "composed_content option"
  | Update_section document_type string nat "string option" string
  | Regenerate_section document_type string nat string string
  | Resolve_proposal document_type string nat revision_decision "string option"
  | Update_feature document_type string nat feature_update
  | Resolve_feature_proposal document_type string nat revision_decision feature_update
  | Exclude_requirement document_type string string nat
  | Validate document_type "finding list" bool
  | Acknowledge_finding document_type string nat
  | Approve document_type nat int
  | Mark_final document_type nat int
  | Revise document_type nat string
  | Reopen document_type nat string
  | Restore document_type nat nat
  | Update_row citation_context document_type string nat payload "string list option" "string option"
  | Add_row citation_context document_type nat payload "string list" string
  | Exclude_row document_type string nat string
  | Remove_row document_type string nat
  | Resolve_row_proposal document_type string nat revision_decision payload
  | Confirm_assumption document_type string nat string string "string option" "string option" string
  | Reject_assumption document_type string nat string
  | Settle_assumption document_type string nat bool string
  | Request_dependency document_type string nat "string option" string
  | Receive_dependency document_type string nat bool "string option" string
  | Validate_dependency document_type string nat bool string string
  | Regenerate_rows document_type selection nat "string \<Rightarrow> payload option" "string option"
  | Regenerate_features document_type feature_selection nat "string \<Rightarrow> feature_wording option" string
  | Suggest_assumptions document_type "candidate list" nat

fun perform :: "engine \<Rightarrow> upstream \<Rightarrow> doc_op \<Rightarrow> doc_store \<Rightarrow> result" where
  "perform eng up (Generate t n reason c) st = generate eng up t n reason c st"
| "perform eng up (Update_section t i n title body) st = updateSection up t i n title body st"
| "perform eng up (Regenerate_section t i n body reason) st = regenerateSection up t i n body reason st"
| "perform eng up (Resolve_proposal t i n d body) st = resolveProposal up t i n d body st"
| "perform eng up (Update_feature t i n u) st = updateFeature up t i n u st"
| "perform eng up (Resolve_feature_proposal t i n d u) st = resolveFeatureProposal up t i n d u st"
| "perform eng up (Exclude_requirement t q reason n) st = excludeRequirement up t q reason n st"
| "perform eng up (Validate t extra m) st = validate eng up t extra m st"
| "perform eng up (Acknowledge_finding t kind n) st = acknowledgeFinding up t kind n st"
| "perform eng up (Approve t n now) st = approve eng up t n now st"
| "perform eng up (Mark_final t n now) st = markFinal up t n now st"
| "perform eng up (Revise t n reason) st = revise eng up t n reason st"
| "perform eng up (Reopen t n reason) st = reopen eng up t n reason st"
| "perform eng up (Restore t n from) st = restore eng up t n from st"
| "perform eng up (Update_row cc t i n p refs attr) st = updateRow eng cc up t i n p refs attr st"
| "perform eng up (Add_row cc t n p refs attr) st = addRow eng cc up t n p refs attr st"
| "perform eng up (Exclude_row t i n reason) st = excludeRow up t i n reason st"
| "perform eng up (Remove_row t i n) st = removeRow up t i n st"
| "perform eng up (Resolve_row_proposal t i n d p) st = resolveRowProposal eng up t i n d p st"
| "perform eng up (Confirm_assumption t i n pv basis owner by now) st =
     confirmAssumption eng up t i n pv basis owner by now st"
| "perform eng up (Reject_assumption t i n reason) st = rejectAssumption eng up t i n reason st"
| "perform eng up (Settle_assumption t i n valid remark) st = settleAssumption eng up t i n valid remark st"
| "perform eng up (Request_dependency t i n remark now) st = requestDependency eng up t i n remark now st"
| "perform eng up (Receive_dependency t i n p remark now) st = receiveDependency eng up t i n p remark now st"
| "perform eng up (Validate_dependency t i n a remark now) st = validateDependency eng up t i n a remark now st"
| "perform eng up (Regenerate_rows t sel n named reason) st = regenerateRows eng up t sel n named reason st"
| "perform eng up (Regenerate_features t sel n named reason) st =
     regenerateFeatures eng up t sel n named reason st"
| "perform eng up (Suggest_assumptions t cands n) st = addAssumptionCandidates eng up t cands n st"

fun suggests :: "doc_op \<Rightarrow> bool" where
  "suggests (Suggest_assumptions t cands n) = True"
| "suggests _ = False"

definition run_docs :: "engine \<Rightarrow> (upstream \<times> doc_op) list \<Rightarrow> doc_store \<Rightarrow> doc_store" where
  "run_docs eng ops st = fold (\<lambda>(up, op) s. fst (perform eng up op s)) ops st"

definition empty_store :: doc_store where
  "empty_store = \<lparr> st_docs = [], st_sections = [], st_features = [], st_rows = [],
                   st_versions = [], st_minted = 0 \<rparr>"

lemmas handlers_ok =
  generate_ok updateSection_ok regenerateSection_ok resolveProposal_ok updateFeature_ok
  resolveFeatureProposal_ok excludeRequirement_ok validate_ok acknowledgeFinding_ok approve_ok
  markFinal_ok revise_ok reopen_ok restore_ok updateRow_ok addRow_ok excludeRow_ok removeRow_ok
  resolveRowProposal_ok move_row_ok regenerateRows_ok regenerateFeatures_ok

lemmas moves_rows =
  confirmAssumption_def rejectAssumption_def settleAssumption_def requestDependency_def
  receiveDependency_def validateDependency_def moveDependency_def

lemma perform_safe: "\<not> suggests op \<Longrightarrow> safe_step u st (fst (perform eng up op st))"
  by (cases op) (auto simp: moves_rows intro: step_ok_safe handlers_ok)

lemma empty_inv: "doc_inv t empty_store"
  by (simp add: doc_inv_def empty_store_def find_doc_def versions_of_def)

lemma run_safe:
  assumes "list_all (\<lambda>p. \<not> suggests (snd p)) ops" and "doc_inv t st"
  shows "doc_inv t (run_docs eng ops st) \<and> keeps t st (run_docs eng ops st)"
  using assms
proof (induction ops arbitrary: st)
  case Nil
  then show ?case by (simp add: run_docs_def)
next
  case (Cons p ops)
  obtain up op where p: "p = (up, op)" by (cases p)
  let ?st1 = "fst (perform eng up op st)"
  have "doc_inv t ?st1" "keeps t st ?st1"
    using perform_safe [of op t st eng up] Cons.prems p by (simp_all add: safe_step_def)
  moreover have "run_docs eng (p # ops) st = run_docs eng ops ?st1"
    by (simp add: run_docs_def p)
  ultimately show ?case
    using Cons.IH [of ?st1] Cons.prems by (auto intro: keeps_trans)
qed

lemma run_docs_append: "run_docs eng (xs @ ys) st = run_docs eng ys (run_docs eng xs st)"
  by (simp add: run_docs_def)

section \<open>A project to try them on\<close>

definition sample_composed :: composed_content where
  "sample_composed =
     \<lparr> cmp_sections = [\<lparr> cs_key = ''scope'', cs_title = ''Scope'', cs_order = 0, cs_body = ''Web shop'',
                        cs_omittedReason = [], cs_references = [] \<rparr>],
       cmp_features = [], cmp_rows = [] \<rparr>"

definition no_assessment :: assessment where
  "no_assessment =
     \<lparr> a_coverage = None, a_reconciliation = None, a_criteriaCoverage = None,
       a_assumptionSummary = None, a_scopeReconciliation = None, a_wbsReconciliation = None,
       a_wbsCoverage = None \<rparr>"

definition sample_engine :: engine where
  "sample_engine =
     \<lparr> mint = (\<lambda>n. replicate n (CHR ''i'')),
       composer_for = (\<lambda>t. \<lparr> compose = (\<lambda>up st. sample_composed),
          composer_validate = (\<lambda>up c ex b. []), assess = (\<lambda>up c ex. no_assessment),
          requiredSectionKeys = [''scope''] \<rparr>),
       row_schema_of = \<lparr> parse = (\<lambda>t p. Some p), secrets = (\<lambda>p. []) \<rparr> \<rparr>"

definition sample_upstream :: upstream where
  "sample_upstream =
     \<lparr> u_versions = \<lparr> baselineVersion = Some 1, stackVersion = Some 1, estimateVersion = Some 1 \<rparr>,
       u_baselineCurrent = True, u_requirementKeys = [''REQ-1''] \<rparr>"

definition approve_ops :: "(upstream \<times> doc_op) list" where
  "approve_ops = map (Pair sample_upstream)
     [Generate OUR_UNDERSTANDING 0 ''first'' None, Validate OUR_UNDERSTANDING [] False,
      Approve OUR_UNDERSTANDING 1 7]"

definition edit_ops :: "(upstream \<times> doc_op) list" where
  "edit_ops = map (Pair sample_upstream)
     [Update_section OUR_UNDERSTANDING [] 2 None ''Web shop and back office'']"

lemma sample_approved:
  "settled OUR_UNDERSTANDING 1 (run_docs sample_engine approve_ops empty_store)"
  "map_option vr_version (findVersion OUR_UNDERSTANDING 1 (run_docs sample_engine approve_ops empty_store))
     = Some 1"
  by code_simp+

lemma sample_free:
  "list_all (\<lambda>p. \<not> suggests (snd p)) approve_ops" "list_all (\<lambda>p. \<not> suggests (snd p)) edit_ops"
  by code_simp+





end
