(* ===== verification/DocumentGuarantees.thy ===== *)
theory DocumentGuarantees
  imports DocumentRuns
begin

text \<open>
  What the operations promise one by one: when an approval succeeds, that a caller who read an
  older record cannot write, that editing an approved document makes everything downstream out
  of date, and that regeneration keeps what a person wrote.
\<close>

section \<open>Approval\<close>

lemma approvable_status: "canTransitionDocument s APPROVED \<longleftrightarrow> s = DRAFT \<or> s = NEEDS_REVISION"
  by (cases s) (simp_all add: canTransitionDocument_def)

lemma approvable_not_authoritative:
  "canTransitionDocument s APPROVED \<Longrightarrow> \<not> isDocumentAuthoritative s"
  by (auto simp: approvable_status isDocumentAuthoritative_def AUTHORITATIVE_DOCUMENT_STATUSES_def)

lemma all_implemented [simp]: "isImplementedDocumentType t"
  by (cases t) (simp_all add: isImplementedDocumentType_def IMPLEMENTED_DOCUMENT_TYPES_def)

text \<open>
  Property C3. Approval is exactly gated: it succeeds when the document is a draft or needs
  revision, the caller read its current record, nothing it is built on moved, its validation is
  of this very version and found nothing blocking, and no blocker of any kind is left; in every
  other case it is refused.
\<close>
theorem approve_gate:
  "snd (approve eng up t n now st) = None \<longleftrightarrow>
     (\<exists>r v. find_doc t st = Some r \<and> dr_recordVersion r = n
        \<and> (dr_status r = DRAFT \<or> dr_status r = NEEDS_REVISION)
        \<and> documentOutdatedReasonsFor t r up = []
        \<and> dr_validation r = Some v \<and> v_documentVersion v = dr_version r
        \<and> list_all (\<lambda>f. f_severity f \<noteq> BLOCKING) (v_findings v)
        \<and> blockers_of eng up t r st = [])"
proof (cases "expect t n st")
  case (Inl e)
  then show ?thesis
    by (auto simp: approve_def expect_def split: option.splits if_splits)
next
  case (Inr r)
  note r = expectE [OF this]
  have c: "commit t n f st = Inr (put_doc t ((f r)\<lparr> dr_recordVersion := n + 1 \<rparr>) st)" for f
    using commit_live [OF r(1)] r(2) by simp
  show ?thesis
    unfolding approve_def Let_def Inr
    using r approvable_not_authoritative [of "dr_status r"]
    by (auto simp: c approvable_status validationIsCurrent_def validationPermitsApproval_def
        list_ex_iff list_all_iff split: option.splits)
qed

section \<open>The record version\<close>

fun expectation :: "doc_op \<Rightarrow> (document_type \<times> nat) option" where
  "expectation (Generate t n reason c) = Some (t, n)"
| "expectation (Update_section t i n title body) = Some (t, n)"
| "expectation (Regenerate_section t i n body reason) = Some (t, n)"
| "expectation (Resolve_proposal t i n d body) = Some (t, n)"
| "expectation (Update_feature t i n u) = Some (t, n)"
| "expectation (Resolve_feature_proposal t i n d u) = Some (t, n)"
| "expectation (Exclude_requirement t q reason n) = Some (t, n)"
| "expectation (Validate t extra m) = None"
| "expectation (Acknowledge_finding t kind n) = Some (t, n)"
| "expectation (Approve t n now) = Some (t, n)"
| "expectation (Mark_final t n now) = Some (t, n)"
| "expectation (Revise t n reason) = Some (t, n)"
| "expectation (Reopen t n reason) = Some (t, n)"
| "expectation (Restore t n from) = Some (t, n)"
| "expectation (Update_row cc t i n p refs attr) = Some (t, n)"
| "expectation (Add_row cc t n p refs attr) = Some (t, n)"
| "expectation (Exclude_row t i n reason) = Some (t, n)"
| "expectation (Remove_row t i n) = Some (t, n)"
| "expectation (Resolve_row_proposal t i n d p) = Some (t, n)"
| "expectation (Confirm_assumption t i n pv basis owner by now) = Some (t, n)"
| "expectation (Reject_assumption t i n reason) = Some (t, n)"
| "expectation (Settle_assumption t i n valid remark) = Some (t, n)"
| "expectation (Request_dependency t i n remark now) = Some (t, n)"
| "expectation (Receive_dependency t i n p remark now) = Some (t, n)"
| "expectation (Validate_dependency t i n a remark now) = Some (t, n)"
| "expectation (Regenerate_rows t sel n named reason) = Some (t, n)"
| "expectation (Regenerate_features t sel n named reason) = Some (t, n)"
| "expectation (Suggest_assumptions t cands n) = Some (t, n)"

lemma expect_stale:
  assumes "find_doc t st = Some r" and "dr_recordVersion r \<noteq> n"
  shows "expect t n st = Inl version_conflict" "editableDocument t up n st = Inl version_conflict"
  using assms by (simp_all add: expect_def editableDocument_def)

lemma stale_is_refused:
  assumes "expectation op = Some (t, n)" and "find_doc t st = Some r" and "dr_recordVersion r \<noteq> n"
  shows "fst (perform eng up op st) = st \<and> snd (perform eng up op st) \<noteq> None"
  using assms(1)
  by (cases op)
    (use expect_stale [OF assms(2,3)] assms(2,3) in
      \<open>auto simp: updateSection_def regenerateSection_def resolveProposal_def updateFeature_def
        resolveFeatureProposal_def excludeRequirement_def acknowledgeFinding_def approve_def
        markFinal_def revise_def reopen_def restore_def updateRow_def addRow_def excludeRow_def
        removeRow_def resolveRowProposal_def change_row_def moves_rows move_row_def generate_def
        regenerateRows_def regenerateFeatures_def addAssumptionCandidates_def
        split: option.splits\<close>)

text \<open>A successful operation raises the record version, so the same expectation cannot pass twice.\<close>

definition raised :: "document_type \<Rightarrow> doc_store \<Rightarrow> doc_store \<Rightarrow> bool" where
  "raised t st st' =
     (\<exists>r r'. find_doc t st = Some r \<and> find_doc t st' = Some r'
        \<and> dr_recordVersion r < dr_recordVersion r')"

lemma raised_put:
  "find_doc t st = Some r \<Longrightarrow> find_doc t st' = Some r' \<Longrightarrow>
   dr_recordVersion r' = dr_recordVersion r + 1 \<Longrightarrow> raised t st st'"
  by (simp add: raised_def)

lemma raised_edit:
  assumes e: "editableDocument t up n st = Inr r" and "edits t (dr_version r) st st1"
  shows "raised t st (fst (afterContentChange t r ct st1))"
  using afterContentChange_spec [OF editableE(1) [OF e] assms(2) editableE(4) [OF e], of ct]
    editableE(1) [OF e]
  by (auto simp: raised_def)

lemma raised_commit:
  assumes "commit t n f st = Inr st1" shows "raised t st st1"
  using assms by (rule commitE) (auto simp: raised_def)

lemma raised_find: "raised t st st1 \<Longrightarrow> find_doc t st2 = find_doc t st1 \<Longrightarrow> raised t st st2"
  by (simp add: raised_def)

lemma raised_exclude:
  assumes e: "editableDocument t up n st = Inr r" and c: "commit t (dr_recordVersion r) f st = Inr st1"
    and f: "core (f r) = core r"
  shows "raised t st (fst (afterContentChange t r ct st1))"
proof -
  let ?r1 = "(f r)\<lparr> dr_recordVersion := dr_recordVersion r + 1 \<rparr>"
  note r = editableE(1) [OF e]
  have st1: "st1 = put_doc t ?r1 st"
    using c r by (auto elim: commitE)
  have eq: "afterContentChange t r ct st1 = afterContentChange t ?r1 ct st1"
    using f by (simp add: afterContentChange_def Let_def core_def currentContent_at st1)
  have "dr_status ?r1 \<noteq> FINAL" using f editableE(4) [OF e] by (simp add: core_def)
  then obtain r' where "find_doc t (fst (afterContentChange t ?r1 ct st1)) = Some r'"
    "dr_recordVersion r' = dr_recordVersion ?r1 + 1"
    using afterContentChange_spec [of t st1 ?r1 st1 ct] by (fastforce simp: st1 edits_refl)
  with r eq show ?thesis by (simp add: raised_def)
qed

lemma raised_archive_first:
  assumes r: "find_doc t st = Some r"
  shows "commit t (dr_recordVersion r) f (archive t r c s a lin st)
    = Inr (put_doc t ((f r)\<lparr> dr_recordVersion := dr_recordVersion r + 1 \<rparr>) (archive t r c s a lin st))"
    and "update_doc t (dr_recordVersion r) f (archive t r c s a lin st)
    = Some (put_doc t ((f r)\<lparr> dr_recordVersion := dr_recordVersion r + 1 \<rparr>) (archive t r c s a lin st))"
  using r by (simp_all add: commit_live update_live)

lemma raised_revise_from:
  "find_doc t st = Some r \<Longrightarrow> raised t st (revise_from eng up t r reason st)"
  by (rule raised_put [of t st r], assumption)
    (auto simp: revise_from_def Let_def archive_current_def update_or_ignore_def update_live)

lemma raised_reopen_from:
  "find_doc t st = Some r \<Longrightarrow> raised t st (reopen_from eng t r reason st)"
  by (rule raised_put [of t st r], assumption)
    (auto simp: reopen_from_def Let_def archive_current_def update_or_ignore_def update_live)

lemma raised_generate:
  assumes "find_doc t st = Some r" and "snd (generate eng up t n reason c st) = None"
  shows "raised t st (fst (generate eng up t n reason c st))"
  using assms
  by (auto simp: generate_def Let_def raised_archive_first split: option.splits if_splits
      intro!: raised_put)

lemma raised_restore:
  assumes "snd (restore eng up t n from st) = None"
  shows "raised t st (fst (restore eng up t n from st))"
  using assms
  by (auto simp: restore_def Let_def raised_archive_first [OF editableE(1)] archive_current_def
      split: option.splits if_splits sum.splits dest: editableE(1) intro!: raised_put)

lemma raised_regenerate:
  "snd (regenerateRows eng up t sel n named reason st) = None \<Longrightarrow>
   raised t st (fst (regenerateRows eng up t sel n named reason st))"
  "snd (regenerateFeatures eng up t fsel n fnamed freason st) = None \<Longrightarrow>
   raised t st (fst (regenerateFeatures eng up t fsel n fnamed freason st))"
  by (auto simp: regenerateRows_def regenerateFeatures_def Let_def
      raised_archive_first [OF editableE(1)] archive_current_def
      split: option.splits if_splits sum.splits dest: editableE(1) intro!: raised_put)

lemma raised_change_row:
  "snd (change_row up t i n ct decide st) = None \<Longrightarrow> raised t st (fst (change_row up t i n ct decide st))"
  by (auto simp: change_row_def split: sum.splits intro: raised_edit edits_row [OF expectRow_found])

lemma raised_rows:
  "snd (move_row eng up t i n al er ch st) = None \<Longrightarrow> raised t st (fst (move_row eng up t i n al er ch st))"
  "snd (updateRow eng cc up t i n p refs attr st) = None \<Longrightarrow>
   raised t st (fst (updateRow eng cc up t i n p refs attr st))"
  "snd (excludeRow up t i n why st) = None \<Longrightarrow> raised t st (fst (excludeRow up t i n why st))"
  "snd (resolveRowProposal eng up t i n d p st) = None \<Longrightarrow>
   raised t st (fst (resolveRowProposal eng up t i n d p st))"
  by (simp_all add: move_row_def updateRow_def excludeRow_def resolveRowProposal_def raised_change_row)

lemma raised_gate:
  "snd (approve eng up t n now st) = None \<Longrightarrow> raised t st (fst (approve eng up t n now st))"
  "snd (markFinal up t n now st) = None \<Longrightarrow> raised t st (fst (markFinal up t n now st))"
  "snd (acknowledgeFinding up t kind n st) = None \<Longrightarrow> raised t st (fst (acknowledgeFinding up t kind n st))"
  by (auto simp: approve_def markFinal_def acknowledgeFinding_def Let_def
      split: sum.splits if_splits option.splits intro: raised_find [OF raised_commit] raised_commit)

lemma raised_by_edit:
  "snd (updateSection up t i n title body st) = None \<Longrightarrow> raised t st (fst (updateSection up t i n title body st))"
  "snd (regenerateSection up t i n body reason st) = None \<Longrightarrow>
   raised t st (fst (regenerateSection up t i n body reason st))"
  "snd (resolveProposal up t i n d body' st) = None \<Longrightarrow> raised t st (fst (resolveProposal up t i n d body' st))"
  "snd (updateFeature up t i n u st) = None \<Longrightarrow> raised t st (fst (updateFeature up t i n u st))"
  "snd (resolveFeatureProposal up t i n d u st) = None \<Longrightarrow>
   raised t st (fst (resolveFeatureProposal up t i n d u st))"
  "snd (removeRow up t i n st) = None \<Longrightarrow> raised t st (fst (removeRow up t i n st))"
  "snd (addRow eng cc up t n p refs attr st) = None \<Longrightarrow> raised t st (fst (addRow eng cc up t n p refs attr st))"
  "snd (excludeRequirement up t q why n st) = None \<Longrightarrow> raised t st (fst (excludeRequirement up t q why n st))"
  by (auto simp: updateSection_def regenerateSection_def resolveProposal_def updateFeature_def
      resolveFeatureProposal_def removeRow_def addRow_def excludeRequirement_def Let_def core_def
      split: sum.splits option.splits if_splits
      intro: raised_edit edits_section edits_feature edits_delete [OF expectRow_found] edits_insert
        raised_exclude)

lemma raised_reopened:
  "snd (revise eng up t n reason st) = None \<Longrightarrow> raised t st (fst (revise eng up t n reason st))"
  "snd (reopen eng up t n reason st) = None \<Longrightarrow> raised t st (fst (reopen eng up t n reason st))"
  by (auto simp: revise_def reopen_def split: sum.splits if_splits
      intro: raised_revise_from raised_reopen_from dest: expectE)

lemma perform_raises:
  assumes "expectation op = Some (t, n)" and "\<not> suggests op" and "find_doc t st = Some r"
    and "snd (perform eng up op st) = None"
  shows "raised t st (fst (perform eng up op st))"
  using assms(1,2,4)
  by (cases op)
    (auto simp: moves_rows simp del: if_split
      intro: raised_generate [OF assms(3)] raised_restore raised_regenerate raised_rows raised_gate
        raised_by_edit raised_reopened)


definition two_edits :: "doc_store \<times> doc_op \<times> doc_op" where
  "two_edits =
     (run_docs sample_engine (take 1 approve_ops) empty_store,
      Update_section OUR_UNDERSTANDING [] 0 None ''Mine'', Update_section OUR_UNDERSTANDING [] 0 None ''Yours'')"


section \<open>Dependents of a changed document\<close>

lemma mark_keeps_reason:
  "find_doc d st = Some rd \<Longrightarrow> prerequisite_reason t \<in> set (dr_outdatedReasons rd) \<Longrightarrow>
   \<exists>rd'. find_doc d (mark_dependent t d' st) = Some rd' \<and> prerequisite_reason t \<in> set (dr_outdatedReasons rd')"
  by (auto simp: mark_dependent_def touch_doc_def split: option.splits)

lemma mark_sets_reason:
  assumes "find_doc d st = Some rd" and "dr_status rd \<noteq> NOT_STARTED"
  shows "\<exists>rd'. find_doc d (mark_dependent t d st) = Some rd'
    \<and> prerequisite_reason t \<in> set (dr_outdatedReasons rd')"
  using assms by (auto simp: mark_dependent_def touch_doc_def)

lemma marked_dependents:
  assumes "d \<in> set ds" and "find_doc d st = Some rd" and "dr_status rd \<noteq> NOT_STARTED"
  shows "\<exists>rd'. find_doc d (fold (mark_dependent t) ds st) = Some rd'
    \<and> prerequisite_reason t \<in> set (dr_outdatedReasons rd')"
  using assms
proof (induction ds arbitrary: st rd)
  case (Cons d' ds)
  have keep: "\<exists>rd'. find_doc d (fold (mark_dependent t) ds st') = Some rd'
      \<and> prerequisite_reason t \<in> set (dr_outdatedReasons rd')"
    if "find_doc d st' = Some r'" "prerequisite_reason t \<in> set (dr_outdatedReasons r')" for st' r'
    using that
  proof (induction ds arbitrary: st' r')
    case (Cons e es)
    from mark_keeps_reason [OF Cons.prems, of e] Cons.IH show ?case by auto
  qed auto
  show ?case
  proof (cases "d = d'")
    case True
    with mark_sets_reason [OF Cons.prems(2,3), of t] keep show ?thesis by auto
  next
    case False
    then have "find_doc d (mark_dependent t d' st) = Some rd"
      using Cons.prems(2) by (simp add: find_doc_mark_other)
    with Cons False show ?thesis by auto
  qed
qed simp

definition marks :: "document_type \<Rightarrow> doc_store \<Rightarrow> doc_store \<Rightarrow> bool" where
  "marks t st st' =
     (\<exists>st5. st' = markDependentsOutdated t st5 \<and> (\<forall>u. u \<noteq> t \<longrightarrow> find_doc u st5 = find_doc u st))"

lemma marks_outdates:
  assumes m: "marks t st st'" and d: "d \<in> set (downstreamDocuments t)"
    and rd: "find_doc d st = Some rd" and s: "dr_status rd \<noteq> NOT_STARTED"
  shows "\<exists>rd'. find_doc d st' = Some rd' \<and> prerequisite_reason t \<in> set (dr_outdatedReasons rd')"
proof -
  obtain st5 where st': "st' = markDependentsOutdated t st5"
    and same: "\<And>u. u \<noteq> t \<Longrightarrow> find_doc u st5 = find_doc u st"
    using m by (auto simp: marks_def)
  have "d \<noteq> t" using d downstream_irrefl by auto
  with same rd have "find_doc d st5 = Some rd" by simp
  with marked_dependents [OF d _ s, of st5 t] show ?thesis
    by (simp add: st' markDependentsOutdated_def)
qed

lemma reason_outdates:
  "prerequisite_reason t \<in> set (dr_outdatedReasons r) \<Longrightarrow> documentOutdatedReasonsFor d r up \<noteq> []"
  by (auto simp: documentOutdatedReasonsFor_def)

lemma marks_edit:
  assumes e: "editableDocument t up n st = Inr r" and "edits t (dr_version r) st st1"
    and a: "dr_status r = APPROVED"
  shows "marks t st (fst (afterContentChange t r ct st1))"
proof -
  have f: "find_doc u st1 = find_doc u st" for u using assms(2) by (simp add: edits_def)
  have c: "commit t (dr_recordVersion r) g st1
      = Inr (put_doc t ((g r)\<lparr> dr_recordVersion := dr_recordVersion r + 1 \<rparr>) st1)" for g
    by (rule commit_live) (simp add: f editableE(1) [OF e])
  show ?thesis
    unfolding marks_def using a
    by (auto simp: afterContentChange_def Let_def f editableE(1) [OF e] c)
qed

lemma marks_exclude:
  assumes e: "editableDocument t up n st = Inr r" and c: "commit t (dr_recordVersion r) g st = Inr st1"
    and a: "dr_status r = APPROVED"
  shows "marks t st (fst (afterContentChange t r ct st1))"
proof -
  have st1: "st1 = put_doc t ((g r)\<lparr> dr_recordVersion := dr_recordVersion r + 1 \<rparr>) st"
    using c editableE(1) [OF e] by (auto elim: commitE)
  show ?thesis
    unfolding marks_def using a
    by (auto simp: afterContentChange_def Let_def st1 commit_def update_doc_def)
qed

lemma marks_from:
  "find_doc t st = Some r \<Longrightarrow> marks t st (revise_from eng up t r reason st)"
  "find_doc t st = Some r \<Longrightarrow> marks t st (reopen_from eng t r reason st)"
  unfolding marks_def revise_from_def reopen_from_def Let_def
  by (rule exI, rule conjI, rule refl,
      auto simp: archive_current_def update_or_ignore_def update_live split: option.splits)+

text \<open>The operations that tell the documents downstream that an approved document changed.\<close>

fun announces :: "doc_op \<Rightarrow> bool" where
  "announces (Generate t n reason c) = False"
| "announces (Validate t extra m) = False"
| "announces (Acknowledge_finding t kind n) = False"
| "announces (Approve t n now) = False"
| "announces (Mark_final t n now) = False"
| "announces (Restore t n from) = False"
| "announces (Regenerate_rows t sel n named reason) = False"
| "announces (Suggest_assumptions t cands n) = False"
| "announces _ = True"

definition approved_now :: "document_type \<Rightarrow> doc_store \<Rightarrow> bool" where
  "approved_now t st = (case find_doc t st of None \<Rightarrow> False | Some r \<Rightarrow> authoritative (dr_status r))"

lemma approved_editable:
  "approved_now t st \<Longrightarrow> editableDocument t up n st = Inr r \<Longrightarrow> dr_status r = APPROVED"
  using editableE [of t up n st r] by (auto simp: approved_now_def authoritative_def)

lemma marks_change_row:
  assumes "approved_now t st" and "snd (change_row up t i n ct decide st) = None"
  shows "marks t st (fst (change_row up t i n ct decide st))"
  using assms
  by (auto simp: change_row_def split: sum.splits
      intro: marks_edit approved_editable edits_row [OF expectRow_found])

lemma marks_rows:
  assumes "approved_now t st"
  shows "snd (move_row eng up t i n al er ch st) = None \<Longrightarrow> marks t st (fst (move_row eng up t i n al er ch st))"
    "snd (updateRow eng cc up t i n p refs attr st) = None \<Longrightarrow>
     marks t st (fst (updateRow eng cc up t i n p refs attr st))"
    "snd (excludeRow up t i n why st) = None \<Longrightarrow> marks t st (fst (excludeRow up t i n why st))"
    "snd (resolveRowProposal eng up t i n d p st) = None \<Longrightarrow>
     marks t st (fst (resolveRowProposal eng up t i n d p st))"
  using marks_change_row [OF assms]
  by (simp_all add: move_row_def updateRow_def excludeRow_def resolveRowProposal_def)

lemma marks_by_edit:
  assumes a: "approved_now t st"
  shows "snd (updateSection up t i n title body st) = None \<Longrightarrow> marks t st (fst (updateSection up t i n title body st))"
    "snd (regenerateSection up t i n body reason st) = None \<Longrightarrow>
     marks t st (fst (regenerateSection up t i n body reason st))"
    "snd (resolveProposal up t i n d body' st) = None \<Longrightarrow> marks t st (fst (resolveProposal up t i n d body' st))"
    "snd (updateFeature up t i n u st) = None \<Longrightarrow> marks t st (fst (updateFeature up t i n u st))"
    "snd (resolveFeatureProposal up t i n d u st) = None \<Longrightarrow>
     marks t st (fst (resolveFeatureProposal up t i n d u st))"
    "snd (removeRow up t i n st) = None \<Longrightarrow> marks t st (fst (removeRow up t i n st))"
    "snd (addRow eng cc up t n p refs attr st) = None \<Longrightarrow> marks t st (fst (addRow eng cc up t n p refs attr st))"
    "snd (excludeRequirement up t q why n st) = None \<Longrightarrow> marks t st (fst (excludeRequirement up t q why n st))"
  by (auto simp: updateSection_def regenerateSection_def resolveProposal_def updateFeature_def
      resolveFeatureProposal_def removeRow_def addRow_def excludeRequirement_def Let_def
      split: sum.splits option.splits if_splits
      intro: marks_edit marks_exclude approved_editable [OF a] edits_section edits_feature
        edits_delete [OF expectRow_found] edits_insert)

lemma marks_features:
  assumes "approved_now t st" and "snd (regenerateFeatures eng up t sel n named reason st) = None"
  shows "marks t st (fst (regenerateFeatures eng up t sel n named reason st))"
proof (cases "editableDocument t up n st")
  case (Inl e)
  then show ?thesis using assms by (simp add: regenerateFeatures_def)
next
  case (Inr r)
  have "dr_status r = APPROVED" using approved_editable [OF assms(1) Inr] .
  with assms Inr show ?thesis
    by (auto simp: regenerateFeatures_def Let_def raised_archive_first [OF editableE(1) [OF Inr]]
        marks_def split: if_splits)
qed

lemma marks_reopened:
  "snd (revise eng up t n reason st) = None \<Longrightarrow> marks t st (fst (revise eng up t n reason st))"
  "snd (reopen eng up t n reason st) = None \<Longrightarrow> marks t st (fst (reopen eng up t n reason st))"
  by (auto simp: revise_def reopen_def split: sum.splits if_splits intro: marks_from dest: expectE)

lemma perform_marks:
  assumes "announces op" and "expectation op = Some (t, n)" and "approved_now t st"
    and "snd (perform eng up op st) = None"
  shows "marks t st (fst (perform eng up op st))"
  using assms(1,2,4)
  by (cases op)
    (auto simp: moves_rows simp del: if_split
      intro: marks_rows marks_by_edit marks_features marks_reopened assms(3))

text \<open>
  Property C4. When an edit, a reopening or a revision succeeds on an approved document, every
  document downstream of it that was generated is out of date from then on: it is shown as
  outdated whatever the upstream is by then, and it can be neither approved nor issued.
\<close>
theorem edit_outdates_downstream:
  assumes "announces op" and "expectation op = Some (t, n)" and "approved_now t st"
    and "perform eng up op st = (st', None)"
    and "d \<in> set (downstreamDocuments t)" and "find_doc d st = Some rd" and "dr_status rd \<noteq> NOT_STARTED"
  shows "map_option ds_currentness (document_states up' st' d) = Some OUTDATED
    \<and> snd (approve eng' up' d m now st') \<noteq> None \<and> snd (markFinal up' d m now st') \<noteq> None"
proof -
  have "marks t st st'"
    using perform_marks [OF assms(1-3), of eng up] assms(4) by simp
  from marks_outdates [OF this assms(5-7)] obtain rd' where rd': "find_doc d st' = Some rd'"
    "documentOutdatedReasonsFor d rd' up' \<noteq> []"
    using reason_outdates by blast
  then show ?thesis
    by (auto simp: document_states_def currentnessFrom_def approve_def markFinal_def Let_def
        split: sum.splits dest: expectE)
qed

theorem edit_outdates_downstream_witness:
  "\<exists>st'. perform sample_engine sample_upstream
      (Update_section OUR_UNDERSTANDING [] 2 None ''Changed'')
      (run_docs sample_engine (approve_ops @ map (Pair sample_upstream) [Generate FEATURE_LISTING 0 [] None])
         empty_store) = (st', None)
    \<and> map_option ds_currentness (document_states sample_upstream st' FEATURE_LISTING) = Some OUTDATED"
proof -
  let ?st = "run_docs sample_engine
    (approve_ops @ map (Pair sample_upstream) [Generate FEATURE_LISTING 0 [] None]) empty_store"
  let ?op = "Update_section OUR_UNDERSTANDING [] 2 None ''Changed''"
  have "approved_now OUR_UNDERSTANDING ?st" "map_option dr_status (find_doc FEATURE_LISTING ?st) = Some DRAFT"
    "(case snd (perform sample_engine sample_upstream ?op ?st) of None \<Rightarrow> True | Some _ \<Rightarrow> False)"
    "FEATURE_LISTING \<in> set (downstreamDocuments OUR_UNDERSTANDING)"
    by code_simp+
  then obtain rd st' where a: "approved_now OUR_UNDERSTANDING ?st" "find_doc FEATURE_LISTING ?st = Some rd"
    "dr_status rd \<noteq> NOT_STARTED" "perform sample_engine sample_upstream ?op ?st = (st', None)"
    "FEATURE_LISTING \<in> set (downstreamDocuments OUR_UNDERSTANDING)"
    by (cases "perform sample_engine sample_upstream ?op ?st") (auto split: option.splits)
  from edit_outdates_downstream [OF _ _ a(1,4,5,2,3), of 2 sample_upstream] a(4) show ?thesis by auto
qed

section \<open>Regeneration and what a person wrote\<close>

lemma update_new_key: "k \<notin> fst ` set m \<Longrightarrow> AList.update k v m = m @ [(k, v)]"
  by (induction m) auto

lemma index_rows:
  assumes "distinct (map f rs)"
  shows "foldl (\<lambda>m r. AList.update (f r) r m) [] rs = map (\<lambda>r. (f r, r)) rs"
proof -
  have "distinct (map f rs) \<Longrightarrow> f ` set rs \<inter> fst ` set m = {} \<Longrightarrow>
      foldl (\<lambda>m r. AList.update (f r) r m) m rs = m @ map (\<lambda>r. (f r, r)) rs" for m
    by (induction rs arbitrary: m) (auto simp: update_new_key)
  with assms show ?thesis by simp
qed

lemma map_of_delete_found:
  "distinct (map fst m) \<Longrightarrow> (k, e) \<in> set m \<Longrightarrow> k \<noteq> k' \<Longrightarrow> (k, e) \<in> set (AList.delete k' m)"
  by (simp add: AList.delete_eq)

lemma build_rows_keeps:
  assumes "distinct (map fst m)" and "(k, e) \<in> set m"
  shows "(\<exists>c \<in> set cs. kept_row c e \<in> set (fst (build_rows_loop m cs)))
    \<or> (k, e) \<in> set (snd (build_rows_loop m cs))"
  using assms
proof (induction cs arbitrary: m)
  case (Cons c cs)
  let ?k = "rowKey (cr_payload c)"
  show ?case
  proof (cases "map_of m ?k")
    case None
    from Cons.IH [OF Cons.prems] None show ?thesis
      by (auto split: prod.splits)
  next
    case (Some e')
    show ?thesis
    proof (cases "k = ?k")
      case True
      with Cons.prems Some have "e' = e" by simp
      with Some show ?thesis by (auto split: prod.splits)
    next
      case False
      have "distinct (map fst (AList.delete ?k m))"
        using Cons.prems(1) by (simp add: AList.distinct_delete)
      from Cons.IH [OF this map_of_delete_found [OF Cons.prems False]] Some show ?thesis
        by (auto split: prod.splits)
    qed
  qed
qed simp

definition same_work :: "doc_row \<Rightarrow> doc_row \<Rightarrow> bool" where
  "same_work x y =
     (rowPayload y = rowPayload x \<and> rowOrigin y = rowOrigin x \<and> attribution y = attribution x
      \<and> excludedReason y = excludedReason x)"

lemma buildRows_keeps:
  assumes d: "distinct (map (\<lambda>r. rowKey (rowPayload r)) (filter (\<lambda>r. isRowProtected (rowOrigin r)) previous))"
    and x: "x \<in> set previous" "isRowProtected (rowOrigin x)"
  shows "\<exists>y \<in> set (buildRows composed previous). same_work x y"
proof -
  let ?ps = "filter (\<lambda>r. isRowProtected (rowOrigin r)) previous"
  let ?m = "map (\<lambda>r. (rowKey (rowPayload r), r)) ?ps"
  have m: "foldl (\<lambda>m r. AList.update (rowKey (rowPayload r)) r m) [] ?ps = ?m"
    using d by (rule index_rows)
  have "distinct (map fst ?m)" "(rowKey (rowPayload x), x) \<in> set ?m"
    using d x by (simp_all add: comp_def)
  note kept = build_rows_keeps [OF this, of composed]
  obtain rows left where l: "build_rows_loop ?m composed = (rows, left)" by fastforce
  have b: "buildRows composed previous = rows @ map (\<lambda>(i, e). e\<lparr> rowOrder := length rows + i,
      rowProposed := None \<rparr>) (zip [0..<length left] (map snd left))"
    by (simp add: buildRows_def m l)
  from kept show ?thesis
    unfolding l fst_conv snd_conv
  proof
    assume "\<exists>c \<in> set composed. kept_row c x \<in> set rows"
    then obtain c where "kept_row c x \<in> set rows" by blast
    moreover have "same_work x (kept_row c x)" by (simp add: same_work_def kept_row_def)
    ultimately show ?thesis by (auto simp: b)
  next
    assume "(rowKey (rowPayload x), x) \<in> set left"
    then obtain i where i: "i < length left" "snd (left ! i) = x"
      by (metis in_set_conv_nth snd_conv)
    then have "(i, x) \<in> set (zip [0..<length left] (map snd left))"
      by (auto simp: set_zip intro!: exI [of _ i])
    then have "x\<lparr> rowOrder := length rows + i, rowProposed := None \<rparr> \<in> set (buildRows composed previous)"
      by (force simp: b)
    moreover have "same_work x (x\<lparr> rowOrder := length rows + i, rowProposed := None \<rparr>)"
      by (simp add: same_work_def)
    ultimately show ?thesis by blast
  qed
qed

lemma with_row_ids_member:
  assumes "length ids = length rows" and "y \<in> set rows"
  shows "\<exists>z \<in> set (with_row_ids ids rows). same_work y z"
proof -
  obtain i where "i < length rows" "rows ! i = y" using assms(2) by (auto simp: in_set_conv_nth)
  with assms(1) have "y\<lparr> rowId := ids ! i \<rparr> \<in> set (with_row_ids ids rows)"
    by (force simp: with_row_ids_def set_zip)
  moreover have "same_work y (y\<lparr> rowId := ids ! i \<rparr>)" by (simp add: same_work_def)
  ultimately show ?thesis by blast
qed

lemma with_section_ids_member:
  assumes "length ids = length ss" and "s \<in> set ss"
  shows "\<exists>i. s\<lparr> sectionId := i \<rparr> \<in> set (with_section_ids ids ss)"
proof -
  obtain i where "i < length ss" "ss ! i = s" using assms(2) by (auto simp: in_set_conv_nth)
  with assms(1) have "s\<lparr> sectionId := ids ! i \<rparr> \<in> set (with_section_ids ids ss)"
    by (force simp: with_section_ids_def set_zip)
  then show ?thesis by blast
qed

lemma fresh_rows:
  "has_row_kind t \<Longrightarrow> y \<in> set (c_rows c) \<Longrightarrow>
   \<exists>z \<in> set (listRows t v (store_fresh eng t v c st)). same_work y z"
  using with_row_ids_member by (simp add: store_fresh_def Let_def mint_ids_def)

lemma fresh_sections:
  "s \<in> set (c_sections c) \<Longrightarrow>
   \<exists>i. s\<lparr> sectionId := i \<rparr> \<in> set (listSections t v (store_fresh eng t v c st))"
  using with_section_ids_member by (simp add: store_fresh_def Let_def mint_ids_def)

lemma same_work_trans: "same_work x y \<Longrightarrow> same_work y z \<Longrightarrow> same_work x z"
  by (simp add: same_work_def)

lemma section_map_found:
  assumes "distinct (map sec_key ss)" and "s \<in> set ss"
  shows "section_map ss (sec_key s) = Some s"
proof -
  have "distinct (map fst (rev (map (\<lambda>s. (sec_key s, s)) ss)))"
    using assms(1) by (simp add: rev_map [symmetric] comp_def)
  then show ?thesis
    using assms(2) unfolding section_map_def by (intro map_of_is_SomeI) auto
qed

definition kept_section :: "doc_section \<Rightarrow> composed_section \<Rightarrow> doc_section \<Rightarrow> bool" where
  "kept_section s c s' =
     (sec_key s' = sec_key s \<and> sec_body s' = sec_body s \<and> sec_origin s' = sec_origin s
      \<and> proposedBody s' = cs_body c)"

lemma mergeSections_keeps:
  assumes "distinct (map sec_key previous)" and "s \<in> set previous" and "\<not> mayReplaceDirectly s"
    and "c \<in> set composed" and "cs_key c = sec_key s"
  shows "\<exists>s' \<in> set (mergeSections composed previous). kept_section s c s'"
proof -
  have "kept_section s c (merge_section previous c)"
    using section_map_found [OF assms(1,2)] assms(3,5)
    by (simp add: kept_section_def merge_section_def Let_def)
  with assms(4) show ?thesis by (auto simp: mergeSections_def)
qed

lemma lists_archive [simp]:
  "listRows u w (archive t r c s a lin st) = listRows u w st"
  "listSections u w (archive t r c s a lin st) = listSections u w st"
  using content_archive [of u w t r c s a lin st] by (simp_all add: content_at_def)

definition composition ::
  "engine \<Rightarrow> upstream \<Rightarrow> document_type \<Rightarrow> composed_content option \<Rightarrow> doc_store \<Rightarrow> composed_content" where
  "composition eng up t given st =
     (case given of Some c \<Rightarrow> c | None \<Rightarrow> compose (composer_for eng t) up st)"

definition merged :: "composed_content \<Rightarrow> stored_content \<Rightarrow> stored_content" where
  "merged composed previous =
     \<lparr> c_sections = mergeSections (cmp_sections composed) (c_sections previous),
       c_features = buildFeatures (cmp_features composed) (c_features previous),
       c_rows = buildRows (cmp_rows composed) (c_rows previous) \<rparr>"

lemma generate_regenerates:
  assumes r: "find_doc t st = Some r" and g: "generate eng up t n reason given st = (st', None)"
  shows "\<exists>r' st2. find_doc t st' = Some r'
    \<and> (let st3 = store_fresh eng t (dr_version r')
             (merged (composition eng up t given st) (currentContent t r st)) st2
       in (\<forall>u w. listRows u w st' = listRows u w st3) \<and> (\<forall>u w. listSections u w st' = listSections u w st3))"
  using g r
  by (auto simp: generate_def Let_def raised_archive_first composition_def merged_def
      split: option.splits if_splits) (rule exI, intro conjI allI, rule refl, rule refl)+


definition kept_ops :: "(upstream \<times> doc_op) list" where
  "kept_ops = map (Pair sample_upstream)
     [Generate OUR_UNDERSTANDING 0 ''first'' None,
      Update_section OUR_UNDERSTANDING [] 0 None ''Written by hand'']"


end
