(* ===== verification/DocumentFindings.thy ===== *)
theory DocumentFindings
  imports DocumentGuarantees
begin

text \<open>
  Runs of the document engine in which the code departs from what it says: each lemma is one
  short history of one project, evaluated in full.
\<close>

section \<open>Projects\<close>

definition record_at :: "document_status \<Rightarrow> doc_record" where
  "record_at s =
     \<lparr> dr_version = 1, dr_status = s, dr_recordVersion = 0, dr_upstream = u_versions sample_upstream,
       dr_prerequisiteVersions = [], dr_validation = None, dr_outdatedReasons = [], dr_exclusions = [],
       dr_supersedesVersion = None, dr_regenerationReason = [], dr_approvedAt = None, dr_finalAt = None \<rparr>"

text \<open>A document at its first version, archived, with its prerequisites approved.\<close>

definition project ::
  "document_type \<Rightarrow> document_status \<Rightarrow> feature_row list \<Rightarrow> doc_row list \<Rightarrow> doc_store" where
  "project t s fs rs =
     (let r = record_at s;
          st = \<lparr> st_docs = (t, r) # map (\<lambda>p. (p, record_at APPROVED)) (dd_documents (DOCUMENT_DEPENDENCIES t)),
                 st_sections = [], st_features = map (Pair (t, 1)) fs, st_rows = map (Pair (t, 1)) rs,
                 st_versions = [], st_minted = 1 \<rparr>
      in archive t r (currentContent t r st) None None (change_lineage ''GENERATED'') st)"

definition row_of :: "string \<Rightarrow> nat \<Rightarrow> payload \<Rightarrow> payload option \<Rightarrow> doc_row" where
  "row_of i n p suggestion =
     \<lparr> rowId = i, rowOrder = n, rowOrigin = R_GENERATED, attribution = [], rowPayload = p,
       rowProposed = suggestion, rowReferences = [], excludedReason = [] \<rparr>"

definition assumption :: "string \<Rightarrow> string \<Rightarrow> payload" where
  "assumption k s = [(''assumptionKey'', Text k), (''statement'', Text s), (''status'', Text ''DRAFT'')]"

definition feature_of :: "string \<Rightarrow> nat \<Rightarrow> feature_wording option \<Rightarrow> feature_row" where
  "feature_of i n p =
     \<lparr> featureId = i, requirementIds = [], wording = \<lparr> feature_module = ''Shop'', submodule = [],
         screen = [], description = i \<rparr>, row_effort = [], row_totalHours = 0, estimateUnitIds = [i],
       technologyIds = [], reviewStatus = FeatureListing.GENERATED, mappingConfidence = 0,
       feature_notes = [], row_order = n, proposed = p \<rparr>"

definition no_changes :: feature_update where
  "no_changes = \<lparr> fu_module = None, fu_submodule = None, fu_screen = None, fu_description = None,
                  fu_notes = None \<rparr>"

definition run_sample :: "doc_op list \<Rightarrow> doc_store \<Rightarrow> doc_store" where
  "run_sample ops st = run_docs sample_engine (map (Pair sample_upstream) ops) st"

definition shown_rows :: "document_type \<Rightarrow> doc_store \<Rightarrow> payload list" where
  "shown_rows t st =
     (case find_doc t st of
        None \<Rightarrow> [] | Some r \<Rightarrow> map rowPayload (listRows t (dr_version r) st))"

section \<open>Dependents that are not told\<close>

lemma generate_leaves_dependents:
  assumes "find_doc t st = Some r" and "u \<noteq> t"
  shows "find_doc u (fst (generate eng up t n reason given st)) = find_doc u st"
  using assms
  by (auto simp: generate_def Let_def raised_archive_first split: option.splits)

text \<open>
  A prerequisite is approved, regenerated and approved again at its third version; the document
  built on the first one is still current and can be approved.
\<close>

lemma regenerated_prerequisite_goes_unnoticed:
  "let st = run_sample [Generate OUR_UNDERSTANDING 0 [] None, Validate OUR_UNDERSTANDING [] False,
        Approve OUR_UNDERSTANDING 1 7, Generate FEATURE_LISTING 0 [] None,
        Validate FEATURE_LISTING [] False,
        Generate OUR_UNDERSTANDING 2 [] (Some (sample_composed\<lparr> cmp_sections :=
          map (\<lambda>s. s\<lparr> cs_body := ''A hotel'' \<rparr>) (cmp_sections sample_composed) \<rparr>)),
        Validate OUR_UNDERSTANDING [] False, Approve OUR_UNDERSTANDING 4 9] empty_store
   in map_option dr_version (find_doc OUR_UNDERSTANDING st) = Some 2
      \<and> map_option dr_prerequisiteVersions (find_doc FEATURE_LISTING st) = Some [(OUR_UNDERSTANDING, 1)]
      \<and> map_option ds_currentness (document_states sample_upstream st FEATURE_LISTING) = Some CURRENT
      \<and> snd (approve sample_engine sample_upstream FEATURE_LISTING 1 10 st) = None"
  by code_simp

section \<open>Rows that are lost\<close>

lemma revision_loses_rows:
  "let rows = [row_of ''a'' 0 (assumption ''AS-001'' ''Hosting is provided'') None];
       st = project ASSUMPTIONS FINAL [] rows;
       st' = run_sample [Revise ASSUMPTIONS 0 ''Correction''] st
   in shown_rows ASSUMPTIONS st = map rowPayload rows
      \<and> map_option dr_version (find_doc ASSUMPTIONS st') = Some 2 \<and> shown_rows ASSUMPTIONS st' = []"
  by code_simp

text \<open>
  Two callers pass the check with the same record; the first one's edit moves the rows to the new
  version, the second one's copies the rows of the version it read, of which none are left.
\<close>

lemma concurrent_edit_loses_rows:
  "let rows = [row_of ''a'' 0 (assumption ''AS-001'' ''Hosting is provided'') None,
               row_of ''b'' 1 (assumption ''AS-002'' ''Content is provided'') None];
       st = project ASSUMPTIONS DRAFT [] rows; r = record_at DRAFT
   in case (editableDocument ASSUMPTIONS sample_upstream 0 st, editableDocument ASSUMPTIONS sample_upstream 0 st) of
        (Inr r1, Inr r2) \<Rightarrow>
          (case afterContentChange ASSUMPTIONS r1 None
                  (updateStoredRow ''a'' 1 (\<lambda>x. x\<lparr> excludedReason := ''Out'' \<rparr>) st) of
             (st1, e1) \<Rightarrow>
               (case afterContentChange ASSUMPTIONS r2 None
                       (updateStoredRow ''b'' 1 (\<lambda>x. x\<lparr> excludedReason := ''Out'' \<rparr>) st1) of
                  (st2, e2) \<Rightarrow> e1 = None \<and> e2 = None \<and> length (shown_rows ASSUMPTIONS st1) = 2
                    \<and> shown_rows ASSUMPTIONS st2 = []))
      | _ \<Rightarrow> False"
  by code_simp

lemma confirmed_assumption_is_lost:
  "let st = project ASSUMPTIONS DRAFT [] [row_of ''a'' 0 (assumption ''AS-001'' ''Hosting is provided'') None];
       st1 = run_sample [Confirm_assumption ASSUMPTIONS ''a'' 0 ''USER_CONFIRMED'' ''Mail'' None None ''now''] st;
       st2 = run_sample [Generate ASSUMPTIONS 1 [] None] st1
   in map (\<lambda>p. payloadText p ''status'') (shown_rows ASSUMPTIONS st1) = [''CONFIRMED'']
      \<and> map_option dr_version (find_doc ASSUMPTIONS st2) = Some 3 \<and> shown_rows ASSUMPTIONS st2 = []"
  by code_simp

section \<open>Decisions that disappear\<close>

lemma edit_drops_other_proposals:
  "let w = \<lparr> feature_module = ''Shop'', submodule = [], screen = [], description = ''Better'' \<rparr>;
       st = project FEATURE_LISTING DRAFT [feature_of ''f'' 0 (Some w), feature_of ''g'' 1 None] [];
       st' = run_sample [Update_feature FEATURE_LISTING ''g'' 0 no_changes] st
   in map hasFeatureProposal (listFeatures FEATURE_LISTING 1 st) = [True, False]
      \<and> map_option dr_version (find_doc FEATURE_LISTING st') = Some 2
      \<and> map hasFeatureProposal (listFeatures FEATURE_LISTING 2 st') = [False, False]"
  by code_simp

lemma moved_plan_cannot_be_accepted:
  "let row = row_of ''w'' 0 [(''wbsId'', Text ''1''), (''relativeStartDay'', Json ''3'')]
               (Some [(''wbsId'', Text ''1''), (''relativeStartDay'', Json ''5'')]);
       st = project WORK_BREAKDOWN_STRUCTURE DRAFT [] [row]
   in snd (resolveRowProposal sample_engine sample_upstream WORK_BREAKDOWN_STRUCTURE ''w'' 0
             ACCEPT_GENERATED_REVISION [] st) = Some SCHEDULE_NOT_EDITABLE_HERE"
  by code_simp

section \<open>Versions that are rewritten\<close>

text \<open>
  Suggested assumptions are written into the version that was approved; the next generation
  archives that version again, with them in it.
\<close>

definition hosting_candidate :: candidate where
  "hosting_candidate =
     \<lparr> ca_statement = ''Hosting is provided'', ca_requirementKeys = [],
       ca_payload = (\<lambda>k reqs. assumption k ''Hosting is provided'') \<rparr>"

lemma suggestions_rewrite_history:
  "let st = project ASSUMPTIONS APPROVED [] [];
       st' = run_sample [Suggest_assumptions ASSUMPTIONS [hosting_candidate] 0, Generate ASSUMPTIONS 0 [] None] st
   in map_option (\<lambda>e. (vr_status e, length (c_rows (vr_content e)))) (findVersion ASSUMPTIONS 1 st) = Some (APPROVED, 0)
      \<and> map_option (\<lambda>e. (vr_status e, length (c_rows (vr_content e)))) (findVersion ASSUMPTIONS 1 st') = Some (APPROVED, 1)"
  by code_simp

lemma regenerated_features_are_not_archived:
  "let st = project FEATURE_LISTING DRAFT [feature_of ''f'' 0 None] [];
       st1 = run_sample [Regenerate_features FEATURE_LISTING (By_features [''f'']) 0 (\<lambda>k. None) ''Again''] st;
       st2 = run_sample [Update_feature FEATURE_LISTING ''i'' 1 no_changes] st1
   in map_option dr_version (find_doc FEATURE_LISTING st1) = Some 2
      \<and> (case findVersion FEATURE_LISTING 2 st1 of None \<Rightarrow> True | Some _ \<Rightarrow> False)
      \<and> map_option (\<lambda>r. (dr_version r, dr_recordVersion r)) (find_doc FEATURE_LISTING st2) = Some (2, 2)"
  by code_simp

lemma approved_sheet_can_be_moved:
  "let st = project CLIENT_DEPENDENCY_SHEET APPROVED []
         [row_of ''d'' 0 [(''dependencyKey'', Text ''CD-001''), (''status'', Text ''NOT_REQUESTED'')] None]
   in snd (requestDependency sample_engine sample_upstream CLIENT_DEPENDENCY_SHEET ''d'' 0 None ''now'' st) = None"
  by code_simp

lemma dropped_section_is_lost:
  "mergeSections [] [\<lparr> sectionId = ''s'', sec_key = ''integrations'', sec_title = [], sec_order = 0,
      sec_body = ''Written by hand'', sec_origin = S_USER_AUTHORED, omittedReason = [],
      sec_references = [], proposedBody = [], sec_regenerationReason = [] \<rparr>] = []"
  by (simp add: mergeSections_def)

end
