(* ===== verification/JobQueue.thy ===== *)
theory JobQueue
  imports JsNumber
begin

text \<open>
  apps/api/src/requirements/queue: the job queue over a document collection
  (mongo-job-queue.adapter.ts, job.schema.ts). The collection is the list of its documents; a
  \<open>findOneAndUpdate\<close> or \<open>updateOne\<close> by an identifier changes the first match; a unique index
  makes an insert with a key in use fail. Instants are milliseconds. Which of several jobs with
  the same earliest \<open>runAfter\<close> the database returns is not specified: it is the parameter
  \<open>pick\<close>, with the interface \<open>queue_choice\<close>.
\<close>

section \<open>Documents\<close>

datatype job_state = queued | running | completed | failed | cancelled | dead_letter

record job =
  jobId :: string
  job_queue :: string
  idempotencyKey :: string
  job_state :: job_state
  job_projectId :: string
  job_sourceId :: string
  correlationId :: string
  attempts :: nat
  maxAttempts :: nat
  stage :: "string option"
  stageLabel :: "string option"
  percentComplete :: int
  runAfter :: int
  claimedAt :: "int option"
  claimedBy :: "string option"
  cancellationRequested :: bool
  job_failureCode :: "string option"
  failureDetail :: "string option"
  completedAt :: "int option"
  createdAt :: int

record extraction_config =
  cfg_maxAttempts :: nat
  claimTimeoutMs :: int
  retryBackoffMs :: int

record enqueue_request =
  rq_queue :: string
  rq_projectId :: string
  rq_sourceId :: string
  rq_resumeFrom :: "string option"
  rq_idempotencyKey :: string
  rq_correlationId :: string
  rq_maxAttempts :: "nat option"
  rq_delayMs :: "int option"

record claimed_job =
  cj_jobId :: string
  cj_projectId :: string
  cj_sourceId :: string
  cj_correlationId :: string
  cj_attempts :: nat
  cj_maxAttempts :: nat
  cj_resumeFrom :: "string option"

type_synonym jobs = "job list"

fun update_first :: "(job \<Rightarrow> bool) \<Rightarrow> (job \<Rightarrow> job) \<Rightarrow> jobs \<Rightarrow> jobs" where
  "update_first P f [] = []"
| "update_first P f (j # js) = (if P j then f j # js else j # update_first P f js)"

definition find_job :: "string \<Rightarrow> jobs \<Rightarrow> job option" where
  "find_job i js = find (\<lambda>j. jobId j = i) js"

section \<open>Operations\<close>

text \<open>\<open>newId\<close> is the random identifier an insert would use; \<open>None\<close> is the duplicate-key error.\<close>

definition enqueue ::
  "extraction_config \<Rightarrow> int \<Rightarrow> string \<Rightarrow> enqueue_request \<Rightarrow> jobs \<Rightarrow> (job \<times> jobs) option" where
  "enqueue cfg now newId r js =
     (case find (\<lambda>j. idempotencyKey j = rq_idempotencyKey r) js of
        Some j \<Rightarrow> Some (j, js)
      | None \<Rightarrow>
          if find_job newId js \<noteq> None then None
          else let j = \<lparr>jobId = newId, job_queue = rq_queue r, idempotencyKey = rq_idempotencyKey r,
                 job_state = queued, job_projectId = rq_projectId r, job_sourceId = rq_sourceId r,
                 correlationId = rq_correlationId r, attempts = 0,
                 maxAttempts = (case rq_maxAttempts r of Some n \<Rightarrow> n | None \<Rightarrow> cfg_maxAttempts cfg),
                 stage = rq_resumeFrom r, stageLabel = None, percentComplete = 0,
                 runAfter = now + (case rq_delayMs r of Some d \<Rightarrow> d | None \<Rightarrow> 0),
                 claimedAt = None, claimedBy = None, cancellationRequested = False,
                 job_failureCode = None, failureDetail = None, completedAt = None, createdAt = now\<rparr>
               in Some (j, js @ [j]))"

definition requestCancellation :: "string \<Rightarrow> jobs \<Rightarrow> bool \<times> jobs" where
  "requestCancellation i js =
     (let P = (\<lambda>j. jobId j = i \<and> job_state j \<in> {queued, running})
      in (list_ex P js, update_first P (\<lambda>j. j\<lparr>cancellationRequested := True\<rparr>) js))"

text \<open>\<open>None\<close> is the error thrown for a job that is not in a retryable state.\<close>

definition retry :: "int \<Rightarrow> string \<Rightarrow> jobs \<Rightarrow> jobs option" where
  "retry now i js =
     (let P = (\<lambda>j. jobId j = i \<and> job_state j \<in> {failed, dead_letter})
      in if list_ex P js
         then Some (update_first P (\<lambda>j. j\<lparr>job_state := queued, runAfter := now,
                cancellationRequested := False, claimedAt := None, claimedBy := None,
                job_failureCode := None, failureDetail := None, completedAt := None\<rparr>) js)
         else None)"

definition stale :: "extraction_config \<Rightarrow> int \<Rightarrow> job \<Rightarrow> bool" where
  "stale cfg now j = (case claimedAt j of Some t \<Rightarrow> t < now - claimTimeoutMs cfg | None \<Rightarrow> False)"

definition runnable :: "extraction_config \<Rightarrow> int \<Rightarrow> string \<Rightarrow> job \<Rightarrow> bool" where
  "runnable cfg now q j =
     (job_queue j = q \<and> runAfter j \<le> now \<and>
      (job_state j = queued \<or> (job_state j = running \<and> stale cfg now j)))"

definition claim :: "int \<Rightarrow> string \<Rightarrow> job \<Rightarrow> job" where
  "claim now worker j =
     j\<lparr>job_state := running, claimedAt := Some now, claimedBy := Some worker,
       attempts := attempts j + 1\<rparr>"

definition to_claimed :: "job \<Rightarrow> claimed_job" where
  "to_claimed j =
     \<lparr>cj_jobId = jobId j, cj_projectId = job_projectId j, cj_sourceId = job_sourceId j,
      cj_correlationId = correlationId j, cj_attempts = attempts j,
      cj_maxAttempts = maxAttempts j,
      cj_resumeFrom = (case stage j of Some s \<Rightarrow> if s = [] then None else Some s | None \<Rightarrow> None)\<rparr>"

definition claimNext ::
  "(jobs \<Rightarrow> job) \<Rightarrow> extraction_config \<Rightarrow> int \<Rightarrow> string \<Rightarrow> string \<Rightarrow> jobs \<Rightarrow> claimed_job option \<times> jobs" where
  "claimNext pick cfg now worker q js =
     (let candidates = filter (runnable cfg now q) js
      in if candidates = [] then (None, js)
         else let j = pick candidates
              in (Some (to_claimed (claim now worker j)),
                  update_first (\<lambda>x. jobId x = jobId j) (claim now worker) js))"

definition reportProgress :: "int \<Rightarrow> string \<Rightarrow> string \<Rightarrow> string \<Rightarrow> rat \<Rightarrow> jobs \<Rightarrow> jobs" where
  "reportProgress now i st label percent js =
     update_first (\<lambda>j. jobId j = i)
       (\<lambda>j. j\<lparr>stage := Some st, stageLabel := Some label,
              percentComplete := max 0 (min 100 (js_round percent)), claimedAt := Some now\<rparr>) js"

definition isCancellationRequested :: "string \<Rightarrow> jobs \<Rightarrow> bool" where
  "isCancellationRequested i js =
     (case find_job i js of Some j \<Rightarrow> cancellationRequested j | None \<Rightarrow> False)"

definition complete :: "int \<Rightarrow> string \<Rightarrow> jobs \<Rightarrow> jobs" where
  "complete now i js =
     update_first (\<lambda>j. jobId j = i)
       (\<lambda>j. j\<lparr>job_state := completed, percentComplete := 100, completedAt := Some now,
              claimedAt := None, claimedBy := None\<rparr>) js"

definition cancel :: "int \<Rightarrow> string \<Rightarrow> jobs \<Rightarrow> jobs" where
  "cancel now i js =
     update_first (\<lambda>j. jobId j = i)
       (\<lambda>j. j\<lparr>job_state := cancelled, completedAt := Some now, claimedAt := None, claimedBy := None\<rparr>) js"

datatype disposition = retrying | to_dead_letter | to_failed

text \<open>\<open>base * 2 ** (attempts - 1)\<close> milliseconds; half of the base, cut to an integer by the date,
  when the job was never claimed.\<close>

definition backoff :: "int \<Rightarrow> nat \<Rightarrow> int" where
  "backoff base n = (if n = 0 then base div 2 else base * 2 ^ (n - 1))"

definition fail ::
  "extraction_config \<Rightarrow> int \<Rightarrow> string \<Rightarrow> string \<Rightarrow> string \<Rightarrow> bool \<Rightarrow> jobs \<Rightarrow> disposition \<times> jobs" where
  "fail cfg now i code detail retryable js =
     (case find_job i js of
        None \<Rightarrow> (to_failed, js)
      | Some j \<Rightarrow>
          let update = (\<lambda>f. update_first (\<lambda>x. jobId x = i)
                (\<lambda>x. f (x\<lparr>job_failureCode := Some code, failureDetail := Some detail,
                          claimedAt := None, claimedBy := None\<rparr>)) js)
          in if \<not> retryable
             then (to_dead_letter, update (\<lambda>x. x\<lparr>job_state := dead_letter, completedAt := Some now\<rparr>))
             else if attempts j \<ge> maxAttempts j
             then (to_failed, update (\<lambda>x. x\<lparr>job_state := failed, completedAt := Some now\<rparr>))
             else (retrying, update (\<lambda>x. x\<lparr>job_state := queued,
                     runAfter := now + backoff (retryBackoffMs cfg) (attempts j)\<rparr>)))"

definition deleteForProject :: "string \<Rightarrow> jobs \<Rightarrow> jobs" where
  "deleteForProject p js = filter (\<lambda>j. job_projectId j \<noteq> p) js"

section \<open>The collection\<close>

definition unique_keys :: "jobs \<Rightarrow> bool" where
  "unique_keys js = (distinct (map jobId js) \<and> distinct (map idempotencyKey js))"

definition keeps_keys :: "(job \<Rightarrow> job) \<Rightarrow> bool" where
  "keeps_keys f = (\<forall>j. jobId (f j) = jobId j \<and> idempotencyKey (f j) = idempotencyKey j)"

lemma map_update_first:
  "\<forall>j. k (f j) = k j \<Longrightarrow> map k (update_first P f js) = map k js"
  by (induction js) auto

lemma unique_update_first: "keeps_keys f \<Longrightarrow> unique_keys js \<Longrightarrow> unique_keys (update_first P f js)"
  by (simp add: unique_keys_def keeps_keys_def map_update_first)

lemma find_job_update_first:
  assumes "\<forall>j. jobId (f j) = jobId j"
  shows "find_job i (update_first (\<lambda>j. jobId j = k) f js) =
    (if i = k then map_option f (find_job i js) else find_job i js)"
  using assms by (induction js) (auto simp: find_job_def)

lemma find_job_Some: "find_job i js = Some j \<Longrightarrow> j \<in> set js \<and> jobId j = i"
  by (auto simp: find_job_def find_Some_iff)

lemma find_job_unique: "unique_keys js \<Longrightarrow> j \<in> set js \<Longrightarrow> find_job (jobId j) js = Some j"
  by (induction js) (auto simp: find_job_def unique_keys_def)

lemma set_update_first_unique:
  "unique_keys js \<Longrightarrow> j \<in> set js \<Longrightarrow>
     set (update_first (\<lambda>x. jobId x = jobId j) f js) = insert (f j) (set js - {j})"
  by (induction js) (auto simp: unique_keys_def)

section \<open>The choice of the database\<close>

locale queue_choice =
  fixes pick :: "jobs \<Rightarrow> job"
  assumes pick_in: "js \<noteq> [] \<Longrightarrow> pick js \<in> set js"
    and pick_first: "j \<in> set js \<Longrightarrow> runAfter (pick js) \<le> runAfter j"
begin

lemma claimNext_None: "fst (claimNext pick cfg now w q js) = None \<longleftrightarrow> list_all (\<lambda>j. \<not> runnable cfg now q j) js"
  by (simp add: claimNext_def Let_def filter_empty_conv list_all_iff)

lemma claimNext_Some:
  assumes "unique_keys js" and "claimNext pick cfg now w q js = (Some c, js')"
  shows "\<exists>j \<in> set js. runnable cfg now q j \<and> (\<forall>k \<in> set js. runnable cfg now q k \<longrightarrow> runAfter j \<le> runAfter k) \<and>
    c = to_claimed (claim now w j) \<and> js' = update_first (\<lambda>x. jobId x = jobId j) (claim now w) js \<and>
    set js' = insert (claim now w j) (set js - {j})"
proof -
  let ?c = "filter (runnable cfg now q) js"
  from assms(2) have ne: "?c \<noteq> []" and c: "c = to_claimed (claim now w (pick ?c))"
    and js': "js' = update_first (\<lambda>x. jobId x = jobId (pick ?c)) (claim now w) js"
    by (auto simp: claimNext_def Let_def split: if_splits)
  have j: "pick ?c \<in> set js" "runnable cfg now q (pick ?c)" using pick_in [OF ne] by auto
  show ?thesis
    using j c js' pick_first [of _ ?c] set_update_first_unique [OF assms(1) j(1)]
    by (intro bexI [of _ "pick ?c"]) auto
qed

end

text \<open>A database that returns the first of the earliest is one such choice.\<close>

interpretation first_earliest: queue_choice "arg_min_list runAfter"
proof
  show "js \<noteq> [] \<Longrightarrow> arg_min_list runAfter js \<in> set js" for js by (rule arg_min_list_in)
  show "j \<in> set js \<Longrightarrow> runAfter (arg_min_list runAfter js) \<le> runAfter j" for j js
    by (cases "js = []") (auto simp: f_arg_min_list_f)
qed

section \<open>Sequences of operations\<close>

text \<open>The operations several callers and workers may interleave, each atomic in the database.\<close>

datatype queue_event =
    Enqueue int string enqueue_request
  | Claim int string string
  | Progress int string string string rat
  | Complete int string
  | Cancel int string
  | Fail int string string string bool
  | Request_cancel string
  | Retry int string
  | Delete_project string

fun apply_event :: "(jobs \<Rightarrow> job) \<Rightarrow> extraction_config \<Rightarrow> queue_event \<Rightarrow> jobs \<Rightarrow> jobs" where
  "apply_event pick cfg (Enqueue now i r) js = (case enqueue cfg now i r js of Some (_, js') \<Rightarrow> js' | None \<Rightarrow> js)"
| "apply_event pick cfg (Claim now w q) js = snd (claimNext pick cfg now w q js)"
| "apply_event pick cfg (Progress now i st l p) js = reportProgress now i st l p js"
| "apply_event pick cfg (Complete now i) js = complete now i js"
| "apply_event pick cfg (Cancel now i) js = cancel now i js"
| "apply_event pick cfg (Fail now i c d b) js = snd (fail cfg now i c d b js)"
| "apply_event pick cfg (Request_cancel i) js = snd (requestCancellation i js)"
| "apply_event pick cfg (Retry now i) js = (case retry now i js of Some js' \<Rightarrow> js' | None \<Rightarrow> js)"
| "apply_event pick cfg (Delete_project p) js = deleteForProject p js"

definition run_events :: "(jobs \<Rightarrow> job) \<Rightarrow> extraction_config \<Rightarrow> queue_event list \<Rightarrow> jobs \<Rightarrow> jobs" where
  "run_events pick cfg evs js = fold (apply_event pick cfg) evs js"

text \<open>An operation inserts one fresh document, removes documents, or rewrites documents in place.\<close>

lemma update_first_cases:
  "update_first P f js = js \<or> (\<exists>us j vs. js = us @ j # vs \<and> P j \<and> update_first P f js = us @ f j # vs)"
proof (induction js)
  case (Cons x xs)
  then show ?case
  proof (cases "P x")
    case True
    then show ?thesis by (intro disjI2 exI [of _ "[]"]) auto
  next
    case False
    with Cons show ?thesis by (auto simp: Cons_eq_append_conv)
  qed
qed simp

definition inserts :: "extraction_config \<Rightarrow> job \<Rightarrow> jobs \<Rightarrow> bool" where
  "inserts cfg j js =
     (find (\<lambda>x. idempotencyKey x = idempotencyKey j) js = None \<and> find_job (jobId j) js = None \<and>
      job_state j = queued \<and> attempts j = 0)"

lemma enqueue_cases:
  assumes "enqueue cfg now i r js = Some (j, js')"
  shows "(js' = js \<and> find (\<lambda>x. idempotencyKey x = rq_idempotencyKey r) js = Some j) \<or>
    (js' = js @ [j] \<and> inserts cfg j js \<and> idempotencyKey j = rq_idempotencyKey r)"
  using assms by (auto simp: enqueue_def inserts_def Let_def split: option.splits if_splits)

lemma keys_of_operations:
  "map (\<lambda>j. (idempotencyKey j, jobId j)) (snd (claimNext pick cfg now w q js)) = map (\<lambda>j. (idempotencyKey j, jobId j)) js"
  "map (\<lambda>j. (idempotencyKey j, jobId j)) (reportProgress now i st l p js) = map (\<lambda>j. (idempotencyKey j, jobId j)) js"
  "map (\<lambda>j. (idempotencyKey j, jobId j)) (complete now i js) = map (\<lambda>j. (idempotencyKey j, jobId j)) js"
  "map (\<lambda>j. (idempotencyKey j, jobId j)) (cancel now i js) = map (\<lambda>j. (idempotencyKey j, jobId j)) js"
  "map (\<lambda>j. (idempotencyKey j, jobId j)) (snd (fail cfg now i c d b js)) = map (\<lambda>j. (idempotencyKey j, jobId j)) js"
  "map (\<lambda>j. (idempotencyKey j, jobId j)) (snd (requestCancellation i js)) = map (\<lambda>j. (idempotencyKey j, jobId j)) js"
  "retry now i js = Some js' \<Longrightarrow> map (\<lambda>j. (idempotencyKey j, jobId j)) js' = map (\<lambda>j. (idempotencyKey j, jobId j)) js"
  by (auto simp: claimNext_def Let_def reportProgress_def complete_def cancel_def fail_def
      requestCancellation_def retry_def claim_def
      intro!: map_update_first split: option.splits if_splits)

definition keys :: "jobs \<Rightarrow> (string \<times> string) list" where
  "keys js = map (\<lambda>j. (idempotencyKey j, jobId j)) js"

lemma unique_keys_keys: "unique_keys js = (distinct (map fst (keys js)) \<and> distinct (map snd (keys js)))"
  by (auto simp: unique_keys_def keys_def comp_def)

lemma apply_event_keys:
  "keys (apply_event pick cfg ev js) = keys js \<or>
   (\<exists>j. inserts cfg j js \<and> apply_event pick cfg ev js = js @ [j]) \<or>
   (\<exists>p. ev = Delete_project p)"
proof (cases ev)
  case (Enqueue now i r)
  then show ?thesis using enqueue_cases [of cfg now i r js] by (cases "enqueue cfg now i r js") auto
qed (auto simp: keys_def keys_of_operations split: option.split)

lemma apply_event_unique: "unique_keys js \<Longrightarrow> unique_keys (apply_event pick cfg ev js)"
proof -
  assume u: "unique_keys js"
  consider "keys (apply_event pick cfg ev js) = keys js"
    | j where "inserts cfg j js" "apply_event pick cfg ev js = js @ [j]"
    | p where "ev = Delete_project p"
    using apply_event_keys by blast
  then show ?thesis
  proof cases
    case 1
    with u show ?thesis by (simp add: unique_keys_keys)
  next
    case 2
    with u show ?thesis
      by (auto simp: unique_keys_def inserts_def find_job_def find_None_iff)
  next
    case 3
    with u show ?thesis
      by (auto simp: unique_keys_def deleteForProject_def intro: distinct_map_filter)
  qed
qed

text \<open>
  Whatever operations callers and workers interleave, no two jobs ever share an
  identifier or an idempotency key.\<close>

theorem job_keys_always_unique: "unique_keys (run_events pick cfg evs [])"
proof -
  have "unique_keys js \<Longrightarrow> unique_keys (run_events pick cfg evs js)" for js
    unfolding run_events_def by (induction evs arbitrary: js) (simp_all add: apply_event_unique)
  then show ?thesis by (simp add: unique_keys_def)
qed

section \<open>Idempotency\<close>

lemma find_key_keys:
  "map_option jobId (find (\<lambda>x. idempotencyKey x = k) js) = map_of (keys js) k"
  by (induction js) (auto simp: keys_def)

lemma apply_event_key_kept:
  assumes "map_of (keys js) k = Some i" and "\<forall>p. ev \<noteq> Delete_project p"
  shows "map_of (keys (apply_event pick cfg ev js)) k = Some i"
  using apply_event_keys [of pick cfg ev js] assms by (auto simp: keys_def map_add_Some_iff)

text \<open>
  Enqueueing is idempotent: once a key was accepted, a later request with that key
  gets the same job and changes nothing, whatever ran in between short of deleting projects.\<close>

theorem enqueue_is_idempotent:
  assumes "enqueue cfg now i r js = Some (j, js1)"
    and "list_all (\<lambda>ev. \<forall>p. ev \<noteq> Delete_project p) evs"
    and "rq_idempotencyKey r2 = rq_idempotencyKey r"
  shows "\<exists>j2. enqueue cfg now2 i2 r2 (run_events pick cfg evs js1) = Some (j2, run_events pick cfg evs js1) \<and>
    jobId j2 = jobId j"
proof -
  let ?k = "rq_idempotencyKey r"
  have "map_of (keys js1) ?k = Some (jobId j)"
    using enqueue_cases [OF assms(1)] find_key_keys [of ?k js] find_key_keys [of ?k js1]
    by (auto simp: keys_def inserts_def map_add_Some_iff)
  then have "map_of (keys (run_events pick cfg evs js1)) ?k = Some (jobId j)"
    using assms(2) unfolding run_events_def
    by (induction evs arbitrary: js1) (simp_all add: apply_event_key_kept)
  then obtain j2 where "find (\<lambda>x. idempotencyKey x = ?k) (run_events pick cfg evs js1) = Some j2"
    "jobId j2 = jobId j"
    using find_key_keys [of ?k "run_events pick cfg evs js1"] by auto
  then show ?thesis using assms(3) by (simp add: enqueue_def)
qed

section \<open>One claim, one worker\<close>

fun claims :: "(jobs \<Rightarrow> job) \<Rightarrow> extraction_config \<Rightarrow> string \<Rightarrow> (int \<times> string) list \<Rightarrow> jobs \<Rightarrow> string list" where
  "claims pick cfg q [] js = []"
| "claims pick cfg q ((now, w) # ts) js =
     (case claimNext pick cfg now w q js of
        (Some c, js') \<Rightarrow> cj_jobId c # claims pick cfg q ts js'
      | (None, js') \<Rightarrow> claims pick cfg q ts js')"

definition held :: "string \<Rightarrow> int \<Rightarrow> jobs \<Rightarrow> bool" where
  "held i t js = (\<exists>j \<in> set js. jobId j = i \<and> job_state j = running \<and> claimedAt j = Some t)"

lemma claim_simps [simp]:
  "jobId (claim now w j) = jobId j" "job_state (claim now w j) = running"
  "claimedAt (claim now w j) = Some now" "cj_jobId (to_claimed j) = jobId j"
  "attempts (claim now w j) = Suc (attempts j)" "maxAttempts (claim now w j) = maxAttempts j"
  by (simp_all add: claim_def to_claimed_def)

lemma claimNext_unique: "unique_keys js \<Longrightarrow> unique_keys (snd (claimNext pick cfg now w q js))"
  using apply_event_unique [of js pick cfg "Claim now w q"] by simp

context queue_choice begin

lemma held_not_claimed:
  assumes "unique_keys js" and "held i t js" and "now \<le> t + claimTimeoutMs cfg"
    and "claimNext pick cfg now w q js = (Some c, js')"
  shows "cj_jobId c \<noteq> i" and "held i t js'"
proof -
  from claimNext_Some [OF assms(1,4)] obtain j where j: "j \<in> set js" "runnable cfg now q j"
    and c: "c = to_claimed (claim now w j)" and js': "set js' = insert (claim now w j) (set js - {j})"
    by blast
  from assms(2) obtain h where h: "h \<in> set js" "jobId h = i" "job_state h = running" "claimedAt h = Some t"
    by (auto simp: held_def)
  have "\<not> runnable cfg now q h" using h assms(3) by (simp add: runnable_def stale_def)
  with j(2) have "j \<noteq> h" by blast
  with find_job_unique [OF assms(1) j(1)] find_job_unique [OF assms(1) h(1)] have "jobId j \<noteq> jobId h" by auto
  with c h show "cj_jobId c \<noteq> i" by simp
  from h js' \<open>j \<noteq> h\<close> show "held i t js'" unfolding held_def by auto
qed

lemma held_never_claimed:
  "unique_keys js \<Longrightarrow> held i t js \<Longrightarrow> \<forall>(now, w) \<in> set ts. now \<le> t + claimTimeoutMs cfg \<Longrightarrow>
     i \<notin> set (claims pick cfg q ts js)"
proof (induction ts arbitrary: js)
  case (Cons x ts)
  obtain now w where x: "x = (now, w)" by fastforce
  obtain r js' where c: "claimNext pick cfg now w q js = (r, js')" by fastforce
  have u: "unique_keys js'" using claimNext_unique [OF Cons.prems(1), of pick cfg now w q] c by simp
  show ?case
  proof (cases r)
    case None
    then have "js' = js" using c by (auto simp: claimNext_def Let_def split: if_splits)
    with Cons x c None show ?thesis by simp
  next
    case (Some cl)
    have "now \<le> t + claimTimeoutMs cfg" using Cons.prems(3) x by simp
    from held_not_claimed [OF Cons.prems(1,2) this c [unfolded Some]]
    show ?thesis using Cons.IH [OF u] Cons.prems(3) x c Some by auto
  qed
qed simp

lemma claims_distinct:
  "unique_keys js \<Longrightarrow> sorted_wrt (\<lambda>(a, _) (b, _). b \<le> a + claimTimeoutMs cfg) ts \<Longrightarrow>
     distinct (claims pick cfg q ts js)"
proof (induction ts arbitrary: js)
  case (Cons x ts)
  obtain now w where x: "x = (now, w)" by fastforce
  obtain r js' where c: "claimNext pick cfg now w q js = (r, js')" by fastforce
  have u: "unique_keys js'" using claimNext_unique [OF Cons.prems(1), of pick cfg now w q] c by simp
  have later: "\<forall>(b, w) \<in> set ts. b \<le> now + claimTimeoutMs cfg" using Cons.prems(2) x by auto
  show ?case
  proof (cases r)
    case None
    with Cons x c u show ?thesis by simp
  next
    case (Some cl)
    from claimNext_Some [OF Cons.prems(1) c [unfolded Some]]
    have "held (cj_jobId cl) now js'" by (force simp: held_def)
    from held_never_claimed [OF u this later] Cons x c u Some show ?thesis by simp
  qed
qed simp

end


text \<open>
  A claim takes the job that has been due longest and only that one: nothing is
  handed out exactly when nothing is runnable; otherwise the job is runnable, no runnable job is
  due earlier, and the collection changes in that job alone, which is running and counted.\<close>

theorem claim_takes_earliest_due:
  assumes "queue_choice pick" and "unique_keys js"
  shows "(fst (claimNext pick cfg now w q js) = None \<longleftrightarrow> list_all (\<lambda>j. \<not> runnable cfg now q j) js) \<and>
    (\<forall>c js'. claimNext pick cfg now w q js = (Some c, js') \<longrightarrow>
       (\<exists>j. j \<in> set js \<and> runnable cfg now q j \<and> cj_jobId c = jobId j \<and>
          list_all (\<lambda>k. runnable cfg now q k \<longrightarrow> runAfter j \<le> runAfter k) js \<and>
          set js' = insert (claim now w j) (set js - {j}) \<and> cj_attempts c = attempts j + 1))"
proof (intro conjI allI impI)
  show "(fst (claimNext pick cfg now w q js) = None) = list_all (\<lambda>j. \<not> runnable cfg now q j) js"
    by (rule queue_choice.claimNext_None [OF assms(1)])
  fix c js' assume "claimNext pick cfg now w q js = (Some c, js')"
  from queue_choice.claimNext_Some [OF assms this] show "\<exists>j. j \<in> set js \<and> runnable cfg now q j \<and>
      cj_jobId c = jobId j \<and> list_all (\<lambda>k. runnable cfg now q k \<longrightarrow> runAfter j \<le> runAfter k) js \<and>
      set js' = insert (claim now w j) (set js - {j}) \<and> cj_attempts c = attempts j + 1"
    by (auto simp: list_all_iff) (auto simp: to_claimed_def)
qed

section \<open>Failing and the limit on attempts\<close>


text \<open>A run in which no worker dies: no claim finds a job whose claim went stale, and nobody
  retries a finished job by hand.\<close>

fun crash_free :: "(jobs \<Rightarrow> job) \<Rightarrow> extraction_config \<Rightarrow> queue_event list \<Rightarrow> jobs \<Rightarrow> bool" where
  "crash_free pick cfg [] js = True"
| "crash_free pick cfg (ev # evs) js =
     ((case ev of
         Claim now w q \<Rightarrow> list_all (\<lambda>j. job_state j = running \<longrightarrow> \<not> stale cfg now j) js
       | Retry now i \<Rightarrow> False
       | Enqueue now i r \<Rightarrow> rq_maxAttempts r \<noteq> Some 0
       | _ \<Rightarrow> True) \<and>
      crash_free pick cfg evs (apply_event pick cfg ev js))"

definition within_limit :: "job \<Rightarrow> bool" where
  "within_limit j =
     ((job_state j = queued \<longrightarrow> attempts j < maxAttempts j) \<and>
      (job_state j = running \<longrightarrow> attempts j \<le> maxAttempts j))"

lemma all_update_first:
  assumes "\<forall>j \<in> set js. within_limit j" and "\<And>j. j \<in> set js \<Longrightarrow> P j \<Longrightarrow> within_limit (f j)"
  shows "\<forall>j \<in> set (update_first P f js). within_limit j"
  using assms by (induction js) auto

lemma within_limit_update:
  assumes "\<forall>j \<in> set js. within_limit j"
    and "\<And>j. within_limit j \<Longrightarrow> within_limit (f j)"
  shows "\<forall>j \<in> set (update_first P f js). within_limit j"
  using all_update_first [OF assms(1)] assms by blast

lemma apply_event_within:
  assumes "queue_choice pick" and "0 < cfg_maxAttempts cfg" and "unique_keys js"
    and all: "\<forall>j \<in> set js. within_limit j" and "crash_free pick cfg [ev] js"
  shows "\<forall>j \<in> set (apply_event pick cfg ev js). within_limit j"
proof (cases ev)
  case (Enqueue now i r)
  then have "rq_maxAttempts r \<noteq> Some 0" using assms(5) by simp
  with all assms(2) show ?thesis
    unfolding Enqueue by (auto simp: enqueue_def Let_def within_limit_def split: option.splits)
next
  case (Claim now w q)
  then have fresh: "\<forall>j \<in> set js. job_state j = running \<longrightarrow> \<not> stale cfg now j"
    using assms(5) by (simp add: list_all_iff)
  show ?thesis
  proof (cases "claimNext pick cfg now w q js")
    case (Pair r js')
    show ?thesis
    proof (cases r)
      case None
      with Pair have "js' = js" by (auto simp: claimNext_def Let_def split: if_splits)
      with Pair all Claim show ?thesis by simp
    next
      case (Some c)
      from queue_choice.claimNext_Some [OF assms(1,3) Pair [unfolded Some]] obtain j where
        j: "j \<in> set js" "runnable cfg now q j" and js': "set js' = insert (claim now w j) (set js - {j})"
        by blast
      from j fresh have "job_state j = queued" by (auto simp: runnable_def)
      with j all have "attempts j < maxAttempts j" by (auto simp: within_limit_def)
      then have "within_limit (claim now w j)" by (simp add: within_limit_def)
      with js' all Pair Claim show ?thesis by simp
    qed
  qed
next
  case (Fail now i c d b)
  show ?thesis
  proof (cases "find_job i js")
    case None
    with all Fail show ?thesis by (simp add: fail_def)
  next
    case (Some j)
    have only: "x = j" if "x \<in> set js" "jobId x = i" for x
      using find_job_unique [OF assms(3)] Some that by fastforce
    have step: "\<forall>x \<in> set (update_first (\<lambda>x. jobId x = i) f js). within_limit x" if "within_limit (f j)" for f
      using that only by (intro all_update_first [OF all]) blast
    show ?thesis
      unfolding Fail apply_event.simps fail_def Some option.case Let_def
      by (cases b; cases "maxAttempts j \<le> attempts j")
        (simp_all only: if_True if_False simp_thms snd_conv, (rule step, simp add: within_limit_def)+)
  qed
next
  case (Progress now i st l p)
  show ?thesis unfolding Progress apply_event.simps reportProgress_def
    by (rule within_limit_update [OF all]) (simp add: within_limit_def)
next
  case (Complete now i)
  show ?thesis unfolding Complete apply_event.simps complete_def
    by (rule within_limit_update [OF all]) (simp add: within_limit_def)
next
  case (Cancel now i)
  show ?thesis unfolding Cancel apply_event.simps cancel_def
    by (rule within_limit_update [OF all]) (simp add: within_limit_def)
next
  case (Request_cancel i)
  show ?thesis unfolding Request_cancel apply_event.simps requestCancellation_def Let_def snd_conv
    by (rule within_limit_update [OF all]) (simp add: within_limit_def)
next
  case (Retry now i)
  then show ?thesis using assms(5) by simp
next
  case (Delete_project p)
  then show ?thesis using all by (simp add: deleteForProject_def)
qed

text \<open>
  The limit on attempts holds when no worker dies: from the empty queue, a job waits
  only while attempts are left and never runs more often than it may.\<close>

theorem attempts_stay_within_limit:
  assumes "queue_choice pick" and "0 < cfg_maxAttempts cfg" and "crash_free pick cfg evs []"
  shows "list_all (\<lambda>j. (job_state j = queued \<longrightarrow> attempts j < maxAttempts j) \<and>
      (job_state j = running \<longrightarrow> attempts j \<le> maxAttempts j)) (run_events pick cfg evs [])"
proof -
  have "\<forall>j \<in> set (run_events pick cfg evs js). within_limit j"
    if "unique_keys js" "\<forall>j \<in> set js. within_limit j" "crash_free pick cfg evs js" for js
    using that unfolding run_events_def
  proof (induction evs arbitrary: js)
    case (Cons ev evs)
    have one: "crash_free pick cfg [ev] js" and rest: "crash_free pick cfg evs (apply_event pick cfg ev js)"
      using Cons.prems(3) by simp_all
    show ?case
      using Cons.IH [OF apply_event_unique [OF Cons.prems(1)]
          apply_event_within [OF assms(1,2) Cons.prems(1,2) one] rest] by simp
  qed simp
  from this [of "[]"] assms(3) show ?thesis
    by (simp add: unique_keys_def list_all_iff within_limit_def)
qed

section \<open>What the queue does not bound\<close>

text \<open>A worker that dies with the same job every time gets it back without end: a stale claim is
  renewed without looking at the limit.\<close>

definition crash_loop :: "extraction_config \<Rightarrow> nat \<Rightarrow> queue_event list" where
  "crash_loop cfg n = map (\<lambda>k. Claim (int k * (claimTimeoutMs cfg + 1)) ''w'' ''q'') [0..<n]"

lemma crash_loop_step:
  assumes "queue_choice pick" and "job_queue j = ''q''" and "runAfter j \<le> 0" and "0 \<le> claimTimeoutMs cfg"
    and "job_state j = queued"
  shows "n > 0 \<Longrightarrow> \<exists>k. run_events pick cfg (crash_loop cfg n) [j] = [k] \<and> attempts k = attempts j + n \<and>
    job_state k = running \<and> claimedAt k = Some (int (n - 1) * (claimTimeoutMs cfg + 1)) \<and>
    job_queue k = ''q'' \<and> runAfter k = runAfter j \<and> jobId k = jobId j"
proof (induction n)
  case (Suc n)
  have one: "claimNext pick cfg now w q [x] = (if runnable cfg now q x
      then (Some (to_claimed (claim now w x)), [claim now w x]) else (None, [x]))" for now w q x
    using queue_choice.pick_in [OF assms(1), of "[x]"] by (simp add: claimNext_def)
  show ?case
  proof (cases "n = 0")
    case True
    then show ?thesis
      using assms by (simp add: crash_loop_def run_events_def one runnable_def) (simp add: claim_def)
  next
    case False
    with Suc.IH obtain k where k: "run_events pick cfg (crash_loop cfg n) [j] = [k]"
      "attempts k = attempts j + n" "job_state k = running"
      "claimedAt k = Some (int (n - 1) * (claimTimeoutMs cfg + 1))" "job_queue k = ''q''"
      "runAfter k = runAfter j" "jobId k = jobId j" by auto
    let ?now = "int n * (claimTimeoutMs cfg + 1)"
    have now: "int (n - 1) * (claimTimeoutMs cfg + 1) = ?now - (claimTimeoutMs cfg + 1)"
      using False by (cases n) (simp_all add: algebra_simps)
    have pos: "0 \<le> ?now" using assms(4) by simp
    have run: "runnable cfg ?now ''q'' k"
      using k assms(3) now pos by (simp add: runnable_def stale_def)
    have "run_events pick cfg (crash_loop cfg (Suc n)) [j] = [claim ?now ''w'' k]"
      using k(1) run by (simp add: crash_loop_def run_events_def one)
    with k show ?thesis by (simp add: claim_def)
  qed
qed simp

lemma crash_loop_is_unbounded:
  assumes "queue_choice pick" and "0 \<le> claimTimeoutMs cfg" and "rq_queue r = ''q''" and "rq_delayMs r = None"
  shows "\<exists>evs. list_ex (\<lambda>j. attempts j = n + 1 \<and> job_state j = running)
    (run_events pick cfg (Enqueue 0 i r # evs) [])"
proof -
  obtain j where j: "enqueue cfg 0 i r [] = Some (j, [j])" "job_queue j = ''q''" "runAfter j = 0"
    "job_state j = queued" "attempts j = 0"
    using assms(3,4) by (auto simp: enqueue_def find_job_def Let_def)
  from crash_loop_step [OF assms(1) j(2) _ assms(2) j(4), of "n + 1"] j obtain k where
    "run_events pick cfg (crash_loop cfg (n + 1)) [j] = [k]" "attempts k = n + 1" "job_state k = running"
    by auto
  with j(1) show ?thesis
    by (intro exI [of _ "crash_loop cfg (n + 1)"]) (simp add: run_events_def)
qed

text \<open>A failure report that arrives after another worker completed the job puts it back.\<close>

lemma late_failure_revives_completed:
  assumes "find_job i js = Some j" and "attempts j < maxAttempts j"
  shows "\<exists>j'. find_job i (snd (fail cfg now i code detail True (complete t i js))) = Some j' \<and>
    job_state j' = queued"
  using assms by (simp add: fail_def complete_def find_job_update_first Let_def)

section \<open>The properties on a run\<close>

definition sample_config :: extraction_config where
  "sample_config = \<lparr>cfg_maxAttempts = 3, claimTimeoutMs = 60000, retryBackoffMs = 1000\<rparr>"

definition sample_request :: enqueue_request where
  "sample_request = \<lparr>rq_queue = ''extraction'', rq_projectId = ''p'', rq_sourceId = ''s'',
     rq_resumeFrom = None, rq_idempotencyKey = ''extraction:s:0'', rq_correlationId = ''c'',
     rq_maxAttempts = None, rq_delayMs = None\<rparr>"

definition sample_job :: job where
  "sample_job = fst (the (enqueue sample_config 5 ''job_1'' sample_request []))"

lemma sample_enqueue: "enqueue sample_config 5 ''job_1'' sample_request [] = Some (sample_job, [sample_job])"
  by (simp add: sample_job_def enqueue_def find_job_def Let_def)

lemma sample_unique: "unique_keys [sample_job]"
  by (simp add: unique_keys_def)

lemma enqueue_is_idempotent_witness:
  "\<exists>j2. enqueue sample_config 90 ''job_2'' sample_request
      (run_events (arg_min_list runAfter) sample_config
        [Claim 6 ''w'' ''extraction'', Fail 7 ''job_1'' ''timeout'' ''slow'' True] [sample_job]) =
    Some (j2, run_events (arg_min_list runAfter) sample_config
        [Claim 6 ''w'' ''extraction'', Fail 7 ''job_1'' ''timeout'' ''slow'' True] [sample_job]) \<and>
    jobId j2 = jobId sample_job"
  by (rule enqueue_is_idempotent [OF sample_enqueue]) simp_all


lemma claim_takes_earliest_due_witness:
  "fst (claimNext (arg_min_list runAfter) sample_config 6 ''w'' ''extraction'' [sample_job]) \<noteq> None"
  using claim_takes_earliest_due [OF first_earliest.queue_choice_axioms sample_unique, of sample_config 6 "''w''" "''extraction''"]
  by (simp add: runnable_def sample_job_def enqueue_def find_job_def sample_config_def sample_request_def Let_def)


lemma attempts_stay_within_limit_witness:
  "list_all within_limit (run_events (arg_min_list runAfter) sample_config
      [Enqueue 5 ''job_1'' sample_request, Claim 6 ''w'' ''extraction'',
       Fail 7 ''job_1'' ''timeout'' ''slow'' True] [])"
  unfolding within_limit_def
  by (rule attempts_stay_within_limit [OF first_earliest.queue_choice_axioms])
    (simp_all add: sample_config_def sample_request_def enqueue_def find_job_def Let_def)

end
