(* ===== verification/SourceLifecycle.thy ===== *)
theory SourceLifecycle
  imports Prelude
begin

text \<open>
  packages/contracts/src/requirements/source-status.ts: the lifecycle of a requirement source
  from upload to readable content, as the status table and the predicates on it. The labels are
  prose and left out.
\<close>

datatype source_status =
    UPLOADING | UPLOADED | VALIDATING | QUEUED | EXTRACTING | OCR_REQUIRED | OCR_PROCESSING
  | REVIEW_REQUIRED | READY | FAILED | DELETED

fun SOURCE_STATUS_TRANSITIONS :: "source_status \<Rightarrow> source_status list" where
  "SOURCE_STATUS_TRANSITIONS UPLOADING = [UPLOADED, FAILED, DELETED]"
| "SOURCE_STATUS_TRANSITIONS UPLOADED = [VALIDATING, FAILED, DELETED]"
| "SOURCE_STATUS_TRANSITIONS VALIDATING = [QUEUED, FAILED, DELETED]"
| "SOURCE_STATUS_TRANSITIONS QUEUED = [EXTRACTING, FAILED, DELETED]"
| "SOURCE_STATUS_TRANSITIONS EXTRACTING = [OCR_REQUIRED, REVIEW_REQUIRED, READY, FAILED, DELETED]"
| "SOURCE_STATUS_TRANSITIONS OCR_REQUIRED = [OCR_PROCESSING, FAILED, DELETED]"
| "SOURCE_STATUS_TRANSITIONS OCR_PROCESSING = [REVIEW_REQUIRED, READY, FAILED, DELETED]"
| "SOURCE_STATUS_TRANSITIONS REVIEW_REQUIRED = [READY, QUEUED, FAILED, DELETED]"
| "SOURCE_STATUS_TRANSITIONS READY = [REVIEW_REQUIRED, QUEUED, DELETED]"
| "SOURCE_STATUS_TRANSITIONS FAILED = [QUEUED, DELETED]"
| "SOURCE_STATUS_TRANSITIONS DELETED = []"

definition canTransitionSource :: "source_status \<Rightarrow> source_status \<Rightarrow> bool" where
  "canTransitionSource s t = (if s = t then True else t \<in> set (SOURCE_STATUS_TRANSITIONS s))"

definition isSourceInProgress :: "source_status \<Rightarrow> bool" where
  "isSourceInProgress s =
     (s = UPLOADING \<or> s = UPLOADED \<or> s = VALIDATING \<or> s = QUEUED \<or> s = EXTRACTING \<or>
      s = OCR_REQUIRED \<or> s = OCR_PROCESSING)"

definition hasExtractedContent :: "source_status \<Rightarrow> bool" where
  "hasExtractedContent s = (s = REVIEW_REQUIRED \<or> s = READY)"

definition isRetryable :: "source_status \<Rightarrow> bool" where
  "isRetryable s = (s = FAILED)"

definition isSourceDeleted :: "source_status \<Rightarrow> bool" where
  "isSourceDeleted s = (s = DELETED)"

text \<open>The table read as a strict step is a status table with the deleted status final.\<close>

interpretation sources: status_table SOURCE_STATUS_TRANSITIONS
  "\<lambda>s t. s \<noteq> t \<and> canTransitionSource s t" isSourceDeleted
proof
  fix s t
  show "(s \<noteq> t \<and> canTransitionSource s t) = (t \<in> set (SOURCE_STATUS_TRANSITIONS s))"
    by (cases s; cases t) (simp_all add: canTransitionSource_def)
  show "isSourceDeleted s \<Longrightarrow> SOURCE_STATUS_TRANSITIONS s = []"
    by (simp add: isSourceDeleted_def)
qed

section \<open>Runs\<close>

text \<open>A run is the list of statuses a source had, newest first, starting at the upload.\<close>

fun source_run :: "source_status list \<Rightarrow> bool" where
  "source_run [] = False"
| "source_run [s] = (s = UPLOADING)"
| "source_run (t # s # ss) = (canTransitionSource s t \<and> source_run (s # ss))"

lemma run_history:
  "source_run (s # ss) \<Longrightarrow>
     (hasExtractedContent s \<longrightarrow> EXTRACTING \<in> set ss) \<and>
     (s \<in> {EXTRACTING, OCR_REQUIRED, OCR_PROCESSING} \<longrightarrow> QUEUED \<in> set ss) \<and>
     (s \<in> {OCR_REQUIRED, OCR_PROCESSING} \<longrightarrow> EXTRACTING \<in> set ss) \<and>
     (EXTRACTING \<in> set ss \<longrightarrow> QUEUED \<in> set ss)"
proof (induction ss arbitrary: s)
  case (Cons r rs)
  then have "canTransitionSource r s" and IH:
    "hasExtractedContent r \<longrightarrow> EXTRACTING \<in> set rs"
    "r \<in> {EXTRACTING, OCR_REQUIRED, OCR_PROCESSING} \<longrightarrow> QUEUED \<in> set rs"
    "r \<in> {OCR_REQUIRED, OCR_PROCESSING} \<longrightarrow> EXTRACTING \<in> set rs"
    "EXTRACTING \<in> set rs \<longrightarrow> QUEUED \<in> set rs" by auto
  then show ?case
    by (cases r; cases s) (simp_all add: canTransitionSource_def hasExtractedContent_def)
qed (simp add: hasExtractedContent_def)

text \<open>
  No stage is skipped and nothing comes back: a source that has content, on any run
  of the table, was queued and read before, and once deleted it stays deleted.\<close>

theorem source_run_is_ordered:
  assumes "source_run (s # ss)"
  shows "(hasExtractedContent s \<longrightarrow> EXTRACTING \<in> set ss \<and> QUEUED \<in> set ss) \<and>
    (DELETED \<in> set ss \<longrightarrow> s = DELETED)"
proof -
  have "DELETED \<in> set ss \<Longrightarrow> source_run (s # ss) \<Longrightarrow> s = DELETED" for s
  proof (induction ss arbitrary: s)
    case (Cons r rs)
    then have "r = DELETED" and "canTransitionSource r s" by auto
    then show ?case by (simp add: canTransitionSource_def split: if_splits)
  qed simp
  with assms run_history [OF assms] show ?thesis by blast
qed

lemma source_run_is_ordered_witness:
  "source_run [READY, EXTRACTING, QUEUED, VALIDATING, UPLOADED, UPLOADING] \<and>
   EXTRACTING \<in> set [EXTRACTING, QUEUED, VALIDATING, UPLOADED, UPLOADING]"
  using source_run_is_ordered [of READY "[EXTRACTING, QUEUED, VALIDATING, UPLOADED, UPLOADING]"]
  by (simp add: canTransitionSource_def hasExtractedContent_def)

end
