(* ===== verification/ExtractionWorker.thy ===== *)
theory ExtractionWorker
  imports JobQueue SourceLifecycle
begin

text \<open>
  apps/api/src/requirements/queue/extraction.worker.ts: the worker that claims a job, reads its
  source and records the outcome in the queue and on the source. Storage, legacy conversion and
  the extraction of the bytes are the functions of the record \<open>reader\<close>; what users do while a
  file is being read is a list of \<open>user_action\<close>s. Audit events, which never throw, and the
  injection signals stored with a result are left out.
\<close>

section \<open>Sources and readers\<close>

record source =
  srcId :: string
  srcProjectId :: string
  srcStatus :: source_status
  storageObjectId :: "string option"
  extension :: "string option"
  src_failureCode :: "string option"
  currentRevision :: "nat option"
  blockCount :: nat
  warningCount :: nat
  minimumConfidence :: rat

record extracted =
  ex_blocks :: "string list"
  ex_warnings :: "string list"
  ex_minimumConfidence :: rat
  ex_usedOcr :: bool

datatype extraction_reason =
    password_protected | corrupted_file | unsupported_format | empty_document | ocr_failed
  | timeout | too_large

datatype conversion_reason =
    not_configured_conv | converter_unavailable | conv_unsupported_format | conv_corrupted_file
  | conv_password_protected | conv_timeout | conversion_failed

datatype cause =
    FileExtractionError extraction_reason string bool
  | LegacyConversionError conversion_reason string bool
  | OtherError string string
  | Thrown string

record reader =
  rd_fetch :: "source \<Rightarrow> cause option"
  rd_extract :: "source \<Rightarrow> cause + extracted"

record worker_state =
  ws_jobs :: jobs
  ws_sources :: "source list"
  ws_revisions :: "(string \<times> nat \<times> extracted) list"

definition LOW_CONFIDENCE_THRESHOLD :: rat where "LOW_CONFIDENCE_THRESHOLD = 3 / 4"

definition IMAGE_EXTENSIONS :: "string list" where
  "IMAGE_EXTENSIONS = [''png'', ''jpg'', ''jpeg'', ''webp'']"

definition isImageExtension :: "string \<Rightarrow> bool" where
  "isImageExtension e = (e \<in> set IMAGE_EXTENSIONS)"

section \<open>Causes\<close>

fun classify :: "cause \<Rightarrow> string \<times> bool" where
  "classify (FileExtractionError password_protected m r) = (''PASSWORD_PROTECTED'', False)"
| "classify (FileExtractionError corrupted_file m r) = (''CORRUPTED_FILE'', False)"
| "classify (FileExtractionError unsupported_format m r) = (''UNSUPPORTED_FORMAT'', False)"
| "classify (FileExtractionError empty_document m r) = (''FILE_EMPTY'', False)"
| "classify (FileExtractionError ocr_failed m r) = (''OCR_FAILED'', r)"
| "classify (FileExtractionError timeout m r) = (''EXTRACTION_TIMEOUT'', True)"
| "classify (FileExtractionError too_large m r) = (''EXTRACTION_LIMIT_EXCEEDED'', False)"
| "classify (LegacyConversionError c m r) =
     (if c = not_configured_conv \<or> c = converter_unavailable then ''LEGACY_FORMAT_UNAVAILABLE''
      else if c = conv_password_protected then ''PASSWORD_PROTECTED'' else ''CORRUPTED_FILE'', r)"
| "classify (OtherError n m) = (''EXTRACTION_FAILED'', True)"
| "classify (Thrown s) = (''EXTRACTION_FAILED'', True)"

fun describe :: "cause \<Rightarrow> string" where
  "describe (FileExtractionError c m r) = take 500 (''FileExtractionError: '' @ m)"
| "describe (LegacyConversionError c m r) = take 500 (''LegacyConversionError: '' @ m)"
| "describe (OtherError n m) = take 500 (n @ '': '' @ m)"
| "describe (Thrown s) = take 500 s"

section \<open>The source repository\<close>

fun update_source :: "string \<Rightarrow> (source \<Rightarrow> source) \<Rightarrow> source list \<Rightarrow> source list" where
  "update_source i f [] = []"
| "update_source i f (s # ss) = (if srcId s = i then f s # ss else s # update_source i f ss)"

definition setStatus :: "string \<Rightarrow> source_status \<Rightarrow> (source \<Rightarrow> source) \<Rightarrow> worker_state \<Rightarrow> worker_state" where
  "setStatus i st extra w =
     w\<lparr>ws_sources := update_source i (\<lambda>s. extra (s\<lparr>srcStatus := st\<rparr>)) (ws_sources w)\<rparr>"

definition findAny :: "string \<Rightarrow> string \<Rightarrow> worker_state \<Rightarrow> source option" where
  "findAny p i w = find (\<lambda>s. srcProjectId s = p \<and> srcId s = i) (ws_sources w)"

fun soft_delete_in :: "string \<Rightarrow> string \<Rightarrow> source list \<Rightarrow> source list" where
  "soft_delete_in p i [] = []"
| "soft_delete_in p i (s # ss) =
     (if srcProjectId s = p \<and> srcId s = i \<and> srcStatus s \<noteq> DELETED
      then s\<lparr>srcStatus := DELETED\<rparr> # ss else s # soft_delete_in p i ss)"

definition softDelete :: "string \<Rightarrow> string \<Rightarrow> worker_state \<Rightarrow> worker_state" where
  "softDelete p i w = w\<lparr>ws_sources := soft_delete_in p i (ws_sources w)\<rparr>"

datatype user_action = Ask_cancel string | Delete_source string string

fun act :: "user_action \<Rightarrow> worker_state \<Rightarrow> worker_state" where
  "act (Ask_cancel i) w = w\<lparr>ws_jobs := snd (requestCancellation i (ws_jobs w))\<rparr>"
| "act (Delete_source p i) w = softDelete p i w"

section \<open>Processing a job\<close>

definition needs_review :: "bool \<Rightarrow> extracted \<Rightarrow> bool" where
  "needs_review usedOcr content =
     (usedOcr \<or> ex_usedOcr content \<or> length (ex_warnings content) > 0 \<or>
      ex_minimumConfidence content < LOW_CONFIDENCE_THRESHOLD)"

definition storeResult :: "int \<Rightarrow> claimed_job \<Rightarrow> extracted \<Rightarrow> bool \<Rightarrow> worker_state \<Rightarrow> worker_state" where
  "storeResult now j content usedOcr w =
     (let i = cj_sourceId j;
          w1 = w\<lparr>ws_revisions := filter (\<lambda>(s, _). s \<noteq> i) (ws_revisions w) @ [(i, 0, content)]\<rparr>;
          w2 = setStatus i (if needs_review usedOcr content then REVIEW_REQUIRED else READY)
                 (\<lambda>s. s\<lparr>currentRevision := Some 0, blockCount := length (ex_blocks content),
                        warningCount := length (ex_warnings content),
                        minimumConfidence := ex_minimumConfidence content, src_failureCode := None\<rparr>) w1
      in w2\<lparr>ws_jobs := complete now (cj_jobId j) (ws_jobs w2)\<rparr>)"

definition handleFailure ::
  "extraction_config \<Rightarrow> int \<Rightarrow> claimed_job \<Rightarrow> cause \<Rightarrow> worker_state \<Rightarrow> worker_state" where
  "handleFailure cfg now j c w =
     (let (code, retryable) = classify c;
          (d, js) = fail cfg now (cj_jobId j) code (describe c) retryable (ws_jobs w);
          w' = w\<lparr>ws_jobs := js\<rparr>
      in if d = retrying then setStatus (cj_sourceId j) QUEUED id w'
         else setStatus (cj_sourceId j) FAILED (\<lambda>s. s\<lparr>src_failureCode := Some code\<rparr>) w')"

text \<open>The \<open>try\<close> block after the bytes were read: what users did meanwhile is \<open>acts\<close>.\<close>

definition read_content ::
  "extraction_config \<Rightarrow> int \<Rightarrow> reader \<Rightarrow> user_action list \<Rightarrow> claimed_job \<Rightarrow> source \<Rightarrow> worker_state \<Rightarrow> worker_state" where
  "read_content cfg now rd acts j s w =
     (let usesOcr = isImageExtension (case extension s of Some e \<Rightarrow> e | None \<Rightarrow> []);
          w1 = (if usesOcr then setStatus (cj_sourceId j) OCR_PROCESSING id w else w);
          w2 = fold act acts w1
      in case rd_extract rd s of
           Inl c \<Rightarrow> handleFailure cfg now j c w2
         | Inr content \<Rightarrow>
             if isCancellationRequested (cj_jobId j) (ws_jobs w2)
             then setStatus (cj_sourceId j) FAILED (\<lambda>s. s\<lparr>src_failureCode := Some ''EXTRACTION_FAILED''\<rparr>)
                    (w2\<lparr>ws_jobs := cancel now (cj_jobId j) (ws_jobs w2)\<rparr>)
             else storeResult now j content usesOcr w2)"

definition process ::
  "extraction_config \<Rightarrow> int \<Rightarrow> reader \<Rightarrow> user_action list \<Rightarrow> claimed_job \<Rightarrow> worker_state \<Rightarrow> worker_state" where
  "process cfg now rd acts j w =
     (let gone = w\<lparr>ws_jobs := cancel now (cj_jobId j) (ws_jobs w)\<rparr>
      in case findAny (cj_projectId j) (cj_sourceId j) w of
           None \<Rightarrow> gone
         | Some s \<Rightarrow>
             if srcStatus s = DELETED then gone
             else
               let w1 = setStatus (cj_sourceId j) EXTRACTING id w
               in if storageObjectId s = None
                  then handleFailure cfg now j
                         (FileExtractionError corrupted_file ''The stored file is missing.'' False) w1
                  else (case rd_fetch rd s of
                          Some c \<Rightarrow> handleFailure cfg now j c w1
                        | None \<Rightarrow> read_content cfg now rd acts j s w1))"

definition EXTRACTION_QUEUE_NAME :: string where "EXTRACTION_QUEUE_NAME = ''extraction''"

definition runOnce ::
  "(jobs \<Rightarrow> job) \<Rightarrow> extraction_config \<Rightarrow> int \<Rightarrow> string \<Rightarrow> reader \<Rightarrow> user_action list \<Rightarrow> worker_state \<Rightarrow>
   bool \<times> worker_state" where
  "runOnce pick cfg now worker rd acts w =
     (case claimNext pick cfg now worker EXTRACTION_QUEUE_NAME (ws_jobs w) of
        (None, js) \<Rightarrow> (False, w\<lparr>ws_jobs := js\<rparr>)
      | (Some j, js) \<Rightarrow> (True, process cfg now rd acts j (w\<lparr>ws_jobs := js\<rparr>)))"

text \<open>The drain loop of a tick, with a bound on the number of passes; the flag says that the last
  pass found no job.\<close>

fun drain ::
  "nat \<Rightarrow> (jobs \<Rightarrow> job) \<Rightarrow> extraction_config \<Rightarrow> int \<Rightarrow> string \<Rightarrow> reader \<Rightarrow> worker_state \<Rightarrow> bool \<times> worker_state" where
  "drain 0 pick cfg now worker rd w = (False, w)"
| "drain (Suc n) pick cfg now worker rd w =
     (case runOnce pick cfg now worker rd [] w of
        (False, w') \<Rightarrow> (True, w')
      | (True, w') \<Rightarrow> drain n pick cfg now worker rd w')"

section \<open>Looking things up\<close>

definition src_status :: "string \<Rightarrow> worker_state \<Rightarrow> source_status option" where
  "src_status i w = map_option srcStatus (find (\<lambda>s. srcId s = i) (ws_sources w))"

definition state_of :: "string \<Rightarrow> worker_state \<Rightarrow> job_state option" where
  "state_of i w = map_option job_state (find_job i (ws_jobs w))"

lemma find_update_source:
  assumes "\<forall>s. srcId (f s) = srcId s"
  shows "find (\<lambda>s. srcId s = k) (update_source i f ss) =
    (if k = i then map_option f (find (\<lambda>s. srcId s = k) ss) else find (\<lambda>s. srcId s = k) ss)"
  using assms by (induction ss) auto

lemma setStatus_src [simp]:
  assumes "\<forall>s. srcId (f s) = srcId s" and "\<forall>s. srcStatus (f s) = srcStatus s"
  shows "src_status k (setStatus i st f w) = (if k = i then map_option (\<lambda>_. st) (src_status k w) else src_status k w)"
  using assms find_update_source [of "\<lambda>s. f (s\<lparr>srcStatus := st\<rparr>)" k i "ws_sources w"]
  by (cases "find (\<lambda>s. srcId s = k) (ws_sources w)") (auto simp: src_status_def setStatus_def)

lemma jobs_setStatus [simp]: "ws_jobs (setStatus i st f w) = ws_jobs w"
  by (simp add: setStatus_def)

lemma state_of_simps [simp]:
  "state_of k (setStatus i st f w) = state_of k w"
  "src_status k (w\<lparr>ws_jobs := js\<rparr>) = src_status k w"
  "src_status k (w\<lparr>ws_revisions := rs\<rparr>) = src_status k w"
  "state_of k (w\<lparr>ws_revisions := rs\<rparr>) = state_of k w"
  by (simp_all add: state_of_def src_status_def)

lemma state_of_jobs [simp]:
  "state_of k (w\<lparr>ws_jobs := js\<rparr>) = map_option job_state (find_job k js)"
  by (simp add: state_of_def)

lemma job_state_ops [simp]:
  "map_option job_state (find_job k (complete now i js)) =
     (if k = i then map_option (\<lambda>_. completed) (find_job k js) else map_option job_state (find_job k js))"
  "map_option job_state (find_job k (cancel now i js)) =
     (if k = i then map_option (\<lambda>_. cancelled) (find_job k js) else map_option job_state (find_job k js))"
  by (auto simp: complete_def cancel_def find_job_update_first option.map_comp comp_def)

section \<open>Users in between\<close>

lemma act_keeps:
  shows "\<forall>p. a \<noteq> Delete_source p k \<Longrightarrow> src_status k (act a w) = src_status k w"
    and "state_of i (act a w) = state_of i w"
proof -
  have jobs: "map_option job_state (find_job i (update_first P (\<lambda>j. j\<lparr>cancellationRequested := True\<rparr>) js)) =
      map_option job_state (find_job i js)" for P js
    by (induction js) (auto simp: find_job_def)
  have sources: "find (\<lambda>s. srcId s = k) (soft_delete_in p i ss) = find (\<lambda>s. srcId s = k) ss" if "i \<noteq> k" for p i ss
    using that by (induction ss) auto
  show "\<forall>p. a \<noteq> Delete_source p k \<Longrightarrow> src_status k (act a w) = src_status k w"
    using sources by (cases a) (auto simp: src_status_def softDelete_def)
  show "state_of i (act a w) = state_of i w"
    using jobs by (cases a) (auto simp: state_of_def softDelete_def requestCancellation_def Let_def)
qed

lemma acts_keep:
  "list_all (\<lambda>a. \<forall>p. a \<noteq> Delete_source p k) acts \<Longrightarrow>
     src_status k (fold act acts w) = src_status k w \<and> state_of i (fold act acts w) = state_of i w"
  by (induction acts arbitrary: w) (simp_all add: act_keeps)

section \<open>Job and source agree\<close>

definition agree :: "job_state \<Rightarrow> source_status \<Rightarrow> bool" where
  "agree js ss =
     ((js = completed \<and> (ss = READY \<or> ss = REVIEW_REQUIRED)) \<or>
      (js = queued \<and> ss = QUEUED) \<or>
      ((js = failed \<or> js = dead_letter \<or> js = cancelled) \<and> ss = FAILED))"

definition settled :: "string \<Rightarrow> string \<Rightarrow> worker_state \<Rightarrow> bool" where
  "settled i k w = (\<exists>js ss. state_of i w = Some js \<and> src_status k w = Some ss \<and> agree js ss)"

lemma handleFailure_settled:
  assumes "state_of (cj_jobId j) w \<noteq> None" and "src_status (cj_sourceId j) w \<noteq> None"
  shows "settled (cj_jobId j) (cj_sourceId j) (handleFailure cfg now j c w)"
proof -
  obtain x where x: "find_job (cj_jobId j) (ws_jobs w) = Some x" using assms(1) by (auto simp: state_of_def)
  obtain code b where c: "classify c = (code, b)" by fastforce
  show ?thesis
    using assms(2) x c
    by (auto simp: handleFailure_def fail_def Let_def settled_def agree_def state_of_def
        find_job_update_first split: if_splits)
qed

lemma storeResult_settled:
  assumes "state_of (cj_jobId j) w \<noteq> None" and "src_status (cj_sourceId j) w \<noteq> None"
  shows "settled (cj_jobId j) (cj_sourceId j) (storeResult now j content b w)"
  using assms by (auto simp: storeResult_def Let_def settled_def agree_def state_of_def)

lemma cancelled_settled:
  assumes "state_of (cj_jobId j) w \<noteq> None" and "src_status (cj_sourceId j) w \<noteq> None"
  shows "settled (cj_jobId j) (cj_sourceId j)
    (setStatus (cj_sourceId j) FAILED (\<lambda>s. s\<lparr>src_failureCode := c\<rparr>)
      (w\<lparr>ws_jobs := cancel now (cj_jobId j) (ws_jobs w)\<rparr>))"
  using assms job_state_ops(2) [of "cj_jobId j" now "cj_jobId j" "ws_jobs w"]
  by (auto simp: settled_def agree_def state_of_def)

lemma read_content_settled:
  assumes "state_of (cj_jobId j) v \<noteq> None" and "src_status (cj_sourceId j) v \<noteq> None"
    and "list_all (\<lambda>a. \<forall>p. a \<noteq> Delete_source p (cj_sourceId j)) acts"
  shows "settled (cj_jobId j) (cj_sourceId j) (read_content cfg now rd acts j s v)"
proof -
  let ?v = "fold act acts (if isImageExtension (case extension s of Some e \<Rightarrow> e | None \<Rightarrow> [])
    then setStatus (cj_sourceId j) OCR_PROCESSING id v else v)"
  have v: "state_of (cj_jobId j) ?v \<noteq> None" "src_status (cj_sourceId j) ?v \<noteq> None"
    using assms(1,2) acts_keep [OF assms(3)] by auto
  show ?thesis
    using handleFailure_settled [OF v] storeResult_settled [OF v] cancelled_settled [OF v]
    unfolding read_content_def Let_def by (cases "rd_extract rd s") simp_all
qed

text \<open>
  Property C25. Queue and source agree: once a worker has processed a job whose source exists and
  is not deleted meanwhile, the job is completed with the source readable, or queued again with
  the source waiting, or finished without success with the source failed; it is never left
  running.\<close>

theorem job_and_source_agree:
  assumes "find_job (cj_jobId j) (ws_jobs w) \<noteq> None"
    and "findAny (cj_projectId j) (cj_sourceId j) w = Some s" and "srcStatus s \<noteq> DELETED"
    and "list_all (\<lambda>a. \<forall>p. a \<noteq> Delete_source p (cj_sourceId j)) acts"
  shows "\<exists>js ss. state_of (cj_jobId j) (process cfg now rd acts j w) = Some js \<and>
    src_status (cj_sourceId j) (process cfg now rd acts j w) = Some ss \<and> agree js ss"
proof -
  have job: "state_of (cj_jobId j) w \<noteq> None" using assms(1) by (simp add: state_of_def)
  have src: "src_status (cj_sourceId j) w \<noteq> None"
    using assms(2) by (auto simp: findAny_def src_status_def find_None_iff find_Some_iff intro: nth_mem)
  let ?w = "setStatus (cj_sourceId j) EXTRACTING id w"
  have w: "state_of (cj_jobId j) ?w \<noteq> None" "src_status (cj_sourceId j) ?w \<noteq> None"
    using job src by auto
  have "settled (cj_jobId j) (cj_sourceId j) (process cfg now rd acts j w)"
    using assms(2,3) handleFailure_settled [OF w] read_content_settled [OF w assms(4)]
    unfolding process_def Let_def by (cases "rd_fetch rd s") simp_all
  then show ?thesis by (simp add: settled_def)
qed

section \<open>Only clean content skips review\<close>

lemma handleFailure_not_ready: "src_status (cj_sourceId j) (handleFailure cfg now j c w) \<noteq> Some READY"
  by (auto simp: handleFailure_def Let_def split: prod.split)

text \<open>
  The review gate: a source a worker leaves ready was read digitally, without a
  warning and with no confidence under the threshold; anything else waits for a person.\<close>

theorem ready_means_clean:
  assumes "findAny (cj_projectId j) (cj_sourceId j) w = Some s" and "srcStatus s \<noteq> DELETED"
    and "src_status (cj_sourceId j) (process cfg now rd acts j w) = Some READY"
  shows "\<exists>content. rd_extract rd s = Inr content \<and> ex_warnings content = [] \<and>
    \<not> ex_usedOcr content \<and> LOW_CONFIDENCE_THRESHOLD \<le> ex_minimumConfidence content \<and>
    \<not> isImageExtension (case extension s of Some e \<Rightarrow> e | None \<Rightarrow> [])"
proof -
  let ?w = "setStatus (cj_sourceId j) EXTRACTING id w"
  have "src_status (cj_sourceId j) (read_content cfg now rd acts j s ?w) = Some READY"
    using assms handleFailure_not_ready unfolding process_def Let_def
    by (cases "rd_fetch rd s") (auto split: if_splits)
  then show ?thesis
    using handleFailure_not_ready unfolding read_content_def Let_def
    by (cases "rd_extract rd s") (auto simp: storeResult_def Let_def needs_review_def split: if_splits)
qed

section \<open>The drain loop ends\<close>

text \<open>Processing changes the claimed document only, and leaves it not runnable.\<close>

definition settles :: "extraction_config \<Rightarrow> int \<Rightarrow> string \<Rightarrow> jobs \<Rightarrow> jobs \<Rightarrow> bool" where
  "settles cfg now i js js' =
     (\<exists>f. js' = update_first (\<lambda>x. jobId x = i) f js \<and> (\<forall>x. jobId (f x) = jobId x) \<and>
          (\<forall>x. idempotencyKey (f x) = idempotencyKey x) \<and>
          (\<forall>x q. find_job i js = Some x \<longrightarrow> 0 < attempts x \<longrightarrow> \<not> runnable cfg now q (f x)))"

lemma settles_complete: "settles cfg now i js (complete t i js)"
  unfolding settles_def complete_def
  by (rule exI, rule conjI, rule refl) (simp add: runnable_def)

lemma settles_cancel: "settles cfg now i js (cancel t i js)"
  unfolding settles_def cancel_def
  by (rule exI, rule conjI, rule refl) (simp add: runnable_def)

lemma backoff_pos: "0 < base \<Longrightarrow> 0 < n \<Longrightarrow> 0 < backoff base n"
  by (simp add: backoff_def)

lemma settles_fail:
  assumes "0 < retryBackoffMs cfg" and "find_job i js \<noteq> None"
  shows "settles cfg now i js (snd (fail cfg now i c d b js))"
proof -
  obtain x where x: "find_job i js = Some x" using assms(2) by auto
  have late: "0 < attempts x \<longrightarrow> \<not> backoff (retryBackoffMs cfg) (attempts x) \<le> 0"
    using backoff_pos [OF assms(1)] by (simp add: not_le)
  show ?thesis
    unfolding settles_def fail_def x option.case Let_def
    by (cases b; cases "maxAttempts x \<le> attempts x")
      (simp_all only: if_True if_False simp_thms snd_conv,
       (rule exI, rule conjI, rule refl, simp add: runnable_def late x)+)
qed

lemma process_settles:
  assumes "0 < retryBackoffMs cfg" and "find_job (cj_jobId j) (ws_jobs w) \<noteq> None"
  shows "settles cfg now (cj_jobId j) (ws_jobs w) (ws_jobs (process cfg now rd [] j w))"
proof -
  have fails: "settles cfg now (cj_jobId j) (ws_jobs v) (ws_jobs (handleFailure cfg now j c v))"
    if "ws_jobs v = ws_jobs w" for c v
    using settles_fail [OF assms] that
    by (auto simp: handleFailure_def Let_def split: prod.split) (metis snd_conv)+
  have "settles cfg now (cj_jobId j) (ws_jobs w) (ws_jobs (read_content cfg now rd [] j s v))"
    if "ws_jobs v = ws_jobs w" for s v
    using fails that
    by (auto simp: read_content_def Let_def storeResult_def settles_complete settles_cancel split: sum.split)
  with fails show ?thesis
    by (auto simp: process_def Let_def settles_cancel split: option.split)
qed

definition load :: "extraction_config \<Rightarrow> int \<Rightarrow> string \<Rightarrow> jobs \<Rightarrow> nat" where
  "load cfg now q js = length (filter (runnable cfg now q) js)"

lemma update_first_update_first:
  "(\<forall>x. jobId (f x) = jobId x) \<Longrightarrow>
   update_first (\<lambda>x. jobId x = i) g (update_first (\<lambda>x. jobId x = i) f js) =
   update_first (\<lambda>x. jobId x = i) (g \<circ> f) js"
  by (induction js) auto

lemma load_update_first:
  assumes "unique_keys js" and "j \<in> set js" and "runnable cfg now q j" and "\<not> runnable cfg now q (f j)"
  shows "load cfg now q (update_first (\<lambda>x. jobId x = jobId j) f js) < load cfg now q js"
  using assms
proof (induction js)
  case (Cons x xs)
  show ?case
  proof (cases "x = j")
    case True
    with Cons.prems show ?thesis by (simp add: load_def)
  next
    case False
    then have "j \<in> set xs" and "jobId x \<noteq> jobId j" using Cons.prems(1,2) by (auto simp: unique_keys_def)
    with Cons show ?thesis by (simp add: load_def unique_keys_def)
  qed
qed simp

lemma runOnce_shrinks:
  assumes "queue_choice pick" and "0 < retryBackoffMs cfg" and "unique_keys (ws_jobs w)"
    and "runOnce pick cfg now worker rd [] w = (True, w')"
  shows "unique_keys (ws_jobs w') \<and>
    load cfg now EXTRACTION_QUEUE_NAME (ws_jobs w') < load cfg now EXTRACTION_QUEUE_NAME (ws_jobs w)"
proof -
  let ?q = EXTRACTION_QUEUE_NAME
  from assms(4) obtain c js where c: "claimNext pick cfg now worker ?q (ws_jobs w) = (Some c, js)"
    and w': "w' = process cfg now rd [] c (w\<lparr>ws_jobs := js\<rparr>)"
    by (auto simp: runOnce_def split: prod.splits option.splits)
  from queue_choice.claimNext_Some [OF assms(1,3) c] obtain j where j: "j \<in> set (ws_jobs w)"
    "runnable cfg now ?q j" and cj: "c = to_claimed (claim now worker j)"
    and js: "js = update_first (\<lambda>x. jobId x = jobId j) (claim now worker) (ws_jobs w)" by blast
  have id: "cj_jobId c = jobId j" by (simp add: cj)
  have found: "find_job (jobId j) js = Some (claim now worker j)"
    by (simp add: js find_job_update_first find_job_unique [OF assms(3) j(1)])
  have "settles cfg now (jobId j) js (ws_jobs w')"
    using process_settles [OF assms(2), of c "w\<lparr>ws_jobs := js\<rparr>" now rd] found by (simp add: w' id)
  then obtain f where f: "ws_jobs w' = update_first (\<lambda>x. jobId x = jobId j) f js"
    "\<forall>x. jobId (f x) = jobId x" "\<forall>x. idempotencyKey (f x) = idempotencyKey x"
    "\<not> runnable cfg now ?q (f (claim now worker j))"
    using found by (auto simp: settles_def)
  have both: "ws_jobs w' = update_first (\<lambda>x. jobId x = jobId j) (f \<circ> claim now worker) (ws_jobs w)"
    unfolding f(1) js by (rule update_first_update_first) simp
  have "keeps_keys (f \<circ> claim now worker)" using f(2,3) by (simp add: keeps_keys_def claim_def)
  then have "unique_keys (ws_jobs w')" unfolding both by (rule unique_update_first [OF _ assms(3)])
  moreover have "load cfg now ?q (ws_jobs w') < load cfg now ?q (ws_jobs w)"
    unfolding both by (rule load_update_first [OF assms(3) j]) (simp add: f(4))
  ultimately show ?thesis by blast
qed


section \<open>What the worker does outside the table\<close>

text \<open>A source deleted while its file is being read comes back, and two of the statuses the worker
  writes are not moves of the table.\<close>

definition sample_source :: source where
  "sample_source = \<lparr>srcId = ''s'', srcProjectId = ''p'', srcStatus = QUEUED, storageObjectId = Some ''o'',
     extension = Some ''pdf'', src_failureCode = None, currentRevision = None, blockCount = 0,
     warningCount = 0, minimumConfidence = 0\<rparr>"

definition clean_reader :: reader where
  "clean_reader = \<lparr>rd_fetch = (\<lambda>s. None), rd_extract = (\<lambda>s. Inr \<lparr>ex_blocks = [''text''],
     ex_warnings = [], ex_minimumConfidence = 1, ex_usedOcr = False\<rparr>)\<rparr>"

definition sample_worker :: worker_state where
  "sample_worker = \<lparr>ws_jobs = [sample_job], ws_sources = [sample_source], ws_revisions = []\<rparr>"

lemmas sample_eval = sample_job_def enqueue_def find_job_def sample_config_def sample_request_def
  Let_def sample_worker_def sample_source_def clean_reader_def process_def findAny_def to_claimed_def
  read_content_def storeResult_def setStatus_def complete_def isImageExtension_def IMAGE_EXTENSIONS_def
  isCancellationRequested_def needs_review_def LOW_CONFIDENCE_THRESHOLD_def src_status_def
  softDelete_def

lemma deleted_source_comes_back:
  "src_status ''s'' (process sample_config 9 clean_reader [Delete_source ''p'' ''s''] (to_claimed sample_job)
     sample_worker) = Some READY \<and> \<not> canTransitionSource DELETED READY"
  by (simp add: sample_eval) (simp add: canTransitionSource_def)

lemma worker_leaves_the_table:
  "\<not> canTransitionSource EXTRACTING OCR_PROCESSING \<and> \<not> canTransitionSource EXTRACTING QUEUED"
  by (simp add: canTransitionSource_def)

section \<open>The properties on a run\<close>

lemma ready_means_clean_witness:
  "src_status ''s'' (process sample_config 9 clean_reader [] (to_claimed sample_job) sample_worker) = Some READY \<and>
   (\<exists>content. rd_extract clean_reader sample_source = Inr content \<and> ex_warnings content = [] \<and>
     LOW_CONFIDENCE_THRESHOLD \<le> ex_minimumConfidence content)"
proof -
  have found: "findAny (cj_projectId (to_claimed sample_job)) (cj_sourceId (to_claimed sample_job)) sample_worker = Some sample_source"
    and "srcStatus sample_source \<noteq> DELETED"
    and ready: "src_status (cj_sourceId (to_claimed sample_job)) (process sample_config 9 clean_reader [] (to_claimed sample_job)
      sample_worker) = Some READY"
    by (simp_all add: sample_eval)
  from ready_means_clean [OF this] ready show ?thesis by (auto simp: sample_eval)
qed

lemma job_and_source_agree_witness:
  "\<exists>js ss. state_of ''job_1'' (process sample_config 9 clean_reader [Ask_cancel ''job_1''] (to_claimed sample_job) sample_worker) = Some js \<and>
    src_status ''s'' (process sample_config 9 clean_reader [Ask_cancel ''job_1''] (to_claimed sample_job) sample_worker) = Some ss \<and>
    agree js ss"
  using job_and_source_agree [of "to_claimed sample_job" sample_worker sample_source "[Ask_cancel ''job_1'']" sample_config 9 clean_reader]
  by (simp add: sample_worker_def) (simp add: sample_eval)


end
