(* ===== verification/RateLimit.thy ===== *)
theory RateLimit
  imports Prelude
begin

text \<open>
  apps/api/src/abuse/rate-limit.store.ts: the fixed-window request counters, a map in insertion
  order from a caller's key to the end of its window and the requests seen in it, with the
  eviction that bounds it. Instants are milliseconds. The gauge that reports the size is left
  out.
\<close>

record window =
  expiresAt :: int
  seen :: nat

record rate_policy =
  windowSeconds :: int
  limit :: nat

record rate_decision =
  dec_allowed :: bool
  remaining :: nat
  retryAfterSeconds :: int
  dec_limit :: nat

type_synonym windows = "(string \<times> window) list"

definition evictIfNeeded :: "nat \<Rightarrow> int \<Rightarrow> windows \<Rightarrow> windows" where
  "evictIfNeeded maxKeys now ws =
     (if length ws < maxKeys then ws
      else
        let live = filter (\<lambda>(k, w). \<not> expiresAt w \<le> now) ws
        in if length live < maxKeys then live
           else let excess = length live - maxKeys + 1 in drop excess live)"

definition consume :: "nat \<Rightarrow> string \<Rightarrow> rate_policy \<Rightarrow> int \<Rightarrow> windows \<Rightarrow> rate_decision \<times> windows" where
  "consume maxKeys key p now ws0 =
     (let ws = evictIfNeeded maxKeys now ws0;
          windowMs = windowSeconds p * 1000;
          fresh = \<lparr>expiresAt = now + windowMs, seen = 0\<rparr>;
          w = (case map_of ws key of
                 Some e \<Rightarrow> if expiresAt e > now then e else fresh
               | None \<Rightarrow> fresh);
          w' = w\<lparr>seen := seen w + 1\<rparr>
      in (\<lparr>dec_allowed = (seen w' \<le> limit p), remaining = limit p - seen w',
           retryAfterSeconds = max 1 (- ((- (expiresAt w' - now)) div 1000)), dec_limit = limit p\<rparr>,
          AList.update key w' ws))"

definition store_size :: "windows \<Rightarrow> nat" where
  "store_size ws = length ws"

section \<open>Bounded memory\<close>

lemma length_update_le: "length (AList.update k v m) \<le> Suc (length m)"
  by (induction m) auto

lemma evict_length: "length (evictIfNeeded maxKeys now ws) \<le> maxKeys - 1"
  by (auto simp: evictIfNeeded_def Let_def)

text \<open>
  The map cannot grow without bound: after any request, whatever the store held
  before, it tracks no more keys than the configured size (and one where that is zero).\<close>

theorem store_is_bounded: "store_size (snd (consume maxKeys key p now ws)) \<le> max 1 maxKeys"
proof -
  have "length (AList.update key v (evictIfNeeded maxKeys now ws)) \<le> max 1 maxKeys" for v
    using length_update_le [of key v "evictIfNeeded maxKeys now ws"] evict_length [of maxKeys now ws]
    by linarith
  then show ?thesis by (simp add: consume_def Let_def store_size_def)
qed

section \<open>The window of a key\<close>

definition live_window :: "string \<Rightarrow> int \<Rightarrow> windows \<Rightarrow> window option" where
  "live_window key now ws =
     (case map_of ws key of Some w \<Rightarrow> if expiresAt w > now then Some w else None | None \<Rightarrow> None)"

lemma map_of_drop_None: "map_of ws k = None \<Longrightarrow> map_of (drop n ws) k = None"
  by (auto simp: map_of_eq_None_iff dest: in_set_dropD)

lemma evict_None:
  assumes "live_window k now ws = None" and "distinct (map fst ws)"
  shows "live_window k now (evictIfNeeded maxKeys now ws) = None"
proof -
  have sub: "live_window k now vs = None" if "set vs \<subseteq> set ws" "distinct (map fst vs)" for vs
  proof (cases "map_of vs k")
    case (Some w)
    then have "map_of ws k = Some w" using that assms(2) by (auto dest: map_of_SomeD)
    with assms(1) Some show ?thesis by (simp add: live_window_def)
  qed (simp add: live_window_def)
  show ?thesis
    unfolding evictIfNeeded_def Let_def
    using assms(2) by (auto intro!: sub dest: in_set_dropD simp: distinct_map_filter drop_map [symmetric])
qed

definition keys_ok :: "windows \<Rightarrow> bool" where
  "keys_ok ws = distinct (map fst ws)"

lemma consume_keys_ok: "keys_ok ws \<Longrightarrow> keys_ok (snd (consume maxKeys key p now ws))"
  unfolding keys_ok_def consume_def evictIfNeeded_def Let_def
  by (auto intro!: distinct_update simp: distinct_map_filter drop_map [symmetric])

lemma consume_other:
  assumes "live_window k now ws = None" and "keys_ok ws" and "k \<noteq> key"
  shows "live_window k now (snd (consume maxKeys key p now ws)) = None"
  using evict_None [OF assms(1) assms(2) [unfolded keys_ok_def], of maxKeys] assms(3)
  by (simp add: consume_def Let_def live_window_def update_conv')

section \<open>Sequences of requests\<close>

text \<open>A request is its instant, its key and its policy; \<open>serve\<close> is the store serving a list.\<close>

type_synonym request = "int \<times> string \<times> rate_policy"

fun serve :: "nat \<Rightarrow> request list \<Rightarrow> windows \<Rightarrow> (string \<times> rate_decision) list \<times> windows" where
  "serve m [] ws = ([], ws)"
| "serve m ((now, key, p) # rs) ws =
     (let (d, ws') = consume m key p now ws; (ds, ws'') = serve m rs ws'
      in ((key, d) # ds, ws''))"

lemma serve_Cons:
  "serve m ((now, key, p) # rs) ws =
   ((key, fst (consume m key p now ws)) # fst (serve m rs (snd (consume m key p now ws))),
    snd (serve m rs (snd (consume m key p now ws))))"
  by (simp add: Let_def split: prod.split)

declare serve.simps(2) [simp del]

definition decisions_for :: "string \<Rightarrow> (string \<times> rate_decision) list \<Rightarrow> bool list" where
  "decisions_for key ds = map (\<lambda>(k, d). dec_allowed d) (filter (\<lambda>(k, d). k = key) ds)"

text \<open>Without room to evict, a window that is live stays as it is until its key's next request.\<close>

lemma consume_roomy:
  assumes "length ws < m"
  shows "map_of (snd (consume m key p now ws)) k =
      (if k = key then Some (case live_window key now ws of
           Some w \<Rightarrow> w\<lparr>seen := Suc (seen w)\<rparr>
         | None \<Rightarrow> \<lparr>expiresAt = now + windowSeconds p * 1000, seen = 1\<rparr>)
       else map_of ws k)"
    and "dec_allowed (fst (consume m key p now ws)) =
      (case live_window key now ws of Some w \<Rightarrow> Suc (seen w) \<le> limit p | None \<Rightarrow> 1 \<le> limit p)"
    and "length (snd (consume m key p now ws)) \<le> Suc (length ws)"
  using assms length_update_le [of key _ ws]
  by (auto simp: consume_def Let_def evictIfNeeded_def live_window_def update_conv' split: option.split)

lemma serve_live:
  assumes "map_of ws key = Some w"
    and "\<forall>(now, k, q) \<in> set rs. now < expiresAt w \<and> (k = key \<longrightarrow> limit q = n)"
    and "length ws + length rs \<le> m"
  shows "decisions_for key (fst (serve m rs ws)) =
    map (\<lambda>i. seen w + i < n) [0..<length (filter (\<lambda>(now, k, q). k = key) rs)]"
  using assms
proof (induction rs arbitrary: ws w)
  case (Cons r rs)
  obtain now k q where r: "r = (now, k, q)" by (cases r) auto
  let ?ws = "snd (consume m k q now ws)"
  have room: "length ws < m" using Cons.prems(3) by simp
  note one = consume_roomy [OF room, of k q now]
  have len: "length ?ws + length rs \<le> m" using one(3) Cons.prems(3) by simp
  show ?case
  proof (cases "k = key")
    case False
    then have "map_of ?ws key = Some w" using one(1) [of key] Cons.prems(1) by simp
    from Cons.IH [OF this _ len] Cons.prems(2) False show ?thesis
      by (simp add: serve_Cons decisions_for_def r)
  next
    case True
    have live: "live_window key now ws = Some w"
      using Cons.prems(1,2) r by (simp add: live_window_def)
    let ?w = "w\<lparr>seen := Suc (seen w)\<rparr>"
    have "map_of ?ws key = Some ?w" using one(1) [of key] True live by simp
    moreover have "\<forall>(now, k, q) \<in> set rs. now < expiresAt ?w \<and> (k = key \<longrightarrow> limit q = n)"
      using Cons.prems(2) by simp
    ultimately have IH: "decisions_for key (fst (serve m rs ?ws)) =
        map (\<lambda>i. seen ?w + i < n) [0..<length (filter (\<lambda>(now, k, q). k = key) rs)]"
      using len by (rule Cons.IH)
    have first: "dec_allowed (fst (consume m k q now ws)) = (seen w < n)"
      using one(2) live True Cons.prems(2) r by (simp add: Suc_le_eq)
    have upt: "[0..<Suc c] = 0 # map Suc [0..<c]" for c
      using upt_conv_Cons [of 0 "Suc c"] by (simp add: map_Suc_upt)
    show ?thesis
      using IH first True by (simp add: serve_Cons decisions_for_def r upt comp_def del: upt_Suc)
  qed
qed (simp add: decisions_for_def)

text \<open>
  The limit is exact: while a key's window lasts and the map has room, of the
  requests with that key the first \<open>limit\<close> are allowed and all later ones are refused, whatever
  other callers do in between.\<close>

theorem window_allows_exactly_limit:
  assumes "live_window key now ws = None"
    and "\<forall>(t, k, q) \<in> set rs. t < now + windowSeconds p * 1000 \<and> (k = key \<longrightarrow> limit q = limit p)"
    and "length ws + length rs + 1 \<le> m"
  shows "decisions_for key (fst (serve m ((now, key, p) # rs) ws)) =
    map (\<lambda>i. i < limit p) [0..<Suc (length (filter (\<lambda>(t, k, q). k = key) rs))]"
proof -
  let ?ws = "snd (consume m key p now ws)"
  let ?w = "\<lparr>expiresAt = now + windowSeconds p * 1000, seen = 1\<rparr>"
  have room: "length ws < m" using assms(3) by simp
  note one = consume_roomy [OF room, of key p now]
  have "map_of ?ws key = Some ?w" using one(1) [of key] assms(1) by simp
  from serve_live [OF this, of rs "limit p" m] assms(2,3) one(3)
  have rest: "decisions_for key (fst (serve m rs ?ws)) =
      map (\<lambda>i. 1 + i < limit p) [0..<length (filter (\<lambda>(t, k, q). k = key) rs)]" by simp
  have first: "dec_allowed (fst (consume m key p now ws)) = (0 < limit p)"
    using one(2) assms(1) by (simp add: Suc_le_eq)
  have upt: "[0..<Suc c] = 0 # map Suc [0..<c]" for c
    using upt_conv_Cons [of 0 "Suc c"] by (simp add: map_Suc_upt)
  show ?thesis using rest first by (simp add: serve_Cons decisions_for_def upt comp_def del: upt_Suc)
qed

lemma window_allows_exactly_limit_witness:
  "decisions_for ''a'' (fst (serve 10 [(0, ''a'', \<lparr>windowSeconds = 60, limit = 2\<rparr>),
      (5, ''b'', \<lparr>windowSeconds = 60, limit = 9\<rparr>), (9, ''a'', \<lparr>windowSeconds = 60, limit = 2\<rparr>),
      (59999, ''a'', \<lparr>windowSeconds = 60, limit = 2\<rparr>)] [])) = [True, True, False]"
  using window_allows_exactly_limit [of "''a''" 0 "[]" "[(5, ''b'', \<lparr>windowSeconds = 60, limit = 9\<rparr>),
      (9, ''a'', \<lparr>windowSeconds = 60, limit = 2\<rparr>), (59999, ''a'', \<lparr>windowSeconds = 60, limit = 2\<rparr>)]"
      "\<lparr>windowSeconds = 60, limit = 2\<rparr>" 10]
  by (simp add: live_window_def upt_rec)

section \<open>Coming back later\<close>

lemma live_window_later: "live_window k now ws = None \<Longrightarrow> now \<le> t \<Longrightarrow> live_window k t ws = None"
  by (auto simp: live_window_def split: option.splits if_splits)

lemma retry_after_enough: "a \<le> - ((- (a::int)) div 1000) * 1000"
proof -
  have "(- a) div 1000 * 1000 \<le> - a" by (metis div_mult_mod_eq le_add_same_cancel1 pos_mod_sign zero_less_numeral)
  then show ?thesis by simp
qed

lemma evict_map_of:
  assumes "keys_ok ws" and "map_of (evictIfNeeded m now ws) k = Some w"
  shows "map_of ws k = Some w"
proof -
  have "set (evictIfNeeded m now ws) \<subseteq> set ws"
    by (auto simp: evictIfNeeded_def Let_def dest: in_set_dropD)
  with assms show ?thesis by (auto simp: keys_ok_def dest!: map_of_SomeD)
qed

lemma serve_keeps_window:
  "keys_ok ws \<Longrightarrow> \<forall>(t, k, q) \<in> set rs. k \<noteq> key \<Longrightarrow>
     map_of (snd (serve m rs ws)) key = Some w \<Longrightarrow> map_of ws key = Some w"
proof (induction rs arbitrary: ws)
  case (Cons r rs)
  obtain t k q where r: "r = (t, k, q)" by (cases r) auto
  let ?ws = "snd (consume m k q t ws)"
  have "map_of ?ws key = Some w"
    using Cons.IH [OF consume_keys_ok [OF Cons.prems(1)], of m k q t] Cons.prems(2,3) r
    by (simp add: serve_Cons)
  moreover have "k \<noteq> key" using Cons.prems(2) r by simp
  ultimately have "map_of (evictIfNeeded m t ws) key = Some w"
    by (simp add: consume_def Let_def update_conv')
  then show ?case by (rule evict_map_of [OF Cons.prems(1)])
qed simp

lemma serve_keys_ok: "keys_ok ws \<Longrightarrow> keys_ok (snd (serve m rs ws))"
proof (induction rs arbitrary: ws)
  case (Cons r rs)
  then show ?case by (cases r) (simp add: serve_Cons consume_keys_ok)
qed simp

text \<open>
  A refusal keeps its promise: a caller that stays away for the seconds it was told
  is served, whatever other callers did and whatever was evicted.\<close>

theorem retry_after_is_enough:
  assumes "keys_ok ws" and "consume m key p now ws = (d, ws')" and "\<not> dec_allowed d"
    and "\<forall>(t, k, q) \<in> set rs. k \<noteq> key" and "now + retryAfterSeconds d * 1000 \<le> now'" and "1 \<le> limit p"
  shows "dec_allowed (fst (consume m key p now' (snd (serve m rs ws'))))"
proof -
  obtain w where w: "map_of ws' key = Some w" "retryAfterSeconds d = max 1 (- ((- (expiresAt w - now)) div 1000))"
    using assms(2) by (auto simp: consume_def Let_def update_conv')
  have "expiresAt w - now \<le> retryAfterSeconds d * 1000"
    using retry_after_enough [of "expiresAt w - now"] w(2) by linarith
  then have over: "expiresAt w \<le> now'" using assms(5) by linarith
  have ok: "keys_ok ws'" using consume_keys_ok [OF assms(1), of m key p now] assms(2) by simp
  let ?vs = "snd (serve m rs ws')"
  have "v = w" if "map_of (evictIfNeeded m now' ?vs) key = Some v" for v
    using serve_keeps_window [OF ok assms(4) evict_map_of [OF serve_keys_ok [OF ok] that]] w(1) by simp
  then have "live_window key now' (evictIfNeeded m now' ?vs) = None"
    using over by (auto simp: live_window_def split: option.split)
  then show ?thesis
    using assms(6) by (auto simp: consume_def Let_def live_window_def split: option.splits if_splits)
qed

lemma retry_after_is_enough_witness:
  "dec_allowed (fst (consume 5 ''a'' \<lparr>windowSeconds = 60, limit = 1\<rparr> 60000
     (snd (serve 5 [(30, ''b'', \<lparr>windowSeconds = 60, limit = 1\<rparr>)]
       (snd (consume 5 ''a'' \<lparr>windowSeconds = 60, limit = 1\<rparr> 20 [(''a'', \<lparr>expiresAt = 50000, seen = 1\<rparr>)]))))))"
  by (rule retry_after_is_enough [of "[(''a'', \<lparr>expiresAt = 50000, seen = 1\<rparr>)]" 5 "''a''" _ 20, OF _ surjective_pairing])
    (simp_all add: keys_ok_def consume_def evictIfNeeded_def)

end
