(* ===== verification/FeatureCsv.thy ===== *)
theory FeatureCsv
  imports FeatureListing
begin

text \<open>
  packages/contracts/src/documents/feature-csv.ts and spreadsheet-safe.ts: the strict
  eight-column export of the feature listing, the validator that reads it back, and the
  neutralising of text a spreadsheet would run. Hours are finite doubles below \<open>10 ^ 13\<close>, for
  which \<open>String\<close> of a value rounded to hundredths is its decimal without trailing zeros.
\<close>

section \<open>Spreadsheet-safe text\<close>

definition DANGEROUS_LEADS :: "char list" where
  "DANGEROUS_LEADS = [CHR ''='', CHR ''+'', CHR ''-'', CHR ''@'', CHR 0x09, CHR 0x0D]"

definition LITERAL_PREFIX :: char where "LITERAL_PREFIX = CHR 0x27"

definition looksLikeFormula :: "string \<Rightarrow> bool" where
  "looksLikeFormula v = (case v of [] \<Rightarrow> False | lead # _ \<Rightarrow> lead \<in> set DANGEROUS_LEADS)"

definition spreadsheetSafeText :: "string \<Rightarrow> string" where
  "spreadsheetSafeText v = (if v = [] \<or> \<not> looksLikeFormula v then v else LITERAL_PREFIX # v)"

definition isNeutralised :: "string \<Rightarrow> bool" where
  "isNeutralised v = (starts_with v [LITERAL_PREFIX] \<and> looksLikeFormula (drop 1 v))"

definition spreadsheetOriginalText :: "string \<Rightarrow> string" where
  "spreadsheetOriginalText v = (if isNeutralised v then drop 1 v else v)"

section \<open>Cells\<close>

definition FEATURE_CSV_COLUMNS :: "string list" where
  "FEATURE_CSV_COLUMNS =
     [''Module'', ''Sub Module'', ''Screen'', ''Detailed Feature Description'',
      ''Estimated Hours - Backend Dev'', ''Estimated Hours - Frontend Dev'',
      ''Estimated Hours - QA'', ''Estimated Hours - Other Roles (mention role)'']"

definition quote :: char where "quote = CHR 0x22"

definition FEATURE_CSV_HEADER :: string where
  "FEATURE_CSV_HEADER = js_join '','' (map (\<lambda>c. quote # c @ [quote]) FEATURE_CSV_COLUMNS)"

definition CSV_LINE_ENDING :: string where "CSV_LINE_ENDING = [CHR 0x0D, CHR 0x0A]"

text \<open>\<open>replace(/\r?\n/g, ' ')\<close>, \<open>replace(/\s+/g, ' ')\<close> and \<open>replace(/"/g, '""')\<close>.\<close>

fun flatten_lines :: "string \<Rightarrow> string" where
  "flatten_lines [] = []"
| "flatten_lines (c # cs) =
     (if c = CHR 0x0A then CHR '' '' # flatten_lines cs
      else if c = CHR 0x0D \<and> cs \<noteq> [] \<and> hd cs = CHR 0x0A then flatten_lines cs
      else c # flatten_lines cs)"

function collapse_spaces :: "string \<Rightarrow> string" where
  "collapse_spaces [] = []"
| "collapse_spaces (c # cs) =
     (if js_space c then CHR '' '' # collapse_spaces (dropWhile js_space cs)
      else c # collapse_spaces cs)"
  by pat_completeness auto
termination
  by (relation "measure length") (auto simp: le_imp_less_Suc length_dropWhile_le)

fun double_quotes :: "string \<Rightarrow> string" where
  "double_quotes [] = []"
| "double_quotes (c # cs) =
     (if c = quote then quote # quote # double_quotes cs else c # double_quotes cs)"

definition csv_value :: "string \<Rightarrow> string" where
  "csv_value v = js_trim (collapse_spaces (flatten_lines v))"

definition csvField :: "string \<Rightarrow> string" where
  "csvField v = quote # double_quotes (spreadsheetSafeText (csv_value v)) @ [quote]"

text \<open>The decimal of a non-negative number of hundredths, as \<open>String\<close> prints it.\<close>

definition show_hundredths :: "nat \<Rightarrow> string" where
  "show_hundredths n =
     (let whole = show_nat (n div 100); frac = n mod 100
      in if frac = 0 then whole
         else if frac mod 10 = 0 then whole @ ''.'' @ show_nat (frac div 10)
         else whole @ ''.'' @ pad_start 2 (CHR ''0'') (show_nat frac))"

definition csvHours :: "rat option \<Rightarrow> string" where
  "csvHours hours =
     (case hours of
        None \<Rightarrow> []
      | Some h \<Rightarrow>
          if h \<le> 0 then []
          else if is_integer h then show_nat (nat \<lfloor>h\<rfloor>)
          else show_hundredths (nat \<lfloor>h * 100 + 1 / 2\<rfloor>))"

definition detail_glue :: string where
  "detail_glue = '' '' @ [DETAIL_SEPARATOR] @ '' ''"

definition otherRolesCell :: "(string \<Rightarrow> string \<Rightarrow> bool) \<Rightarrow> effort \<Rightarrow> string" where
  "otherRolesCell collate e =
     js_join detail_glue
       (map (\<lambda>(role, hours).
          (case map_of OTHER_ROLE_LABELS role of None \<Rightarrow> role | Some label \<Rightarrow> label)
            @ '': '' @ csvHours (Some hours))
         (otherRoleEffort collate e))"

definition joinDetailPoints :: "string list \<Rightarrow> string" where
  "joinDetailPoints points = js_join detail_glue (filter (\<lambda>p. p \<noteq> []) (map js_trim points))"

definition splitDetailPoints :: "string \<Rightarrow> string list" where
  "splitDetailPoints v = filter (\<lambda>p. p \<noteq> []) (map js_trim (js_split DETAIL_SEPARATOR v))"

section \<open>The document\<close>

definition row_cells :: "(string \<Rightarrow> string \<Rightarrow> bool) \<Rightarrow> feature_row \<Rightarrow> string list" where
  "row_cells collate row =
     (let w = wording row; hours = (\<lambda>i. csvHours (map_of (row_effort row) (CSV_ROLE_COLUMNS ! i)))
      in [feature_module w, submodule w, screen w, description w, hours 0, hours 1, hours 2,
          otherRolesCell collate (row_effort row)])"

definition featureCsvRow :: "(string \<Rightarrow> string \<Rightarrow> bool) \<Rightarrow> feature_row \<Rightarrow> string" where
  "featureCsvRow collate row = js_join '','' (map csvField (row_cells collate row))"

definition featureListingCsv :: "(string \<Rightarrow> string \<Rightarrow> bool) \<Rightarrow> feature_row list \<Rightarrow> string" where
  "featureListingCsv collate rows =
     js_join CSV_LINE_ENDING (FEATURE_CSV_HEADER # map (featureCsvRow collate) rows)
       @ CSV_LINE_ENDING"

section \<open>The validator\<close>

text \<open>
  \<open>read_field value rest\<close> is the inner loop of \<open>splitCsvLine\<close> after an opening quote:
  the value read so far and the rest of the line; it returns the value and what follows the
  closing quote, or \<open>None\<close> for the unterminated field.
\<close>

fun read_field :: "string \<Rightarrow> string \<Rightarrow> (string \<times> string) option" where
  "read_field v [] = None"
| "read_field v (c # cs) =
     (if c = quote
      then (case cs of
              [] \<Rightarrow> Some (v, [])
            | d # ds \<Rightarrow> if d = quote then read_field (v @ [quote]) ds else Some (v, d # ds))
      else read_field (v @ [c]) cs)"

lemma read_field_shorter: "read_field v s = Some (u, rest) \<Longrightarrow> length rest < length s"
  by (induction v s rule: read_field.induct) (fastforce split: if_splits list.splits)+

function split_fields :: "string list \<Rightarrow> string \<Rightarrow> string list option" where
  "split_fields acc [] = Some acc"
| "split_fields acc (c # cs) =
     (if c \<noteq> quote then None
      else (case read_field [] cs of
              None \<Rightarrow> None
            | Some (v, rest) \<Rightarrow>
                (case rest of
                   [] \<Rightarrow> Some (acc @ [v])
                 | d # ds \<Rightarrow>
                     if d \<noteq> CHR '','' \<or> ds = [] then None else split_fields (acc @ [v]) ds)))"
  by pat_completeness auto
termination
  by (relation "measure (\<lambda>(_, s). length s)") (auto dest!: read_field_shorter)

definition splitCsvLine :: "string \<Rightarrow> string list option" where
  "splitCsvLine line = split_fields [] line"

text \<open>\<open>csv.split('\r\n')\<close>.\<close>

fun split_lines :: "string \<Rightarrow> string list" where
  "split_lines [] = [[]]"
| "split_lines [c] = [[c]]"
| "split_lines (c # d # cs) =
     (if c = CHR 0x0D \<and> d = CHR 0x0A then [] # split_lines cs
      else (case split_lines (d # cs) of [] \<Rightarrow> [[c]] | l # ls \<Rightarrow> (c # l) # ls))"

datatype csv_verdict = csv_valid | wrong_header | badly_quoted nat | wrong_count nat nat

fun check_lines :: "nat \<Rightarrow> string list \<Rightarrow> csv_verdict" where
  "check_lines index [] = csv_valid"
| "check_lines index (line # lines) =
     (case splitCsvLine line of
        None \<Rightarrow> badly_quoted (index + 1)
      | Some parts \<Rightarrow>
          if length parts \<noteq> length FEATURE_CSV_COLUMNS
          then wrong_count (index + 1) (length parts)
          else check_lines (index + 1) lines)"

definition validateFeatureCsv :: "string \<Rightarrow> csv_verdict" where
  "validateFeatureCsv csv =
     (let lines = filter (\<lambda>l. l \<noteq> []) (split_lines csv)
      in case lines of
           [] \<Rightarrow> wrong_header
         | header # rest \<Rightarrow>
             if header \<noteq> FEATURE_CSV_HEADER then wrong_header else check_lines 0 rest)"

section \<open>Reading back what was written\<close>

lemma read_field_doubled:
  "rest = [] \<or> hd rest \<noteq> quote \<Longrightarrow>
   read_field v (double_quotes s @ quote # rest) = Some (v @ s, rest)"
  by (induction s arbitrary: v) (auto split: list.splits)

definition quoted :: "string \<Rightarrow> string" where
  "quoted v = quote # double_quotes v @ [quote]"

lemma csvField_quoted: "csvField v = quoted (spreadsheetSafeText (csv_value v))"
  by (simp add: csvField_def quoted_def)

lemma split_quoted_fields:
  "vs \<noteq> [] \<Longrightarrow> split_fields acc (js_join '','' (map quoted vs)) = Some (acc @ vs)"
proof (induction vs arbitrary: acc)
  case (Cons v vs)
  show ?case
  proof (cases vs)
    case Nil
    then show ?thesis
      using read_field_doubled [of "[]" "[]" v] by (simp add: quoted_def)
  next
    case (Cons w ws)
    let ?rest = "js_join '','' (map quoted vs)"
    have "?rest \<noteq> []"
      using Cons by (cases ws) (simp_all add: quoted_def)
    moreover have "read_field [] (double_quotes v @ quote # CHR '','' # ?rest)
        = Some (v, CHR '','' # ?rest)"
      using read_field_doubled [of "CHR '','' # ?rest" "[]" v] by (simp add: quote_def)
    moreover have "js_join '','' (map quoted (v # vs))
        = quote # (double_quotes v @ quote # CHR '','' # ?rest)"
      using Cons by (simp add: quoted_def)
    ultimately show ?thesis
      using Cons.IH [of "acc @ [v]"] Cons by (simp split: list.splits)
  qed
qed simp

lemma row_is_quoted:
  "featureCsvRow collate row =
     js_join '','' (map quoted (map (\<lambda>c. spreadsheetSafeText (csv_value c)) (row_cells collate row)))"
proof -
  have "csvField = (\<lambda>v. quoted (spreadsheetSafeText (csv_value v)))"
    by (rule ext) (rule csvField_quoted)
  then show ?thesis by (simp add: featureCsvRow_def comp_def)
qed

lemma length_row_cells: "length (row_cells collate row) = 8"
  by (simp add: row_cells_def Let_def)

lemma collapse_spaces_chars:
  "c \<in> set (collapse_spaces s) \<Longrightarrow> c = CHR '' '' \<or> (c \<in> set s \<and> \<not> js_space c)"
  by (induction s rule: collapse_spaces.induct) (auto dest: set_dropWhileD split: if_splits)

lemma csv_value_chars: "c \<in> set (csv_value s) \<Longrightarrow> c = CHR '' '' \<or> \<not> js_space c"
  using set_js_trim collapse_spaces_chars unfolding csv_value_def by blast

lemma safe_text_not_formula [simp]: "\<not> looksLikeFormula (spreadsheetSafeText v)"
  by (auto simp: spreadsheetSafeText_def looksLikeFormula_def DANGEROUS_LEADS_def LITERAL_PREFIX_def
      split: list.splits)

lemma split_row:
  "splitCsvLine (featureCsvRow collate row) =
     Some (map (\<lambda>c. spreadsheetSafeText (csv_value c)) (row_cells collate row))"
proof -
  have "row_cells collate row \<noteq> []"
    using length_row_cells [of collate row] by auto
  then show ?thesis
    by (simp add: splitCsvLine_def row_is_quoted split_quoted_fields del: map_map)
qed

text \<open>
  Property C38. An exported row reads back as itself and runs nothing: splitting the line of any row
  gives its eight cells, each the flattened text of the row's cell with an apostrophe before
  it just when it began like a formula, and none of them begins like a formula.
\<close>
theorem exported_row_reads_back:
  "\<exists>cells. splitCsvLine (featureCsvRow collate row) = Some cells
     \<and> cells = map (\<lambda>c. spreadsheetSafeText (csv_value c)) (row_cells collate row)
     \<and> length cells = length FEATURE_CSV_COLUMNS
     \<and> list_all (\<lambda>c. \<not> looksLikeFormula c) cells"
  by (simp add: split_row length_row_cells FEATURE_CSV_COLUMNS_def list_all_length)

text \<open>
  Neutralising is undone exactly: reading a cell back gives the original text unless
  the original itself looks neutralised, and only text that begins like a formula is altered.
\<close>
theorem original_text_iff:
  "(spreadsheetOriginalText (spreadsheetSafeText v) = v \<longleftrightarrow> \<not> isNeutralised v)
   \<and> (spreadsheetSafeText v = v \<longleftrightarrow> \<not> looksLikeFormula v)"
  by (auto simp: spreadsheetOriginalText_def spreadsheetSafeText_def isNeutralised_def
      starts_with_def looksLikeFormula_def DANGEROUS_LEADS_def LITERAL_PREFIX_def split: list.splits)

section \<open>The whole document validates\<close>

lemma split_lines_append:
  "CHR 0x0A \<notin> set l \<Longrightarrow> split_lines (l @ CSV_LINE_ENDING @ s) = l # split_lines s"
proof (induction l rule: split_lines.induct)
  case (3 c d cs)
  then show ?case by (auto simp: CSV_LINE_ENDING_def)
qed (auto simp: CSV_LINE_ENDING_def)

lemma split_joined_lines:
  "ls \<noteq> [] \<Longrightarrow> \<forall>l\<in>set ls. CHR 0x0A \<notin> set l \<Longrightarrow>
   split_lines (js_join CSV_LINE_ENDING ls @ CSV_LINE_ENDING) = ls @ [[]]"
proof (induction "CSV_LINE_ENDING" ls rule: js_join.induct)
  case (2 s)
  then show ?case using split_lines_append [of s "[]"] by simp
next
  case (3 s t ts)
  then show ?case
    using split_lines_append [of s "js_join CSV_LINE_ENDING (t # ts) @ CSV_LINE_ENDING"] by simp
qed simp

lemma double_quotes_chars: "set (double_quotes s) = set s"
  by (induction s) auto

lemma field_no_line_feed: "CHR 0x0A \<notin> set (csvField v)"
proof -
  have "CHR 0x0A \<notin> set (csv_value v)"
    using csv_value_chars [of "CHR 0x0A" v] by (auto simp: js_space_def)
  then show ?thesis
    by (auto simp: csvField_def double_quotes_chars spreadsheetSafeText_def quote_def LITERAL_PREFIX_def)
qed

lemma row_no_line_feed: "CHR 0x0A \<notin> set (featureCsvRow collate row)"
  using set_js_join [of "'',''" "map csvField (row_cells collate row)"] field_no_line_feed
  unfolding featureCsvRow_def by auto

lemma row_not_empty: "featureCsvRow collate row \<noteq> []"
  using length_row_cells [of collate row]
  by (cases "row_cells collate row" rule: remdups_adj.cases) (auto simp: featureCsvRow_def csvField_def)

lemma header_line: "CHR 0x0A \<notin> set FEATURE_CSV_HEADER" "FEATURE_CSV_HEADER \<noteq> []"
  by code_simp+

lemma rows_check: "check_lines index (map (featureCsvRow collate) rows) = csv_valid"
proof (induction rows arbitrary: index)
  case (Cons row rows)
  then show ?case
    by (simp add: split_row length_row_cells FEATURE_CSV_COLUMNS_def)
qed simp

text \<open>
  Property C37. The export satisfies its own contract: whatever the rows hold, quotes, line breaks and
  formulas included, the validator accepts the document.
\<close>
theorem export_is_valid: "validateFeatureCsv (featureListingCsv collate rows) = csv_valid"
proof -
  have "split_lines (featureListingCsv collate rows)
      = (FEATURE_CSV_HEADER # map (featureCsvRow collate) rows) @ [[]]"
    unfolding featureListingCsv_def
    by (rule split_joined_lines) (auto simp: header_line row_no_line_feed)
  moreover have "filter (\<lambda>l. l \<noteq> []) (map (featureCsvRow collate) rows) = map (featureCsvRow collate) rows"
    by (simp add: filter_id_conv row_not_empty)
  ultimately show ?thesis
    by (simp add: validateFeatureCsv_def header_line rows_check)
qed

section \<open>Detail points\<close>

lemma js_trim_space: "js_space c \<Longrightarrow> js_trim (c # s) = js_trim s"
  by (simp add: js_trim_def js_trim_start_def)

lemma js_trim_snoc_space: "js_space c \<Longrightarrow> js_trim (s @ [c]) = js_trim s"
proof -
  assume c: "js_space c"
  show ?thesis
  proof (cases "\<forall>x\<in>set s. js_space x")
    case True
    then have "dropWhile js_space s = []" "dropWhile js_space (s @ [c]) = []"
      using c by (auto simp: dropWhile_eq_Nil_conv)
    then show ?thesis unfolding js_trim_def js_trim_start_def by metis
  next
    case False
    then have "dropWhile js_space (s @ [c]) = dropWhile js_space s @ [c]"
      by (auto simp: dropWhile_append1)
    with c show ?thesis by (simp add: js_trim_def js_trim_start_def js_trim_end_def)
  qed
qed

lemma last_js_trim: "js_trim s \<noteq> [] \<Longrightarrow> \<not> js_space (last (js_trim s))"
  unfolding js_trim_def js_trim_end_def
  by (metis hd_dropWhile last_rev rev_is_Nil_conv)

lemma js_trim_idem [simp]: "js_trim (js_trim s) = js_trim s"
  by (rule js_trim_id) (auto simp: hd_js_trim last_js_trim)

lemma split_glued:
  assumes "\<forall>p\<in>set ps. DETAIL_SEPARATOR \<notin> set p" and "ps \<noteq> []"
  shows "map js_trim (js_split DETAIL_SEPARATOR (js_join detail_glue ps)) = map js_trim ps"
  using assms
proof (induction detail_glue ps rule: js_join.induct)
  case (2 s)
  then show ?case by (simp add: js_split_single)
next
  case (3 s t ts)
  let ?rest = "js_join detail_glue (t # ts)"
  have glue: "js_join detail_glue (s # t # ts) = (s @ '' '') @ DETAIL_SEPARATOR # CHR '' '' # ?rest"
    by (simp add: detail_glue_def)
  obtain y ys where y: "js_split DETAIL_SEPARATOR ?rest = y # ys"
    by (meson js_split_ne neq_Nil_conv)
  have "js_split DETAIL_SEPARATOR (js_join detail_glue (s # t # ts)) = (s @ '' '') # (CHR '' '' # y) # ys"
    using 3(2) y unfolding glue by (subst js_split_append) (auto simp: DETAIL_SEPARATOR_def)
  moreover have "map js_trim (y # ys) = map js_trim (t # ts)"
    using 3 y by simp
  ultimately show ?case
    by (simp add: js_trim_space js_trim_snoc_space js_space_def)
qed simp

text \<open>
  Detail points survive the cell: splitting a cell made of points none of which contains
  the separator gives the trimmed non-empty points back.
\<close>
theorem detail_points_round_trip:
  assumes "\<forall>p\<in>set ps. DETAIL_SEPARATOR \<notin> set p"
  shows "splitDetailPoints (joinDetailPoints ps) = filter (\<lambda>p. p \<noteq> []) (map js_trim ps)"
proof -
  let ?qs = "filter (\<lambda>p. p \<noteq> []) (map js_trim ps)"
  have sep: "\<forall>q\<in>set ?qs. DETAIL_SEPARATOR \<notin> set q"
    using assms set_js_trim by fastforce
  have same: "map js_trim ?qs = ?qs"
    by (rule map_idI) auto
  show ?thesis
  proof (cases "?qs = []")
    case True
    then show ?thesis
      unfolding splitDetailPoints_def joinDetailPoints_def by (simp only:) code_simp
  next
    case False
    show ?thesis
      unfolding splitDetailPoints_def joinDetailPoints_def split_glued [OF sep False] same
      by simp
  qed
qed

lemma detail_points_round_trip_witness:
  "splitDetailPoints (joinDetailPoints ['' a'', [], ''b c '']) = [''a'', ''b c'']"
proof -
  have "\<forall>p\<in>set ['' a'', [], ''b c '']. DETAIL_SEPARATOR \<notin> set p"
    by (simp add: DETAIL_SEPARATOR_def)
  from detail_points_round_trip [OF this] show ?thesis
    by (simp add: js_trim_eval)
qed

text \<open>A cell somebody typed as an apostrophe before an equals sign is read back without it.\<close>

lemma typed_apostrophe_is_lost:
  "spreadsheetOriginalText (spreadsheetSafeText (CHR 0x27 # ''=1'')) = ''=1''"
  by code_simp

end
