(* ===== verification/VersionedRows.thy ===== *)
theory VersionedRows
  imports Prelude
begin

text \<open>
  Rows kept in numbered versions, as the estimation and stack repositories keep their snapshots:
  the conditional write of one row (\<open>findOneAndUpdate\<close>), the query for the newest row, and the
  facts of a chain of versions, proved once for every kind of row.
\<close>

section \<open>Queries and conditional writes\<close>

text \<open>The first row that matches is rewritten; without one nothing is written.\<close>

fun find_and_update :: "('a \<Rightarrow> bool) \<Rightarrow> ('a \<Rightarrow> 'a) \<Rightarrow> 'a list \<Rightarrow> 'a list option" where
  "find_and_update P f [] = None"
| "find_and_update P f (x # xs) =
     (if P x then Some (f x # xs) else map_option ((#) x) (find_and_update P f xs))"

lemma find_and_update_SomeD:
  "find_and_update P f xs = Some ys \<Longrightarrow>
     \<exists>us x vs. xs = us @ x # vs \<and> P x \<and> (\<forall>u \<in> set us. \<not> P u) \<and> ys = us @ f x # vs"
proof (induction xs arbitrary: ys)
  case (Cons a xs)
  show ?case
  proof (cases "P a")
    case True
    then have "a # xs = [] @ a # xs \<and> P a \<and> ys = [] @ f a # xs" using Cons.prems by simp
    then show ?thesis by (metis empty_iff empty_set)
  next
    case False
    then obtain zs where "find_and_update P f xs = Some zs" "ys = a # zs" using Cons.prems by auto
    with Cons.IH obtain us x vs where "xs = us @ x # vs" "P x" "\<forall>u \<in> set us. \<not> P u" "zs = us @ f x # vs" by blast
    then have "a # xs = (a # us) @ x # vs \<and> P x \<and> (\<forall>u \<in> set (a # us). \<not> P u) \<and> ys = (a # us) @ f x # vs"
      using False \<open>ys = a # zs\<close> by simp
    then show ?thesis by blast
  qed
qed simp

lemma find_and_update_None: "find_and_update P f xs = None \<longleftrightarrow> (\<forall>x \<in> set xs. \<not> P x)"
  by (induction xs) auto

lemma find_and_update_last:
  "\<forall>x \<in> set us. \<not> P x \<Longrightarrow> P s \<Longrightarrow> find_and_update P f (us @ [s]) = Some (us @ [f s])"
  by (induction us) auto

text \<open>Under distinct keys a write by key is a map over all rows.\<close>

lemma find_and_update_distinct:
  assumes "distinct (map k xs)" and "x \<in> set xs" and "P x" and "\<And>y. P y \<Longrightarrow> k y = k x"
  shows "find_and_update P f xs = Some (map (\<lambda>y. if k y = k x then f y else y) xs)"
  using assms(1,2)
proof (induction xs)
  case (Cons a xs)
  show ?case
  proof (cases "P a")
    case True
    then have "k a = k x" by (rule assms(4))
    moreover from this have "map (\<lambda>y. if k y = k x then f y else y) xs = xs"
      using Cons.prems(1) by (intro map_idI) (metis distinct.simps(2) image_eqI list.simps(9) set_map)
    ultimately show ?thesis using True by simp
  next
    case False
    then have x: "x \<in> set xs" using Cons.prems(2) assms(3) by auto
    then have "k a \<noteq> k x" using Cons.prems(1) by (metis distinct.simps(2) image_eqI list.simps(9) set_map)
    then show ?thesis using False Cons.IH Cons.prems(1) x by simp
  qed
qed simp

text \<open>The row of the highest version; the first stored of equal versions.\<close>

definition newest_of :: "('a \<Rightarrow> nat) \<Rightarrow> 'a list \<Rightarrow> 'a option" where
  "newest_of ver xs = (case xs of [] \<Rightarrow> None
     | x # rest \<Rightarrow> Some (foldl (\<lambda>best y. if ver best < ver y then y else best) x rest))"

lemma newest_of_simps [simp]: "newest_of ver [] = None" "newest_of ver [x] = Some x"
  by (simp_all add: newest_of_def)

lemma newest_of_in: "newest_of ver xs = Some x \<Longrightarrow> x \<in> set xs"
proof -
  have "foldl (\<lambda>best y. if ver best < ver y then y else best) b ws \<in> insert b (set ws)" for b ws
    by (induction ws arbitrary: b) auto
  then show "newest_of ver xs = Some x \<Longrightarrow> x \<in> set xs"
    by (auto simp: newest_of_def split: list.splits)
qed

lemma newest_of_last:
  assumes "\<forall>x \<in> set us. ver x < ver s"
  shows "newest_of ver (us @ [s]) = Some s"
proof (cases us)
  case (Cons a vs)
  have "newest_of ver us = Some (foldl (\<lambda>best y. if ver best < ver y then y else best) a vs)"
    by (simp add: Cons newest_of_def)
  from newest_of_in [OF this] show ?thesis using assms Cons by (auto simp: newest_of_def)
qed simp

lemma newest_of_increasing:
  assumes "map ver (us @ [s]) = [1..<Suc (Suc (length us))]"
  shows "newest_of ver (us @ [s]) = Some s"
proof (rule newest_of_last, rule ballI)
  fix x assume "x \<in> set us"
  have "map ver us = [1..<Suc (length us)] \<and> ver s = Suc (length us)"
    using assms by (simp del: upt_Suc add: upt_Suc_append)
  moreover from this have "ver x \<in> set [1..<Suc (length us)]"
    using \<open>x \<in> set us\<close> by (metis image_eqI set_map)
  ultimately show "ver x < ver s" by (simp del: upt_Suc)
qed

section \<open>Chains of versions\<close>

text \<open>
  Versions count up from one, all but the last are gone (superseded), and keys are distinct. What
  the repository of a row type owes is that retiring a row leaves its key and version alone.
\<close>

definition version_chain :: "('a \<Rightarrow> nat) \<Rightarrow> ('a \<Rightarrow> bool) \<Rightarrow> ('a \<Rightarrow> string) \<Rightarrow> 'a list \<Rightarrow> bool" where
  "version_chain ver gone key xs \<longleftrightarrow>
     map ver xs = [1..<Suc (length xs)] \<and> list_all gone (butlast xs)
     \<and> (xs = [] \<or> \<not> gone (last xs)) \<and> distinct (map key xs)"

locale versioned_rows =
  fixes ver :: "'a \<Rightarrow> nat" and gone :: "'a \<Rightarrow> bool" and key :: "'a \<Rightarrow> string"
    and retire :: "nat \<Rightarrow> 'a \<Rightarrow> 'a"
  assumes ver_retire [simp]: "ver (retire v x) = ver x"
    and key_retire [simp]: "key (retire v x) = key x"
    and gone_retire [simp]: "gone (retire v x)"
begin

lemma chain_snoc:
  assumes "version_chain ver gone key (us @ [x])"
  shows "\<not> gone x" "list_all gone us" "ver x = Suc (length us)" "key x \<notin> key ` set us"
    "map ver us = [1..<Suc (length us)]" "distinct (map key us)"
  using assms by (auto simp: version_chain_def)

lemma chain_current:
  assumes "version_chain ver gone key (us @ [x])"
  shows "newest_of ver (filter (\<lambda>y. \<not> gone y) (us @ [x])) = Some x"
proof -
  have "filter (\<lambda>y. \<not> gone y) us = []"
    using chain_snoc(2) [OF assms] by (auto simp: filter_empty_conv list_all_iff)
  then show ?thesis using chain_snoc(1) [OF assms] by simp
qed

lemma chain_current_iff:
  assumes "version_chain ver gone key xs"
  shows "newest_of ver (filter (\<lambda>y. \<not> gone y) xs) = Some x \<longleftrightarrow> (\<exists>us. xs = us @ [x])"
  using assms chain_current by (cases xs rule: rev_cases) force+

lemma chain_newest:
  "version_chain ver gone key xs \<Longrightarrow>
     (case newest_of ver xs of None \<Rightarrow> 0 | Some y \<Rightarrow> ver y) = length xs"
  by (cases xs rule: rev_cases) (auto simp: version_chain_def newest_of_increasing)

lemma chain_replace:
  assumes "version_chain ver gone key (us @ [x])" "key y = key x" "ver y = ver x" "\<not> gone y"
  shows "version_chain ver gone key (us @ [y])"
  using assms by (auto simp: version_chain_def)

lemma chain_update:
  assumes "version_chain ver gone key (us @ [x])" "P x" "\<And>y. P y \<Longrightarrow> key y = key x"
  shows "find_and_update P f (us @ [x]) = Some (us @ [f x])"
proof (rule find_and_update_last)
  show "\<forall>z \<in> set us. \<not> P z" using chain_snoc(4) [OF assms(1)] assms(3) by (metis image_eqI)
qed (rule assms(2))

text \<open>A new version is appended and every other one that is still standing is retired.\<close>

lemma chain_extend:
  assumes c: "version_chain ver gone key (us @ [x])" and y: "ver y = Suc (Suc (length us))" "\<not> gone y"
    and fresh: "key y \<notin> key ` set (us @ [x])"
  shows "map (\<lambda>z. if ver z \<noteq> ver y \<and> \<not> gone z then retire v z else z) (us @ [x, y]) = us @ [retire v x, y]"
    and "version_chain ver gone key (us @ [retire v x, y])"
proof -
  have "map (\<lambda>z. if ver z \<noteq> ver y \<and> \<not> gone z then retire v z else z) us = us"
    using chain_snoc(2) [OF c] by (intro map_idI) (auto simp: list_all_iff)
  then show "map (\<lambda>z. if ver z \<noteq> ver y \<and> \<not> gone z then retire v z else z) (us @ [x, y]) = us @ [retire v x, y]"
    using chain_snoc(1,3) [OF c] y by simp
  have "map ver (us @ [retire v x, y]) = [1..<Suc (length (us @ [retire v x, y]))]"
    using chain_snoc(3,5) [OF c] y(1) by (simp add: upt_Suc_append)
  moreover have "list_all gone (butlast (us @ [retire v x, y]))"
    using chain_snoc(2) [OF c] by (simp add: butlast_append)
  moreover have "distinct (map key (us @ [retire v x, y]))"
    using chain_snoc(4,6) [OF c] fresh by auto
  ultimately show "version_chain ver gone key (us @ [retire v x, y])"
    unfolding version_chain_def using y(2) by simp
qed

end

end
