(* ===== verification/DependencyGraph.thy ===== *)
theory DependencyGraph
  imports Prelude
begin

text \<open>
  packages/contracts/src/estimation/dependency.contract.ts: the dependency graph between
  estimate units, the list of everything wrong with it, and the iterative depth-first search
  that finds its cycles. A problem keeps its kind, ids and blocking flag and leaves out the
  sentence. The explicit stack of the search is a list with its top at the head; each search
  step is one pass of the \<open>while\<close> body.
\<close>

section \<open>Data\<close>

datatype DependencyType = FINISH_TO_START | START_TO_START | FINISH_TO_FINISH | START_TO_FINISH

datatype DependencyReason =
    shared_architecture | data_model | integration_contract | test_target | client_dependency
  | deployment_order | design_first | user_defined

record Dependency =
  dep_id :: string
  predecessorId :: string
  successorId :: string
  dep_type :: DependencyType
  reason :: DependencyReason
  lagDays :: int
  userDefined :: bool
  dep_note :: "string option"

datatype DependencyProblemKind =
    cycle | self_reference | missing_predecessor | missing_successor | excluded_task | duplicate

record DependencyProblem =
  problem_kind :: DependencyProblemKind
  problem_ids :: "string list"
  blocking :: bool

record DependencyGraphInput =
  dependencies :: "Dependency list"
  taskIds :: "string list"
  excludedTaskIds :: "string list"

section \<open>Cycle detection\<close>

definition live_ids :: "DependencyGraphInput \<Rightarrow> string list" where
  "live_ids input = filter (\<lambda>i. i \<notin> set (excludedTaskIds input)) (taskIds input)"

type_synonym edge_map = "(string \<times> string list) list"

definition targets :: "edge_map \<Rightarrow> string \<Rightarrow> string list" where
  "targets edges n = (case map_of edges n of Some cs \<Rightarrow> cs | None \<Rightarrow> [])"

definition add_edge :: "string set \<Rightarrow> Dependency \<Rightarrow> edge_map \<Rightarrow> edge_map" where
  "add_edge live d edges =
     (if predecessorId d \<notin> live \<or> successorId d \<notin> live then edges
      else AList.update (predecessorId d) (targets edges (predecessorId d) @ [successorId d]) edges)"

definition edges_of :: "DependencyGraphInput \<Rightarrow> edge_map" where
  "edges_of input = fold (add_edge (set (live_ids input))) (dependencies input) []"

datatype mark = Visiting | Done

record search =
  stack :: "(string \<times> nat) list"
  path :: "string list"
  marks :: "(string \<times> mark) list"
  reported :: "string list"
  cycles :: "string list list"

definition report_cycle :: "string \<Rightarrow> search \<Rightarrow> search" where
  "report_cycle child s =
     (let c = drop (index_of child (path s)) (path s);
          key = js_join ''|'' (sort c)
      in if key \<in> set (reported s) then s
         else s\<lparr>reported := reported s @ [key], cycles := cycles s @ [c]\<rparr>)"

definition enter :: "string \<Rightarrow> search \<Rightarrow> search" where
  "enter n s = s\<lparr>marks := AList.update n Visiting (marks s), path := path s @ [n],
                 stack := (n, 0) # stack s\<rparr>"

definition search_step :: "edge_map \<Rightarrow> search \<Rightarrow> search" where
  "search_step edges s =
     (case stack s of
        [] \<Rightarrow> s
      | (node, childIndex) # rest \<Rightarrow>
          let children = targets edges node
          in if childIndex \<ge> length children then
               s\<lparr>marks := AList.update node Done (marks s), stack := rest, path := butlast (path s)\<rparr>
             else
               let child = children ! childIndex;
                   s' = s\<lparr>stack := (node, Suc childIndex) # rest\<rparr>
               in (case map_of (marks s) child of
                     Some Visiting \<Rightarrow> report_cycle child s'
                   | Some Done \<Rightarrow> s'
                   | None \<Rightarrow> enter child s'))"

text \<open>
  The loop ends: a step either marks one more edge target, or moves one child on, or pops.
\<close>

definition unmarked_targets :: "edge_map \<Rightarrow> search \<Rightarrow> nat" where
  "unmarked_targets edges s =
     card ((\<Union>(n, cs) \<in> set edges. set cs) - dom (map_of (marks s)))"

definition pending :: "edge_map \<Rightarrow> search \<Rightarrow> nat" where
  "pending edges s = (\<Sum>(n, i) \<leftarrow> stack s. Suc (length (targets edges n) - i))"

lemma target_in_edges: "i < length (targets edges n) \<Longrightarrow>
    targets edges n ! i \<in> (\<Union>(n, cs) \<in> set edges. set cs)"
  unfolding targets_def by (auto dest!: map_of_SomeD split: option.splits intro!: bexI)

lemma finite_targets: "finite (\<Union>(n, cs) \<in> set edges. set cs)"
  by auto

lemma search_fields [simp]:
  "stack (report_cycle c s) = stack s" "path (report_cycle c s) = path s"
  "marks (report_cycle c s) = marks s"
  by (simp_all add: report_cycle_def Let_def)

lemma search_step_decreases:
  assumes "stack s \<noteq> []"
  shows "(search_step edges s, s) \<in> measures [unmarked_targets edges, pending edges]"
proof -
  obtain node i rest where st: "stack s = (node, i) # rest"
    using assms by (metis list.exhaust surj_pair)
  let ?U = "\<Union>(n, cs) \<in> set edges. set cs"
  let ?child = "targets edges node ! i"
  show ?thesis
  proof (cases "i \<ge> length (targets edges node)")
    case True
    let ?s = "search_step edges s"
    have s: "?s = s\<lparr>marks := AList.update node Done (marks s), stack := rest, path := butlast (path s)\<rparr>"
      using True st by (simp add: search_step_def)
    have "unmarked_targets edges ?s \<le> unmarked_targets edges s"
      unfolding s unmarked_targets_def by (intro card_mono) (auto simp: update_conv' split: if_splits)
    moreover have "pending edges ?s < pending edges s" by (simp add: s st pending_def)
    ultimately show ?thesis by auto
  next
    case False
    then have less: "i < length (targets edges node)" by simp
    show ?thesis
    proof (cases "map_of (marks s) ?child")
      case None
      have "?child \<in> ?U - dom (map_of (marks s))"
        using target_in_edges [OF less] None by auto
      then have "card (?U - insert ?child (dom (map_of (marks s)))) < card (?U - dom (map_of (marks s)))"
        by (intro psubset_card_mono) auto
      then show ?thesis
        using False st None
        by (simp add: search_step_def unmarked_targets_def enter_def update_conv' Let_def)
    next
      case (Some m)
      have "unmarked_targets edges (search_step edges s) = unmarked_targets edges s"
        using Some False st
        by (cases m) (simp_all add: search_step_def unmarked_targets_def Let_def)
      moreover have "pending edges (search_step edges s) < pending edges s"
        using Some False st less
        by (cases m) (simp_all add: search_step_def pending_def Let_def)
      ultimately show ?thesis by auto
    qed
  qed
qed

function search_loop :: "edge_map \<Rightarrow> search \<Rightarrow> search" where
  "search_loop edges s = (if stack s = [] then s else search_loop edges (search_step edges s))"
  by pat_completeness auto
termination
  by (relation "inv_image (measures [\<lambda>(e, s). unmarked_targets e s, \<lambda>(e, s). pending e s]) id")
    (use search_step_decreases in \<open>auto simp: in_measures\<close>)

declare search_loop.simps [simp del]

definition search_from :: "edge_map \<Rightarrow> string \<Rightarrow> search \<Rightarrow> search" where
  "search_from edges start s =
     (if map_of (marks s) start \<noteq> None then s
      else search_loop edges (enter start (s\<lparr>path := [], stack := []\<rparr>)))"

definition no_search :: search where
  "no_search = \<lparr>stack = [], path = [], marks = [], reported = [], cycles = []\<rparr>"

definition detectCycles :: "DependencyGraphInput \<Rightarrow> string list list" where
  "detectCycles input =
     cycles (fold (search_from (edges_of input)) (sort (remdups (live_ids input))) no_search)"

section \<open>Everything wrong with the graph\<close>

primrec type_name :: "DependencyType \<Rightarrow> string" where
  "type_name FINISH_TO_START = ''FINISH_TO_START''"
| "type_name START_TO_START = ''START_TO_START''"
| "type_name FINISH_TO_FINISH = ''FINISH_TO_FINISH''"
| "type_name START_TO_FINISH = ''START_TO_FINISH''"

definition pair_key :: "Dependency \<Rightarrow> string" where
  "pair_key d = predecessorId d @ ''->'' @ successorId d @ '':'' @ type_name (dep_type d)"

definition endpoint_problem ::
  "DependencyGraphInput \<Rightarrow> Dependency \<Rightarrow> string \<Rightarrow> DependencyProblemKind \<Rightarrow> DependencyProblem list" where
  "endpoint_problem input d i missing =
     (if i \<in> set (excludedTaskIds input)
      then [\<lparr>problem_kind = excluded_task, problem_ids = [dep_id d], blocking = False\<rparr>]
      else if i \<notin> set (taskIds input)
      then [\<lparr>problem_kind = missing, problem_ids = [dep_id d], blocking = False\<rparr>]
      else [])"

fun dependency_problems ::
  "DependencyGraphInput \<Rightarrow> string list \<Rightarrow> Dependency list \<Rightarrow> DependencyProblem list" where
  "dependency_problems input seen [] = []"
| "dependency_problems input seen (d # ds) =
     (if predecessorId d = successorId d
      then \<lparr>problem_kind = self_reference, problem_ids = [dep_id d], blocking = True\<rparr>
             # dependency_problems input seen ds
      else
        let pairKey = pair_key d
        in (if pairKey \<in> set seen
            then [\<lparr>problem_kind = duplicate, problem_ids = [dep_id d], blocking = False\<rparr>] else []) @
           endpoint_problem input d (predecessorId d) missing_predecessor @
           endpoint_problem input d (successorId d) missing_successor @
           dependency_problems input (pairKey # seen) ds)"

definition cycle_problem :: "string list \<Rightarrow> DependencyProblem" where
  "cycle_problem c = \<lparr>problem_kind = cycle, problem_ids = c, blocking = True\<rparr>"

definition validateDependencies :: "DependencyGraphInput \<Rightarrow> DependencyProblem list" where
  "validateDependencies input =
     dependency_problems input [] (dependencies input) @ map cycle_problem (detectCycles input)"

definition hasBlockingDependencyProblem :: "DependencyProblem list \<Rightarrow> bool" where
  "hasBlockingDependencyProblem problems = list_ex blocking problems"

section \<open>The edges of the graph\<close>

definition live_edges :: "DependencyGraphInput \<Rightarrow> (string \<times> string) set" where
  "live_edges input =
     {(predecessorId d, successorId d) | d.
        d \<in> set (dependencies input) \<and> predecessorId d \<in> set (live_ids input) \<and>
        successorId d \<in> set (live_ids input)}"

definition edge_rel :: "edge_map \<Rightarrow> (string \<times> string) set" where
  "edge_rel edges = {(a, b). b \<in> set (targets edges a)}"

lemma targets_update [simp]:
  "targets (AList.update n cs edges) m = (if m = n then cs else targets edges m)"
  by (simp add: targets_def update_conv')

lemma targets_fold_add_edge:
  "set (targets (fold (add_edge live) ds edges) a) =
   set (targets edges a) \<union>
   {successorId d | d. d \<in> set ds \<and> predecessorId d = a \<and> a \<in> live \<and> successorId d \<in> live}"
  by (induction ds arbitrary: edges) (auto simp: add_edge_def)

lemma edge_rel_edges_of: "edge_rel (edges_of input) = live_edges input"
  by (auto simp: edge_rel_def edges_of_def targets_fold_add_edge live_edges_def targets_def [of "[]"])

definition real_cycle :: "(string \<times> string) set \<Rightarrow> string list \<Rightarrow> bool" where
  "real_cycle E c =
     (c \<noteq> [] \<and> distinct c \<and> successively (\<lambda>a b. (a, b) \<in> E) c \<and> (last c, hd c) \<in> E)"

lemma successively_path: "successively (\<lambda>a b. (a, b) \<in> E) (x # xs) \<Longrightarrow> (x, last (x # xs)) \<in> E\<^sup>*"
  by (induction xs arbitrary: x) (auto intro: converse_rtrancl_into_rtrancl)

lemma real_cycle_trancl: "real_cycle E c \<Longrightarrow> (hd c, hd c) \<in> E\<^sup>+"
  by (cases c) (auto simp: real_cycle_def dest!: successively_path intro: rtrancl_into_trancl1)

section \<open>The invariant of the search\<close>

definition done_set :: "search \<Rightarrow> string set" where
  "done_set s = {n. map_of (marks s) n = Some Done}"

fun frames_ok :: "edge_map \<Rightarrow> string set \<Rightarrow> string set \<Rightarrow> (string \<times> nat) list \<Rightarrow> bool" where
  "frames_ok e D A [] = True"
| "frames_ok e D A ((n, i) # fs) = (set (take i (targets e n)) \<subseteq> D \<union> A \<and> frames_ok e D {n} fs)"

definition found_nothing :: "edge_map \<Rightarrow> search \<Rightarrow> bool" where
  "found_nothing e s =
     (edge_rel e `` done_set s \<subseteq> done_set s \<and>
      (\<forall>n \<in> done_set s. (n, n) \<notin> (edge_rel e)\<^sup>+) \<and>
      frames_ok e (done_set s) {} (stack s))"

definition search_inv :: "edge_map \<Rightarrow> search \<Rightarrow> bool" where
  "search_inv e s =
     (map fst (stack s) = rev (path s) \<and> distinct (path s) \<and>
      (\<forall>n. map_of (marks s) n = Some Visiting \<longleftrightarrow> n \<in> set (path s)) \<and>
      successively (\<lambda>a b. (a, b) \<in> edge_rel e) (path s) \<and>
      list_all (real_cycle (edge_rel e)) (cycles s) \<and>
      (reported s = [] \<longleftrightarrow> cycles s = []) \<and>
      (cycles s = [] \<longrightarrow> found_nothing e s))"

lemma frames_ok_mono: "frames_ok e D A fs \<Longrightarrow> D \<subseteq> D' \<Longrightarrow> A \<subseteq> D' \<union> A' \<Longrightarrow> frames_ok e D' A' fs"
proof (induction fs arbitrary: A A')
  case (Cons f fs)
  obtain n i where "f = (n, i)" by fastforce
  with Cons show ?case by auto
qed simp

lemma closed_rtrancl: "(c, n) \<in> E\<^sup>* \<Longrightarrow> c \<in> D \<Longrightarrow> E `` D \<subseteq> D \<Longrightarrow> n \<in> D"
  by (induction rule: rtrancl_induct) auto

lemma pop_inv:
  assumes inv: "search_inv e s" and st: "stack s = (n, i) # rest" and le: "length (targets e n) \<le> i"
  shows "search_inv e (s\<lparr>marks := AList.update n Done (marks s), stack := rest, path := butlast (path s)\<rparr>)"
    (is "search_inv e ?s")
proof -
  from inv st have "rev (path s) = n # map fst rest" by (simp add: search_inv_def)
  then have path: "path s = rev (map fst rest) @ [n]" by (simp add: rev_eq_Cons_iff)
  from inv have vis: "map_of (marks s) m = Some Visiting \<longleftrightarrow> m \<in> set (path s)" for m
    by (simp add: search_inv_def)
  have fresh: "n \<notin> set (butlast (path s))"
    using inv unfolding search_inv_def path by simp
  have done': "done_set ?s = insert n (done_set s)" by (auto simp: done_set_def update_conv')
  have "found_nothing e ?s" if none: "cycles s = []"
  proof -
    from inv none have closed: "edge_rel e `` done_set s \<subseteq> done_set s"
      and acyc: "\<forall>m \<in> done_set s. (m, m) \<notin> (edge_rel e)\<^sup>+"
      and fr: "frames_ok e (done_set s) {} (stack s)"
      by (auto simp: search_inv_def found_nothing_def)
    from fr st le have kids: "edge_rel e `` {n} \<subseteq> done_set s"
      by (auto simp: edge_rel_def)
    have "n \<notin> done_set s" using vis [of n] path by (auto simp: done_set_def)
    with kids closed have "(n, n) \<notin> (edge_rel e)\<^sup>+"
      by (auto dest!: tranclD dest: closed_rtrancl)
    moreover have "frames_ok e (insert n (done_set s)) {} rest"
      using fr st by (auto elim: frames_ok_mono)
    ultimately show ?thesis
      using closed acyc kids by (auto simp: found_nothing_def done')
  qed
  with inv show ?thesis
    using fresh path vis
    by (auto simp: search_inv_def update_conv' successively_append_iff)
qed

lemma skip_inv:
  assumes inv: "search_inv e s" and st: "stack s = (n, i) # rest" and lt: "i < length (targets e n)"
    and dn: "map_of (marks s) (targets e n ! i) = Some Done"
  shows "search_inv e (s\<lparr>stack := (n, Suc i) # rest\<rparr>)"
proof -
  have "found_nothing e (s\<lparr>stack := (n, Suc i) # rest\<rparr>)" if "found_nothing e s"
    using that st lt dn
    by (auto simp: found_nothing_def done_set_def take_Suc_conv_app_nth)
  with inv st show ?thesis by (simp add: search_inv_def)
qed

lemma cycle_inv:
  assumes inv: "search_inv e s" and st: "stack s = (n, i) # rest" and lt: "i < length (targets e n)"
    and vi: "map_of (marks s) (targets e n ! i) = Some Visiting"
  shows "search_inv e (report_cycle (targets e n ! i) (s\<lparr>stack := (n, Suc i) # rest\<rparr>))"
    and "cycles (report_cycle (targets e n ! i) (s\<lparr>stack := (n, Suc i) # rest\<rparr>)) \<noteq> []"
proof -
  let ?c = "targets e n ! i"
  let ?p = "path s" and ?k = "index_of ?c (path s)"
  from inv vi have mem: "?c \<in> set ?p" by (simp add: search_inv_def)
  from inv st have "rev ?p = n # map fst rest" by (simp add: search_inv_def)
  then have last: "last ?p = n" "?p \<noteq> []" by (simp_all add: rev_eq_Cons_iff)
  have k: "?k < length ?p" and at: "?p ! ?k = ?c" using mem by simp_all
  have edge: "(n, ?c) \<in> edge_rel e" using lt by (simp add: edge_rel_def)
  have "successively (\<lambda>a b. (a, b) \<in> edge_rel e) (drop ?k ?p)"
    using inv by (metis append_take_drop_id search_inv_def successively_append_iff)
  then have real: "real_cycle (edge_rel e) (drop ?k ?p)"
    using inv k at last edge by (simp add: real_cycle_def search_inv_def hd_drop_conv_nth)
  show ne: "cycles (report_cycle ?c (s\<lparr>stack := (n, Suc i) # rest\<rparr>)) \<noteq> []"
    using inv by (auto simp: report_cycle_def Let_def search_inv_def)
  show "search_inv e (report_cycle ?c (s\<lparr>stack := (n, Suc i) # rest\<rparr>))"
    using inv st real ne by (auto simp: search_inv_def report_cycle_def Let_def)
qed

lemma enter_inv:
  assumes inv: "search_inv e s" and new: "map_of (marks s) m = None"
    and fr: "cycles s = [] \<Longrightarrow> frames_ok e (done_set s) {m} fs" and keep: "map fst fs = map fst (stack s)"
    and edge: "path s \<noteq> [] \<Longrightarrow> (last (path s), m) \<in> edge_rel e"
  shows "search_inv e (enter m (s\<lparr>stack := fs\<rparr>))"
proof -
  from inv new have "m \<notin> set (path s)"
    by (metis option.distinct(1) search_inv_def)
  moreover have "done_set (enter m (s\<lparr>stack := fs\<rparr>)) = done_set s"
    using new by (auto simp: done_set_def enter_def update_conv')
  ultimately show ?thesis
    using assms
    by (auto simp: search_inv_def enter_def update_conv' successively_append_iff found_nothing_def)
qed

lemma search_step_inv: "search_inv e s \<Longrightarrow> search_inv e (search_step e s)"
proof (cases "stack s")
  case (Cons f rest)
  assume inv: "search_inv e s"
  obtain n i where f: "f = (n, i)" by fastforce
  note st = Cons [unfolded f]
  show ?thesis
  proof (cases "length (targets e n) \<le> i")
    case True
    with pop_inv [OF inv st] st show ?thesis by (simp add: search_step_def)
  next
    case False
    then have lt: "i < length (targets e n)" by simp
    show ?thesis
    proof (cases "map_of (marks s) (targets e n ! i)")
      case None
      have "rev (path s) = n # map fst rest" using inv st by (simp add: search_inv_def)
      then have "last (path s) = n" by (simp add: rev_eq_Cons_iff)
      moreover have "frames_ok e (done_set s) {targets e n ! i} ((n, Suc i) # rest)" if "cycles s = []"
        using inv st lt that
        by (auto simp: search_inv_def found_nothing_def take_Suc_conv_app_nth)
      ultimately have "search_inv e (enter (targets e n ! i) (s\<lparr>stack := (n, Suc i) # rest\<rparr>))"
        using lt st by (intro enter_inv [OF inv None]) (auto simp: edge_rel_def)
      with st lt None show ?thesis by (simp add: search_step_def)
    next
      case (Some m)
      then show ?thesis
        using skip_inv [OF inv st lt] cycle_inv [OF inv st lt] st lt
        by (cases m) (simp_all add: search_step_def)
    qed
  qed
qed (simp add: search_step_def)

lemma search_step_dom: "dom (map_of (marks s)) \<subseteq> dom (map_of (marks (search_step e s)))"
  by (auto simp: search_step_def Let_def enter_def update_conv'
      split: list.splits prod.splits option.splits mark.splits)

lemma search_loop_spec:
  "search_inv e s \<Longrightarrow>
     search_inv e (search_loop e s) \<and> stack (search_loop e s) = [] \<and>
     dom (map_of (marks s)) \<subseteq> dom (map_of (marks (search_loop e s)))"
proof (induction e s rule: search_loop.induct)
  case (1 e s)
  show ?case
  proof (cases "stack s = []")
    case True
    then have "search_loop e s = s" by (subst search_loop.simps) simp
    with 1 True show ?thesis by simp
  next
    case False
    then have "search_loop e s = search_loop e (search_step e s)"
      by (subst search_loop.simps) simp
    with "1.IH" [OF False search_step_inv [OF "1.prems"]] search_step_dom [of s e]
    show ?thesis by (metis subset_trans)
  qed
qed

lemma search_from_spec:
  assumes "search_inv e s" and "stack s = []"
  shows "search_inv e (search_from e n s) \<and> stack (search_from e n s) = [] \<and>
    insert n (dom (map_of (marks s))) \<subseteq> dom (map_of (marks (search_from e n s)))"
proof (cases "map_of (marks s) n")
  case None
  have p: "path s = []" using assms by (simp add: search_inv_def)
  have s: "s\<lparr>path := [], stack := []\<rparr> = s\<lparr>stack := []\<rparr>" using p by simp
  have "search_inv e (enter n (s\<lparr>stack := []\<rparr>))"
    by (rule enter_inv [OF assms(1) None]) (simp_all add: assms(2) p)
  from search_loop_spec [OF this] None s show ?thesis
    by (auto simp: search_from_def) (auto simp: enter_def update_conv')
next
  case (Some m)
  with assms show ?thesis by (auto simp: search_from_def)
qed

lemma search_all_spec:
  "search_inv e s \<Longrightarrow> stack s = [] \<Longrightarrow>
     search_inv e (fold (search_from e) ns s) \<and> stack (fold (search_from e) ns s) = [] \<and>
     set ns \<union> dom (map_of (marks s)) \<subseteq> dom (map_of (marks (fold (search_from e) ns s)))"
proof (induction ns arbitrary: s)
  case (Cons n ns)
  from search_from_spec [OF Cons.prems, of n]
  have one: "search_inv e (search_from e n s)" "stack (search_from e n s) = []"
    "insert n (dom (map_of (marks s))) \<subseteq> dom (map_of (marks (search_from e n s)))" by auto
  from Cons.IH [OF one(1,2)] one(3) show ?case
    by (simp only: fold_simps comp_apply list.set) (blast intro: subset_trans)
qed simp

lemma no_search_inv: "search_inv e no_search"
  by (simp add: search_inv_def no_search_def found_nothing_def done_set_def)

lemma detectCycles_spec:
  shows detectCycles_sound: "list_all (real_cycle (live_edges input)) (detectCycles input)"
    and detectCycles_complete: "(x, x) \<in> (live_edges input)\<^sup>+ \<Longrightarrow> detectCycles input \<noteq> []"
proof -
  let ?e = "edges_of input"
  let ?s = "fold (search_from ?e) (sort (remdups (live_ids input))) no_search"
  have s: "search_inv ?e ?s" "stack ?s = []" "set (live_ids input) \<subseteq> dom (map_of (marks ?s))"
    using search_all_spec [OF no_search_inv, of ?e "sort (remdups (live_ids input))"]
    by (auto simp: no_search_def)
  have c: "detectCycles input = cycles ?s" by (simp add: detectCycles_def)
  show "list_all (real_cycle (live_edges input)) (detectCycles input)"
    using s(1) by (simp add: c search_inv_def edge_rel_edges_of)
  assume x: "(x, x) \<in> (live_edges input)\<^sup>+"
  then obtain y where "(x, y) \<in> live_edges input" by (auto dest: tranclD)
  then have "x \<in> set (live_ids input)" by (auto simp: live_edges_def)
  with s(3) obtain m where m: "map_of (marks ?s) x = Some m" by auto
  moreover have "map_of (marks ?s) x \<noteq> Some Visiting"
    using s(1,2) by (simp add: search_inv_def)
  ultimately have "x \<in> done_set ?s" by (cases m) (auto simp: done_set_def)
  with x s(1) show "detectCycles input \<noteq> []"
    by (auto simp: c search_inv_def found_nothing_def edge_rel_edges_of)
qed

section \<open>What validation means\<close>

text \<open>
  Property C20. Cycle detection is exact: it reports something exactly when the graph of the
  dependencies between tasks of the plan has a cycle, and everything it reports is one.\<close>

theorem detectCycles_exact:
  "(detectCycles input \<noteq> [] \<longleftrightarrow> (\<exists>x. (x, x) \<in> (live_edges input)\<^sup>+)) \<and>
   list_all (real_cycle (live_edges input)) (detectCycles input)"
proof -
  have "\<exists>x. (x, x) \<in> (live_edges input)\<^sup>+" if "detectCycles input \<noteq> []"
  proof -
    from that obtain c where "c \<in> set (detectCycles input)" by (meson list.set_sel(1))
    with detectCycles_sound [of input] real_cycle_trancl show ?thesis
      unfolding list_all_iff by blast
  qed
  with detectCycles_sound detectCycles_complete show ?thesis by blast
qed

lemma endpoint_problem_simps:
  "\<not> list_ex blocking (endpoint_problem input d i k)"
  "endpoint_problem input d i k = [] \<longleftrightarrow> i \<notin> set (excludedTaskIds input) \<and> i \<in> set (taskIds input)"
  by (simp_all add: endpoint_problem_def)

lemma dependency_problems_blocking:
  "list_ex blocking (dependency_problems input seen ds) =
   list_ex (\<lambda>d. predecessorId d = successorId d) ds"
  by (induction ds arbitrary: seen) (simp_all add: endpoint_problem_simps Let_def)

lemma dependency_problems_none:
  "dependency_problems input seen ds = [] \<longleftrightarrow>
   list_all (\<lambda>d. predecessorId d \<noteq> successorId d \<and> predecessorId d \<in> set (live_ids input) \<and>
                  successorId d \<in> set (live_ids input)) ds \<and>
   distinct (map pair_key ds) \<and> set (map pair_key ds) \<inter> set seen = {}"
  by (induction ds arbitrary: seen) (auto simp: endpoint_problem_simps Let_def live_ids_def)

text \<open>
  The approval gate: the list of problems blocks exactly when a task waits for
  itself, directly or round a cycle of tasks in the plan.\<close>

theorem blocking_iff_cyclic:
  "hasBlockingDependencyProblem (validateDependencies input) \<longleftrightarrow>
   list_ex (\<lambda>d. predecessorId d = successorId d) (dependencies input) \<or>
   (\<exists>x. (x, x) \<in> (live_edges input)\<^sup>+)"
proof -
  have "list_ex blocking (map cycle_problem cs) \<longleftrightarrow> cs \<noteq> []" for cs
    by (cases cs) (auto simp: cycle_problem_def)
  then show ?thesis
    using detectCycles_sound [of input] detectCycles_complete [of _ input] real_cycle_trancl
    unfolding hasBlockingDependencyProblem_def validateDependencies_def list_ex_append
      dependency_problems_blocking list_all_iff
    by (metis list.set_sel(1))
qed

text \<open>
  A graph has nothing wrong with it exactly when every dependency joins two
  different tasks of the plan, none is recorded twice, and the relation is acyclic.\<close>

theorem clean_graph_iff:
  "validateDependencies input = [] \<longleftrightarrow>
   list_all (\<lambda>d. predecessorId d \<noteq> successorId d \<and> predecessorId d \<in> set (live_ids input) \<and>
                  successorId d \<in> set (live_ids input)) (dependencies input) \<and>
   distinct (map pair_key (dependencies input)) \<and> acyclic (live_edges input)"
proof -
  have "detectCycles input = [] \<longleftrightarrow> acyclic (live_edges input)"
    using detectCycles_sound [of input] detectCycles_complete [of _ input] real_cycle_trancl
    unfolding acyclic_def list_all_iff by (metis list.set_sel(1))
  then show ?thesis
    by (auto simp: validateDependencies_def dependency_problems_none)
qed

text \<open>Two cycles that share their ends: the search reports the first only.\<close>

definition waits :: "string \<Rightarrow> string \<Rightarrow> Dependency" where
  "waits a b = \<lparr>dep_id = a @ b, predecessorId = a, successorId = b, dep_type = FINISH_TO_START,
     reason = user_defined, lagDays = 0, userDefined = True, dep_note = None\<rparr>"

definition two_cycles :: DependencyGraphInput where
  "two_cycles = \<lparr>dependencies = [waits ''a'' ''b'', waits ''a'' ''c'', waits ''b'' ''d'',
       waits ''c'' ''d'', waits ''d'' ''a''],
     taskIds = [''a'', ''b'', ''c'', ''d''], excludedTaskIds = []\<rparr>"

lemma two_cycles_reported: "detectCycles two_cycles = [[''a'', ''b'', ''d'']]"
  by code_simp

lemma two_cycles_missed: "real_cycle (live_edges two_cycles) [''a'', ''c'', ''d'']"
proof -
  have "list_all (\<lambda>(a, b). b \<in> set (targets (edges_of two_cycles) a))
      [(''a'', ''c''), (''c'', ''d''), (''d'', ''a'')]" by code_simp
  then show ?thesis by (simp add: real_cycle_def edge_rel_edges_of [symmetric] edge_rel_def)
qed

end
