(* ===== verification/Calendar.thy ===== *)
theory Calendar
  imports JsNumber
begin

text \<open>
  packages/contracts/src/estimation/calendar.contract.ts: which days people work and the
  arithmetic on them. A calendar date is its day number, the days since 1970-01-01 (a
  Thursday): the strings the date schema accepts are the canonical names of these numbers, so
  equality of strings is equality of numbers, and adding a day is adding one.

  The interface \<open>working_days\<close> is what the arithmetic needs of \<open>nextWorkingDay\<close>; a calendar
  that passes its schema provides it.
\<close>

section \<open>Calendars\<close>

record WorkingCalendar =
  workingWeekdays :: "int list"
  hoursPerDay :: rat
  holidays :: "int list"
  clientReviewDays :: int
  uatDays :: int
  deploymentDays :: int

definition maxHolidays :: nat where "maxHolidays = 200"

definition maxScheduleDays :: nat where "maxScheduleDays = 5000"

definition workingCalendarSchema :: "WorkingCalendar \<Rightarrow> bool" where
  "workingCalendarSchema c =
     (list_all (\<lambda>w. 0 \<le> w \<and> w \<le> 6) (workingWeekdays c) \<and>
      1 \<le> length (workingWeekdays c) \<and> length (workingWeekdays c) \<le> 7 \<and>
      1 \<le> hoursPerDay c \<and> hoursPerDay c \<le> 24 \<and> length (holidays c) \<le> maxHolidays \<and>
      list_all (\<lambda>n. 0 \<le> n \<and> n \<le> 365) [clientReviewDays c, uatDays c, deploymentDays c])"

definition DEFAULT_CALENDAR :: WorkingCalendar where
  "DEFAULT_CALENDAR = \<lparr>workingWeekdays = [1, 2, 3, 4, 5], hoursPerDay = 13 / 2, holidays = [],
     clientReviewDays = 0, uatDays = 0, deploymentDays = 0\<rparr>"

definition weekday :: "int \<Rightarrow> int" where
  "weekday date = (date + 4) mod 7"

definition addDays :: "int \<Rightarrow> int \<Rightarrow> int" where
  "addDays date days = date + days"

definition isWorkingDay :: "int \<Rightarrow> WorkingCalendar \<Rightarrow> bool" where
  "isWorkingDay date c = (weekday date \<in> set (workingWeekdays c) \<and> date \<notin> set (holidays c))"

section \<open>Walking the calendar\<close>

text \<open>A loop of the code with its step bound is a recursion on the steps left.\<close>

fun next_within :: "nat \<Rightarrow> int \<Rightarrow> WorkingCalendar \<Rightarrow> int" where
  "next_within 0 candidate c = candidate"
| "next_within (Suc n) candidate c =
     (if isWorkingDay candidate c then candidate else next_within n (addDays candidate 1) c)"

definition nextWorkingDay :: "int \<Rightarrow> WorkingCalendar \<Rightarrow> int" where
  "nextWorkingDay date c = next_within maxScheduleDays date c"

fun advance :: "nat \<Rightarrow> int \<Rightarrow> WorkingCalendar \<Rightarrow> int" where
  "advance 0 current c = current"
| "advance (Suc remaining) current c =
     advance remaining (nextWorkingDay (addDays current 1) c) c"

definition addWorkingDays :: "int \<Rightarrow> int \<Rightarrow> WorkingCalendar \<Rightarrow> int" where
  "addWorkingDays start n c =
     (if n \<le> 0 then nextWorkingDay start c else advance (nat (n - 1)) (nextWorkingDay start c) c)"

fun count_within :: "nat \<Rightarrow> int \<Rightarrow> int \<Rightarrow> WorkingCalendar \<Rightarrow> int \<Rightarrow> int" where
  "count_within 0 current to c n = n"
| "count_within (Suc k) current to c n =
     (let n' = (if isWorkingDay current c then n + 1 else n)
      in if current = to then n' else count_within k (addDays current 1) to c n')"

definition workingDaysBetween :: "int \<Rightarrow> int \<Rightarrow> WorkingCalendar \<Rightarrow> int" where
  "workingDaysBetween start to c =
     (if to < start then 0 else count_within maxScheduleDays start to c 0)"

section \<open>Timelines\<close>

datatype Timeline =
    WORKING_DAYS int
  | WEEKS int
  | MONTHS int
  | FIXED_DEADLINE int

definition workingDaysInWeeks :: "rat \<Rightarrow> WorkingCalendar \<Rightarrow> int" where
  "workingDaysInWeeks weeks c = \<lfloor>js_mult weeks (of_nat (length (workingWeekdays c)))\<rfloor>"

fun timelineWorkingDays :: "Timeline \<Rightarrow> WorkingCalendar \<Rightarrow> int option \<Rightarrow> int option" where
  "timelineWorkingDays (WORKING_DAYS n) c startDate = Some n"
| "timelineWorkingDays (WEEKS n) c startDate = Some (workingDaysInWeeks (of_int n) c)"
| "timelineWorkingDays (MONTHS n) c startDate =
     Some (workingDaysInWeeks (js_mult (of_int n) (round_double (4345 / 1000))) c)"
| "timelineWorkingDays (FIXED_DEADLINE deadline) c startDate =
     map_option (\<lambda>start. workingDaysBetween start deadline c) startDate"

definition isMaterialCalendarChange :: "WorkingCalendar \<Rightarrow> WorkingCalendar \<Rightarrow> bool" where
  "isMaterialCalendarChange before after =
     (hoursPerDay before \<noteq> hoursPerDay after \<or>
      length (workingWeekdays before) \<noteq> length (workingWeekdays after) \<or>
      sort (workingWeekdays before) \<noteq> sort (workingWeekdays after) \<or>
      length (holidays before) \<noteq> length (holidays after) \<or>
      clientReviewDays before \<noteq> clientReviewDays after \<or>
      uatDays before \<noteq> uatDays after \<or>
      deploymentDays before \<noteq> deploymentDays after)"

section \<open>The interface of a walkable calendar\<close>

locale working_days =
  fixes working :: "int \<Rightarrow> bool"
    and next_day :: "int \<Rightarrow> int"
  assumes next_working: "working (next_day d)"
    and next_ge: "d \<le> next_day d"
    and next_least: "d \<le> e \<Longrightarrow> e < next_day d \<Longrightarrow> \<not> working e"
begin

definition days_in :: "int \<Rightarrow> int \<Rightarrow> int set" where
  "days_in a b = {e. a \<le> e \<and> e \<le> b \<and> working e}"

lemma finite_days_in [simp]: "finite (days_in a b)"
  by (rule finite_subset [of _ "{a..b}"]) (auto simp: days_in_def)

lemma days_in_next: "days_in d (next_day d) = {next_day d}"
  using next_working [of d] next_ge [of d] next_least [of d]
  by (force simp: days_in_def)

lemma days_in_step:
  assumes "a \<le> b"
  shows "days_in a (next_day (b + 1)) = insert (next_day (b + 1)) (days_in a b)"
    and "next_day (b + 1) \<notin> days_in a b"
proof -
  let ?n = "next_day (b + 1)"
  have n: "b < ?n" "working ?n" using next_ge [of "b + 1"] next_working [of "b + 1"] by simp_all
  have gap: "e \<le> b" if "e < ?n" "working e" for e
    using next_least [of "b + 1" e] that by linarith
  show "?n \<notin> days_in a b" using n by (simp add: days_in_def)
  show "days_in a ?n = insert ?n (days_in a b)"
    using n gap assms by (auto simp: days_in_def)
qed

fun nth_from :: "nat \<Rightarrow> int \<Rightarrow> int" where
  "nth_from 0 b = b"
| "nth_from (Suc k) b = nth_from k (next_day (b + 1))"

lemma nth_from_spec:
  assumes "a \<le> b" and "working b"
  shows "working (nth_from k b) \<and> b \<le> nth_from k b \<and>
    card (days_in a (nth_from k b)) = card (days_in a b) + k"
  using assms
proof (induction k arbitrary: b)
  case (Suc k)
  let ?b = "next_day (b + 1)"
  have le: "b < ?b" using next_ge [of "b + 1"] by simp
  then have "a \<le> ?b" using Suc.prems(1) by simp
  from Suc.IH [OF this next_working] show ?case
    using le days_in_step [OF Suc.prems(1)] by simp
qed simp

lemma nth_from_count:
  shows "card (days_in d (nth_from k (next_day d))) = Suc k"
    and "working (nth_from k (next_day d))" and "d \<le> nth_from k (next_day d)"
  using nth_from_spec [of d "next_day d" k] next_ge [of d] next_working [of d]
  by (auto simp: days_in_next)

lemma nth_from_mono: "k < m \<Longrightarrow> nth_from k (next_day d) < nth_from m (next_day d)"
proof (rule ccontr)
  assume "k < m" and "\<not> nth_from k (next_day d) < nth_from m (next_day d)"
  then have "days_in d (nth_from m (next_day d)) \<subseteq> days_in d (nth_from k (next_day d))"
    by (auto simp: days_in_def)
  then have "card (days_in d (nth_from m (next_day d))) \<le> card (days_in d (nth_from k (next_day d)))"
    by (intro card_mono) auto
  with \<open>k < m\<close> show False by (simp add: nth_from_count)
qed

end

section \<open>A valid calendar is walkable\<close>

lemma next_within_spec:
  assumes "k < n" and "isWorkingDay (d + int k) c"
  shows "isWorkingDay (next_within n d c) c \<and> d \<le> next_within n d c \<and>
    (\<forall>e. d \<le> e \<longrightarrow> e < next_within n d c \<longrightarrow> \<not> isWorkingDay e c)"
  using assms
proof (induction n arbitrary: d k)
  case (Suc n)
  show ?case
  proof (cases "isWorkingDay d c")
    case False
    then have k: "k \<noteq> 0" using Suc.prems(2) by (cases k) auto
    then have "k - 1 < n" and "isWorkingDay (d + 1 + int (k - 1)) c"
      using Suc.prems by auto
    from Suc.IH [OF this] False show ?thesis
      by (auto simp: addDays_def) (metis zless_iff_Suc_zadd add.commute less_le zless_add1_eq not_le)
  qed auto
qed simp

text \<open>Two hundred holidays cannot cover the matching weekdays of 201 weeks.\<close>

lemma working_day_ahead:
  assumes "workingCalendarSchema c"
  shows "\<exists>k < maxScheduleDays. isWorkingDay (d + int k) c"
proof -
  from assms obtain w where w: "w \<in> set (workingWeekdays c)" "0 \<le> w" "w \<le> 6"
    by (cases "workingWeekdays c") (auto simp: workingCalendarSchema_def)
  define off where "off = nat ((w - weekday d) mod 7)"
  have off: "off < 7" by (simp add: off_def nat_less_iff)
  have wd: "weekday (d + int (off + 7 * j)) = w" for j
  proof -
    have "d + int (off + 7 * j) + 4 = d + 4 + int off + 7 * int j" by simp
    then have "(d + int (off + 7 * j) + 4) mod 7 = (d + 4 + int off) mod 7"
      by (simp only: mod_mult_self2)
    also have "int off = (w - weekday d) mod 7" by (simp add: off_def)
    also have "(d + 4 + (w - weekday d) mod 7) mod 7 = w mod 7"
      by (simp add: weekday_def mod_simps)
    finally show ?thesis using w by (simp add: weekday_def)
  qed
  let ?days = "(\<lambda>j. d + int (off + 7 * j)) ` {..200::nat}"
  have "card ?days = 201" by (subst card_image) (auto simp: inj_on_def)
  moreover have "card (set (holidays c)) \<le> 200"
    using assms card_length [of "holidays c"] by (simp add: workingCalendarSchema_def maxHolidays_def)
  ultimately have "\<not> ?days \<subseteq> set (holidays c)"
    using card_mono [of "set (holidays c)" ?days] by auto
  then obtain j where "j \<le> 200" and "d + int (off + 7 * j) \<notin> set (holidays c)" by auto
  with wd [of j] w off have "isWorkingDay (d + int (off + 7 * j)) c" and "off + 7 * j < maxScheduleDays"
    by (simp_all add: isWorkingDay_def maxScheduleDays_def)
  then show ?thesis by blast
qed

locale valid_calendar =
  fixes c :: WorkingCalendar
  assumes valid: "workingCalendarSchema c"

sublocale valid_calendar \<subseteq> working_days "\<lambda>d. isWorkingDay d c" "\<lambda>d. nextWorkingDay d c"
proof
  fix d e
  obtain k where k: "k < maxScheduleDays" "isWorkingDay (d + int k) c"
    using working_day_ahead [OF valid] by blast
  note spec = next_within_spec [OF k, folded nextWorkingDay_def]
  show "isWorkingDay (nextWorkingDay d c) c" "d \<le> nextWorkingDay d c" using spec by auto
  show "d \<le> e \<Longrightarrow> e < nextWorkingDay d c \<Longrightarrow> \<not> isWorkingDay e c" using spec by auto
qed

interpretation default_calendar: valid_calendar DEFAULT_CALENDAR
  by unfold_locales (simp add: workingCalendarSchema_def DEFAULT_CALENDAR_def maxHolidays_def)

section \<open>Counting working days\<close>

context valid_calendar begin

lemma advance_nth_from: "advance k b c = nth_from k b"
  by (induction k arbitrary: b) (simp_all add: addDays_def)

lemma addWorkingDays_nth:
  "1 \<le> n \<Longrightarrow> addWorkingDays d n c = nth_from (nat (n - 1)) (nextWorkingDay d c)"
  by (simp add: addWorkingDays_def advance_nth_from)

lemma count_within_days:
  "d \<le> to \<Longrightarrow> to < d + int k \<Longrightarrow> count_within k d to c n = n + int (card (days_in d to))"
proof (induction k arbitrary: d n)
  case (Suc k)
  have split: "days_in d to = (if isWorkingDay d c then {d} else {}) \<union> days_in (d + 1) to"
    using Suc.prems by (auto simp: days_in_def) (metis antisym not_less zless_imp_add1_zle)+
  have "d \<notin> days_in (d + 1) to" by (simp add: days_in_def)
  then have card: "int (card (days_in d to)) = (if isWorkingDay d c then 1 else 0) + int (card (days_in (d + 1) to))"
    by (simp add: split)
  show ?case
  proof (cases "d = to")
    case True
    have "days_in (to + 1) to = {}" by (auto simp: days_in_def)
    with True card show ?thesis by simp
  next
    case False
    with Suc have "count_within k (d + 1) to c m = m + int (card (days_in (d + 1) to))" for m
      by simp
    with False card show ?thesis by (simp add: addDays_def)
  qed
qed simp

lemma between_card:
  "d \<le> to \<Longrightarrow> to - d < int maxScheduleDays \<Longrightarrow>
     workingDaysBetween d to c = int (card (days_in d to))"
  using count_within_days [of d to maxScheduleDays 0] by (simp add: workingDaysBetween_def)

lemma between_add:
  assumes "1 \<le> n" and "addWorkingDays d n c - d < int maxScheduleDays"
  shows "workingDaysBetween d (addWorkingDays d n c) c = n"
proof -
  let ?k = "nat (n - 1)"
  have "workingDaysBetween d (nth_from ?k (nextWorkingDay d c)) c = int (Suc ?k)"
    using between_card [OF nth_from_count(3)] assms by (simp add: addWorkingDays_nth nth_from_count(1))
  with assms(1) show ?thesis by (simp add: addWorkingDays_nth)
qed

lemma first_working_day:
  "isWorkingDay (nextWorkingDay d c) c \<and> d \<le> nextWorkingDay d c \<and>
   (\<forall>e. d \<le> e \<longrightarrow> isWorkingDay e c \<longrightarrow> nextWorkingDay d c \<le> e)"
  using next_working next_ge next_least by (meson not_le)

lemma add_counts:
  assumes "1 \<le> n"
  shows "isWorkingDay (addWorkingDays d n c) c \<and>
    int (card {e. d \<le> e \<and> e \<le> addWorkingDays d n c \<and> isWorkingDay e c}) = n"
  using assms nth_from_count [where d = d and k = "nat (n - 1)"] by (simp add: addWorkingDays_nth days_in_def)

lemma add_mono:
  "1 \<le> m \<Longrightarrow> m < n \<Longrightarrow> addWorkingDays d m c < addWorkingDays d n c"
  using nth_from_mono [of "nat (m - 1)" "nat (n - 1)" d] by (simp add: addWorkingDays_nth)

end

text \<open>
  Property C23. On every calendar its schema accepts, the bounded search for the next working
  day succeeds: it returns the first working day on or after the date.\<close>

theorem nextWorkingDay_is_first:
  assumes "workingCalendarSchema c"
  shows "isWorkingDay (nextWorkingDay d c) c \<and> d \<le> nextWorkingDay d c \<and>
    (\<forall>e. d \<le> e \<longrightarrow> isWorkingDay e c \<longrightarrow> nextWorkingDay d c \<le> e)"
  by (rule valid_calendar.first_working_day [OF valid_calendar.intro [OF assms]])

definition holiday_calendar :: WorkingCalendar where
  "holiday_calendar = DEFAULT_CALENDAR\<lparr>holidays := [4, 5]\<rparr>"

lemma holiday_calendar_valid: "workingCalendarSchema holiday_calendar"
  by (simp add: workingCalendarSchema_def holiday_calendar_def DEFAULT_CALENDAR_def maxHolidays_def)

lemma nextWorkingDay_is_first_witness:
  "isWorkingDay (nextWorkingDay 2 holiday_calendar) holiday_calendar \<and>
    2 \<le> nextWorkingDay 2 holiday_calendar \<and> nextWorkingDay 2 holiday_calendar \<le> 6"
proof -
  have "isWorkingDay 6 holiday_calendar"
    by (simp add: isWorkingDay_def weekday_def holiday_calendar_def DEFAULT_CALENDAR_def)
  then show ?thesis using nextWorkingDay_is_first [OF holiday_calendar_valid, of 2] by auto
qed

text \<open>
  Adding n working days lands on a working day, and there are exactly n working
  days from the start to it, the start counted when it is one.\<close>

theorem addWorkingDays_counts:
  assumes "workingCalendarSchema c" and "1 \<le> n"
  shows "isWorkingDay (addWorkingDays d n c) c \<and>
    int (card {e. d \<le> e \<and> e \<le> addWorkingDays d n c \<and> isWorkingDay e c}) = n"
  by (rule valid_calendar.add_counts [OF valid_calendar.intro [OF assms(1)] assms(2)])

lemma addWorkingDays_counts_witness:
  "isWorkingDay (addWorkingDays 2 7 holiday_calendar) holiday_calendar \<and>
    int (card {e. 2 \<le> e \<and> e \<le> addWorkingDays 2 7 holiday_calendar \<and>
      isWorkingDay e holiday_calendar}) = 7"
  by (rule addWorkingDays_counts [OF holiday_calendar_valid]) simp

text \<open>
  Counting undoes adding: as long as the span fits in the walk's bound, the working
  days between a date and the date n working days on are n.\<close>

theorem workingDays_round_trip:
  assumes "workingCalendarSchema c" and "1 \<le> n"
    and "addWorkingDays d n c - d < int maxScheduleDays"
  shows "workingDaysBetween d (addWorkingDays d n c) c = n"
  by (rule valid_calendar.between_add [OF valid_calendar.intro [OF assms(1)] assms(2,3)])

lemma add_three: "addWorkingDays 2 3 holiday_calendar = 8"
  by (simp add: addWorkingDays_def nextWorkingDay_def maxScheduleDays_def isWorkingDay_def weekday_def
      holiday_calendar_def DEFAULT_CALENDAR_def addDays_def numeral_eq_Suc)

lemma workingDays_round_trip_witness:
  "workingDaysBetween 2 (addWorkingDays 2 3 holiday_calendar) holiday_calendar = 3"
  by (rule workingDays_round_trip [OF holiday_calendar_valid])
    (simp_all add: add_three maxScheduleDays_def)

text \<open>Only the number of holidays counts as material, not their dates.\<close>

lemma moved_holiday_is_not_material:
  "\<not> isMaterialCalendarChange (DEFAULT_CALENDAR\<lparr>holidays := [4]\<rparr>) (DEFAULT_CALENDAR\<lparr>holidays := [5]\<rparr>)"
  by (simp add: isMaterialCalendarChange_def)

end
