(* ===== verification/Scheduling.thy ===== *)
theory Scheduling
  imports DependencyGraph Calendar "HOL-Library.Multiset"
begin

text \<open>
  packages/contracts/src/estimation/scheduling.ts: the topological order of the tasks, the
  forward pass that places each task at the first working day its predecessors and its role
  allow, the backward pass that gives its slack, and the schedule made of them. Days are
  working-day offsets from day 1. \<open>localeCompare\<close>, which breaks ties in the sorted task list,
  is the parameter \<open>collate\<close>.

  The interface \<open>task_order\<close> is what the forward pass needs of the order; the topological order
  provides it.
\<close>

section \<open>Data\<close>

record SchedulableTask =
  task_id :: string
  role :: string
  hours :: rat

record ScheduleInput =
  tasks :: "SchedulableTask list"
  task_dependencies :: "Dependency list"
  calendar :: WorkingCalendar
  peoplePerRole :: "(string \<times> rat) list"
  startDate :: "int option"
  allowParallel :: bool

record slot =
  slot_start :: int
  slot_end :: int

record ScheduledTask =
  taskId :: string
  startDay :: int
  endDay :: int
  durationDays :: int
  st_role :: string
  st_hours :: rat
  predecessorIds :: "string list"
  slackDays :: int
  onCriticalPath :: bool
  st_startDate :: "int option"
  st_endDate :: "int option"

record Schedule =
  sched_tasks :: "ScheduledTask list"
  totalWorkingDays :: int
  criticalPath :: "string list"
  sched_startDate :: "int option"
  finishDate :: "int option"
  relativeOnly :: bool

section \<open>Durations and constraints\<close>

definition durationFor :: "rat \<Rightarrow> WorkingCalendar \<Rightarrow> int" where
  "durationFor h c = (if h \<le> 0 then 1 else max 1 \<lceil>js_div h (hoursPerDay c)\<rceil>)"

fun constraintDay :: "DependencyType \<Rightarrow> slot \<Rightarrow> int \<Rightarrow> int" where
  "constraintDay FINISH_TO_START predecessor days = slot_end predecessor + 1"
| "constraintDay START_TO_START predecessor days = slot_start predecessor"
| "constraintDay FINISH_TO_FINISH predecessor days = max 1 (slot_end predecessor - days + 1)"
| "constraintDay START_TO_FINISH predecessor days = max 1 (slot_start predecessor - days + 1)"

section \<open>Topological order\<close>

definition get_or :: "'v \<Rightarrow> ('k \<times> 'v) list \<Rightarrow> 'k \<Rightarrow> 'v" where
  "get_or v m k = (case map_of m k of Some x \<Rightarrow> x | None \<Rightarrow> v)"

definition live_dep :: "string set \<Rightarrow> Dependency \<Rightarrow> bool" where
  "live_dep live d = (predecessorId d \<in> live \<and> successorId d \<in> live)"

definition count_edge :: "string set \<Rightarrow> Dependency \<Rightarrow> (string \<times> int) list \<Rightarrow> (string \<times> int) list" where
  "count_edge live d m =
     (if live_dep live d then AList.update (successorId d) (get_or 0 m (successorId d) + 1) m else m)"

record kahn =
  ready :: "string list"
  indegree :: "(string \<times> int) list"
  order :: "string list"

definition relax :: "string \<Rightarrow> kahn \<Rightarrow> kahn" where
  "relax successor s =
     (let remaining = get_or 0 (indegree s) successor - 1;
          s' = s\<lparr>indegree := AList.update successor remaining (indegree s)\<rparr>
      in if remaining = 0 then s'\<lparr>ready := sort (ready s @ [successor])\<rparr> else s')"

definition kahn_step :: "edge_map \<Rightarrow> kahn \<Rightarrow> kahn" where
  "kahn_step successors s =
     (case ready s of
        [] \<Rightarrow> s
      | i # rest \<Rightarrow>
          fold relax (sort (targets successors i)) (s\<lparr>ready := rest, order := order s @ [i]\<rparr>))"

text \<open>The loop ends: an identifier becomes ready only when its positive count reaches zero.\<close>

definition waiting :: "kahn \<Rightarrow> nat" where
  "waiting s = card {i \<in> dom (map_of (indegree s)). 0 < get_or 0 (indegree s) i}"

lemma get_or_update [simp]:
  "get_or v (AList.update k x m) j = (if j = k then x else get_or v m j)"
  by (simp add: get_or_def update_conv')

lemma relax_potential: "waiting (relax i s) + length (ready (relax i s)) \<le> waiting s + length (ready s)"
proof -
  let ?W = "{j \<in> dom (map_of (indegree s)). 0 < get_or 0 (indegree s) j}"
  let ?W' = "{j \<in> dom (map_of (indegree (relax i s))). 0 < get_or 0 (indegree (relax i s)) j}"
  have dom: "j \<in> dom (map_of m)" if "0 < get_or 0 m j" for j and m :: "(string \<times> int) list"
    using that by (auto simp: get_or_def split: option.splits)
  have sub: "?W' \<subseteq> ?W" by (auto simp: relax_def Let_def split: if_splits intro!: dom)
  have fin: "finite ?W" by (rule finite_subset [OF _ finite_dom_map_of]) auto
  show ?thesis
  proof (cases "get_or 0 (indegree s) i = 1")
    case True
    then have "i \<in> ?W" and "i \<notin> ?W'" using dom [of "indegree s" i] by (auto simp: relax_def)
    then have "card ?W' < card ?W" using sub fin by (metis (no_types, lifting) psubset_card_mono psubsetI)
    moreover have "length (ready (relax i s)) = Suc (length (ready s))"
      using True by (simp add: relax_def)
    ultimately show ?thesis by (simp add: waiting_def)
  next
    case False
    then have "ready (relax i s) = ready s" by (simp add: relax_def Let_def)
    then show ?thesis using card_mono [OF fin sub] by (simp add: waiting_def)
  qed
qed

lemma relax_all_potential:
  "waiting (fold relax cs s) + length (ready (fold relax cs s)) \<le> waiting s + length (ready s)"
proof (induction cs arbitrary: s)
  case (Cons c cs)
  show ?case using Cons [of "relax c s"] relax_potential [of c s] by simp
qed simp

lemma kahn_step_decreases:
  "ready s \<noteq> [] \<Longrightarrow>
     waiting (kahn_step e s) + length (ready (kahn_step e s)) < waiting s + length (ready s)"
proof -
  assume "ready s \<noteq> []"
  then obtain i rest where r: "ready s = i # rest" by (cases "ready s") auto
  let ?t = "s\<lparr>ready := rest, order := order s @ [i]\<rparr>"
  have "waiting ?t = waiting s" by (simp add: waiting_def)
  with relax_all_potential [of "sort (targets e i)" ?t] r show ?thesis
    by (simp add: kahn_step_def)
qed

function kahn_loop :: "edge_map \<Rightarrow> kahn \<Rightarrow> kahn" where
  "kahn_loop e s = (if ready s = [] then s else kahn_loop e (kahn_step e s))"
  by pat_completeness auto
termination
  by (relation "measure (\<lambda>(e, s). waiting s + length (ready s))")
    (simp_all add: kahn_step_decreases)

declare kahn_loop.simps [simp del]

definition kahn_start :: "string list \<Rightarrow> Dependency list \<Rightarrow> kahn" where
  "kahn_start ids deps =
     (let m = fold (count_edge (set ids)) deps (map (\<lambda>i. (i, 0)) ids)
      in \<lparr>ready = sort (filter (\<lambda>i. get_or 0 m i = 0) ids), indegree = m, order = []\<rparr>)"

definition topologicalOrder :: "SchedulableTask list \<Rightarrow> Dependency list \<Rightarrow> string list" where
  "topologicalOrder ts deps =
     (let ids = map task_id ts;
          s = kahn_loop (fold (add_edge (set ids)) deps []) (kahn_start ids deps)
      in order s @ sort (filter (\<lambda>i. i \<notin> set (order s)) ids))"

section \<open>Forward pass\<close>

definition by_id :: "SchedulableTask list \<Rightarrow> string \<Rightarrow> SchedulableTask option" where
  "by_id ts i = map_of (rev (map (\<lambda>t. (task_id t, t)) ts)) i"

definition predecessorsOf :: "Dependency list \<Rightarrow> string \<Rightarrow> Dependency list" where
  "predecessorsOf deps i = filter (\<lambda>d. successorId d = i) deps"

record placement =
  placed :: "(string \<times> slot) list"
  roleSlots :: "(string \<times> int list) list"

definition people :: "ScheduleInput \<Rightarrow> string \<Rightarrow> nat" where
  "people input r =
     (if allowParallel input then nat (max 1 \<lfloor>get_or 1 (peoplePerRole input) r\<rfloor>) else 1)"

definition slotsFor :: "ScheduleInput \<Rightarrow> placement \<Rightarrow> string \<Rightarrow> int list" where
  "slotsFor input p r = get_or (replicate (people input r) 1) (roleSlots p) r"

definition earliest_day :: "(string \<times> slot) list \<Rightarrow> int \<Rightarrow> Dependency list \<Rightarrow> int" where
  "earliest_day pl days ds =
     fold (\<lambda>d earliest.
       case map_of pl (predecessorId d) of
         None \<Rightarrow> earliest
       | Some p \<Rightarrow> max earliest (constraintDay (dep_type d) p days + lagDays d)) ds 1"

definition place_task :: "ScheduleInput \<Rightarrow> string \<Rightarrow> placement \<Rightarrow> placement" where
  "place_task input i p =
     (case by_id (tasks input) i of
        None \<Rightarrow> p
      | Some task \<Rightarrow>
          let days = durationFor (hours task) (calendar input);
              earliest = earliest_day (placed p) days (predecessorsOf (task_dependencies input) i);
              slots = slotsFor input p (role task);
              slotIndex = index_of (min_list slots) slots;
              start = max earliest (slots ! slotIndex);
              finish = start + days - 1
          in \<lparr>placed = AList.update i \<lparr>slot_start = start, slot_end = finish\<rparr> (placed p),
              roleSlots = AList.update (role task) (slots[slotIndex := finish + 1]) (roleSlots p)\<rparr>)"

definition place_all :: "ScheduleInput \<Rightarrow> string list \<Rightarrow> placement" where
  "place_all input ids = fold (place_task input) ids \<lparr>placed = [], roleSlots = []\<rparr>"

section \<open>Backward pass\<close>

definition late_bound ::
  "ScheduleInput \<Rightarrow> (string \<times> int) list \<Rightarrow> slot \<Rightarrow> Dependency \<Rightarrow> int \<Rightarrow> int" where
  "late_bound input latest own d bound =
     (case (map_of latest (successorId d), by_id (tasks input) (successorId d)) of
        (Some successorLatest, Some successorTask) \<Rightarrow>
          let successorLatestStart =
                successorLatest - durationFor (hours successorTask) (calendar input) + 1
          in (case dep_type d of
                FINISH_TO_START \<Rightarrow> min bound (successorLatestStart - 1 - lagDays d)
              | START_TO_START \<Rightarrow> min bound (successorLatestStart + (slot_end own - slot_start own))
              | FINISH_TO_FINISH \<Rightarrow> min bound (successorLatest - lagDays d)
              | START_TO_FINISH \<Rightarrow> min bound successorLatest)
      | _ \<Rightarrow> bound)"

definition latest_step ::
  "ScheduleInput \<Rightarrow> (string \<times> slot) list \<Rightarrow> int \<Rightarrow> string \<Rightarrow> (string \<times> int) list \<Rightarrow> (string \<times> int) list" where
  "latest_step input pl projectEnd i latest =
     (case map_of pl i of
        None \<Rightarrow> latest
      | Some own \<Rightarrow>
          let successors = filter (\<lambda>d. predecessorId d = i) (task_dependencies input)
          in if successors = [] then AList.update i projectEnd latest
             else AList.update i
                    (max (slot_end own) (fold (late_bound input latest own) successors projectEnd))
                    latest)"

definition computeLatestFinish ::
  "ScheduleInput \<Rightarrow> string list \<Rightarrow> (string \<times> slot) list \<Rightarrow> int \<Rightarrow> (string \<times> int) list" where
  "computeLatestFinish input ids pl projectEnd =
     fold (latest_step input pl projectEnd) (rev ids) []"

section \<open>The schedule\<close>

definition latest_end :: "(string \<times> slot) list \<Rightarrow> int" where
  "latest_end pl = fold (\<lambda>(i, s) latest. max latest (slot_end s)) pl 0"

definition task_entry ::
  "ScheduleInput \<Rightarrow> (string \<times> int) list \<Rightarrow> SchedulableTask \<Rightarrow> slot \<Rightarrow> ScheduledTask" where
  "task_entry input latest t s =
     (let slack = max 0 (get_or (slot_end s) latest (task_id t) - slot_end s);
          dated = (\<lambda>day. map_option
            (\<lambda>d. addWorkingDays (nextWorkingDay d (calendar input)) day (calendar input))
            (startDate input))
      in \<lparr>taskId = task_id t, startDay = slot_start s, endDay = slot_end s,
          durationDays = slot_end s - slot_start s + 1, st_role = role t,
          st_hours = to_fixed2 (hours t),
          predecessorIds = map predecessorId (predecessorsOf (task_dependencies input) (task_id t)),
          slackDays = slack, onCriticalPath = (slack = 0),
          st_startDate = dated (slot_start s), st_endDate = dated (slot_end s)\<rparr>)"

definition schedule_le :: "(string \<Rightarrow> string \<Rightarrow> bool) \<Rightarrow> ScheduledTask \<Rightarrow> ScheduledTask \<Rightarrow> bool" where
  "schedule_le collate a b =
     (startDay a < startDay b \<or> (startDay a = startDay b \<and> collate (taskId a) (taskId b)))"

definition buildSchedule :: "(string \<Rightarrow> string \<Rightarrow> bool) \<Rightarrow> ScheduleInput \<Rightarrow> Schedule" where
  "buildSchedule collate input =
     (let ids = topologicalOrder (tasks input) (task_dependencies input);
          pl = placed (place_all input ids);
          total = latest_end pl;
          latest = computeLatestFinish input ids pl total;
          entries = sort_by (schedule_le collate)
            (List.map_filter (\<lambda>t. map_option (task_entry input latest t) (map_of pl (task_id t)))
               (tasks input));
          first = map_option (\<lambda>d. nextWorkingDay d (calendar input)) (startDate input)
      in \<lparr>sched_tasks = entries, totalWorkingDays = total,
          criticalPath = map taskId (filter onCriticalPath entries),
          sched_startDate = first,
          finishDate = map_option (\<lambda>d. addWorkingDays d total (calendar input)) first,
          relativeOnly = (startDate input = None)\<rparr>)"

definition isScheduleWithinBounds :: "Schedule \<Rightarrow> bool" where
  "isScheduleWithinBounds s = (totalWorkingDays s \<le> int maxScheduleDays)"

section \<open>The order is topological\<close>

definition plan_edges :: "string list \<Rightarrow> Dependency list \<Rightarrow> (string \<times> string) set" where
  "plan_edges is deps =
     {(predecessorId d, successorId d) | d. d \<in> set deps \<and> live_dep (set is) d}"

definition blockers :: "string list \<Rightarrow> Dependency list \<Rightarrow> string list \<Rightarrow> string \<Rightarrow> Dependency list" where
  "blockers is deps seen x =
     filter (\<lambda>d. live_dep (set is) d \<and> successorId d = x \<and> predecessorId d \<notin> set seen) deps"

text \<open>Every predecessor of a listed task is listed before it.\<close>

definition preds_first :: "(string \<times> string) set \<Rightarrow> string list \<Rightarrow> bool" where
  "preds_first E xs = (\<forall>us x vs. xs = us @ x # vs \<longrightarrow> (\<forall>p. (p, x) \<in> E \<longrightarrow> p \<in> set us))"

definition kahn_inv :: "string list \<Rightarrow> Dependency list \<Rightarrow> kahn \<Rightarrow> bool" where
  "kahn_inv is deps s =
     (distinct (order s @ ready s) \<and>
      set (order s @ ready s) = {x \<in> set is. get_or 0 (indegree s) x = 0} \<and>
      (\<forall>x. get_or 0 (indegree s) x = int (length (blockers is deps (order s) x))) \<and>
      preds_first (plan_edges is deps) (order s))"

lemma relax_all:
  assumes "\<forall>x \<in> set cs. int (count_list cs x) \<le> get_or 0 (indegree s) x"
    and "set cs \<inter> set (ready s) = {}" and "distinct (ready s)"
  shows "order (fold relax cs s) = order s \<and>
    (\<forall>x. get_or 0 (indegree (fold relax cs s)) x = get_or 0 (indegree s) x - int (count_list cs x)) \<and>
    distinct (ready (fold relax cs s)) \<and>
    set (ready (fold relax cs s)) =
      set (ready s) \<union> {x \<in> set cs. get_or 0 (indegree s) x = int (count_list cs x)}"
  using assms
proof (induction cs arbitrary: s)
  case (Cons c cs)
  let ?t = "relax c s"
  have ind: "get_or 0 (indegree ?t) x = get_or 0 (indegree s) x - (if x = c then 1 else 0)" for x
    by (simp add: relax_def Let_def)
  have ord: "order ?t = order s" by (simp add: relax_def Let_def)
  have rdy: "set (ready ?t) = set (ready s) \<union> (if get_or 0 (indegree s) c = 1 then {c} else {})"
    by (auto simp: relax_def Let_def)
  have last: "c \<notin> set cs" if "get_or 0 (indegree s) c = 1"
    using Cons.prems(1) that by (auto simp: count_list_0_iff [symmetric])
  have "\<forall>x \<in> set cs. int (count_list cs x) \<le> get_or 0 (indegree ?t) x"
    using Cons.prems(1) ind by (auto split: if_splits)
  moreover have "set cs \<inter> set (ready ?t) = {}"
    using Cons.prems(2) rdy last by (auto split: if_splits)
  moreover have "distinct (ready ?t)"
    using Cons.prems(2,3) by (auto simp: relax_def Let_def)
  ultimately have IH: "order (fold relax cs ?t) = order ?t \<and>
    (\<forall>x. get_or 0 (indegree (fold relax cs ?t)) x = get_or 0 (indegree ?t) x - int (count_list cs x)) \<and>
    distinct (ready (fold relax cs ?t)) \<and>
    set (ready (fold relax cs ?t)) =
      set (ready ?t) \<union> {x \<in> set cs. get_or 0 (indegree ?t) x = int (count_list cs x)}"
    by (rule Cons.IH)
  have "set (ready ?t) \<union> {x \<in> set cs. get_or 0 (indegree ?t) x = int (count_list cs x)} =
    set (ready s) \<union> {x \<in> set (c # cs). get_or 0 (indegree s) x = int (count_list (c # cs) x)}"
    using last by (auto simp: ind rdy count_list_0_iff split: if_splits)
  with IH ind ord show ?case by simp
qed simp

lemma count_targets:
  "count_list (targets (fold (add_edge live) ds e) a) x =
   count_list (targets e a) x +
   length (filter (\<lambda>d. live_dep live d \<and> predecessorId d = a \<and> successorId d = x) ds)"
  by (induction ds arbitrary: e) (auto simp: add_edge_def live_dep_def)

lemma count_list_sort [simp]: "count_list (sort xs) x = count_list xs x"
  by (metis count_mset mset_sort)

lemma blockers_step:
  "i \<notin> set seen \<Longrightarrow>
   length (blockers is deps seen x) =
   length (blockers is deps (seen @ [i]) x) +
   length (filter (\<lambda>d. live_dep (set is) d \<and> predecessorId d = i \<and> successorId d = x) deps)"
  by (induction deps) (auto simp: blockers_def)

lemma preds_first_snoc:
  "preds_first E xs \<Longrightarrow> \<forall>p. (p, x) \<in> E \<longrightarrow> p \<in> set xs \<Longrightarrow> preds_first E (xs @ [x])"
  unfolding preds_first_def by (metis append_eq_append_conv_if butlast_append butlast_snoc last_snoc last_appendR list.distinct(1) append_butlast_last_id butlast.simps(2) last_ConsL)

lemma no_blockers:
  "blockers is deps seen x = [] \<Longrightarrow> (p, x) \<in> plan_edges is deps \<Longrightarrow> p \<in> set seen"
  by (auto simp: blockers_def plan_edges_def filter_empty_conv)

lemma kahn_step_inv:
  assumes inv: "kahn_inv is deps s" and e: "e = fold (add_edge (set is)) deps []" and ne: "ready s \<noteq> []"
  shows "kahn_inv is deps (kahn_step e s)"
proof -
  obtain i rest where r: "ready s = i # rest" using ne by (cases "ready s") auto
  let ?cs = "sort (targets e i)"
  let ?t = "s\<lparr>ready := rest, order := order s @ [i]\<rparr>"
  have step: "kahn_step e s = fold relax ?cs ?t" using r by (simp add: kahn_step_def)
  have dist: "distinct (order s @ ready s)"
    and zero: "set (order s @ ready s) = {x \<in> set is. get_or 0 (indegree s) x = 0}"
    and ind: "get_or 0 (indegree s) x = int (length (blockers is deps (order s) x))"
    and first: "preds_first (plan_edges is deps) (order s)" for x
    using inv unfolding kahn_inv_def by blast+
  have new: "i \<notin> set (order s)" using dist r by simp
  have cnt: "count_list ?cs x =
      length (filter (\<lambda>d. live_dep (set is) d \<and> predecessorId d = i \<and> successorId d = x) deps)" for x
    by (simp add: e count_targets targets_def [of "[]"])
  have left: "get_or 0 (indegree s) x - int (count_list ?cs x) =
      int (length (blockers is deps (order s @ [i]) x))" for x
    unfolding cnt ind using blockers_step [OF new, of "is" deps x] by simp
  then have bound: "int (count_list ?cs x) \<le> get_or 0 (indegree s) x" for x
    by (metis diff_ge_0_iff_ge of_nat_0_le_iff)
  have busy: "0 < get_or 0 (indegree s) x" if "x \<in> set ?cs" for x
  proof -
    have "0 < count_list ?cs x" using that count_list_0_iff [of ?cs x] by simp
    with bound [of x] show ?thesis by linarith
  qed
  have apart: "set ?cs \<inter> set (order s @ ready s) = {}"
  proof (rule ccontr)
    assume "set ?cs \<inter> set (order s @ ready s) \<noteq> {}"
    then obtain x where "x \<in> set ?cs" and "get_or 0 (indegree s) x = 0" using zero by blast
    with busy [of x] show False by simp
  qed
  have live: "x \<in> set is" if "x \<in> set ?cs" for x
  proof -
    have "count_list ?cs x \<noteq> 0" using that by (simp add: count_list_0_iff)
    then show ?thesis unfolding cnt by (auto simp: filter_empty_conv live_dep_def)
  qed
  have all: "order (fold relax ?cs ?t) = order ?t \<and>
    (\<forall>x. get_or 0 (indegree (fold relax ?cs ?t)) x = get_or 0 (indegree ?t) x - int (count_list ?cs x)) \<and>
    distinct (ready (fold relax ?cs ?t)) \<and>
    set (ready (fold relax ?cs ?t)) =
      set (ready ?t) \<union> {x \<in> set ?cs. get_or 0 (indegree ?t) x = int (count_list ?cs x)}"
  proof (rule relax_all)
    show "\<forall>x \<in> set ?cs. int (count_list ?cs x) \<le> get_or 0 (indegree ?t) x" using bound by simp
    show "set ?cs \<inter> set (ready ?t) = {}" using apart r by auto
    show "distinct (ready ?t)" using dist r by simp
  qed
  let ?u = "fold relax ?cs ?t"
  have ord': "order ?u = order s @ [i]" and rdy': "distinct (ready ?u)"
    and ready': "set (ready ?u) = set rest \<union> {x \<in> set ?cs. get_or 0 (indegree s) x = int (count_list ?cs x)}"
    and ind': "get_or 0 (indegree ?u) x = int (length (blockers is deps (order ?u) x))" for x
    using all left by simp_all
  have idle: "x \<notin> set ?cs \<Longrightarrow> count_list ?cs x = 0" for x by (simp add: count_list_0_iff)
  have minus: "get_or 0 (indegree ?u) x = get_or 0 (indegree s) x - int (count_list ?cs x)" for x
    using all by simp
  have zero': "get_or 0 (indegree ?u) x = 0 \<longleftrightarrow>
      get_or 0 (indegree s) x = 0 \<or> x \<in> set ?cs \<and> get_or 0 (indegree s) x = int (count_list ?cs x)" for x
  proof (cases "x \<in> set ?cs")
    case True
    with busy [OF True] minus [of x] show ?thesis by auto
  next
    case False
    with idle [OF False] minus [of x] show ?thesis by simp
  qed
  have "distinct (order ?u @ ready ?u)"
    using dist r rdy' apart unfolding ord' ready' distinct_append by auto
  moreover have "set (order ?u @ ready ?u) = {x \<in> set is. get_or 0 (indegree ?u) x = 0}"
  proof -
    have "set (order ?u @ ready ?u) = set (order s @ ready s) \<union>
        {x \<in> set ?cs. get_or 0 (indegree s) x = int (count_list ?cs x)}"
      by (simp only: ord' ready' r set_append list.set) blast
    then show ?thesis unfolding zero zero' using live by blast
  qed
  moreover have "preds_first (plan_edges is deps) (order ?u)"
  proof -
    have "i \<in> set (order s @ ready s)" using r by simp
    then have "get_or 0 (indegree s) i = 0" unfolding zero by blast
    then have "blockers is deps (order s) i = []" by (simp add: ind)
    with first show ?thesis unfolding ord' by (blast intro: preds_first_snoc no_blockers)
  qed
  ultimately show ?thesis unfolding step kahn_inv_def using ind' by blast
qed

lemma kahn_loop_inv:
  assumes "kahn_inv is deps s" and "e = fold (add_edge (set is)) deps []"
  shows "kahn_inv is deps (kahn_loop e s) \<and> ready (kahn_loop e s) = []"
  using assms
proof (induction e s rule: kahn_loop.induct)
  case (1 e s)
  show ?case
  proof (cases "ready s = []")
    case True
    then have "kahn_loop e s = s" by (subst kahn_loop.simps) simp
    with 1 True show ?thesis by simp
  next
    case False
    then have "kahn_loop e s = kahn_loop e (kahn_step e s)" by (subst kahn_loop.simps) simp
    with "1.IH" [OF False kahn_step_inv [OF "1.prems" False] "1.prems"(2)] show ?thesis by simp
  qed
qed

lemma count_edges:
  "get_or 0 (fold (count_edge live) ds m) x =
   get_or 0 m x + int (length (filter (\<lambda>d. live_dep live d \<and> successorId d = x) ds))"
  by (induction ds arbitrary: m) (auto simp: count_edge_def)

lemma get_or_zeros [simp]: "get_or (0::int) (map (\<lambda>i. (i, 0)) is) x = 0"
  by (induction "is") (auto simp: get_or_def)

lemma kahn_start_inv: "distinct is \<Longrightarrow> kahn_inv is deps (kahn_start is deps)"
  by (auto simp: kahn_inv_def kahn_start_def Let_def count_edges blockers_def preds_first_def)

lemma acyclic_leftover:
  assumes "acyclic E" and "finite E" and "L \<noteq> {}" and "\<forall>x \<in> L. \<exists>p \<in> L. (p, x) \<in> E"
  shows False
proof -
  have "wf E" using assms(1,2) by (simp add: finite_acyclic_wf)
  with assms(3) obtain z where "z \<in> L" and "\<And>y. (y, z) \<in> E \<Longrightarrow> y \<notin> L"
    by (metis wf_eq_minimal ex_in_conv)
  with assms(4) show False by blast
qed

lemma finite_plan_edges: "finite (plan_edges is deps)"
proof -
  have "plan_edges is deps \<subseteq> (\<lambda>d. (predecessorId d, successorId d)) ` set deps"
    by (auto simp: plan_edges_def)
  then show ?thesis by (rule finite_subset) simp
qed

lemma topologicalOrder_permutation:
  assumes "distinct (map task_id ts)"
  shows "distinct (topologicalOrder ts deps) \<and> set (topologicalOrder ts deps) = set (map task_id ts)"
proof -
  let ?is = "map task_id ts" and ?e = "fold (add_edge (set (map task_id ts))) deps []"
  let ?s = "kahn_loop ?e (kahn_start ?is deps)"
  have "kahn_inv ?is deps ?s"
    using kahn_loop_inv [OF kahn_start_inv [OF assms] refl] by blast
  with assms show ?thesis
    by (auto simp: topologicalOrder_def Let_def kahn_inv_def)
qed

lemma topologicalOrder_preds_first:
  assumes "distinct (map task_id ts)" and "acyclic (plan_edges (map task_id ts) deps)"
  shows "preds_first (plan_edges (map task_id ts) deps) (topologicalOrder ts deps)"
proof -
  let ?is = "map task_id ts" and ?e = "fold (add_edge (set (map task_id ts))) deps []"
  let ?s = "kahn_loop ?e (kahn_start ?is deps)"
  have inv: "kahn_inv ?is deps ?s" and fin: "ready ?s = []"
    using kahn_loop_inv [OF kahn_start_inv [OF assms(1)] refl] by blast+
  let ?L = "set ?is - set (order ?s)"
  have "\<exists>p \<in> ?L. (p, x) \<in> plan_edges ?is deps" if x: "x \<in> ?L" for x
  proof -
    from inv fin x have "blockers ?is deps (order ?s) x \<noteq> []"
      by (auto simp: kahn_inv_def)
    then obtain d where "d \<in> set (blockers ?is deps (order ?s) x)"
      by (meson list.set_sel(1))
    then have "predecessorId d \<in> ?L" "(predecessorId d, x) \<in> plan_edges ?is deps"
      by (auto simp: blockers_def live_dep_def plan_edges_def)
    then show ?thesis by blast
  qed
  then have "?L = {}"
    using acyclic_leftover [OF assms(2) finite_plan_edges, of ?L] by blast
  then have "filter (\<lambda>i. i \<notin> set (order ?s)) ?is = []"
    unfolding filter_empty_conv by blast
  then have "topologicalOrder ts deps = order ?s"
    by (simp only: topologicalOrder_def Let_def sort_key_simps(1) append_Nil2)
  with inv show ?thesis by (simp add: kahn_inv_def)
qed

section \<open>Placing tasks in order\<close>

fun obeys_type :: "DependencyType \<Rightarrow> int \<Rightarrow> slot \<Rightarrow> slot \<Rightarrow> bool" where
  "obeys_type FINISH_TO_START lag p s = (slot_end p + 1 + lag \<le> slot_start s)"
| "obeys_type START_TO_START lag p s = (slot_start p + lag \<le> slot_start s)"
| "obeys_type FINISH_TO_FINISH lag p s = (slot_end p + lag \<le> slot_end s)"
| "obeys_type START_TO_FINISH lag p s = (slot_start p + lag \<le> slot_end s)"

definition obeys :: "Dependency \<Rightarrow> slot \<Rightarrow> slot \<Rightarrow> bool" where
  "obeys d p s = obeys_type (dep_type d) (lagDays d) p s"

lemma durationFor_pos: "1 \<le> durationFor h c"
  by (simp add: durationFor_def)

lemma earliest_fold_mono:
  "m \<le> fold (\<lambda>d e. case map_of pl (predecessorId d) of None \<Rightarrow> e
       | Some p \<Rightarrow> max e (constraintDay (dep_type d) p days + lagDays d)) ds m"
  by (induction ds arbitrary: m) (auto split: option.split intro: order_trans [OF max.cobounded1])

lemma earliest_day_ge_1: "1 \<le> earliest_day pl days ds"
  unfolding earliest_day_def by (rule earliest_fold_mono)

lemma earliest_day_ge:
  assumes "d \<in> set ds" and "map_of pl (predecessorId d) = Some p"
  shows "constraintDay (dep_type d) p days + lagDays d \<le> earliest_day pl days ds"
proof -
  obtain us vs where "ds = us @ d # vs" using assms(1) by (meson split_list)
  then show ?thesis
    using assms(2)
    by (simp add: earliest_day_def) (rule order_trans [OF max.cobounded2 earliest_fold_mono])
qed

lemma constraint_respects:
  "constraintDay (dep_type d) p days + lagDays d \<le> slot_start s \<Longrightarrow>
   slot_end s = slot_start s + days - 1 \<Longrightarrow> obeys d p s"
  by (cases "dep_type d") (auto simp: obeys_def)

lemma by_id_Some: "by_id ts i = Some t \<Longrightarrow> t \<in> set ts \<and> task_id t = i"
  by (auto simp: by_id_def dest!: map_of_SomeD)

lemma by_id_known: "i \<in> set (map task_id ts) \<Longrightarrow> \<exists>t. by_id ts i = Some t"
  by (force simp: by_id_def map_of_eq_None_iff intro: ccontr [of "\<exists>t. _ t"])

lemma by_id_distinct: "distinct (map task_id ts) \<Longrightarrow> t \<in> set ts \<Longrightarrow> by_id ts (task_id t) = Some t"
  by (simp add: by_id_def comp_def rev_map [symmetric] map_of_eq_Some_iff distinct_rev)

lemma place_all_snoc: "place_all input (xs @ [x]) = place_task input x (place_all input xs)"
  by (simp add: place_all_def)

text \<open>What the placement of one task adds.\<close>

lemma place_task_placed:
  assumes "by_id (tasks input) i = Some t"
  shows "\<exists>s. map_of (placed (place_task input i p)) = (map_of (placed p))(i \<mapsto> s) \<and>
    slot_start s = max (earliest_day (placed p) (durationFor (hours t) (calendar input))
        (predecessorsOf (task_dependencies input) i))
      (slotsFor input p (role t) ! index_of (min_list (slotsFor input p (role t))) (slotsFor input p (role t))) \<and>
    slot_end s = slot_start s + durationFor (hours t) (calendar input) - 1"
  using assms by (simp add: place_task_def Let_def update_conv') (rule exI, intro conjI, rule refl, simp_all)

definition well_placed :: "ScheduleInput \<Rightarrow> placement \<Rightarrow> string \<Rightarrow> bool" where
  "well_placed input p i =
     (\<exists>t s. by_id (tasks input) i = Some t \<and> map_of (placed p) i = Some s \<and> 1 \<le> slot_start s \<and>
        slot_end s = slot_start s + durationFor (hours t) (calendar input) - 1)"

lemma place_all_placed:
  assumes "set xs \<subseteq> set (map task_id (tasks input))"
  shows "dom (map_of (placed (place_all input xs))) = set xs \<and>
    (\<forall>i \<in> set xs. well_placed input (place_all input xs) i)"
  using assms
proof (induction xs rule: rev_induct)
  case (snoc x xs)
  then have "x \<in> set (map task_id (tasks input))" by auto
  then obtain t where t: "by_id (tasks input) x = Some t" using by_id_known by blast
  from place_task_placed [OF t, of "place_all input xs"] obtain s where
    s: "map_of (placed (place_all input (xs @ [x]))) = (map_of (placed (place_all input xs)))(x \<mapsto> s)"
    and start: "1 \<le> slot_start s"
    and fin: "slot_end s = slot_start s + durationFor (hours t) (calendar input) - 1"
    unfolding place_all_snoc using earliest_day_ge_1 by (metis max.coboundedI1)
  from snoc have IH: "dom (map_of (placed (place_all input xs))) = set xs"
    "\<forall>i \<in> set xs. well_placed input (place_all input xs) i" by auto
  then show ?case using t start fin by (auto simp: s well_placed_def)
qed (simp add: place_all_def)

lemma place_all_respects:
  assumes "distinct xs" and "set xs \<subseteq> set (map task_id (tasks input))"
    and "preds_first (plan_edges (map task_id (tasks input)) (task_dependencies input)) xs"
    and "d \<in> set (task_dependencies input)" and "live_dep (set (map task_id (tasks input))) d"
    and "map_of (placed (place_all input xs)) (predecessorId d) = Some p"
    and "map_of (placed (place_all input xs)) (successorId d) = Some s"
  shows "obeys d p s"
  using assms(1-3,6,7)
proof (induction xs arbitrary: p s rule: rev_induct)
  case (snoc x xs)
  let ?E = "plan_edges (map task_id (tasks input)) (task_dependencies input)"
  let ?pl = "place_all input xs"
  have known: "set xs \<subseteq> set (map task_id (tasks input))" and x: "x \<notin> set xs" and dist: "distinct xs"
    using snoc.prems(1,2) by auto
  have edge: "(predecessorId d, successorId d) \<in> ?E"
    using assms(4,5) by (auto simp: plan_edges_def)
  have first: "preds_first ?E xs"
    using snoc.prems(3) unfolding preds_first_def by (metis append_Cons append_assoc)
  have "x \<in> set (map task_id (tasks input))" using snoc.prems(2) by auto
  then obtain t where t: "by_id (tasks input) x = Some t" using by_id_known by blast
  from place_task_placed [OF t, of ?pl] obtain sx where
    sx: "map_of (placed (place_all input (xs @ [x]))) = (map_of (placed ?pl))(x \<mapsto> sx)"
    and start: "earliest_day (placed ?pl) (durationFor (hours t) (calendar input))
        (predecessorsOf (task_dependencies input) x) \<le> slot_start sx"
    and fin: "slot_end sx = slot_start sx + durationFor (hours t) (calendar input) - 1"
    unfolding place_all_snoc by (metis max.cobounded1)
  show ?case
  proof (cases "successorId d = x")
    case True
    have "predecessorId d \<in> set xs"
      using snoc.prems(3) edge True unfolding preds_first_def by blast
    then have ne: "predecessorId d \<noteq> x" using x by blast
    with snoc.prems(4) sx have p: "map_of (placed ?pl) (predecessorId d) = Some p" by simp
    have "d \<in> set (predecessorsOf (task_dependencies input) x)"
      using assms(4) True by (simp add: predecessorsOf_def)
    from order_trans [OF earliest_day_ge [OF this p] start] fin
    have "obeys d p sx" by (rule constraint_respects)
    with snoc.prems(5) sx True show ?thesis by simp
  next
    case False
    with snoc.prems(5) sx have s: "map_of (placed ?pl) (successorId d) = Some s" by simp
    then have "successorId d \<in> set xs" using place_all_placed [OF known] by auto
    then obtain us vs where "xs = us @ successorId d # vs" by (meson split_list)
    with first edge have "predecessorId d \<in> set xs" unfolding preds_first_def by fastforce
    with x snoc.prems(4) sx have "map_of (placed ?pl) (predecessorId d) = Some p"
      by (auto split: if_splits)
    with snoc.IH [OF dist known first _ s] show ?thesis by blast
  qed
qed (simp add: place_all_def)

section \<open>One person, one task at a time\<close>

definition disjoint_slots :: "slot \<Rightarrow> slot \<Rightarrow> bool" where
  "disjoint_slots a b = (slot_end a < slot_start b \<or> slot_end b < slot_start a)"

definition role_of :: "ScheduleInput \<Rightarrow> string \<Rightarrow> string" where
  "role_of input i = (case by_id (tasks input) i of Some t \<Rightarrow> role t | None \<Rightarrow> [])"

definition staffed :: "ScheduleInput \<Rightarrow> placement \<Rightarrow> string set \<Rightarrow> (string \<Rightarrow> nat) \<Rightarrow> bool" where
  "staffed input p is f =
     ((\<forall>r. length (slotsFor input p r) = people input r) \<and>
      (\<forall>i \<in> is. \<forall>s. map_of (placed p) i = Some s \<longrightarrow>
         f i < people input (role_of input i) \<and>
         slot_end s < slotsFor input p (role_of input i) ! f i) \<and>
      (\<forall>i \<in> is. \<forall>j \<in> is. \<forall>a b. i \<noteq> j \<longrightarrow> role_of input i = role_of input j \<longrightarrow> f i = f j \<longrightarrow>
         map_of (placed p) i = Some a \<longrightarrow> map_of (placed p) j = Some b \<longrightarrow> disjoint_slots a b))"

lemma people_pos: "0 < people input r"
  by (simp add: people_def less_max_iff_disj)

lemma min_slot: "xs \<noteq> [] \<Longrightarrow> index_of (min_list xs) xs < length (xs :: int list)"
  by (intro index_of_less) (simp add: min_list_Min)

lemma place_all_staffed:
  assumes "distinct xs" and "set xs \<subseteq> set (map task_id (tasks input))"
  shows "\<exists>f. staffed input (place_all input xs) (set xs) f"
  using assms
proof (induction xs rule: rev_induct)
  case Nil
  then show ?case by (simp add: staffed_def place_all_def slotsFor_def get_or_def)
next
  case (snoc x xs)
  let ?p = "place_all input xs" and ?q = "place_all input (xs @ [x])"
  from snoc obtain f where f: "staffed input ?p (set xs) f" by auto
  have "x \<in> set (map task_id (tasks input))" using snoc.prems(2) by auto
  then obtain t where t: "by_id (tasks input) x = Some t" using by_id_known by blast
  have r: "role_of input x = role t" by (simp add: role_of_def t)
  let ?slots = "slotsFor input ?p (role t)"
  let ?k = "index_of (min_list ?slots) ?slots"
  have len: "length (slotsFor input ?p r') = people input r'" for r' using f by (simp add: staffed_def)
  then have "?slots \<noteq> []" using people_pos [of input "role t"] by (metis length_greater_0_conv)
  from min_slot [OF this] have k: "?k < people input (role t)" by (simp add: len)
  from place_task_placed [OF t, of ?p] obtain s where
    s: "map_of (placed ?q) = (map_of (placed ?p))(x \<mapsto> s)"
    and start: "?slots ! ?k \<le> slot_start s"
    and fin: "slot_end s = slot_start s + durationFor (hours t) (calendar input) - 1"
    unfolding place_all_snoc by (metis max.cobounded2)
  have long: "slot_start s \<le> slot_end s" using fin durationFor_pos by (metis add_le_cancel_left add_diff_eq diff_ge_0_iff_ge le_add_same_cancel1)
  have slots': "slotsFor input ?q r' = (if r' = role t then ?slots[?k := slot_end s + 1] else slotsFor input ?p r')" for r'
  proof -
    have "slot_end s = slot_end (the (map_of (placed ?q) x))" by (simp add: s)
    then show ?thesis
      unfolding place_all_snoc by (simp add: place_task_def t Let_def slotsFor_def update_conv')
  qed
  let ?f = "f(x := ?k)"
  have x: "x \<notin> set xs" using snoc.prems by simp
  have old: "slot_end a < slotsFor input ?q (role_of input i) ! f i"
    and lim: "f i < people input (role_of input i)"
    and free: "role_of input i = role t \<Longrightarrow> f i = ?k \<Longrightarrow> slot_end a < slot_start s"
    if "i \<in> set xs" "map_of (placed ?p) i = Some a" for i a
  proof -
    from f that have le: "f i < people input (role_of input i)"
      "slot_end a < slotsFor input ?p (role_of input i) ! f i" by (auto simp: staffed_def)
    show "f i < people input (role_of input i)" by (rule le)
    show gap: "slot_end a < slot_start s" if "role_of input i = role t" "f i = ?k"
      using le(2) that start by simp
    show "slot_end a < slotsFor input ?q (role_of input i) ! f i"
      using le gap long k len by (auto simp: slots' nth_list_update)
  qed
  have "staffed input ?q (set (xs @ [x])) ?f"
    unfolding staffed_def
  proof (intro conjI)
    show "\<forall>r'. length (slotsFor input ?q r') = people input r'" by (simp add: slots' len)
    show "\<forall>i \<in> set (xs @ [x]). \<forall>a. map_of (placed ?q) i = Some a \<longrightarrow>
        ?f i < people input (role_of input i) \<and> slot_end a < slotsFor input ?q (role_of input i) ! ?f i"
      using old lim k len x r by (auto simp: s slots')
    show "\<forall>i \<in> set (xs @ [x]). \<forall>j \<in> set (xs @ [x]). \<forall>a b. i \<noteq> j \<longrightarrow>
        role_of input i = role_of input j \<longrightarrow> ?f i = ?f j \<longrightarrow>
        map_of (placed ?q) i = Some a \<longrightarrow> map_of (placed ?q) j = Some b \<longrightarrow> disjoint_slots a b"
      using free f x r by (auto simp: s disjoint_slots_def staffed_def)
  qed
  then show ?case by blast
qed

section \<open>The backward pass\<close>

definition latest_of :: "ScheduleInput \<Rightarrow> (string \<times> slot) list \<Rightarrow> int \<Rightarrow> string list \<Rightarrow> string \<Rightarrow> int option" where
  "latest_of input pl horizon is = map_of (computeLatestFinish input is pl horizon)"

definition late_slot :: "slot \<Rightarrow> int \<Rightarrow> slot" where
  "late_slot s l = \<lparr>slot_start = l - (slot_end s - slot_start s), slot_end = l\<rparr>"

text \<open>Every successor of a listed task is listed after it.\<close>

definition succs_later :: "(string \<times> string) set \<Rightarrow> string list \<Rightarrow> bool" where
  "succs_later E xs = (\<forall>us x vs. xs = us @ x # vs \<longrightarrow> (\<forall>y. (x, y) \<in> E \<longrightarrow> y \<in> set vs))"

lemma preds_first_later:
  assumes "preds_first E xs" and "distinct xs" and "\<forall>(a, b) \<in> E. b \<in> set xs"
  shows "succs_later E xs"
  unfolding succs_later_def
proof (intro allI impI)
  fix us x vs y
  assume xs: "xs = us @ x # vs" and e: "(x, y) \<in> E"
  then have "y \<in> set (us @ x # vs)" using assms(3) by auto
  moreover have "y \<notin> set (us @ [x])"
  proof
    assume "y \<in> set (us @ [x])"
    then obtain as bs where "us @ [x] = as @ y # bs" by (meson split_list)
    then have "xs = as @ y # (bs @ vs)" and "set as \<subseteq> set us \<or> (as = us \<and> y = x)"
      using xs by (auto simp: append_eq_append_conv2 append_eq_Cons_conv Cons_eq_append_conv)
    with assms(1) e have "x \<in> set as" and "set as \<subseteq> set us" unfolding preds_first_def by blast+
    with assms(2) xs show False by auto
  qed
  ultimately show "y \<in> set vs" by auto
qed

lemma succs_later_Cons: "succs_later E (x # xs) \<Longrightarrow> succs_later E xs \<and> (\<forall>y. (x, y) \<in> E \<longrightarrow> y \<in> set xs)"
  unfolding succs_later_def by (metis append_Cons append_Nil)

lemma late_fold_le: "fold (late_bound input l own) ds m \<le> m"
proof (induction ds arbitrary: m)
  case (Cons d ds)
  have "late_bound input l own d m \<le> m"
    by (auto simp: late_bound_def Let_def split: option.split DependencyType.split)
  with Cons [of "late_bound input l own d m"] show ?case by simp
qed simp

lemma late_bound_mono: "m \<le> n \<Longrightarrow> late_bound input l own d m \<le> late_bound input l own d n"
  by (auto simp: late_bound_def Let_def split: option.split DependencyType.split)

lemma late_fold_le_one:
  assumes "d \<in> set ds"
  shows "fold (late_bound input l own) ds m \<le> late_bound input l own d m"
proof -
  obtain us vs where "ds = us @ d # vs" using assms by (meson split_list)
  then have "fold (late_bound input l own) ds m \<le> late_bound input l own d (fold (late_bound input l own) us m)"
    using late_fold_le by simp
  also have "\<dots> \<le> late_bound input l own d m" by (rule late_bound_mono [OF late_fold_le])
  finally show ?thesis .
qed

definition latest_value :: "ScheduleInput \<Rightarrow> (string \<times> int) list \<Rightarrow> int \<Rightarrow> string \<Rightarrow> slot \<Rightarrow> int" where
  "latest_value input l horizon i own =
     (let ds = filter (\<lambda>d. predecessorId d = i) (task_dependencies input)
      in if ds = [] then horizon else max (slot_end own) (fold (late_bound input l own) ds horizon))"

lemma latest_step_Some:
  "map_of pl i = Some own \<Longrightarrow>
     latest_step input pl horizon i l = AList.update i (latest_value input l horizon i own) l"
  by (simp add: latest_step_def latest_value_def Let_def)

lemma computeLatestFinish_Cons:
  "computeLatestFinish input (i # is) pl horizon =
   latest_step input pl horizon i (computeLatestFinish input is pl horizon)"
  by (simp add: computeLatestFinish_def)

lemma latest_value_bounds:
  "slot_end own \<le> horizon \<Longrightarrow>
     slot_end own \<le> latest_value input l horizon i own \<and> latest_value input l horizon i own \<le> horizon"
  using late_fold_le by (auto simp: latest_value_def Let_def)

lemma latest_bounds:
  assumes "set is \<subseteq> dom (map_of pl)" and "\<forall>i s. map_of pl i = Some s \<longrightarrow> slot_end s \<le> horizon"
  shows "dom (latest_of input pl horizon is) = set is \<and>
    (\<forall>i \<in> set is. \<forall>s l. map_of pl i = Some s \<longrightarrow> latest_of input pl horizon is i = Some l \<longrightarrow>
       slot_end s \<le> l \<and> l \<le> horizon)"
  using assms(1)
proof (induction "is")
  case (Cons i "is")
  then obtain own where own: "map_of pl i = Some own" by auto
  have "slot_end own \<le> latest_value input (computeLatestFinish input is pl horizon) horizon i own \<and>
      latest_value input (computeLatestFinish input is pl horizon) horizon i own \<le> horizon"
    using assms(2) own by (intro latest_value_bounds) blast
  moreover have "latest_of input pl horizon (i # is) = (latest_of input pl horizon is)
      (i \<mapsto> latest_value input (computeLatestFinish input is pl horizon) horizon i own)"
    using own by (simp add: latest_of_def computeLatestFinish_Cons latest_step_Some update_conv')
  moreover have "dom (latest_of input pl horizon is) = set is \<and>
    (\<forall>i \<in> set is. \<forall>s l. map_of pl i = Some s \<longrightarrow> latest_of input pl horizon is i = Some l \<longrightarrow>
       slot_end s \<le> l \<and> l \<le> horizon)"
    using Cons by simp
  ultimately show ?case using own by (auto simp del: fun_upd_apply simp add: fun_upd_same fun_upd_other
      split: if_splits) (auto split: if_splits)
qed (simp add: latest_of_def computeLatestFinish_def)

text \<open>The types whose lag the backward pass takes into account.\<close>

definition lag_counted :: "Dependency \<Rightarrow> bool" where
  "lag_counted d = (dep_type d \<in> {FINISH_TO_START, FINISH_TO_FINISH} \<or> lagDays d = 0)"

lemma late_bound_obeys:
  assumes "map_of l (successorId d) = Some ls" and "by_id (tasks input) (successorId d) = Some t"
    and "slot_end s = slot_start s + durationFor (hours t) (calendar input) - 1"
    and "lp \<le> late_bound input l p d m" and "lag_counted d" and "slot_start p \<le> slot_end p"
  shows "obeys d (late_slot p lp) (late_slot s ls)"
  using assms
  by (cases "dep_type d") (auto simp: obeys_def late_bound_def late_slot_def lag_counted_def)

lemma obeys_later: "obeys d p s \<Longrightarrow> slot_end s \<le> ls \<Longrightarrow> obeys d (late_slot p (slot_end p)) (late_slot s ls)"
  by (cases "dep_type d") (auto simp: obeys_def late_slot_def)

lemma latest_obeys:
  assumes "distinct is" and "succs_later E is" and "set is \<subseteq> dom (map_of pl)"
    and horizon: "\<forall>i s. map_of pl i = Some s \<longrightarrow> slot_end s \<le> horizon"
    and d: "d \<in> set (task_dependencies input)" "(predecessorId d, successorId d) \<in> E" "lag_counted d"
    and p: "map_of pl (predecessorId d) = Some p" "slot_start p \<le> slot_end p"
    and s: "map_of pl (successorId d) = Some s" "by_id (tasks input) (successorId d) = Some t"
      "slot_end s = slot_start s + durationFor (hours t) (calendar input) - 1"
    and ob: "obeys d p s"
    and "predecessorId d \<in> set is"
  shows "\<exists>lp ls. latest_of input pl horizon is (predecessorId d) = Some lp \<and>
    latest_of input pl horizon is (successorId d) = Some ls \<and> obeys d (late_slot p lp) (late_slot s ls)"
  using assms(1-3,14)
proof (induction "is")
  case (Cons i "is")
  let ?l = "computeLatestFinish input is pl horizon"
  have later: "succs_later E is" "\<forall>y. (i, y) \<in> E \<longrightarrow> y \<in> set is"
    using succs_later_Cons [OF Cons.prems(2)] by auto
  have sub: "set is \<subseteq> dom (map_of pl)" and new: "i \<notin> set is" "distinct is"
    using Cons.prems by auto
  obtain own where own: "map_of pl i = Some own" using Cons.prems(3) by auto
  have step: "latest_of input pl horizon (i # is) =
      (latest_of input pl horizon is)(i \<mapsto> latest_value input ?l horizon i own)"
    by (simp add: latest_of_def computeLatestFinish_Cons latest_step_Some [OF own] update_conv')
  show ?case
  proof (cases "predecessorId d = i")
    case True
    then have own': "own = p" using own p(1) by simp
    have "successorId d \<in> set is" using later(2) d(2) True by blast
    with latest_bounds [OF sub horizon] obtain ls where
      ls: "latest_of input pl horizon is (successorId d) = Some ls" by blast
    with latest_bounds [OF sub horizon] \<open>successorId d \<in> set is\<close> s(1) have late: "slot_end s \<le> ls" by blast
    have ne: "successorId d \<noteq> i" using \<open>successorId d \<in> set is\<close> new by blast
    let ?ds = "filter (\<lambda>d. predecessorId d = i) (task_dependencies input)"
    let ?b = "fold (late_bound input ?l p) ?ds horizon"
    have mem: "d \<in> set ?ds" using d(1) True by simp
    then have v: "latest_value input ?l horizon i p = max (slot_end p) ?b"
      unfolding latest_value_def Let_def by (metis emptyE list.set(1))
    have "obeys d (late_slot p (max (slot_end p) ?b)) (late_slot s ls)"
    proof (cases "?b \<le> slot_end p")
      case True
      then show ?thesis using obeys_later [OF ob late] by (simp add: max_def)
    next
      case False
      then have m: "max (slot_end p) ?b = ?b" by simp
      show ?thesis unfolding m
        by (rule late_bound_obeys [OF ls [unfolded latest_of_def] s(2,3) late_fold_le_one [OF mem] d(3) p(2)])
    qed
    with step ls ne True own' v show ?thesis by simp
  next
    case False
    then have mem: "predecessorId d \<in> set is" using Cons.prems(4) by simp
    from Cons.IH [OF new(2) later(1) sub mem] obtain lp ls where IH:
      "latest_of input pl horizon is (predecessorId d) = Some lp"
      "latest_of input pl horizon is (successorId d) = Some ls" "obeys d (late_slot p lp) (late_slot s ls)"
      by blast
    then have "successorId d \<in> set is" using latest_bounds [OF sub horizon] by blast
    with new have "successorId d \<noteq> i" by blast
    with IH False step show ?thesis by simp
  qed
qed simp

section \<open>The interface of a task order\<close>

locale task_order =
  fixes ordering :: "SchedulableTask list \<Rightarrow> Dependency list \<Rightarrow> string list"
  assumes permutation: "distinct (map task_id ts) \<Longrightarrow>
      distinct (ordering ts deps) \<and> set (ordering ts deps) = set (map task_id ts)"
    and predecessors_first:
      "distinct (map task_id ts) \<Longrightarrow> acyclic (plan_edges (map task_id ts) deps) \<Longrightarrow>
       preds_first (plan_edges (map task_id ts) deps) (ordering ts deps)"
begin

definition slots :: "ScheduleInput \<Rightarrow> string \<Rightarrow> slot option" where
  "slots input = map_of (placed (place_all input (ordering (tasks input) (task_dependencies input))))"

lemma all_placed:
  assumes "distinct (map task_id (tasks input))"
  shows "dom (slots input) = set (map task_id (tasks input))"
    and "i \<in> set (map task_id (tasks input)) \<Longrightarrow>
      well_placed input (place_all input (ordering (tasks input) (task_dependencies input))) i"
proof -
  let ?o = "ordering (tasks input) (task_dependencies input)"
  have o: "set ?o = set (map task_id (tasks input))" using permutation [OF assms] by blast
  have "dom (map_of (placed (place_all input ?o))) = set ?o \<and> (\<forall>i \<in> set ?o. well_placed input (place_all input ?o) i)"
    by (rule place_all_placed) (simp only: o)
  with o show "dom (slots input) = set (map task_id (tasks input))"
    and "i \<in> set (map task_id (tasks input)) \<Longrightarrow> well_placed input (place_all input ?o) i"
    unfolding slots_def by blast+
qed

lemma slots_obey:
  assumes "distinct (map task_id (tasks input))"
    and "acyclic (plan_edges (map task_id (tasks input)) (task_dependencies input))"
    and "d \<in> set (task_dependencies input)"
    and "slots input (predecessorId d) = Some p" and "slots input (successorId d) = Some s"
  shows "obeys d p s"
proof -
  let ?o = "ordering (tasks input) (task_dependencies input)"
  have o: "distinct ?o" "set ?o = set (map task_id (tasks input))" using permutation [OF assms(1)] by blast+
  have "predecessorId d \<in> dom (slots input)" "successorId d \<in> dom (slots input)" using assms(4,5) by auto
  then have live: "live_dep (set (map task_id (tasks input))) d"
    unfolding live_dep_def all_placed(1) [OF assms(1)] by blast
  show ?thesis
    by (rule place_all_respects [OF o(1) _ predecessors_first [OF assms(1,2)] assms(3) live])
      (use o(2) assms(4,5) in \<open>simp_all add: slots_def\<close>)
qed

lemma slots_staffed:
  assumes "distinct (map task_id (tasks input))"
  shows "\<exists>f. staffed input (place_all input (ordering (tasks input) (task_dependencies input)))
    (set (map task_id (tasks input))) f"
  using permutation [OF assms] place_all_staffed by (metis subset_refl)

lemma late_slots_obey:
  assumes "distinct (map task_id (tasks input))"
    and "acyclic (plan_edges (map task_id (tasks input)) (task_dependencies input))"
    and "\<forall>i s. slots input i = Some s \<longrightarrow> slot_end s \<le> horizon"
    and "d \<in> set (task_dependencies input)" and "lag_counted d"
    and "slots input (predecessorId d) = Some p" and "slots input (successorId d) = Some s"
  shows "\<exists>lp ls. latest_of input (placed (place_all input (ordering (tasks input) (task_dependencies input))))
      horizon (ordering (tasks input) (task_dependencies input)) (predecessorId d) = Some lp \<and>
    latest_of input (placed (place_all input (ordering (tasks input) (task_dependencies input))))
      horizon (ordering (tasks input) (task_dependencies input)) (successorId d) = Some ls \<and>
    obeys d (late_slot p lp) (late_slot s ls)"
proof -
  let ?o = "ordering (tasks input) (task_dependencies input)"
  let ?E = "plan_edges (map task_id (tasks input)) (task_dependencies input)"
  have o: "distinct ?o" "set ?o = set (map task_id (tasks input))" using permutation [OF assms(1)] by blast+
  have dom: "dom (slots input) = set (map task_id (tasks input))" by (rule all_placed(1) [OF assms(1)])
  have ids: "predecessorId d \<in> set (map task_id (tasks input))" "successorId d \<in> set (map task_id (tasks input))"
    using assms(6,7) unfolding dom [symmetric] by blast+
  then have edge: "(predecessorId d, successorId d) \<in> ?E"
    using assms(4) by (auto simp: plan_edges_def live_dep_def)
  have later: "succs_later ?E ?o"
    by (rule preds_first_later [OF predecessors_first [OF assms(1,2)] o(1)])
      (auto simp: o(2) plan_edges_def live_dep_def)
  obtain tp where p: "by_id (tasks input) (predecessorId d) = Some tp" "slot_end p = slot_start p + durationFor (hours tp) (calendar input) - 1"
    using all_placed(2) [OF assms(1) ids(1)] assms(6) by (auto simp: well_placed_def slots_def)
  obtain t where t: "by_id (tasks input) (successorId d) = Some t"
    "slot_end s = slot_start s + durationFor (hours t) (calendar input) - 1"
    using all_placed(2) [OF assms(1) ids(2)] assms(7) by (auto simp: well_placed_def slots_def)
  show ?thesis
    by (rule latest_obeys [OF o(1) later _ _ assms(4) edge assms(5) _ _ _ t
          slots_obey [OF assms(1,2,4,6,7)]])
      (use assms(3,6,7) dom o ids durationFor_pos [of "hours tp" "calendar input"] p
        in \<open>simp_all add: slots_def\<close>)
qed

end

interpretation kahn_order: task_order topologicalOrder
  by unfold_locales (rule topologicalOrder_permutation topologicalOrder_preds_first; assumption)+

section \<open>The schedule\<close>

lemma mset_insert_by [simp]: "mset (insert_by le x ys) = add_mset x (mset ys)"
  by (induction ys) auto

lemma mset_sort_by [simp]: "mset (sort_by le xs) = mset xs"
  by (induction xs) (auto simp: sort_by_def)

definition schedule_slots :: "ScheduleInput \<Rightarrow> (string \<times> slot) list" where
  "schedule_slots input = placed (place_all input (topologicalOrder (tasks input) (task_dependencies input)))"

definition schedule_latest :: "ScheduleInput \<Rightarrow> (string \<times> int) list" where
  "schedule_latest input =
     computeLatestFinish input (topologicalOrder (tasks input) (task_dependencies input))
       (schedule_slots input) (latest_end (schedule_slots input))"

lemma schedule_slots_map: "map_of (schedule_slots input) = kahn_order.slots input"
  by (simp add: schedule_slots_def kahn_order.slots_def)

lemma sched_tasks_eq:
  "sched_tasks (buildSchedule collate input) = sort_by (schedule_le collate)
     (List.map_filter (\<lambda>t. map_option (task_entry input (schedule_latest input) t)
        (map_of (schedule_slots input) (task_id t))) (tasks input))"
  "totalWorkingDays (buildSchedule collate input) = latest_end (schedule_slots input)"
  by (simp_all add: buildSchedule_def schedule_slots_def schedule_latest_def Let_def)

lemma task_entry_simps [simp]:
  "taskId (task_entry input l t s) = task_id t" "startDay (task_entry input l t s) = slot_start s"
  "endDay (task_entry input l t s) = slot_end s" "st_role (task_entry input l t s) = role t"
  "slackDays (task_entry input l t s) = max 0 (get_or (slot_end s) l (task_id t) - slot_end s)"
  "onCriticalPath (task_entry input l t s) = (slackDays (task_entry input l t s) = 0)"
  "durationDays (task_entry input l t s) = slot_end s - slot_start s + 1"
  by (simp_all add: task_entry_def Let_def)

lemma sched_task_iff:
  "e \<in> set (sched_tasks (buildSchedule collate input)) \<longleftrightarrow>
   (\<exists>t s. t \<in> set (tasks input) \<and> kahn_order.slots input (task_id t) = Some s \<and>
          e = task_entry input (schedule_latest input) t s)"
  by (auto simp: sched_tasks_eq schedule_slots_map List.map_filter_def image_iff)

lemma latest_end_ge_acc: "m \<le> fold (\<lambda>(i, s) latest. max latest (slot_end s)) pl m"
  by (induction pl arbitrary: m) (auto intro: order_trans [OF max.cobounded1])

lemma latest_end_ge: "(i, s) \<in> set pl \<Longrightarrow> slot_end s \<le> latest_end pl"
  unfolding latest_end_def
  by (induction pl arbitrary: rule: rev_induct) (auto simp: le_max_iff_disj)

lemma fold_end_attained:
  "fold (\<lambda>(i, s) latest. max latest (slot_end s)) pl m \<in> insert m (slot_end ` snd ` set pl)"
proof (induction pl arbitrary: m)
  case (Cons x pl)
  have "m = max m (slot_end (snd x)) \<or> slot_end (snd x) = max m (slot_end (snd x))" by (simp add: max_def)
  with Cons [of "max m (slot_end (snd x))"] show ?case by (auto simp: case_prod_beta)
qed simp

lemma latest_end_attained: "latest_end pl = 0 \<or> (\<exists>(i, s) \<in> set pl. slot_end s = latest_end pl)"
  using fold_end_attained [of pl 0] unfolding latest_end_def by force

lemma distinct_placed: "distinct (map fst (placed (place_all input is)))"
proof (induction "is" rule: rev_induct)
  case (snoc x xs)
  then show ?case
    by (auto simp: place_all_snoc place_task_def Let_def intro!: distinct_update split: option.split)
qed (simp add: place_all_def)

lemma slots_end_le: "kahn_order.slots input i = Some s \<Longrightarrow> slot_end s \<le> latest_end (schedule_slots input)"
  by (rule latest_end_ge [of i]) (simp add: schedule_slots_map [symmetric] map_of_SomeD)

lemma slots_bounds:
  assumes "distinct (map task_id (tasks input))" and "t \<in> set (tasks input)"
  shows "\<exists>s. kahn_order.slots input (task_id t) = Some s \<and> 1 \<le> slot_start s \<and>
    slot_end s = slot_start s + durationFor (hours t) (calendar input) - 1"
  using kahn_order.all_placed(2) [OF assms(1), of "task_id t"] assms(2)
  by (auto simp: well_placed_def kahn_order.slots_def by_id_distinct [OF assms])

lemma schedule_latest_bounds:
  assumes "distinct (map task_id (tasks input))" and "kahn_order.slots input i = Some s"
  shows "\<exists>l. map_of (schedule_latest input) i = Some l \<and> slot_end s \<le> l \<and> l \<le> latest_end (schedule_slots input)"
proof -
  let ?o = "topologicalOrder (tasks input) (task_dependencies input)"
  have o: "set ?o = dom (map_of (schedule_slots input))"
    using topologicalOrder_permutation [OF assms(1)] kahn_order.all_placed(1) [OF assms(1)]
    by (simp add: schedule_slots_map)
  have "dom (latest_of input (schedule_slots input) (latest_end (schedule_slots input)) ?o) = set ?o \<and>
    (\<forall>i \<in> set ?o. \<forall>s l. map_of (schedule_slots input) i = Some s \<longrightarrow>
       latest_of input (schedule_slots input) (latest_end (schedule_slots input)) ?o i = Some l \<longrightarrow>
       slot_end s \<le> l \<and> l \<le> latest_end (schedule_slots input))"
    by (rule latest_bounds) (use o slots_end_le in \<open>auto simp: schedule_slots_map\<close>)
  moreover have "i \<in> set ?o" using assms(2) o by (auto simp: schedule_slots_map)
  ultimately show ?thesis
    using assms(2) by (simp add: latest_of_def schedule_latest_def schedule_slots_map) blast
qed

section \<open>What a schedule promises\<close>

definition plan_graph :: "ScheduleInput \<Rightarrow> DependencyGraphInput" where
  "plan_graph input = \<lparr>dependencies = task_dependencies input, taskIds = map task_id (tasks input),
     excludedTaskIds = []\<rparr>"

lemma plan_graph_edges: "live_edges (plan_graph input) = plan_edges (map task_id (tasks input)) (task_dependencies input)"
  by (auto simp: live_edges_def plan_graph_def plan_edges_def live_ids_def live_dep_def)

lemma gate_acyclic:
  "\<not> hasBlockingDependencyProblem (validateDependencies (plan_graph input)) \<Longrightarrow>
     acyclic (plan_edges (map task_id (tasks input)) (task_dependencies input))"
proof -
  have "list_ex blocking (map cycle_problem cs)" if "cs \<noteq> []" for cs
    using that by (cases cs) (auto simp: cycle_problem_def)
  then show "\<not> hasBlockingDependencyProblem (validateDependencies (plan_graph input)) \<Longrightarrow>
     acyclic (plan_edges (map task_id (tasks input)) (task_dependencies input))"
    using detectCycles_complete [of _ "plan_graph input"]
    unfolding hasBlockingDependencyProblem_def validateDependencies_def list_ex_append
      acyclic_def plan_graph_edges by blast
qed

definition entry_slot :: "ScheduledTask \<Rightarrow> slot" where
  "entry_slot e = \<lparr>slot_start = startDay e, slot_end = endDay e\<rparr>"

lemma entry_slot_entry [simp]: "entry_slot (task_entry input l t s) = s"
  by (simp add: entry_slot_def)

text \<open>
  The order is topological: for a plan without a blocking problem, every task is
  listed exactly once and after all the tasks it depends on.\<close>

theorem order_is_topological:
  assumes "distinct (map task_id (tasks input))"
    and "\<not> hasBlockingDependencyProblem (validateDependencies (plan_graph input))"
  shows "mset (topologicalOrder (tasks input) (task_dependencies input)) = mset (map task_id (tasks input)) \<and>
    preds_first (live_edges (plan_graph input)) (topologicalOrder (tasks input) (task_dependencies input))"
proof
  show "mset (topologicalOrder (tasks input) (task_dependencies input)) = mset (map task_id (tasks input))"
    using topologicalOrder_permutation [OF assms(1), of "task_dependencies input"] assms(1)
    by (metis set_eq_iff_mset_eq_distinct)
  show "preds_first (live_edges (plan_graph input)) (topologicalOrder (tasks input) (task_dependencies input))"
    unfolding plan_graph_edges
    by (rule kahn_order.predecessors_first [OF assms(1) gate_acyclic [OF assms(2)]])
qed

text \<open>
  Property C18. A schedule keeps every dependency: for a plan without a blocking problem, each
  of the four relationships holds between the placed tasks with its lag.\<close>

theorem schedule_keeps_dependencies:
  assumes "distinct (map task_id (tasks input))"
    and "\<not> hasBlockingDependencyProblem (validateDependencies (plan_graph input))"
    and "d \<in> set (task_dependencies input)"
    and "a \<in> set (sched_tasks (buildSchedule collate input))" and "taskId a = predecessorId d"
    and "b \<in> set (sched_tasks (buildSchedule collate input))" and "taskId b = successorId d"
  shows "case dep_type d of
      FINISH_TO_START \<Rightarrow> (endDay a + 1 + lagDays d \<le> startDay b)
    | START_TO_START \<Rightarrow> (startDay a + lagDays d \<le> startDay b)
    | FINISH_TO_FINISH \<Rightarrow> (endDay a + lagDays d \<le> endDay b)
    | START_TO_FINISH \<Rightarrow> (startDay a + lagDays d \<le> endDay b)"
proof -
  obtain p where p: "kahn_order.slots input (predecessorId d) = Some p" "startDay a = slot_start p" "endDay a = slot_end p"
    using assms(4,5) unfolding sched_task_iff by fastforce
  obtain s where s: "kahn_order.slots input (successorId d) = Some s" "startDay b = slot_start s" "endDay b = slot_end s"
    using assms(6,7) unfolding sched_task_iff by fastforce
  have "obeys d p s"
    by (rule kahn_order.slots_obey [OF assms(1) gate_acyclic [OF assms(2)] assms(3) p(1) s(1)])
  with p s show ?thesis by (cases "dep_type d") (simp_all add: obeys_def)
qed

text \<open>
  Property C19. A role never runs more tasks than it has people: the tasks of the schedule can
  be shared out among the people of their roles so that no person has two at once.\<close>

theorem schedule_within_capacity:
  assumes "distinct (map task_id (tasks input))"
  shows "\<exists>person. \<forall>a \<in> set (sched_tasks (buildSchedule collate input)).
    person (taskId a) < people input (st_role a) \<and>
    (\<forall>b \<in> set (sched_tasks (buildSchedule collate input)).
       st_role a = st_role b \<longrightarrow> person (taskId a) = person (taskId b) \<longrightarrow> taskId a \<noteq> taskId b \<longrightarrow>
       endDay a < startDay b \<or> endDay b < startDay a)"
proof -
  let ?p = "place_all input (topologicalOrder (tasks input) (task_dependencies input))"
  obtain f where f: "staffed input ?p (set (map task_id (tasks input))) f"
    using kahn_order.slots_staffed [OF assms] by blast
  have role: "role_of input (task_id t) = role t" if "t \<in> set (tasks input)" for t
    using by_id_distinct [OF assms that] by (simp add: role_of_def)
  show ?thesis
  proof (rule exI [of _ f], intro ballI conjI impI)
    fix a assume a: "a \<in> set (sched_tasks (buildSchedule collate input))"
    then obtain t s where t: "t \<in> set (tasks input)" "map_of (placed ?p) (task_id t) = Some s"
      "a = task_entry input (schedule_latest input) t s"
      unfolding sched_task_iff kahn_order.slots_def by blast
    with f role [OF t(1)] show "f (taskId a) < people input (st_role a)"
      by (auto simp: staffed_def)
    fix b assume b: "b \<in> set (sched_tasks (buildSchedule collate input))"
      and eq: "st_role a = st_role b" "f (taskId a) = f (taskId b)" "taskId a \<noteq> taskId b"
    from b obtain u r where u: "u \<in> set (tasks input)" "map_of (placed ?p) (task_id u) = Some r"
      "b = task_entry input (schedule_latest input) u r"
      unfolding sched_task_iff kahn_order.slots_def by blast
    have "disjoint_slots s r"
      using f t u eq role [OF t(1)] role [OF u(1)] by (auto simp: staffed_def)
    with t(3) u(3) show "endDay a < startDay b \<or> endDay b < startDay a"
      by (simp add: disjoint_slots_def)
  qed
qed

text \<open>
  Property C22. A schedule is complete and tight: every task appears once, starts on or after
  day 1, lasts what its hours take at the calendar's day length and ends by the total, which is
  the last day of some task.\<close>

theorem schedule_complete:
  assumes "distinct (map task_id (tasks input))" and "tasks input \<noteq> []"
  shows "mset (map taskId (sched_tasks (buildSchedule collate input))) = mset (map task_id (tasks input)) \<and>
    list_all (\<lambda>e. 1 \<le> startDay e \<and> endDay e \<le> totalWorkingDays (buildSchedule collate input) \<and>
      endDay e = startDay e + durationDays e - 1 \<and>
      (\<exists>t. by_id (tasks input) (taskId e) = Some t \<and> durationDays e = durationFor (hours t) (calendar input)))
      (sched_tasks (buildSchedule collate input)) \<and>
    list_ex (\<lambda>e. endDay e = totalWorkingDays (buildSchedule collate input) \<and> onCriticalPath e)
      (sched_tasks (buildSchedule collate input))"
proof (intro conjI)
  let ?S = "buildSchedule collate input" and ?l = "schedule_latest input"
  have ex: "\<exists>s. map_of (schedule_slots input) (task_id t) = Some s" if "t \<in> set (tasks input)" for t
    using slots_bounds [OF assms(1) that] by (auto simp: schedule_slots_map)
  have "mset (map taskId (sched_tasks ?S)) = mset (map taskId (List.map_filter (\<lambda>t. map_option (task_entry input ?l t)
        (map_of (schedule_slots input) (task_id t))) (tasks input)))"
    by (simp add: sched_tasks_eq)
  also have "map taskId (List.map_filter (\<lambda>t. map_option (task_entry input ?l t)
        (map_of (schedule_slots input) (task_id t))) ts) = map task_id ts" if "set ts \<subseteq> set (tasks input)" for ts
    using that ex by (induction ts) (auto simp: List.map_filter_simps split: option.split)
  then have "map taskId (List.map_filter (\<lambda>t. map_option (task_entry input ?l t)
        (map_of (schedule_slots input) (task_id t))) (tasks input)) = map task_id (tasks input)"
    by blast
  finally show "mset (map taskId (sched_tasks ?S)) = mset (map task_id (tasks input))" .
  show "list_all (\<lambda>e. 1 \<le> startDay e \<and> endDay e \<le> totalWorkingDays ?S \<and>
      endDay e = startDay e + durationDays e - 1 \<and>
      (\<exists>t. by_id (tasks input) (taskId e) = Some t \<and> durationDays e = durationFor (hours t) (calendar input)))
      (sched_tasks ?S)"
    unfolding list_all_iff
  proof
    fix e assume "e \<in> set (sched_tasks ?S)"
    then obtain t s where t: "t \<in> set (tasks input)" "kahn_order.slots input (task_id t) = Some s"
      "e = task_entry input ?l t s" unfolding sched_task_iff by blast
    with slots_bounds [OF assms(1) t(1)] slots_end_le [OF t(2)] by_id_distinct [OF assms(1) t(1)]
    show "1 \<le> startDay e \<and> endDay e \<le> totalWorkingDays ?S \<and> endDay e = startDay e + durationDays e - 1 \<and>
      (\<exists>t. by_id (tasks input) (taskId e) = Some t \<and> durationDays e = durationFor (hours t) (calendar input))"
      by (simp add: sched_tasks_eq(2))
  qed
  obtain t where t: "t \<in> set (tasks input)" using assms(2) by (cases "tasks input") auto
  from slots_bounds [OF assms(1) t] obtain s where s: "kahn_order.slots input (task_id t) = Some s"
    "1 \<le> slot_start s" "slot_end s = slot_start s + durationFor (hours t) (calendar input) - 1" by blast
  have "0 < latest_end (schedule_slots input)"
    using slots_end_le [OF s(1)] s(2,3) durationFor_pos [of "hours t" "calendar input"] by linarith
  with latest_end_attained [of "schedule_slots input"] obtain i r where
    r: "(i, r) \<in> set (schedule_slots input)" "slot_end r = latest_end (schedule_slots input)" by auto
  then have i: "kahn_order.slots input i = Some r"
    using distinct_placed by (simp add: schedule_slots_def kahn_order.slots_def)
  then have "i \<in> set (map task_id (tasks input))"
    using kahn_order.all_placed(1) [OF assms(1)] by blast
  then obtain u where u: "u \<in> set (tasks input)" "task_id u = i" by auto
  from schedule_latest_bounds [OF assms(1) i] r(2) have "map_of ?l i = Some (slot_end r)" by auto
  then have "onCriticalPath (task_entry input ?l u r)" using u(2) by (simp add: get_or_def)
  moreover have "task_entry input ?l u r \<in> set (sched_tasks ?S)"
    unfolding sched_task_iff using i u by blast
  ultimately show "list_ex (\<lambda>e. endDay e = totalWorkingDays ?S \<and> onCriticalPath e) (sched_tasks ?S)"
    using r(2) unfolding list_ex_iff by (intro bexI [of _ "task_entry input ?l u r"]) (simp_all add: sched_tasks_eq(2))
qed

text \<open>
  Slack is real for every dependency whose lag the backward pass counts: when every
  task of a plan without a blocking problem finishes as late as its slack allows, the
  dependency still holds and no task ends after the total.\<close>

theorem late_schedule_keeps_dependencies:
  assumes "distinct (map task_id (tasks input))"
    and "\<not> hasBlockingDependencyProblem (validateDependencies (plan_graph input))"
    and "d \<in> set (task_dependencies input)" and "lag_counted d"
    and "a \<in> set (sched_tasks (buildSchedule collate input))" and "taskId a = predecessorId d"
    and "b \<in> set (sched_tasks (buildSchedule collate input))" and "taskId b = successorId d"
  shows "obeys d (late_slot (entry_slot a) (endDay a + slackDays a))
      (late_slot (entry_slot b) (endDay b + slackDays b)) \<and>
    endDay b + slackDays b \<le> totalWorkingDays (buildSchedule collate input)"
proof -
  let ?l = "schedule_latest input"
  have late: "\<exists>s l. kahn_order.slots input (taskId e) = Some s \<and> map_of ?l (taskId e) = Some l \<and>
      entry_slot e = s \<and> endDay e + slackDays e = l \<and> l \<le> latest_end (schedule_slots input)"
    if "e \<in> set (sched_tasks (buildSchedule collate input))" for e
  proof -
    from that obtain t s where t: "t \<in> set (tasks input)" "kahn_order.slots input (task_id t) = Some s"
      "e = task_entry input ?l t s" unfolding sched_task_iff by blast
    with schedule_latest_bounds [OF assms(1) t(2)] show ?thesis by (auto simp: get_or_def)
  qed
  obtain p lp where p: "kahn_order.slots input (predecessorId d) = Some p" "map_of ?l (predecessorId d) = Some lp"
    "entry_slot a = p" "endDay a + slackDays a = lp"
    using late [OF assms(5)] assms(6) by auto
  obtain s ls where s: "kahn_order.slots input (successorId d) = Some s" "map_of ?l (successorId d) = Some ls"
    "entry_slot b = s" "endDay b + slackDays b = ls" "ls \<le> latest_end (schedule_slots input)"
    using late [OF assms(7)] assms(8) by auto
  have "\<forall>i s. kahn_order.slots input i = Some s \<longrightarrow> slot_end s \<le> latest_end (schedule_slots input)"
    using slots_end_le by blast
  from kahn_order.late_slots_obey [OF assms(1) gate_acyclic [OF assms(2)] this assms(3,4) p(1) s(1)]
  have "obeys d (late_slot p lp) (late_slot s ls)"
    using p(2) s(2) by (auto simp: latest_of_def schedule_latest_def schedule_slots_def)
  with p s show ?thesis by (simp add: sched_tasks_eq(2))
qed

section \<open>A plan\<close>

definition sample_dependency :: "string \<Rightarrow> string \<Rightarrow> DependencyType \<Rightarrow> int \<Rightarrow> Dependency" where
  "sample_dependency a b ty lag = \<lparr>dep_id = a @ b, predecessorId = a, successorId = b, dep_type = ty,
     reason = test_target, lagDays = lag, userDefined = False, dep_note = None\<rparr>"

definition sample_plan :: ScheduleInput where
  "sample_plan = \<lparr>tasks = [\<lparr>task_id = ''ui'', role = ''FRONTEND'', hours = 20\<rparr>,
       \<lparr>task_id = ''api'', role = ''BACKEND'', hours = 30\<rparr>,
       \<lparr>task_id = ''qa'', role = ''QA'', hours = 8\<rparr>],
     task_dependencies = [sample_dependency ''api'' ''ui'' FINISH_TO_START 2,
       sample_dependency ''ui'' ''qa'' FINISH_TO_FINISH 1],
     calendar = DEFAULT_CALENDAR, peoplePerRole = [(''BACKEND'', 2)], startDate = None,
     allowParallel = True\<rparr>"

lemma sample_plan_ids: "distinct (map task_id (tasks sample_plan))"
  by (simp add: sample_plan_def)

lemma sample_plan_gate:
  "\<not> hasBlockingDependencyProblem (validateDependencies (plan_graph sample_plan))"
  by code_simp

definition trailing_start :: ScheduleInput where
  "trailing_start = \<lparr>tasks = [\<lparr>task_id = ''a'', role = ''BACKEND'', hours = 0\<rparr>,
       \<lparr>task_id = ''b'', role = ''QA'', hours = 65\<rparr>],
     task_dependencies = [sample_dependency ''a'' ''b'' START_TO_START 5],
     calendar = DEFAULT_CALENDAR, peoplePerRole = [], startDate = None, allowParallel = True\<rparr>"

lemma duration_65: "durationFor 65 DEFAULT_CALENDAR = 10"
  by code_simp

lemma trailing_order: "topologicalOrder (tasks trailing_start) (task_dependencies trailing_start) = [''a'', ''b'']"
  by code_simp

lemmas trailing_eval = trailing_start_def by_id_def duration_65 predecessorsOf_def sample_dependency_def
  get_or_def

lemma trailing_slots:
  "placed (place_all trailing_start [''a'', ''b'']) =
   [(''a'', \<lparr>slot_start = 1, slot_end = 1\<rparr>), (''b'', \<lparr>slot_start = 6, slot_end = 15\<rparr>)]"
  by (simp add: place_all_def place_task_def trailing_eval durationFor_def [of 0] earliest_day_def slotsFor_def people_def)

lemma trailing_latest:
  "computeLatestFinish trailing_start [''a'', ''b'']
    [(''a'', \<lparr>slot_start = 1, slot_end = 1\<rparr>), (''b'', \<lparr>slot_start = 6, slot_end = 15\<rparr>)] 15 = [(''b'', 15), (''a'', 6)]"
  by (simp add: computeLatestFinish_def latest_step_def late_bound_def trailing_eval)

text \<open>The start-to-start lag of 5 is spent as slack: task a may end on day 6, not on day 1 only.\<close>

lemma trailing_start_slack:
  "map (\<lambda>e. (taskId e, startDay e, endDay e, slackDays e)) (sched_tasks (buildSchedule collate trailing_start)) =
   [(''a'', 1, 1, 5), (''b'', 6, 15, 0)]"
  by (simp add: sched_tasks_eq schedule_latest_def schedule_slots_def trailing_order trailing_slots
      trailing_latest latest_end_def List.map_filter_def)
    (simp add: trailing_eval task_entry_def sort_by_def schedule_le_def)

text \<open>A role that the map leaves out has one person, not an unlimited number.\<close>

lemma absent_role_has_one_person: "map_of (peoplePerRole input) r = None \<Longrightarrow> people input r = 1"
  by (simp add: people_def get_or_def)

section \<open>The properties on the plan\<close>

lemma sample_entry:
  "t \<in> set (tasks sample_plan) \<Longrightarrow>
     \<exists>e. e \<in> set (sched_tasks (buildSchedule collate sample_plan)) \<and> taskId e = task_id t"
  using slots_bounds [OF sample_plan_ids, of t] unfolding sched_task_iff by fastforce

lemma sample_entries:
  "\<exists>e. e \<in> set (sched_tasks (buildSchedule collate sample_plan)) \<and> taskId e = ''api''"
  "\<exists>e. e \<in> set (sched_tasks (buildSchedule collate sample_plan)) \<and> taskId e = ''ui''"
  using sample_entry [of "\<lparr>task_id = ''api'', role = ''BACKEND'', hours = 30\<rparr>"]
    sample_entry [of "\<lparr>task_id = ''ui'', role = ''FRONTEND'', hours = 20\<rparr>"]
  by (simp_all add: sample_plan_def)

lemma order_is_topological_witness:
  "mset (topologicalOrder (tasks sample_plan) (task_dependencies sample_plan)) =
     mset (map task_id (tasks sample_plan)) \<and>
   preds_first (live_edges (plan_graph sample_plan))
     (topologicalOrder (tasks sample_plan) (task_dependencies sample_plan))"
  by (rule order_is_topological [OF sample_plan_ids sample_plan_gate])

lemma schedule_keeps_dependencies_witness:
  "\<exists>(a :: ScheduledTask) (b :: ScheduledTask). taskId a = ''api'' \<and> taskId b = ''ui'' \<and> endDay a + 1 + 2 \<le> startDay b"
proof -
  obtain a b where ab: "a \<in> set (sched_tasks (buildSchedule (\<le>) sample_plan))" "taskId a = ''api''"
    "b \<in> set (sched_tasks (buildSchedule (\<le>) sample_plan))" "taskId b = ''ui''"
    using sample_entries by blast
  let ?d = "sample_dependency ''api'' ''ui'' FINISH_TO_START 2"
  have "endDay a + 1 + 2 \<le> startDay b"
    using schedule_keeps_dependencies [OF sample_plan_ids sample_plan_gate, of ?d a _ b] ab
    by (simp add: sample_plan_def sample_dependency_def)
  with ab show ?thesis by blast
qed

lemma schedule_within_capacity_witness:
  "\<exists>person. \<forall>a \<in> set (sched_tasks (buildSchedule (\<le>) sample_plan)).
    person (taskId a) < people sample_plan (st_role a) \<and>
    (\<forall>b \<in> set (sched_tasks (buildSchedule (\<le>) sample_plan)).
       st_role a = st_role b \<longrightarrow> person (taskId a) = person (taskId b) \<longrightarrow> taskId a \<noteq> taskId b \<longrightarrow>
       endDay a < startDay b \<or> endDay b < startDay a)"
  by (rule schedule_within_capacity [OF sample_plan_ids])

lemma schedule_complete_witness:
  "mset (map taskId (sched_tasks (buildSchedule (\<le>) sample_plan))) = {#''ui'', ''api'', ''qa''#} \<and>
   list_ex (\<lambda>e. endDay e = totalWorkingDays (buildSchedule (\<le>) sample_plan) \<and> onCriticalPath e)
     (sched_tasks (buildSchedule (\<le>) sample_plan))"
  using schedule_complete [OF sample_plan_ids, of "(\<le>)"] by (simp add: sample_plan_def)

lemma late_schedule_keeps_dependencies_witness:
  "\<exists>a b. taskId a = ''api'' \<and> taskId b = ''ui'' \<and>
     obeys (sample_dependency ''api'' ''ui'' FINISH_TO_START 2)
       (late_slot (entry_slot a) (endDay a + slackDays a)) (late_slot (entry_slot b) (endDay b + slackDays b))"
proof -
  obtain a b where ab: "a \<in> set (sched_tasks (buildSchedule (\<le>) sample_plan))" "taskId a = ''api''"
    "b \<in> set (sched_tasks (buildSchedule (\<le>) sample_plan))" "taskId b = ''ui''"
    using sample_entries by blast
  let ?d = "sample_dependency ''api'' ''ui'' FINISH_TO_START 2"
  have "obeys ?d (late_slot (entry_slot a) (endDay a + slackDays a))
      (late_slot (entry_slot b) (endDay b + slackDays b))"
    using late_schedule_keeps_dependencies [OF sample_plan_ids sample_plan_gate, of ?d a _ b] ab
    by (simp add: sample_plan_def sample_dependency_def lag_counted_def)
  with ab show ?thesis by blast
qed

end
