(* ===== verification/EffortModel.thy ===== *)
theory EffortModel
  imports JsNumber
begin

text \<open>
  How hours are derived from what is known about a piece of work, under
  packages/contracts/src/estimation: complexity and uncertainty
  (complexity.contract.ts), base hours per kind of task (productivity-model.ts), hours per role
  (role.contract.ts) and the three-point range (effort-range.ts). Labels and explanations are
  prose and left out. Hours are doubles, a role map is the list of its entries in insertion
  order.
\<close>

section \<open>Complexity\<close>

datatype complexity_level = TRIVIAL | LOW | MEDIUM | HIGH | VERY_HIGH

fun COMPLEXITY_RANK :: "complexity_level \<Rightarrow> nat" where
  "COMPLEXITY_RANK TRIVIAL = 0"
| "COMPLEXITY_RANK LOW = 1"
| "COMPLEXITY_RANK MEDIUM = 2"
| "COMPLEXITY_RANK HIGH = 3"
| "COMPLEXITY_RANK VERY_HIGH = 4"

datatype complexity_driver =
    workflow_depth | business_rules | validation_complexity | data_complexity
  | integration_complexity | security_requirements | realtime_behaviour | offline_behaviour
  | platform_count | custom_ui | external_api_uncertainty | migration_effort | ai_ml_complexity
  | deployment_complexity

fun DRIVER_WEIGHTS :: "complexity_driver \<Rightarrow> rat" where
  "DRIVER_WEIGHTS workflow_depth = 1"
| "DRIVER_WEIGHTS business_rules = 1"
| "DRIVER_WEIGHTS validation_complexity = 1 / 2"
| "DRIVER_WEIGHTS data_complexity = 1"
| "DRIVER_WEIGHTS integration_complexity = 3 / 2"
| "DRIVER_WEIGHTS security_requirements = 1"
| "DRIVER_WEIGHTS realtime_behaviour = 3 / 2"
| "DRIVER_WEIGHTS offline_behaviour = 3 / 2"
| "DRIVER_WEIGHTS platform_count = 1"
| "DRIVER_WEIGHTS custom_ui = 1"
| "DRIVER_WEIGHTS external_api_uncertainty = 3 / 2"
| "DRIVER_WEIGHTS migration_effort = 3 / 2"
| "DRIVER_WEIGHTS ai_ml_complexity = 3 / 2"
| "DRIVER_WEIGHTS deployment_complexity = 1 / 2"

record complexity_assessment =
  ca_level :: complexity_level
  ca_drivers :: "complexity_driver list"
  ca_score :: rat

text \<open>\<open>[...new Set(xs)]\<close>: the first occurrence of each element.\<close>

definition unique :: "'a list \<Rightarrow> 'a list" where
  "unique xs = rev (remdups (rev xs))"

definition level_of_score :: "rat \<Rightarrow> complexity_level" where
  "level_of_score score =
     (if score = 0 then TRIVIAL else if score \<le> 3 / 2 then LOW else if score \<le> 3 then MEDIUM
      else if score \<le> 5 then HIGH else VERY_HIGH)"

definition deriveComplexity :: "complexity_driver list \<Rightarrow> complexity_assessment" where
  "deriveComplexity drivers =
     (let u = unique drivers;
          score = to_fixed 2 (foldl (\<lambda>t d. js_plus t (DRIVER_WEIGHTS d)) 0 u)
      in \<lparr> ca_level = level_of_score score, ca_drivers = u, ca_score = score \<rparr>)"

fun COMPLEXITY_MULTIPLIERS :: "complexity_level \<Rightarrow> rat" where
  "COMPLEXITY_MULTIPLIERS TRIVIAL = lit (6 / 10)"
| "COMPLEXITY_MULTIPLIERS LOW = 1"
| "COMPLEXITY_MULTIPLIERS MEDIUM = lit (18 / 10)"
| "COMPLEXITY_MULTIPLIERS HIGH = 3"
| "COMPLEXITY_MULTIPLIERS VERY_HIGH = lit (45 / 10)"

section \<open>Uncertainty\<close>

datatype uncertainty_level = U_LOW | U_MEDIUM | U_HIGH

fun uncertainty_rank :: "uncertainty_level \<Rightarrow> nat" where
  "uncertainty_rank U_LOW = 0"
| "uncertainty_rank U_MEDIUM = 1"
| "uncertainty_rank U_HIGH = 2"

datatype uncertainty_source =
    external_api_undocumented | no_sandbox_available | codebase_not_assessed
  | requirement_ambiguous | scale_unknown | third_party_dependency | new_technology_to_team
  | client_process_unknown

definition deriveUncertainty ::
  "uncertainty_source list \<Rightarrow> uncertainty_level \<times> uncertainty_source list" where
  "deriveUncertainty sources =
     (let u = unique sources
      in (if length u = 0 then U_LOW else if length u = 1 then U_MEDIUM else U_HIGH, u))"

section \<open>Base hours\<close>

datatype task_category =
    scaffolding | crud | business_logic | validation_rules | integration | ui_implementation
  | ui_design | data_modelling | migration | ai_ml | infrastructure | testing | analysis
  | coordination

fun BASE_HOURS :: "task_category \<Rightarrow> rat" where
  "BASE_HOURS scaffolding = 6"
| "BASE_HOURS crud = 8"
| "BASE_HOURS business_logic = 12"
| "BASE_HOURS validation_rules = 5"
| "BASE_HOURS integration = 16"
| "BASE_HOURS ui_implementation = 10"
| "BASE_HOURS ui_design = 8"
| "BASE_HOURS data_modelling = 8"
| "BASE_HOURS migration = 16"
| "BASE_HOURS ai_ml = 20"
| "BASE_HOURS infrastructure = 10"
| "BASE_HOURS testing = 8"
| "BASE_HOURS analysis = 6"
| "BASE_HOURS coordination = 4"

fun AI_ASSISTANCE_FACTORS :: "task_category \<Rightarrow> rat" where
  "AI_ASSISTANCE_FACTORS scaffolding = lit (45 / 100)"
| "AI_ASSISTANCE_FACTORS crud = lit (55 / 100)"
| "AI_ASSISTANCE_FACTORS business_logic = lit (85 / 100)"
| "AI_ASSISTANCE_FACTORS validation_rules = lit (7 / 10)"
| "AI_ASSISTANCE_FACTORS integration = lit (9 / 10)"
| "AI_ASSISTANCE_FACTORS ui_implementation = lit (7 / 10)"
| "AI_ASSISTANCE_FACTORS ui_design = lit (95 / 100)"
| "AI_ASSISTANCE_FACTORS data_modelling = lit (8 / 10)"
| "AI_ASSISTANCE_FACTORS migration = lit (9 / 10)"
| "AI_ASSISTANCE_FACTORS ai_ml = lit (85 / 100)"
| "AI_ASSISTANCE_FACTORS infrastructure = lit (75 / 100)"
| "AI_ASSISTANCE_FACTORS testing = lit (7 / 10)"
| "AI_ASSISTANCE_FACTORS analysis = 1"
| "AI_ASSISTANCE_FACTORS coordination = 1"

definition MINIMUM_FEATURE_HOURS :: rat where
  "MINIMUM_FEATURE_HOURS = 2"

definition MAXIMUM_FEATURE_HOURS :: rat where
  "MAXIMUM_FEATURE_HOURS = 400"

definition baseEffortHours :: "task_category \<Rightarrow> complexity_level \<Rightarrow> rat option \<Rightarrow> rat" where
  "baseEffortHours category complexity quantity =
     (let q = max 1 (case quantity of None \<Rightarrow> 1 | Some n \<Rightarrow> n);
          raw = js_mult (js_mult (js_mult (BASE_HOURS category) (COMPLEXITY_MULTIPLIERS complexity))
                  (AI_ASSISTANCE_FACTORS category)) q
      in to_fixed 2 (max MINIMUM_FEATURE_HOURS (min MAXIMUM_FEATURE_HOURS raw)))"

text \<open>Hours are finite here, so what is left of the check is the range.\<close>

definition isPlausibleHours :: "rat \<Rightarrow> bool" where
  "isPlausibleHours hours = (0 \<le> hours \<and> hours \<le> MAXIMUM_FEATURE_HOURS * 10)"

section \<open>Hours per role\<close>

type_synonym role_effort = "(string \<times> rat) list"

definition roleEffortSchema :: "role_effort \<Rightarrow> bool" where
  "roleEffortSchema e = list_all (\<lambda>(r, h). 1 \<le> length r \<and> length r \<le> 60 \<and> 0 \<le> h \<and> h \<le> 100000) e"

definition totalRoleEffort :: "role_effort \<Rightarrow> rat" where
  "totalRoleEffort e = to_fixed 2 (foldl js_plus 0 (map snd e))"

definition hours_of :: "role_effort \<Rightarrow> string \<Rightarrow> rat" where
  "hours_of e role = (case map_of e role of None \<Rightarrow> 0 | Some h \<Rightarrow> h)"

definition sumRoleEffort :: "role_effort list \<Rightarrow> role_effort" where
  "sumRoleEffort maps =
     foldl (\<lambda>t rh. AList.update (fst rh) (to_fixed 2 (js_plus (hours_of t (fst rh)) (snd rh))) t)
       [] (concat maps)"

section \<open>Ranges\<close>

record effort_range =
  optimistic :: rat
  expected :: rat
  conservative :: rat

fun RANGE_SPREADS :: "uncertainty_level \<Rightarrow> rat \<times> rat" where
  "RANGE_SPREADS U_LOW = (lit (9 / 10), lit (115 / 100))"
| "RANGE_SPREADS U_MEDIUM = (lit (8 / 10), lit (14 / 10))"
| "RANGE_SPREADS U_HIGH = (lit (7 / 10), lit (19 / 10))"

definition effortRangeSchema :: "effort_range \<Rightarrow> bool" where
  "effortRangeSchema r =
     (0 \<le> optimistic r \<and> 0 \<le> expected r \<and> 0 \<le> conservative r
      \<and> optimistic r \<le> expected r \<and> expected r \<le> conservative r)"

definition rangeFor :: "rat \<Rightarrow> uncertainty_level \<Rightarrow> effort_range" where
  "rangeFor e u =
     (let (o', c) = RANGE_SPREADS u
      in \<lparr> optimistic = to_fixed 2 (js_mult e o'), expected = to_fixed 2 e,
           conservative = to_fixed 2 (js_mult e c) \<rparr>)"

definition add_range :: "effort_range \<Rightarrow> effort_range \<Rightarrow> effort_range" where
  "add_range t r =
     \<lparr> optimistic = to_fixed 2 (js_plus (optimistic t) (optimistic r)),
       expected = to_fixed 2 (js_plus (expected t) (expected r)),
       conservative = to_fixed 2 (js_plus (conservative t) (conservative r)) \<rparr>"

definition sumRanges :: "effort_range list \<Rightarrow> effort_range" where
  "sumRanges ranges = foldl add_range \<lparr> optimistic = 0, expected = 0, conservative = 0 \<rparr> ranges"

definition rangeWidth :: "effort_range \<Rightarrow> rat" where
  "rangeWidth r =
     (if expected r = 0 then 0
      else to_fixed 3 (js_div (js_minus (conservative r) (optimistic r)) (expected r)))"

record effort_contribution =
  ec_range :: effort_range
  ec_byRole :: role_effort
  ec_isImplementation :: bool

record effort_totals =
  et_range :: effort_range
  et_byRole :: role_effort
  et_totalHours :: rat
  et_implementationHours :: rat
  et_overheadHours :: rat

definition aggregateEffort :: "effort_contribution list \<Rightarrow> effort_totals" where
  "aggregateEffort cs =
     (let byRole = sumRoleEffort (map ec_byRole cs);
          impl = to_fixed 2 (foldl (\<lambda>t c. js_plus t (totalRoleEffort (ec_byRole c))) 0
                   (filter ec_isImplementation cs));
          total_hours = totalRoleEffort byRole
      in \<lparr> et_range = sumRanges (map ec_range cs), et_byRole = byRole, et_totalHours = total_hours,
           et_implementationHours = impl,
           et_overheadHours = to_fixed 2 (js_minus total_hours impl) \<rparr>)"

section \<open>Complexity grows with its drivers\<close>

lemma unique_set [simp]: "set (unique xs) = set xs" and unique_distinct [simp]: "distinct (unique xs)"
  by (simp_all add: unique_def)

text \<open>Weights are halves, so their sum is exact whatever the order.\<close>

definition half_weight :: "complexity_driver \<Rightarrow> int" where
  "half_weight d = (if DRIVER_WEIGHTS d = 1 / 2 then 1 else if DRIVER_WEIGHTS d = 1 then 2 else 3)"

lemma driver_halves: "DRIVER_WEIGHTS d = of_int (half_weight d) / 2"
  by (cases d) (simp_all add: half_weight_def)

lemma half_weight_bounds: "0 < half_weight d" "half_weight d \<le> 3"
  by (simp_all add: half_weight_def)

lemma half_exact: "0 \<le> n \<Longrightarrow> n \<le> 2 ^ 53 \<Longrightarrow> round_double (of_int n / 2) = of_int n / 2"
  using round_double_exact_pos [of n "- 1"] by (cases "n = 0") (simp_all add: pow2_def round_double_def)

lemma sum_halves:
  assumes "0 \<le> n" and "n + 3 * int (length ds) \<le> 2 ^ 53"
  shows "foldl (\<lambda>t d. js_plus t (DRIVER_WEIGHTS d)) (of_int n / 2) ds
    = of_int (n + sum_list (map half_weight ds)) / 2"
  using assms
proof (induction ds arbitrary: n)
  case (Cons d ds)
  have eq: "js_plus (of_int n / 2) (DRIVER_WEIGHTS d) = of_int (n + half_weight d) / 2"
    using half_exact [of "n + half_weight d"] half_weight_bounds [of d] Cons.prems
    by (simp add: js_plus_def driver_halves add_divide_distrib)
  have "0 \<le> n + half_weight d" "n + half_weight d + 3 * int (length ds) \<le> 2 ^ 53"
    using half_weight_bounds [of d] Cons.prems by auto
  from Cons.IH [OF this] show ?case by (simp only: foldl.simps eq list.map sum_list.Cons add.assoc)
qed simp

lemma driver_count: "distinct ds \<Longrightarrow> length (ds :: complexity_driver list) \<le> 14"
proof -
  let ?all = "[workflow_depth, business_rules, validation_complexity, data_complexity,
    integration_complexity, security_requirements, realtime_behaviour, offline_behaviour,
    platform_count, custom_ui, external_api_uncertainty, migration_effort, ai_ml_complexity,
    deployment_complexity]"
  assume d: "distinct ds"
  have "d \<in> set ?all" for d :: complexity_driver by (cases d) simp_all
  then have "set ds \<subseteq> set ?all" by blast
  then have "card (set ds) \<le> card (set ?all)" by (intro card_mono) auto
  also have "\<dots> \<le> length ?all" by (rule card_length)
  finally show ?thesis using d by (simp add: distinct_card)
qed

lemma to_fixed_half: "0 \<le> n \<Longrightarrow> n \<le> 2 ^ 53 \<Longrightarrow> to_fixed 2 (of_int n / 2) = of_int n / 2"
proof -
  assume n: "0 \<le> n" "n \<le> 2 ^ 53"
  then have "of_int n \<le> (2 ^ 53 :: rat)" by (simp only: int_power_cast)
  then have "of_int n / 2 < (10 ^ 21 :: rat)" by simp
  moreover have "(of_int n / 2 * 10 ^ 2 + 1 / 2 :: rat) = of_int (50 * n) + 1 / 2" by simp
  then have "\<lfloor>of_int n / 2 * 10 ^ 2 + 1 / 2 :: rat\<rfloor> = 50 * n" by (simp only: floor_eq_iff) simp
  ultimately show ?thesis using n by (simp add: to_fixed_small half_exact)
qed

definition driver_halves_of :: "complexity_driver list \<Rightarrow> int" where
  "driver_halves_of ds = (\<Sum>d \<in> set ds. half_weight d)"

lemma deriveComplexity_parts:
  "ca_score (deriveComplexity ds) = to_fixed 2 (foldl (\<lambda>t d. js_plus t (DRIVER_WEIGHTS d)) 0 (unique ds))"
  "ca_level (deriveComplexity ds) = level_of_score (ca_score (deriveComplexity ds))"
  by (simp_all add: deriveComplexity_def Let_def)

lemma score_exact: "ca_score (deriveComplexity ds) = of_int (driver_halves_of ds) / 2"
proof -
  let ?u = "unique ds" and ?s = "\<Sum>d \<in> set ds. half_weight d"
  have len: "length ?u \<le> 14" by (rule driver_count) simp
  have s: "sum_list (map half_weight ?u) = ?s"
    by (simp add: sum_list_distinct_conv_sum_set)
  have "?s \<le> (\<Sum>d \<in> set ?u. 3)"
    using half_weight_bounds by (simp only: unique_set) (intro sum_mono)
  also have "\<dots> = 3 * int (length ?u)" using distinct_card [of ?u] by simp
  finally have "?s \<le> 2 ^ 53" using len by simp
  moreover have "0 \<le> ?s" using half_weight_bounds by (intro sum_nonneg) (simp add: less_imp_le)
  moreover have "foldl (\<lambda>t d. js_plus t (DRIVER_WEIGHTS d)) (of_int 0 / 2) ?u = of_int (0 + ?s) / 2"
    unfolding s [symmetric] using len by (intro sum_halves) simp_all
  then have "foldl (\<lambda>t d. js_plus t (DRIVER_WEIGHTS d)) 0 ?u = of_int ?s / 2"
    by (simp only: of_int_0 div_0 add_0)
  ultimately show ?thesis
    unfolding deriveComplexity_parts driver_halves_of_def by (simp only: to_fixed_half)
qed

lemma level_mono: "0 \<le> x \<Longrightarrow> x \<le> y \<Longrightarrow>
    COMPLEXITY_RANK (level_of_score x) \<le> COMPLEXITY_RANK (level_of_score y)"
  by (auto simp: level_of_score_def)

text \<open>
  Complexity is decided by which drivers are present and nothing else: repeating or
  reordering them changes nothing, another driver never lowers the level, and only work with no
  driver at all is trivial.
\<close>
theorem complexity_is_monotone:
  assumes "set ds \<subseteq> set ds'"
  shows "COMPLEXITY_RANK (ca_level (deriveComplexity ds)) \<le> COMPLEXITY_RANK (ca_level (deriveComplexity ds'))
    \<and> (ca_level (deriveComplexity ds) = TRIVIAL \<longleftrightarrow> ds = [])"
proof -
  have level: "ca_level (deriveComplexity xs) = level_of_score (of_int (driver_halves_of xs) / 2)" for xs
    by (simp only: deriveComplexity_parts(2) score_exact)
  have pos: "0 \<le> driver_halves_of xs" for xs
    unfolding driver_halves_of_def using half_weight_bounds by (intro sum_nonneg) (simp add: less_imp_le)
  have "driver_halves_of ds \<le> driver_halves_of ds'"
    unfolding driver_halves_of_def using assms half_weight_bounds
    by (intro sum_mono2) (auto simp: less_imp_le)
  then have "(of_int (driver_halves_of ds) / 2 :: rat) \<le> of_int (driver_halves_of ds') / 2" by simp
  moreover have "0 \<le> (of_int (driver_halves_of ds) / 2 :: rat)" using pos [of ds] by simp
  moreover have "driver_halves_of ds = 0 \<longleftrightarrow> ds = []"
  proof
    assume "driver_halves_of ds = 0"
    then have "\<forall>d \<in> set ds. half_weight d = 0"
      unfolding driver_halves_of_def using half_weight_bounds
      by (subst (asm) sum_nonneg_eq_0_iff) (auto simp: less_imp_le)
    then have "half_weight d = 0" if "d \<in> set ds" for d using that by blast
    with half_weight_bounds(1) have "d \<notin> set ds" for d by (metis less_irrefl)
    then show "ds = []" by (cases ds) auto
  qed (simp add: driver_halves_of_def)
  ultimately show ?thesis
    unfolding level by (auto simp: level_mono) (auto simp: level_of_score_def split: if_splits)
qed

theorem complexity_is_monotone_witness:
  "COMPLEXITY_RANK (ca_level (deriveComplexity [custom_ui]))
     \<le> COMPLEXITY_RANK (ca_level (deriveComplexity [offline_behaviour, custom_ui, custom_ui]))"
  using complexity_is_monotone [of "[custom_ui]" "[offline_behaviour, custom_ui, custom_ui]"] by simp

section \<open>Base hours are bounded and monotone\<close>

lemma factor_nonneg: "0 \<le> AI_ASSISTANCE_FACTORS c"
  by (cases c) simp_all

lemma multiplier_nonneg: "0 \<le> COMPLEXITY_MULTIPLIERS x"
  by (cases x) simp_all

lemma base_nonneg: "0 \<le> BASE_HOURS c"
  by (cases c) simp_all

lemmas factor_bounds = factor_nonneg multiplier_nonneg base_nonneg

lemma multiplier_mono:
  assumes "COMPLEXITY_RANK x \<le> COMPLEXITY_RANK y"
  shows "COMPLEXITY_MULTIPLIERS x \<le> COMPLEXITY_MULTIPLIERS y"
proof -
  have l: "lit (6 / 10) \<le> 1" "1 \<le> lit (18 / 10)" "lit (18 / 10) \<le> 3" "3 \<le> lit (45 / 10)"
    "lit (6 / 10) \<le> lit (18 / 10)" "lit (6 / 10) \<le> lit (45 / 10)" "lit (18 / 10) \<le> lit (45 / 10)"
    using lit_le_1 [of "6 / 10"] lit_ge_1 [of "18 / 10"] lit_mono [of "18 / 10" 3] lit_mono [of 3 "45 / 10"]
      lit_mono [of "6 / 10" "18 / 10"] lit_mono [of "6 / 10" "45 / 10"] lit_mono [of "18 / 10" "45 / 10"]
      round_double_int [of 3] by (simp_all add: lit_def)
  show ?thesis using assms l by (cases x; cases y) auto
qed

lemma baseEffortHours_eq:
  "baseEffortHours c x q =
     to_fixed 2 (max 2 (min 400 (js_mult (js_mult (js_mult (BASE_HOURS c) (COMPLEXITY_MULTIPLIERS x))
       (AI_ASSISTANCE_FACTORS c)) (max 1 (case q of None \<Rightarrow> 1 | Some n \<Rightarrow> n)))))"
  by (simp add: baseEffortHours_def Let_def MINIMUM_FEATURE_HOURS_def MAXIMUM_FEATURE_HOURS_def)

lemma base_hours_bounds:
  assumes "COMPLEXITY_RANK x \<le> COMPLEXITY_RANK y" and "p \<le> q"
  shows "2 \<le> baseEffortHours c x (Some p) \<and> baseEffortHours c x (Some p) \<le> 400
    \<and> baseEffortHours c x (Some p) \<le> baseEffortHours c y (Some q)"
proof -
  let ?r = "\<lambda>x p. js_mult (js_mult (js_mult (BASE_HOURS c) (COMPLEXITY_MULTIPLIERS x))
      (AI_ASSISTANCE_FACTORS c)) (max 1 p)"
  have "?r x p \<le> ?r y q"
    by (intro js_mult_mono js_nonneg multiplier_mono assms(1))
      (use assms(2) in \<open>auto simp: factor_bounds\<close>)
  then have le: "max 2 (min 400 (?r x p)) \<le> max 2 (min 400 (?r y q))" by auto
  have fixed: "to_fixed 2 2 = 2" "to_fixed 2 400 = 400"
    using to_fixed_int [of 2 2] to_fixed_int [of 400 2] by simp_all
  have "max 2 (min 400 (?r y q)) < (10 ^ 21 :: rat)"
    by (rule le_less_trans [of _ 400]) auto
  then have m: "to_fixed 2 (max 2 (min 400 (?r x p))) \<le> to_fixed 2 (max 2 (min 400 (?r y q)))"
    using le by (intro to_fixed_mono) (auto simp: le_max_iff_disj)
  have "max 2 (min 400 (?r x p)) < (10 ^ 21 :: rat)"
    by (rule le_less_trans [of _ 400]) auto
  then have "2 \<le> to_fixed 2 (max 2 (min 400 (?r x p)))"
    using to_fixed_mono [of 2 "max 2 (min 400 (?r x p))" 2] fixed(1) by simp
  moreover have "to_fixed 2 (max 2 (min 400 (?r x p))) \<le> 400"
    using to_fixed_mono [of "max 2 (min 400 (?r x p))" 400 2] fixed(2) by (simp add: le_max_iff_disj)
  moreover have "baseEffortHours c z (Some n) = to_fixed 2 (max 2 (min 400 (?r z n)))" for z n
    by (simp only: baseEffortHours_eq option.case)
  ultimately show ?thesis using m by metis
qed

text \<open>
  No kind of work is ever priced at nothing or without bound: base hours lie between
  the floor of 2 and the ceiling of 400, and neither a higher complexity nor a larger quantity
  lowers them.
\<close>
theorem base_hours_bounded_monotone:
  assumes "COMPLEXITY_RANK x \<le> COMPLEXITY_RANK y" and "p \<le> q"
  shows "2 \<le> baseEffortHours c x (Some p) \<and> baseEffortHours c x (Some p) \<le> 400
    \<and> baseEffortHours c x (Some p) \<le> baseEffortHours c y (Some q)"
  using assms by (rule base_hours_bounds)

theorem base_hours_bounded_monotone_witness:
  "2 \<le> baseEffortHours crud LOW (Some 1) \<and> baseEffortHours crud LOW (Some 1) \<le> baseEffortHours crud HIGH (Some 3)"
  using base_hours_bounded_monotone [of LOW HIGH 1 3 crud] by simp

section \<open>Ranges are ordered\<close>

lemma spread_bounds:
  "0 \<le> fst (RANGE_SPREADS u)" "fst (RANGE_SPREADS u) \<le> 1" "1 \<le> snd (RANGE_SPREADS u)"
  by (cases u; simp add: lit_le_1 lit_ge_1)+

lemma spread_mono:
  assumes "uncertainty_rank u \<le> uncertainty_rank v"
  shows "fst (RANGE_SPREADS v) \<le> fst (RANGE_SPREADS u)" "snd (RANGE_SPREADS u) \<le> snd (RANGE_SPREADS v)"
  using assms by (cases u; cases v; simp add: lit_mono)+

lemma rangeFor_sel:
  "optimistic (rangeFor e u) = to_fixed 2 (js_mult e (fst (RANGE_SPREADS u)))"
  "expected (rangeFor e u) = to_fixed 2 e"
  "conservative (rangeFor e u) = to_fixed 2 (js_mult e (snd (RANGE_SPREADS u)))"
  by (simp_all add: rangeFor_def split: prod.splits)

lemma js_mult_small:
  assumes "0 \<le> e" "e \<le> 10 ^ 9" "0 \<le> s" "s \<le> 2"
  shows "js_mult e s < 10 ^ 21"
proof -
  have "js_mult e s \<le> js_mult (of_int (10 ^ 9)) (of_int 2)"
    using assms by (intro js_mult_mono) auto
  also have "\<dots> = of_int (2 * 10 ^ 9)"
    using round_double_int [of "2 * 10 ^ 9"] by (simp add: js_mult_def)
  finally have "js_mult e s \<le> of_int (2 * 10 ^ 9)" .
  then show ?thesis by (rule le_less_trans) simp
qed

lemma spread_le_2: "snd (RANGE_SPREADS u) \<le> 2"
  using lit_mono [of "115 / 100" 2] lit_mono [of "14 / 10" 2] lit_mono [of "19 / 10" 2] round_double_int [of 2]
  by (cases u) (simp_all add: lit_def)

lemma range_facts:
  assumes "is_double e" and "0 \<le> e" and "e \<le> 10 ^ 9" and "uncertainty_rank u \<le> uncertainty_rank v"
  shows "effortRangeSchema (rangeFor e u)
    \<and> optimistic (rangeFor e v) \<le> optimistic (rangeFor e u)
    \<and> conservative (rangeFor e u) \<le> conservative (rangeFor e v)"
proof -
  note b = spread_bounds
  have e: "e < 10 ^ 21" using assms(3) by (rule le_less_trans) simp
  have small: "js_mult e (snd (RANGE_SPREADS w)) < 10 ^ 21" "js_mult e (fst (RANGE_SPREADS w)) < 10 ^ 21" for w
    using js_mult_small [OF assms(2,3)] b [of w] spread_le_2 [of w] by simp_all
  have nn: "0 \<le> js_mult e (fst (RANGE_SPREADS w))" "0 \<le> js_mult e (snd (RANGE_SPREADS w))" for w
    using assms(2) b [of w] by auto
  have "to_fixed 2 (js_mult e (fst (RANGE_SPREADS u))) \<le> to_fixed 2 e"
    using assms b [of u] nn e by (intro to_fixed_mono js_mult_le_double) auto
  moreover have "to_fixed 2 e \<le> to_fixed 2 (js_mult e (snd (RANGE_SPREADS u)))"
    using assms b [of u] small by (intro to_fixed_mono js_mult_ge_double) auto
  moreover have "to_fixed 2 (js_mult e (fst (RANGE_SPREADS v))) \<le> to_fixed 2 (js_mult e (fst (RANGE_SPREADS u)))"
    using assms(2) b [of v] nn small spread_mono(1) [OF assms(4)] by (intro to_fixed_mono js_mult_mono) auto
  moreover have "to_fixed 2 (js_mult e (snd (RANGE_SPREADS u))) \<le> to_fixed 2 (js_mult e (snd (RANGE_SPREADS v)))"
    using assms(2) b [of u] nn small spread_mono(2) [OF assms(4)] by (intro to_fixed_mono js_mult_mono) auto
  ultimately show ?thesis
    using assms(2) nn by (simp add: effortRangeSchema_def rangeFor_sel to_fixed_nonneg)
qed

text \<open>
  The three figures of an estimate are always in order, as the stored schema demands,
  and the range only widens with uncertainty: the optimistic figure never rises and the
  conservative one never falls.
\<close>
theorem ranges_are_ordered:
  assumes "is_double e" and "0 \<le> e" and "e \<le> 10 ^ 9" and "uncertainty_rank u \<le> uncertainty_rank v"
  shows "effortRangeSchema (rangeFor e u)
    \<and> optimistic (rangeFor e v) \<le> optimistic (rangeFor e u)
    \<and> conservative (rangeFor e u) \<le> conservative (rangeFor e v)"
  using assms by (rule range_facts)

theorem ranges_are_ordered_witness:
  "effortRangeSchema (rangeFor 12 U_MEDIUM)
   \<and> conservative (rangeFor 12 U_MEDIUM) \<le> conservative (rangeFor 12 U_HIGH)"
  using ranges_are_ordered [of 12 U_MEDIUM U_HIGH] is_double_int [of 12] by simp

lemma range_ordered: "is_double e \<Longrightarrow> 0 \<le> e \<Longrightarrow> e \<le> 10 ^ 9 \<Longrightarrow> effortRangeSchema (rangeFor e u)"
  using range_facts [of e u u] by simp

lemma add_range_ordered:
  assumes "effortRangeSchema t" "effortRangeSchema r" "conservative t + conservative r \<le> 10 ^ 9"
  shows "effortRangeSchema (add_range t r)"
proof -
  have "js_plus (conservative t) (conservative r) \<le> round_double (of_int (10 ^ 9))"
    using assms unfolding js_plus_def effortRangeSchema_def by (intro round_double_mono) auto
  also have "\<dots> = of_int (10 ^ 9)" by (rule round_double_int) simp
  finally have c: "js_plus (conservative t) (conservative r) < 10 ^ 21" by (rule le_less_trans) simp
  have le: "js_plus (optimistic t) (optimistic r) \<le> js_plus (expected t) (expected r)"
    "js_plus (expected t) (expected r) \<le> js_plus (conservative t) (conservative r)"
    using assms unfolding effortRangeSchema_def by (auto intro!: js_plus_mono)
  then have e: "js_plus (expected t) (expected r) < 10 ^ 21" using c by (rule_tac le_less_trans)
  show ?thesis
    using assms(1,2) le c e unfolding effortRangeSchema_def
    by (auto simp: add_range_def intro!: to_fixed_mono to_fixed_nonneg js_nonneg)
qed

end
