(* ===== verification/Estimator.thy ===== *)
theory Estimator
  imports EffortModel
begin

text \<open>
  One estimate line from one requirement, without a model
  (apps/api/src/estimation/estimation-engine.ts): classification by phrases, drivers and unknowns
  found in the words, the hours and their split over the roles a project has, the extra hours of
  the locked stack, and the overhead lines. Summaries, explanations and rationales are prose and
  left out.
\<close>

section \<open>Inputs and the estimate line\<close>

record requirement_input =
  ri_itemId :: string
  ri_title :: string
  ri_statement :: string
  ri_category :: string
  ri_nfrDimension :: "string option"
  ri_priority :: "string option"

record stack_technology =
  st_category :: string
  st_technologyId :: "string option"
  st_name :: string

record stack_context =
  technologies :: "stack_technology list"
  stack_roles :: "string list"

record effort_driver =
  ed_kind :: string
  ed_technologyId :: "string option"
  ed_requirementIds :: "string list"
  ed_additionalHours :: "rat option"

record estimate_draft =
  dr_requirementIds :: "string list"
  dr_feature :: string
  dr_module :: string
  dr_submodule :: string
  dr_taskCategory :: task_category
  dr_complexity :: complexity_level
  dr_complexityDrivers :: "complexity_driver list"
  dr_uncertainty :: uncertainty_level
  dr_uncertaintySources :: "uncertainty_source list"
  dr_effort :: role_effort
  dr_totalHours :: rat
  dr_range :: effort_range
  dr_drivers :: "effort_driver list"
  dr_overheadActivity :: "string option"

record estimate_options =
  proposedComplexity :: "complexity_level option"
  proposedDrivers :: "complexity_driver list option"
  proposedUncertainty :: "uncertainty_source list option"
  proposedCategory :: "task_category option"

section \<open>Classification\<close>

definition CATEGORY_PHRASES :: "(task_category \<times> string list) list" where
  "CATEGORY_PHRASES =
     [(integration, [''integrat'', ''third-party'', ''third party'', ''external system'', ''webhook'',
         ''api of'']),
      (migration, [''migrat'', ''import existing'', ''move data'', ''legacy data'']),
      (ai_ml, [''machine learning'', ''model predict'', ''classif'', ''semantic'', ''embedding'',
         ''inference'']),
      (data_modelling, [''data model'', ''schema'', ''store and retrieve'', ''record structure'']),
      (validation_rules, [''validat'', ''must be checked'', ''rule that'', ''constraint'']),
      (ui_implementation, [''screen'', ''page'', ''dashboard'', ''form'', ''display'', ''interface'',
         ''view'']),
      (infrastructure, [''deploy'', ''environment'', ''backup'', ''monitor'', ''pipeline'']),
      (crud, [''create'', ''edit'', ''delete'', ''list'', ''update'', ''manage'']),
      (business_logic, [''approv'', ''calculat'', ''workflow'', ''process'', ''rule''])]"

definition DRIVER_PHRASES :: "(complexity_driver \<times> string list) list" where
  "DRIVER_PHRASES =
     [(workflow_depth, [''approv'', ''multi-step'', ''workflow'', ''stage'', ''escalat'']),
      (business_rules, [''rule'', ''policy'', ''depending on'', ''unless'', ''only if'']),
      (validation_complexity, [''validat'', ''must not'', ''required field'', ''format'']),
      (data_complexity, [''relationship'', ''hierarch'', ''history'', ''audit trail'', ''version'']),
      (integration_complexity, [''integrat'', ''third-party'', ''third party'', ''external system'']),
      (security_requirements, [''permission'', ''role-based'', ''encrypt'', ''gdpr'', ''audit'',
         ''authoris'', ''authoriz'']),
      (realtime_behaviour, [''real time'', ''real-time'', ''live'', ''instantly'', ''push notification'']),
      (offline_behaviour, [''offline'', ''no signal'', ''sync when'', ''without connectivity'']),
      (custom_ui, [''custom'', ''bespoke'', ''interactive'', ''drag'', ''chart'', ''visualis'',
         ''visualiz'']),
      (migration_effort, [''migrat'', ''existing data'', ''legacy'']),
      (ai_ml_complexity, [''machine learning'', ''model'', ''predict'', ''semantic'', ''classif''])]"

definition UNCERTAINTY_PHRASES :: "(uncertainty_source \<times> string list) list" where
  "UNCERTAINTY_PHRASES =
     [(external_api_undocumented, [''undocumented'', ''no documentation'', ''unknown api'']),
      (scale_unknown, [''scale'', ''volume'', ''concurrent users'', ''load'']),
      (third_party_dependency, [''third-party'', ''third party'', ''external system'', ''provider'']),
      (client_process_unknown, [''existing process'', ''current process'', ''as they do today''])]"

definition matchAll :: "string \<Rightarrow> ('a \<times> string list) list \<Rightarrow> 'a list" where
  "matchAll text table = map fst (filter (\<lambda>(_, phrases). list_ex (js_includes text) phrases) table)"

definition requirement_text :: "requirement_input \<Rightarrow> string" where
  "requirement_text r = js_lower (ri_title r @ '' '' @ ri_statement r)"

definition classifyTask :: "requirement_input \<Rightarrow> task_category" where
  "classifyTask r =
     (if ri_category r = ''non_functional'' then
        (if ri_nfrDimension r = Some ''security'' then validation_rules else infrastructure)
      else if ri_category r = ''integration'' then integration
      else if ri_category r = ''data'' then data_modelling
      else case matchAll (requirement_text r) CATEGORY_PHRASES of [] \<Rightarrow> business_logic | c # _ \<Rightarrow> c)"

section \<open>Splitting hours over roles\<close>

fun ROLE_SHARES :: "task_category \<Rightarrow> (string \<times> rat) list" where
  "ROLE_SHARES scaffolding = [(''BACKEND'', lit (6 / 10)), (''DEVOPS'', lit (4 / 10))]"
| "ROLE_SHARES crud = [(''BACKEND'', lit (45 / 100)), (''FRONTEND'', lit (35 / 100)), (''QA'', lit (2 / 10))]"
| "ROLE_SHARES business_logic = [(''BACKEND'', lit (6 / 10)), (''QA'', lit (25 / 100)), (''BA'', lit (15 / 100))]"
| "ROLE_SHARES validation_rules = [(''BACKEND'', lit (55 / 100)), (''QA'', lit (35 / 100)), (''BA'', lit (1 / 10))]"
| "ROLE_SHARES integration =
     [(''BACKEND'', lit (6 / 10)), (''QA'', lit (25 / 100)), (''SOLUTION_ARCHITECT'', lit (15 / 100))]"
| "ROLE_SHARES ui_implementation = [(''FRONTEND'', lit (7 / 10)), (''UI_UX'', lit (15 / 100)), (''QA'', lit (15 / 100))]"
| "ROLE_SHARES ui_design = [(''UI_UX'', lit (85 / 100)), (''FRONTEND'', lit (15 / 100))]"
| "ROLE_SHARES data_modelling =
     [(''BACKEND'', lit (55 / 100)), (''SOLUTION_ARCHITECT'', lit (25 / 100)), (''DATA_ENGINEER'', lit (2 / 10))]"
| "ROLE_SHARES migration = [(''DATA_ENGINEER'', lit (5 / 10)), (''BACKEND'', lit (3 / 10)), (''QA'', lit (2 / 10))]"
| "ROLE_SHARES ai_ml = [(''AI_ML'', lit (65 / 100)), (''BACKEND'', lit (2 / 10)), (''QA'', lit (15 / 100))]"
| "ROLE_SHARES infrastructure = [(''DEVOPS'', lit (75 / 100)), (''BACKEND'', lit (25 / 100))]"
| "ROLE_SHARES testing = [(''QA'', 1)]"
| "ROLE_SHARES analysis = [(''BA'', lit (7 / 10)), (''SOLUTION_ARCHITECT'', lit (3 / 10))]"
| "ROLE_SHARES coordination = [(''PM'', 1)]"

definition ROLE_SUBSTITUTES :: "(string \<times> string list) list" where
  "ROLE_SUBSTITUTES =
     [(''FRONTEND'', [''MOBILE'']), (''MOBILE'', [''FRONTEND'']), (''DATA_ENGINEER'', [''BACKEND'']),
      (''AI_ML'', [''BACKEND'']), (''SOLUTION_ARCHITECT'', [''BACKEND'']),
      (''UI_UX'', [''FRONTEND'', ''MOBILE''])]"

definition resolveRole :: "string \<Rightarrow> string list \<Rightarrow> string option" where
  "resolveRole role available =
     (if role \<in> set available then Some role
      else find (\<lambda>s. s \<in> set available)
             (case map_of ROLE_SUBSTITUTES role of None \<Rightarrow> [] | Some ss \<Rightarrow> ss))"

definition interface_roles :: "string list \<Rightarrow> string list" where
  "interface_roles available = filter (\<lambda>r. r \<in> set available) [''FRONTEND'', ''MOBILE'']"

text \<open>What one entry of the share table adds to the map of resolved shares.\<close>

definition share_targets :: "string list \<Rightarrow> string \<times> rat \<Rightarrow> (string \<times> rat) list" where
  "share_targets available entry =
     (let role = fst entry; share = snd entry; ir = interface_roles available
      in if role = ''FRONTEND'' \<and> 1 < length ir
         then map (\<lambda>target. (target, js_div share (of_nat (length ir)))) ir
         else case resolveRole role available of None \<Rightarrow> [] | Some target \<Rightarrow> [(target, share)])"

definition add_share :: "(string \<times> rat) list \<Rightarrow> string \<times> rat \<Rightarrow> (string \<times> rat) list" where
  "add_share resolved ts =
     AList.update (fst ts)
       (js_plus (case map_of resolved (fst ts) of None \<Rightarrow> 0 | Some v \<Rightarrow> v) (snd ts)) resolved"

definition resolved_shares :: "task_category \<Rightarrow> string list \<Rightarrow> (string \<times> rat) list" where
  "resolved_shares category available =
     foldl add_share [] (concat (map (share_targets available) (ROLE_SHARES category)))"

definition splitAcrossRoles :: "rat \<Rightarrow> task_category \<Rightarrow> string list \<Rightarrow> role_effort" where
  "splitAcrossRoles hours category available =
     (let usable = resolved_shares category available
      in if usable = [] then
           [(case available of [] \<Rightarrow> ''BACKEND'' | r # _ \<Rightarrow> r, to_fixed 2 hours)]
         else
           (let totalShare = foldl js_plus 0 (map snd usable)
            in map (\<lambda>(role, share). (role, to_fixed 2 (js_div (js_mult hours share) totalShare))) usable))"

section \<open>What the locked stack adds\<close>

definition technology_of :: "stack_context \<Rightarrow> string \<Rightarrow> stack_technology option" where
  "technology_of stack category = map_of (map (\<lambda>t. (st_category t, t)) (rev (technologies stack))) category"

definition platformComplexity :: "stack_context \<Rightarrow> complexity_driver list" where
  "platformComplexity stack =
     (let categories = set (map st_category (technologies stack));
          native = (if ''native_android'' \<in> categories then 1 else 0)
                   + (if ''native_ios'' \<in> categories then 1 else (0 :: nat))
      in if 1 < native then [platform_count] else [])"

definition technologyImpact ::
  "stack_context \<Rightarrow> task_category \<Rightarrow> requirement_input \<Rightarrow> effort_driver list" where
  "technologyImpact stack category r =
     (let ids = [ri_itemId r];
          native =
            (case (technology_of stack ''native_android'', technology_of stack ''native_ios'') of
               (Some _, Some ios) \<Rightarrow>
                 if category = ui_implementation \<or> category = crud then
                   [\<lparr> ed_kind = ''technology'',
                      ed_technologyId = Some (case st_technologyId ios of None \<Rightarrow> ''native-ios'' | Some i \<Rightarrow> i),
                      ed_requirementIds = ids,
                      ed_additionalHours = Some (to_fixed 2 (js_mult (BASE_HOURS category) (lit (8 / 10)))) \<rparr>]
                 else []
             | _ \<Rightarrow> []);
          integrated =
            (if category = integration then
               [\<lparr> ed_kind = ''integration'',
                  ed_technologyId =
                    (case technology_of stack ''integrations'' of
                       None \<Rightarrow> None
                     | Some t \<Rightarrow> (if st_technologyId t = Some [] then None else st_technologyId t)),
                  ed_requirementIds = ids, ed_additionalHours = Some 4 \<rparr>]
             else []);
          hosted =
            (case technology_of stack ''hosting'' of
               None \<Rightarrow> []
             | Some t \<Rightarrow>
                 if category = infrastructure \<and> st_technologyId t = Some ''on-premise'' then
                   [\<lparr> ed_kind = ''technology'', ed_technologyId = st_technologyId t,
                      ed_requirementIds = ids, ed_additionalHours = Some 6 \<rparr>]
                 else []);
          modelled =
            (case technology_of stack ''ai_model'' of
               None \<Rightarrow> []
             | Some t \<Rightarrow>
                 if category = ai_ml then
                   [\<lparr> ed_kind = ''technology'',
                      ed_technologyId = Some (case st_technologyId t of None \<Rightarrow> ''ai-model'' | Some i \<Rightarrow> i),
                      ed_requirementIds = ids, ed_additionalHours = Some 8 \<rparr>]
                 else [])
      in native @ integrated @ hosted @ modelled)"

section \<open>The estimate line\<close>

definition additional_hours :: "effort_driver list \<Rightarrow> rat" where
  "additional_hours ds =
     foldl (\<lambda>t d. js_plus t (case ed_additionalHours d of None \<Rightarrow> 0 | Some h \<Rightarrow> h)) 0 ds"

definition estimateUnit ::
  "requirement_input \<Rightarrow> stack_context \<Rightarrow> estimate_options \<Rightarrow> estimate_draft" where
  "estimateUnit r stack opts =
     (let text = requirement_text r;
          category = (case proposedCategory opts of None \<Rightarrow> classifyTask r | Some c \<Rightarrow> c);
          drivers = unique ((case proposedDrivers opts of None \<Rightarrow> matchAll text DRIVER_PHRASES | Some ds \<Rightarrow> ds)
                      @ platformComplexity stack);
          complexity = (case proposedComplexity opts of None \<Rightarrow> ca_level (deriveComplexity drivers) | Some l \<Rightarrow> l);
          sources = unique (case proposedUncertainty opts of None \<Rightarrow> matchAll text UNCERTAINTY_PHRASES | Some s \<Rightarrow> s);
          uncertainty = deriveUncertainty sources;
          baseHours = baseEffortHours category complexity None;
          technologyDrivers = technologyImpact stack category r;
          totalHours = to_fixed 2 (js_plus baseHours (additional_hours technologyDrivers))
      in \<lparr> dr_requirementIds = [ri_itemId r], dr_feature = ri_title r, dr_module = [], dr_submodule = [],
           dr_taskCategory = category, dr_complexity = complexity, dr_complexityDrivers = drivers,
           dr_uncertainty = fst uncertainty, dr_uncertaintySources = sources,
           dr_effort = splitAcrossRoles totalHours category (stack_roles stack),
           dr_totalHours = totalHours, dr_range = rangeFor totalHours (fst uncertainty),
           dr_drivers = technologyDrivers, dr_overheadActivity = None \<rparr>)"

section \<open>Overhead\<close>

record overhead_rule =
  or_activity :: string
  or_proportion :: "rat option"
  or_fixedHours :: "rat option"
  or_role :: string

definition fixed_overhead :: "string \<Rightarrow> rat \<Rightarrow> string \<Rightarrow> overhead_rule" where
  "fixed_overhead a h r = \<lparr> or_activity = a, or_proportion = None, or_fixedHours = Some h, or_role = r \<rparr>"

definition proportional_overhead :: "string \<Rightarrow> rat \<Rightarrow> string \<Rightarrow> overhead_rule" where
  "proportional_overhead a p r =
     \<lparr> or_activity = a, or_proportion = Some (lit p), or_fixedHours = None, or_role = r \<rparr>"

definition OVERHEAD_RULES :: "overhead_rule list" where
  "OVERHEAD_RULES =
     [fixed_overhead ''environment_setup'' 12 ''DEVOPS'',
      proportional_overhead ''shared_architecture'' (8 / 100) ''SOLUTION_ARCHITECT'',
      fixed_overhead ''ci_cd'' 10 ''DEVOPS'',
      fixed_overhead ''deployment_preparation'' 8 ''DEVOPS'',
      proportional_overhead ''code_review'' (1 / 10) ''BACKEND'',
      proportional_overhead ''release_stabilisation'' (6 / 100) ''QA'',
      proportional_overhead ''project_coordination'' (9 / 100) ''PM'',
      proportional_overhead ''qa_regression'' (12 / 100) ''QA'',
      proportional_overhead ''uat_support'' (5 / 100) ''QA'']"

definition overheadCategory :: "string \<Rightarrow> task_category" where
  "overheadCategory activity =
     (if activity = ''project_coordination'' then coordination
      else if activity \<in> {''qa_regression'', ''release_stabilisation'', ''uat_support''} then testing
      else if activity = ''shared_architecture'' then analysis
      else infrastructure)"

definition overhead_unit :: "rat \<Rightarrow> overhead_rule \<Rightarrow> estimate_draft" where
  "overhead_unit implementationHours rule =
     (let hours = to_fixed 2
            (case or_fixedHours rule of
               Some h \<Rightarrow> h
             | None \<Rightarrow> js_mult implementationHours (case or_proportion rule of None \<Rightarrow> 0 | Some p \<Rightarrow> p))
      in \<lparr> dr_requirementIds = [], dr_feature = map (\<lambda>c. if c = CHR ''_'' then CHR '' '' else c) (or_activity rule),
           dr_module = ''Delivery'', dr_submodule = [],
           dr_taskCategory = overheadCategory (or_activity rule), dr_complexity = LOW,
           dr_complexityDrivers = [], dr_uncertainty = U_LOW, dr_uncertaintySources = [],
           dr_effort = [(or_role rule, hours)], dr_totalHours = hours, dr_range = rangeFor hours U_LOW,
           dr_drivers = [], dr_overheadActivity = Some (or_activity rule) \<rparr>)"

definition overheadUnits :: "rat \<Rightarrow> string list \<Rightarrow> overhead_rule list \<Rightarrow> estimate_draft list" where
  "overheadUnits implementationHours available rules =
     filter (\<lambda>d. 0 < dr_totalHours d)
       (map (overhead_unit implementationHours) (filter (\<lambda>rule. or_role rule \<in> set available) rules))"

section \<open>Hours are neither lost nor invented by a split\<close>

lemma resolveRole_available: "resolveRole role available = Some t \<Longrightarrow> t \<in> set available"
  by (auto simp: resolveRole_def find_Some_iff split: if_splits)

lemma lit_small: "1 / 16 \<le> x \<Longrightarrow> 1 / 16 \<le> lit x"
proof -
  assume "1 / 16 \<le> x"
  then have "lit (1 / 16) \<le> lit x" by (intro lit_mono) auto
  moreover have "lit (1 / 16) = 1 / 16"
    using round_double_exact_pos [of 1 "- 4"] by (simp add: lit_def pow2_def)
  ultimately show ?thesis by simp
qed

lemma lit_small_mult: "1 / 16 \<le> x \<Longrightarrow> 1 \<le> lit x * 16"
  using lit_small [of x] by simp

lemma ROLE_SHARES_at_least: "(r, s) \<in> set (ROLE_SHARES c) \<Longrightarrow> 1 / 16 \<le> s"
  by (cases c) (auto simp: lit_small_mult)

lemma half_share: "1 / 16 \<le> s \<Longrightarrow> 1 / 32 \<le> js_div s 2"
proof -
  assume "1 / 16 \<le> s"
  then have "round_double (1 / 32) \<le> round_double (s / 2)" by (intro round_double_mono) auto
  moreover have "round_double (1 / 32) = 1 / 32"
    using round_double_exact_pos [of 1 "- 5"] by (simp add: pow2_def)
  ultimately show ?thesis by (simp add: js_div_def)
qed

lemma interface_roles_length: "length (interface_roles av) \<le> 2"
  by (simp add: interface_roles_def)

lemma share_targets_sound:
  assumes "(t, v) \<in> set (share_targets av entry)" and "1 / 16 \<le> snd entry"
  shows "t \<in> set av \<and> 1 / 32 \<le> v"
proof (cases "fst entry = ''FRONTEND'' \<and> 1 < length (interface_roles av)")
  case True
  then have "length (interface_roles av) = 2" using interface_roles_length [of av] by linarith
  moreover have "t \<in> set (interface_roles av) \<and> v = js_div (snd entry) (of_nat (length (interface_roles av)))"
    using assms(1) True by (auto simp: share_targets_def Let_def)
  ultimately show ?thesis using assms(2) half_share [of "snd entry"] by (auto simp: interface_roles_def simp del: filter.simps)
next
  case False
  then have "resolveRole (fst entry) av = Some t \<and> v = snd entry"
    using assms(1) by (auto simp: share_targets_def Let_def split: option.splits)
  then show ?thesis using assms(2) resolveRole_available [of "fst entry" av t] by simp
qed

lemma share_targets_length:
  "length (share_targets av entry) \<le> (if fst entry = ''FRONTEND'' then 2 else 1)"
  using interface_roles_length [of av] by (auto simp: share_targets_def Let_def split: option.splits)

lemma targets_at_most_4: "length (concat (map (share_targets av) (ROLE_SHARES c))) \<le> 4"
proof -
  let ?b = "\<lambda>entry. if fst entry = ''FRONTEND'' then 2 else (1 :: nat)"
  have "length (concat (map (share_targets av) es)) \<le> sum_list (map ?b es)" for es
  proof (induction es)
    case (Cons e es)
    then show ?case using share_targets_length [of av e] by simp
  qed simp
  moreover have "sum_list (map ?b (ROLE_SHARES c)) \<le> 4" by (cases c) simp_all
  ultimately show ?thesis using order_trans by blast
qed

definition shares_ok :: "string list \<Rightarrow> (string \<times> rat) list \<Rightarrow> bool" where
  "shares_ok av m = (distinct (map fst m) \<and> (\<forall>(t, v) \<in> set m. t \<in> set av \<and> 1 / 32 \<le> v))"

lemma add_share_ok:
  assumes "shares_ok av m" and "fst ts \<in> set av" and "1 / 32 \<le> snd ts"
  shows "shares_ok av (add_share m ts)" and "length (add_share m ts) \<le> Suc (length m)"
proof -
  let ?old = "case map_of m (fst ts) of None \<Rightarrow> 0 | Some v \<Rightarrow> v"
  have "0 \<le> ?old"
    using assms(1) by (auto simp: shares_ok_def split: option.splits dest!: map_of_SomeD)
  then have "round_double (1 / 32) \<le> round_double (?old + snd ts)"
    using assms(3) by (intro round_double_mono) auto
  moreover have "round_double (1 / 32) = 1 / 32"
    using round_double_exact_pos [of 1 "- 5"] by (simp add: pow2_def)
  ultimately have new: "1 / 32 \<le> js_plus ?old (snd ts)" by (simp add: js_plus_def)
  have "set (AList.update (fst ts) w m) \<subseteq> insert (fst ts, w) (set m)" for w
    by (induction m) auto
  then show "shares_ok av (add_share m ts)"
    using assms new unfolding shares_ok_def add_share_def by (fastforce simp: distinct_update)
  have "length (AList.update k w m) \<le> Suc (length m)" for k w by (induction m) auto
  then show "length (add_share m ts) \<le> Suc (length m)" by (simp add: add_share_def)
qed

lemma add_shares_ok:
  assumes "shares_ok av m" and "\<forall>(t, v) \<in> set ts. t \<in> set av \<and> 1 / 32 \<le> v"
  shows "shares_ok av (foldl add_share m ts) \<and> length (foldl add_share m ts) \<le> length m + length ts"
  using assms
proof (induction ts arbitrary: m)
  case (Cons x ts)
  then have "fst x \<in> set av" "1 / 32 \<le> snd x" by auto
  with Cons.prems(1) have "shares_ok av (add_share m x)" and l: "length (add_share m x) \<le> Suc (length m)"
    by (auto intro: add_share_ok)
  with Cons show ?case by fastforce
qed simp

lemma resolved_shares_ok: "shares_ok av (resolved_shares c av)" "length (resolved_shares c av) \<le> 4"
proof -
  let ?ts = "concat (map (share_targets av) (ROLE_SHARES c))"
  have "t \<in> set av \<and> 1 / 32 \<le> v" if "(t, v) \<in> set ?ts" for t v
    using that share_targets_sound ROLE_SHARES_at_least by fastforce
  then have "\<forall>(t, v) \<in> set ?ts. t \<in> set av \<and> 1 / 32 \<le> v" by blast
  then have "shares_ok av (foldl add_share [] ?ts) \<and> length (foldl add_share [] ?ts) \<le> length ?ts"
    using add_shares_ok [of av "[]" ?ts] by (simp add: shares_ok_def del: set_concat)
  then show "shares_ok av (resolved_shares c av)" "length (resolved_shares c av) \<le> 4"
    using targets_at_most_4 [of av c] unfolding resolved_shares_def by simp_all
qed

text \<open>One share of the hours is within a hundredth of its exact proportion.\<close>

lemma part_error:
  assumes h: "1 \<le> h" "h \<le> 2 ^ 20" and s: "1 / 32 \<le> s" "s \<le> S"
    and T: "\<bar>T - S\<bar> \<le> 8 / 2 ^ 53 * S"
  shows "\<bar>to_fixed 2 (js_div (js_mult h s) T) - h * s / S\<bar> \<le> 1 / 200 + 3 / 2 ^ 13"
proof -
  let ?a = "js_mult h s" and ?r = "h * s / S"
  have S: "0 < S" using s by linarith
  have "8 / 2 ^ 53 * S \<le> 1 / 2 * S" using S by simp
  then have TS: "S / 2 \<le> T" using T by linarith
  then have Tpos: "0 < T" using S by linarith
  have hs: "1 / 32 \<le> h * s" using mult_mono [of 1 h "1 / 32" s] h s by simp
  then have a: "\<bar>?a - h * s\<bar> \<le> h * s / 2 ^ 53"
    unfolding js_mult_def by (intro rel_error) simp
  have r: "0 \<le> ?r" "?r \<le> h"
    using h s S by (simp_all add: field_simps)
  have rS: "?r * S = h * s" using S by simp
  have rT: "\<bar>?r * S - ?r * T\<bar> \<le> 8 / 2 ^ 53 * (h * s)"
  proof -
    have "\<bar>?r * S - ?r * T\<bar> = ?r * \<bar>T - S\<bar>" using r(1)
      by (simp only: right_diff_distrib [symmetric] abs_mult abs_of_nonneg abs_minus_commute)
    also have "\<dots> \<le> ?r * (8 / 2 ^ 53 * S)" by (rule mult_left_mono [OF T r(1)])
    also have "\<dots> = 8 / 2 ^ 53 * (?r * S)" by (simp only: mult.left_commute mult.assoc)
    finally show ?thesis by (simp only: rS)
  qed
  have "?a - ?r * T = (?a - h * s) + (?r * S - ?r * T)" by (simp only: rS)
  then have "\<bar>?a - ?r * T\<bar> \<le> h * s / 2 ^ 53 + 8 / 2 ^ 53 * (h * s)"
    using a rT by (simp only: abs_le_iff) linarith
  also have "\<dots> = 9 / 2 ^ 53 * (?r * S)" unfolding rS by simp
  also have "\<dots> \<le> 9 / 2 ^ 53 * (h * (2 * T))"
    using r TS S by (intro mult_left_mono mult_mono) auto
  also have "\<dots> \<le> 1 / 2 ^ 13 * T"
  proof -
    have "h * T \<le> 2 ^ 20 * T" using h Tpos by (intro mult_right_mono) auto
    moreover have "18 / 2 ^ 53 * (2 ^ 20 * T) \<le> 1 / 2 ^ 13 * T" using Tpos by simp
    moreover have "9 / 2 ^ 53 * (h * (2 * T)) = 18 / 2 ^ 53 * (h * T)" by simp
    moreover have "18 / 2 ^ 53 * (h * T) \<le> 18 / 2 ^ 53 * (2 ^ 20 * T)"
      using calculation(1) by (intro mult_left_mono) auto
    ultimately show ?thesis by linarith
  qed
  finally have aT: "\<bar>?a - ?r * T\<bar> \<le> 1 / 2 ^ 13 * T" .
  have "?a / T - ?r = (?a - ?r * T) / T" using Tpos by (simp add: diff_divide_distrib)
  then have "\<bar>?a / T - ?r\<bar> = \<bar>?a - ?r * T\<bar> / T" using Tpos by (simp only: abs_divide abs_of_pos)
  also have "\<dots> \<le> 1 / 2 ^ 13" using aT Tpos by (simp only: pos_divide_le_eq)
  finally have q: "\<bar>?a / T - ?r\<bar> \<le> 1 / 2 ^ 13" .
  have big: "?a / T \<le> 2 ^ 20 + 1" 
  proof -
    have "?a / T - ?r \<le> 1 / 2 ^ 13" using q by (simp only: abs_le_iff)
    moreover have "(1 / 2 ^ 13 :: rat) \<le> 1" by simp
    ultimately show ?thesis using r(2) h(2) by linarith
  qed
  have q0: "0 \<le> ?a / T" using h s Tpos by (intro divide_nonneg_nonneg js_nonneg) auto
  have b: "\<bar>js_div ?a T - ?a / T\<bar> \<le> 1 / 2 ^ 13"
    unfolding js_div_def using q0 big by (intro round_double_near) auto
  have "js_div ?a T \<le> 2 ^ 39" 
  proof -
    have "js_div ?a T - ?a / T \<le> 1 / 2 ^ 13" using b by (simp only: abs_le_iff)
    moreover have "(1 / 2 ^ 13 :: rat) \<le> 1" "(2 :: rat) ^ 20 + 2 \<le> 2 ^ 39" by simp_all
    ultimately show ?thesis using big by linarith
  qed
  then have "\<bar>to_fixed 2 (js_div ?a T) - js_div ?a T\<bar> \<le> 1 / 200 + 1 / 2 ^ 13"
    using q0 by (intro to_fixed2_near) (simp_all add: js_div_def round_double_nonneg)
  then show ?thesis using b q unfolding abs_le_iff by linarith
qed

lemma sum_list_near:
  assumes "\<forall>x \<in> set xs. \<bar>f x - g x\<bar> \<le> (d :: rat)"
  shows "\<bar>sum_list (map f xs) - sum_list (map g xs)\<bar> \<le> of_nat (length xs) * d"
  using assms
proof (induction xs)
  case (Cons x xs)
  then have "\<bar>f x - g x\<bar> \<le> d" "\<bar>sum_list (map f xs) - sum_list (map g xs)\<bar> \<le> of_nat (length xs) * d" by auto
  then show ?case by (simp add: algebra_simps abs_le_iff)
qed simp

lemma split_sound:
  assumes h: "1 \<le> hours" "hours \<le> 2 ^ 20"
  shows "set (map fst (splitAcrossRoles hours c av)) \<subseteq> (if av = [] then {''BACKEND''} else set av)"
    and "\<bar>sum_list (map snd (splitAcrossRoles hours c av)) - hours\<bar> \<le> 1 / 40"
proof -
  let ?u = "resolved_shares c av" and ?split = "splitAcrossRoles hours c av"
  let ?T = "foldl js_plus 0 (map snd ?u)" and ?S = "sum_list (map snd ?u)"
  have ok: "shares_ok av ?u" "length ?u \<le> 4" by (rule resolved_shares_ok)+
  have v: "t \<in> set av \<and> 1 / 32 \<le> x" if "(t, x) \<in> set ?u" for t x
    using ok(1) that unfolding shares_ok_def by blast
  show "set (map fst ?split) \<subseteq> (if av = [] then {''BACKEND''} else set av)"
  proof (cases "?u = []")
    case True
    then show ?thesis by (simp add: splitAcrossRoles_def split: list.split)
  next
    case False
    then obtain t x where "(t, x) \<in> set ?u" by (cases ?u) auto
    then have "av \<noteq> []" using v by auto
    then show ?thesis using False v by (auto simp: splitAcrossRoles_def Let_def)
  qed
  show "\<bar>sum_list (map snd ?split) - hours\<bar> \<le> 1 / 40"
  proof (cases "?u = []")
    case True
    have "hours \<le> 2 ^ 39" using h(2) by simp
    then have "\<bar>to_fixed 2 hours - hours\<bar> \<le> 1 / 200 + 1 / 2 ^ 13" using h by (intro to_fixed2_near) auto
    then show ?thesis using True by (simp add: splitAcrossRoles_def abs_le_iff)
  next
    case False
    have small: "1 / 2 ^ 90 \<le> x" if "x \<in> set (map snd ?u)" for x
    proof -
      have "1 / 2 ^ 90 \<le> (1 / 32 :: rat)" by simp
      then show ?thesis using that v by fastforce
    qed
    have S0: "x \<le> ?S" if "x \<in> set (map snd ?u)" for x
      using that v by (intro member_le_sum_list) fastforce+
    obtain y where "y \<in> set (map snd ?u)" using False by (cases ?u) auto
    then have "1 / 32 \<le> ?S" using S0 v by fastforce
    then have Spos: "0 < ?S" by (rule less_le_trans [rotated]) simp
    have "\<bar>?T - ?S\<bar> \<le> of_nat (2 * length (map snd ?u)) / 2 ^ 53 * ?S"
      using small ok(2) by (intro js_sum_error) auto
    also have "\<dots> \<le> 8 / 2 ^ 53 * ?S"
    proof (rule mult_right_mono)
      have "of_nat (2 * length (map snd ?u)) \<le> (8 :: rat)"
        using ok(2) of_nat_mono [of "2 * length (map snd ?u)" 8] by simp
      then show "of_nat (2 * length (map snd ?u)) / 2 ^ 53 \<le> (8 / 2 ^ 53 :: rat)"
        by (intro divide_right_mono) auto
      show "0 \<le> ?S" using Spos by simp
    qed
    finally have T: "\<bar>?T - ?S\<bar> \<le> 8 / 2 ^ 53 * ?S" .
    let ?f = "\<lambda>x. to_fixed 2 (js_div (js_mult hours x) ?T)" and ?g = "\<lambda>x. hours * x / ?S"
    have "\<bar>sum_list (map ?f (map snd ?u)) - sum_list (map ?g (map snd ?u))\<bar>
      \<le> of_nat (length (map snd ?u)) * (1 / 200 + 3 / 2 ^ 13)"
      using part_error [OF h _ _ T] v S0 by (intro sum_list_near) fastforce
    also have "\<dots> \<le> 4 * (1 / 200 + 3 / 2 ^ 13)" using ok(2) by (intro mult_right_mono) auto
    also have "\<dots> \<le> 1 / 40" by simp
    finally have near: "\<bar>sum_list (map ?f (map snd ?u)) - sum_list (map ?g (map snd ?u))\<bar> \<le> 1 / 40" .
    have "sum_list (map ?g xs) = hours * sum_list xs / ?S" for xs
      by (induction xs) (simp_all add: algebra_simps add_divide_distrib)
    moreover have "?S \<noteq> 0" using Spos by simp
    ultimately have "sum_list (map ?g (map snd ?u)) = hours" by (simp del: list.map_comp map_map)
    moreover have "map snd ?split = map ?f (map snd ?u)"
      using False by (auto simp: splitAcrossRoles_def Let_def)
    ultimately show ?thesis using near by simp
  qed
qed

section \<open>Every estimate line is sound\<close>

lemma eight_tenths_of_base: "0 \<le> to_fixed 2 (js_mult (BASE_HOURS c) (lit (8 / 10)))"
  "c = ui_implementation \<or> c = crud \<Longrightarrow> to_fixed 2 (js_mult (BASE_HOURS c) (lit (8 / 10))) \<le> 10"
proof -
  show "0 \<le> to_fixed 2 (js_mult (BASE_HOURS c) (lit (8 / 10)))"
    by (intro to_fixed_nonneg js_nonneg) (simp_all add: factor_bounds)
  assume "c = ui_implementation \<or> c = crud"
  then have b: "BASE_HOURS c \<le> of_int 10" by auto
  have "js_mult (BASE_HOURS c) (lit (8 / 10)) \<le> js_mult (of_int 10) 1"
    using b by (intro js_mult_mono lit_le_1) (auto simp: factor_bounds)
  also have "\<dots> = of_int 10" using round_double_int [of 10] by (simp add: js_mult_def)
  finally have "to_fixed 2 (js_mult (BASE_HOURS c) (lit (8 / 10))) \<le> to_fixed 2 (of_int 10)"
    by (intro to_fixed_mono js_nonneg) (simp_all add: factor_bounds)
  then show "to_fixed 2 (js_mult (BASE_HOURS c) (lit (8 / 10))) \<le> 10"
    using to_fixed_int [of 10 2] by simp
qed

lemma technologyImpact_at_most_one:
  "technologyImpact stack c r = [] \<or>
   (\<exists>d h. technologyImpact stack c r = [d] \<and> ed_additionalHours d = Some h \<and> 0 \<le> h \<and> h \<le> 10)"
  using eight_tenths_of_base [of c]
  by (cases c) (auto simp: technologyImpact_def Let_def split: option.splits)

lemma additional_hours_bounds:
  "0 \<le> additional_hours (technologyImpact stack c r)"
  "additional_hours (technologyImpact stack c r) \<le> 10"
proof -
  consider "technologyImpact stack c r = []"
    | d h where "technologyImpact stack c r = [d]" "ed_additionalHours d = Some h" "0 \<le> h" "h \<le> 10"
    using technologyImpact_at_most_one by metis
  then have "0 \<le> additional_hours (technologyImpact stack c r) \<and> additional_hours (technologyImpact stack c r) \<le> 10"
  proof cases
    case (2 d h)
    then have "round_double h \<le> round_double (of_int 10)" by (intro round_double_mono) auto
    then have "round_double h \<le> 10" using round_double_int [of 10] by simp
    then show ?thesis using 2 by (simp add: additional_hours_def js_plus_def round_double_nonneg)
  qed (simp add: additional_hours_def)
  then show "0 \<le> additional_hours (technologyImpact stack c r)"
    "additional_hours (technologyImpact stack c r) \<le> 10" by auto
qed

lemma baseEffortHours_bounds: "2 \<le> baseEffortHours c x None \<and> baseEffortHours c x None \<le> 400"
proof -
  have "baseEffortHours c x None = baseEffortHours c x (Some 1)" by (simp only: baseEffortHours_eq option.case)
  then show ?thesis using base_hours_bounds [of x x 1 1 c] by simp
qed

lemma estimateUnit_sel:
  "dr_totalHours (estimateUnit r stack opts) =
     to_fixed 2 (js_plus (baseEffortHours (dr_taskCategory (estimateUnit r stack opts))
         (dr_complexity (estimateUnit r stack opts)) None)
       (additional_hours (technologyImpact stack (dr_taskCategory (estimateUnit r stack opts)) r)))"
  "dr_effort (estimateUnit r stack opts) =
     splitAcrossRoles (dr_totalHours (estimateUnit r stack opts))
       (dr_taskCategory (estimateUnit r stack opts)) (stack_roles stack)"
  "dr_range (estimateUnit r stack opts) =
     rangeFor (dr_totalHours (estimateUnit r stack opts)) (dr_uncertainty (estimateUnit r stack opts))"
  by (simp_all add: estimateUnit_def Let_def)

lemma estimate_total:
  "2 \<le> dr_totalHours (estimateUnit r stack opts)" "dr_totalHours (estimateUnit r stack opts) \<le> 410"
  "to_fixed 2 (dr_totalHours (estimateUnit r stack opts)) = dr_totalHours (estimateUnit r stack opts)"
  "is_double (dr_totalHours (estimateUnit r stack opts))"
proof -
  let ?c = "dr_taskCategory (estimateUnit r stack opts)" and ?x = "dr_complexity (estimateUnit r stack opts)"
  let ?b = "baseEffortHours ?c ?x None" and ?a = "additional_hours (technologyImpact stack ?c r)"
  note b = baseEffortHours_bounds [of ?c ?x] and a = additional_hours_bounds [of stack ?c r]
  have "round_double (of_int 2) \<le> round_double (?b + ?a)" using a b by (intro round_double_mono) auto
  then have lo: "2 \<le> js_plus ?b ?a" using round_double_int [of 2] by (simp add: js_plus_def)
  have "round_double (?b + ?a) \<le> round_double (of_int 410)" using a b by (intro round_double_mono) auto
  then have hi: "js_plus ?b ?a \<le> 410" using round_double_int [of 410] by (simp add: js_plus_def)
  from hi have h21: "js_plus ?b ?a < 10 ^ 21" by (rule le_less_trans) simp
  have "to_fixed 2 (of_int 2) \<le> to_fixed 2 (js_plus ?b ?a)" using lo h21 by (intro to_fixed_mono) auto
  then show "2 \<le> dr_totalHours (estimateUnit r stack opts)"
    unfolding estimateUnit_sel(1) using to_fixed_int [of 2 2] by simp
  have "to_fixed 2 (js_plus ?b ?a) \<le> to_fixed 2 (of_int 410)" using lo hi by (intro to_fixed_mono) auto
  then show "dr_totalHours (estimateUnit r stack opts) \<le> 410"
    unfolding estimateUnit_sel(1) using to_fixed_int [of 410 2] by simp
  have "js_plus ?b ?a \<le> 2 ^ 38" using hi by (rule order_trans) simp
  then show "to_fixed 2 (dr_totalHours (estimateUnit r stack opts)) = dr_totalHours (estimateUnit r stack opts)"
    unfolding estimateUnit_sel(1) using lo by (intro to_fixed2_idem) auto
  show "is_double (dr_totalHours (estimateUnit r stack opts))"
    unfolding estimateUnit_sel(1) using lo h21 by (intro to_fixed_is_double) auto
qed


end
