(* ===== verification/Feasibility.thy ===== *)
theory Feasibility
  imports Calendar EffortModel DependencyGraph
begin

text \<open>
  Whether a plan fits, under packages/contracts/src/estimation: the hours a team can supply and
  the staffing a plan would need (capacity.contract.ts), the verdict and its risks
  (feasibility.ts), and what stands between an estimate and approval (estimate-blockers.ts,
  estimate-snapshot.contract.ts). Sentences shown to the user are left out. \<open>localeCompare\<close> is
  the parameter \<open>collate\<close>.
\<close>

section \<open>Capacity\<close>

record capacity_line =
  cl_role :: string
  cl_people :: rat
  productiveHoursPerDay :: rat
  workingDaysPerWeek :: int
  availability :: rat
  availableFromDay :: int

record team_plan =
  supplied :: bool
  team_lines :: "capacity_line list"

definition capacityLineSchema :: "capacity_line \<Rightarrow> bool" where
  "capacityLineSchema l =
     (1 \<le> length (cl_role l) \<and> length (cl_role l) \<le> 60 \<and> 0 \<le> cl_people l \<and> cl_people l \<le> 500
      \<and> 0 \<le> productiveHoursPerDay l \<and> productiveHoursPerDay l \<le> 24
      \<and> 1 \<le> workingDaysPerWeek l \<and> workingDaysPerWeek l \<le> 7
      \<and> 0 \<le> availability l \<and> availability l \<le> 1 \<and> 0 \<le> availableFromDay l \<and> availableFromDay l \<le> 1000)"

definition teamPlanSchema :: "team_plan \<Rightarrow> bool" where
  "teamPlanSchema t = (list_all capacityLineSchema (team_lines t) \<and> length (team_lines t) \<le> 60)"

definition EMPTY_TEAM :: team_plan where
  "EMPTY_TEAM = \<lparr> supplied = False, team_lines = [] \<rparr>"

definition lineCapacityHours :: "capacity_line \<Rightarrow> int \<Rightarrow> rat" where
  "lineCapacityHours line workingDays =
     to_fixed 2 (js_mult (js_mult (js_mult (cl_people line) (productiveHoursPerDay line)) (availability line))
       (of_int (max 0 (workingDays - availableFromDay line))))"

record role_utilisation =
  ut_role :: string
  plannedHours :: rat
  ut_availableHours :: rat
  ut_utilisation :: rat
  gapHours :: rat
  additionalPeople :: rat

definition SUSTAINABLE_UTILISATION :: rat where
  "SUSTAINABLE_UTILISATION = lit (85 / 100)"

record capacity_input =
  plannedEffort :: role_effort
  cap_team :: team_plan
  cap_calendar :: WorkingCalendar
  cap_availableWorkingDays :: "int option"

record capacity_result =
  byRole :: "role_utilisation list"
  totalPlannedHours :: rat
  totalAvailableHours :: rat
  totalGapHours :: rat
  capacityUnknown :: bool
  overloadedRoles :: "string list"

definition peopleForHours :: "rat \<Rightarrow> WorkingCalendar \<Rightarrow> int \<Rightarrow> rat" where
  "peopleForHours needed cal workingDays =
     (if needed \<le> 0 \<or> workingDays \<le> 0 \<or> hoursPerDay cal \<le> 0 then 0
      else let exact = js_div needed (js_mult (hoursPerDay cal) (of_int workingDays));
               hundredths = \<lceil>to_fixed 6 (js_mult exact 100)\<rceil>
           in max (lit (1 / 100)) (js_div (of_int hundredths) 100))"

text \<open>No hours and none needed is 0; hours needed and none available is infinite, stored as 999.\<close>

definition utilisation_of :: "rat \<Rightarrow> rat \<Rightarrow> rat" where
  "utilisation_of planned available =
     (if available = 0 then (if planned = 0 then 0 else 999) else to_fixed 3 (js_div planned available))"

definition available_for :: "team_plan \<Rightarrow> int \<Rightarrow> string \<Rightarrow> rat" where
  "available_for team days r =
     to_fixed 2 (foldl (\<lambda>t line. js_plus t (lineCapacityHours line days)) 0
       (filter (\<lambda>line. cl_role line = r) (team_lines team)))"

definition role_line :: "capacity_input \<Rightarrow> int \<Rightarrow> string \<Rightarrow> role_utilisation" where
  "role_line inp days r =
     (let planned = to_fixed 2 (hours_of (plannedEffort inp) r);
          available = available_for (cap_team inp) days r;
          gap = to_fixed 2 (max 0 (js_minus planned available))
      in \<lparr> ut_role = r, plannedHours = planned, ut_availableHours = available,
           ut_utilisation = utilisation_of planned available, gapHours = gap,
           additionalPeople = peopleForHours gap (cap_calendar inp) days \<rparr>)"

definition calculateCapacity :: "capacity_input \<Rightarrow> capacity_result" where
  "calculateCapacity inp =
     (let days = (case cap_availableWorkingDays inp of None \<Rightarrow> 0 | Some d \<Rightarrow> d);
          roles = unique (map fst (plannedEffort inp) @ map cl_role (team_lines (cap_team inp)));
          lns = map (role_line inp days) (sort roles)
      in \<lparr> byRole = lns,
           totalPlannedHours = to_fixed 2 (foldl js_plus 0 (map plannedHours lns)),
           totalAvailableHours = to_fixed 2 (foldl js_plus 0 (map ut_availableHours lns)),
           totalGapHours = to_fixed 2 (foldl js_plus 0 (map gapHours lns)),
           capacityUnknown = (\<not> supplied (cap_team inp)),
           overloadedRoles = map ut_role (filter
             (\<lambda>l. 0 < plannedHours l \<and> SUSTAINABLE_UTILISATION < ut_utilisation l) lns) \<rparr>)"

section \<open>Staffing\<close>

record staffing_line =
  sl_role :: string
  sl_people :: rat
  sl_hours :: rat

definition recommendStaffing ::
  "(string \<Rightarrow> string \<Rightarrow> bool) \<Rightarrow> role_effort \<Rightarrow> WorkingCalendar \<Rightarrow> int option \<Rightarrow> staffing_line list" where
  "recommendStaffing collate planned cal available =
     (let days = (case available of None \<Rightarrow> 0 | Some d \<Rightarrow> d)
      in if days \<le> 0 then []
         else map (\<lambda>(r, h). \<lparr> sl_role = r, sl_people = peopleForHours h cal days, sl_hours = to_fixed 2 h \<rparr>)
                (sort_by (\<lambda>a b. collate (fst a) (fst b)) (filter (\<lambda>(r, h). 0 < h) planned)))"

section \<open>Feasibility\<close>

datatype feasibility_status =
    COMFORTABLE | FEASIBLE | AGGRESSIVE | HIGH_RISK | NOT_FEASIBLE_WITH_CURRENT_CAPACITY
  | CAPACITY_UNKNOWN | TIMELINE_UNMEASURABLE

datatype feasibility_determinacy = DETERMINED | CONDITIONAL

datatype missing_information = concrete_start_date | team_capacity

definition ACKNOWLEDGEABLE_STATUSES :: "feasibility_status list" where
  "ACKNOWLEDGEABLE_STATUSES = [AGGRESSIVE, HIGH_RISK, NOT_FEASIBLE_WITH_CURRENT_CAPACITY]"

definition feasibilityNeedsAcknowledgement :: "feasibility_status \<Rightarrow> bool" where
  "feasibilityNeedsAcknowledgement s = (s \<in> set ACKNOWLEDGEABLE_STATUSES)"

datatype timeline_risk_kind =
    insufficient_capacity | schedule_exceeds_timeline | role_overloaded | long_critical_path
  | high_uncertainty_share | unassessed_codebase | external_dependency | client_review_unbudgeted
  | no_parallelism

record timeline_risk =
  risk_kind :: timeline_risk_kind
  risk_subjects :: "string list"

record feasibility =
  feasibility_status :: feasibility_status
  determinacy :: feasibility_determinacy
  missingInformation :: "missing_information list"
  requiredWorkingDays :: int
  availableWorkingDays :: "int option"
  scheduleGapDays :: int
  requiredHours :: rat
  fe_availableHours :: rat
  capacityGapHours :: rat
  risks :: "timeline_risk list"

record feasibility_input =
  fi_requiredWorkingDays :: int
  fi_availableWorkingDays :: "int option"
  capacity :: capacity_result
  highUncertaintyShare :: rat
  criticalPathDays :: int
  hasUnassessedCodebase :: bool
  hasExternalDependency :: bool
  clientReviewBudgeted :: bool
  fi_allowParallel :: bool

definition risk :: "timeline_risk_kind \<Rightarrow> string list \<Rightarrow> timeline_risk" where
  "risk k subjects = \<lparr> risk_kind = k, risk_subjects = subjects \<rparr>"

definition collectRisks :: "feasibility_input \<Rightarrow> timeline_risk list" where
  "collectRisks inp =
     (let cap = capacity inp; available = fi_availableWorkingDays inp; spanKnown = (available \<noteq> None)
      in (if spanKnown \<and> 0 < totalGapHours cap
          then [risk insufficient_capacity (map ut_role (filter (\<lambda>l. 0 < gapHours l) (byRole cap)))] else [])
       @ (case available of None \<Rightarrow> []
            | Some a \<Rightarrow> if a < fi_requiredWorkingDays inp then [risk schedule_exceeds_timeline []] else [])
       @ map (\<lambda>r. risk role_overloaded [r]) (if spanKnown then overloadedRoles cap else [])
       @ (case available of None \<Rightarrow> []
            | Some a \<Rightarrow> if 0 < a \<and> lit (8 / 10) < js_div (of_int (criticalPathDays inp)) (of_int a)
                        then [risk long_critical_path []] else [])
       @ (if 1 / 4 < highUncertaintyShare inp then [risk high_uncertainty_share []] else [])
       @ (if hasUnassessedCodebase inp then [risk unassessed_codebase []] else [])
       @ (if hasExternalDependency inp then [risk external_dependency []] else [])
       @ (if \<not> clientReviewBudgeted inp then [risk client_review_unbudgeted []] else [])
       @ (if \<not> fi_allowParallel inp then [risk no_parallelism []] else []))"

definition headroom :: "int \<Rightarrow> int \<Rightarrow> rat" where
  "headroom available required =
     (if available = 0 then 0 else js_div (of_int (available - required)) (of_int available))"

definition assessFeasibility :: "feasibility_input \<Rightarrow> feasibility" where
  "assessFeasibility inp =
     (let cap = capacity inp; required = fi_requiredWorkingDays inp; available = fi_availableWorkingDays inp;
          gap = (case available of None \<Rightarrow> 0 | Some a \<Rightarrow> max 0 (required - a));
          base = \<lparr> feasibility_status = COMFORTABLE, determinacy = DETERMINED, missingInformation = [],
                   requiredWorkingDays = required, availableWorkingDays = available, scheduleGapDays = gap,
                   requiredHours = totalPlannedHours cap, fe_availableHours = totalAvailableHours cap,
                   capacityGapHours = totalGapHours cap, risks = collectRisks inp \<rparr>
      in case available of
           None \<Rightarrow>
             base\<lparr> feasibility_status := TIMELINE_UNMEASURABLE, determinacy := CONDITIONAL,
                   missingInformation :=
                     concrete_start_date # (if capacityUnknown cap then [team_capacity] else []),
                   fe_availableHours := 0, capacityGapHours := 0 \<rparr>
         | Some a \<Rightarrow>
             if capacityUnknown cap then
               base\<lparr> feasibility_status := CAPACITY_UNKNOWN, determinacy := CONDITIONAL,
                     missingInformation := [team_capacity] \<rparr>
             else if 0 < totalGapHours cap then
               base\<lparr> feasibility_status := NOT_FEASIBLE_WITH_CURRENT_CAPACITY \<rparr>
             else if 0 < gap then base\<lparr> feasibility_status := HIGH_RISK \<rparr>
             else if overloadedRoles cap \<noteq> [] then base\<lparr> feasibility_status := AGGRESSIVE \<rparr>
             else if headroom a required < lit (1 / 10) then base\<lparr> feasibility_status := AGGRESSIVE \<rparr>
             else if headroom a required < 1 / 4 then base\<lparr> feasibility_status := FEASIBLE \<rparr>
             else base)"

section \<open>Blockers\<close>

datatype estimate_blocker_kind =
    baseline_not_approved | baseline_not_current | stack_not_locked | stack_not_current
  | timeline_missing | deadline_before_start | no_estimates | requirement_unestimated
  | invalid_hours | dependency_cycle | unacknowledged_risk

record estimate_blocker =
  eb_kind :: estimate_blocker_kind
  eb_count :: nat
  eb_subjectIds :: "string list"

text \<open>The part of an estimate line the gate reads.\<close>

record estimate_view_line =
  el_id :: string
  el_requirementIds :: "string list"
  el_effort :: role_effort
  el_excluded :: bool

record estimate_blocker_input =
  estimates :: "estimate_view_line list"
  dependencyProblems :: "DependencyProblem list"
  baselineRequirementIds :: "string list"
  baselineApproved :: bool
  baselineCurrent :: bool
  stackLocked :: bool
  stackCurrent :: bool
  timelinePresent :: bool
  deadlinePrecedesStart :: bool
  feasibilityStatus :: feasibility_status
  riskAcknowledgedStatus :: "feasibility_status option"

definition blocker :: "estimate_blocker_kind \<Rightarrow> nat \<Rightarrow> string list \<Rightarrow> estimate_blocker" where
  "blocker k n subjects = \<lparr> eb_kind = k, eb_count = n, eb_subjectIds = subjects \<rparr>"

definition uncovered_requirements :: "estimate_blocker_input \<Rightarrow> string list" where
  "uncovered_requirements inp =
     filter (\<lambda>i. i \<notin> set (concat (map el_requirementIds (estimates inp)))) (baselineRequirementIds inp)"

definition calculateEstimateBlockers :: "estimate_blocker_input \<Rightarrow> estimate_blocker list" where
  "calculateEstimateBlockers inp =
     (if \<not> baselineApproved inp then [blocker baseline_not_approved 1 []]
      else if \<not> stackLocked inp then [blocker stack_not_locked 1 []]
      else if \<not> timelinePresent inp then [blocker timeline_missing 1 []]
      else if deadlinePrecedesStart inp then [blocker deadline_before_start 1 []]
      else
        let early = (if \<not> baselineCurrent inp then [blocker baseline_not_current 1 []] else [])
                  @ (if \<not> stackCurrent inp then [blocker stack_not_current 1 []] else []);
            counted = filter (\<lambda>e. \<not> el_excluded e) (estimates inp);
            uncovered = uncovered_requirements inp;
            invalid = filter (\<lambda>e. list_ex (\<lambda>h. \<not> isPlausibleHours h) (map snd (el_effort e))) counted;
            loops = filter blocking (dependencyProblems inp)
        in if counted = [] then early @ [blocker no_estimates 1 []]
           else early
             @ (if uncovered \<noteq> []
                then [blocker requirement_unestimated (length uncovered) (take 200 uncovered)] else [])
             @ (if invalid \<noteq> [] then [blocker invalid_hours (length invalid) (map el_id invalid)] else [])
             @ (if loops \<noteq> []
                then [blocker dependency_cycle (length loops) (concat (map problem_ids loops))] else [])
             @ (if feasibilityNeedsAcknowledgement (feasibilityStatus inp)
                   \<and> riskAcknowledgedStatus inp \<noteq> Some (feasibilityStatus inp)
                then [blocker unacknowledged_risk 1 []] else []))"

section \<open>Status\<close>

datatype estimate_status = E_DRAFT | E_REVIEW_REQUIRED | E_READY_FOR_APPROVAL | E_APPROVED | E_OUTDATED | E_SUPERSEDED

fun ESTIMATE_TRANSITIONS :: "estimate_status \<Rightarrow> estimate_status list" where
  "ESTIMATE_TRANSITIONS E_DRAFT = [E_REVIEW_REQUIRED, E_READY_FOR_APPROVAL, E_SUPERSEDED]"
| "ESTIMATE_TRANSITIONS E_REVIEW_REQUIRED = [E_DRAFT, E_READY_FOR_APPROVAL, E_SUPERSEDED]"
| "ESTIMATE_TRANSITIONS E_READY_FOR_APPROVAL = [E_DRAFT, E_REVIEW_REQUIRED, E_APPROVED, E_SUPERSEDED]"
| "ESTIMATE_TRANSITIONS E_APPROVED = [E_OUTDATED, E_DRAFT, E_SUPERSEDED]"
| "ESTIMATE_TRANSITIONS E_OUTDATED = [E_DRAFT, E_SUPERSEDED]"
| "ESTIMATE_TRANSITIONS E_SUPERSEDED = []"

definition canTransitionEstimate :: "estimate_status \<Rightarrow> estimate_status \<Rightarrow> bool" where
  "canTransitionEstimate a b = (a = b \<or> b \<in> set (ESTIMATE_TRANSITIONS a))"

definition canApproveEstimate :: "estimate_status \<Rightarrow> estimate_blocker list \<Rightarrow> estimate_view_line list \<Rightarrow> bool" where
  "canApproveEstimate status bs es =
     (status \<in> {E_DRAFT, E_REVIEW_REQUIRED, E_READY_FOR_APPROVAL} \<and> bs = []
      \<and> list_ex (\<lambda>e. \<not> el_excluded e) es)"

section \<open>A shortfall is never rounded away\<close>

lemma one_128: "round_double (1 / 128) = 1 / 128"
  using round_double_exact_pos [of 1 "- 7"] by (simp add: pow2_def)

lemma to_fixed2_pos:
  assumes "1 / 128 \<le> x"
  shows "1 / 128 \<le> to_fixed 2 x"
proof (cases "10 ^ 21 \<le> x")
  case False
  have "1 \<le> \<lfloor>x * 10 ^ 2 + 1 / 2\<rfloor>" using assms by (simp add: le_floor_iff)
  then have "(1 :: rat) \<le> of_int \<lfloor>x * 10 ^ 2 + 1 / 2\<rfloor>" by (simp only: of_int_1_le_iff)
  then have "(1 :: rat) / 10 ^ 2 \<le> of_int \<lfloor>x * 10 ^ 2 + 1 / 2\<rfloor> / 10 ^ 2" by (rule divide_right_mono) simp
  moreover have "(1 / 128 :: rat) \<le> 1 / 10 ^ 2" by simp
  ultimately have "1 / 128 \<le> (of_int \<lfloor>x * 10 ^ 2 + 1 / 2\<rfloor> / 10 ^ 2 :: rat)" by (rule order_trans [rotated])
  then have "round_double (1 / 128) \<le> round_double (of_int \<lfloor>x * 10 ^ 2 + 1 / 2\<rfloor> / 10 ^ 2)"
    by (intro round_double_mono) auto
  moreover have "0 \<le> x" using assms by (rule order_trans [rotated]) simp
  ultimately show ?thesis using False by (simp only: one_128 to_fixed_small not_le)
qed (use assms in \<open>simp add: to_fixed_def\<close>)

lemma to_fixed2_0 [simp]: "to_fixed 2 0 = 0"
  using to_fixed_int [of 0 2] by simp

lemma hundredth_form:
  assumes "0 \<le> x" and "x \<le> 2 ^ 38"
  obtains k where "to_fixed 2 x = round_double (of_int k / 100)" "0 \<le> k"
    "\<bar>to_fixed 2 x - of_int k / 100\<bar> \<le> 1 / 8192"
proof -
  define k where "k = \<lfloor>x * 10 ^ 2 + 1 / 2\<rfloor>"
  have x21: "x < 10 ^ 21" using assms(2) by (rule le_less_trans) simp
  have t: "to_fixed 2 x = round_double (of_int k / 100)" using assms x21 by (simp add: to_fixed_small k_def)
  have "of_int k \<le> x * 10 ^ 2 + 1 / 2" unfolding k_def by linarith
  then have "of_int k / 100 \<le> (2 :: rat) ^ 40" using assms(2) by simp
  moreover have k0: "0 \<le> k" unfolding k_def using assms(1) by (simp add: le_floor_iff)
  ultimately have "\<bar>to_fixed 2 x - of_int k / 100\<bar> \<le> 1 / 2 ^ 13"
    unfolding t by (intro round_double_near) auto
  then show thesis using that [OF t k0] by simp
qed

lemma gap_positive:
  assumes "p = to_fixed 2 x" "a = to_fixed 2 y" "0 \<le> x" "x \<le> 2 ^ 38" "0 \<le> y" "y \<le> 2 ^ 38" "a < p"
  shows "1 / 128 \<le> to_fixed 2 (max 0 (js_minus p a))"
proof -
  obtain k where k: "p = round_double (of_int k / 100)" "0 \<le> k" "\<bar>p - of_int k / 100\<bar> \<le> 1 / 8192"
    using hundredth_form [OF assms(3,4)] assms(1) by metis
  obtain l where l: "a = round_double (of_int l / 100)" "0 \<le> l" "\<bar>a - of_int l / 100\<bar> \<le> 1 / 8192"
    using hundredth_form [OF assms(5,6)] assms(2) by metis
  have "l < k"
  proof (rule ccontr)
    assume "\<not> l < k"
    then have "(of_int k / 100 :: rat) \<le> of_int l / 100" by simp
    then have "p \<le> a" unfolding k(1) l(1) using k(2) by (intro round_double_mono) auto
    then show False using assms(7) by simp
  qed
  then have "(of_int l + 1 :: rat) \<le> of_int k" by linarith
  then have "1 / 128 \<le> p - a" using k(3) l(3) by linarith
  then have "round_double (1 / 128) \<le> round_double (p - a)" by (intro round_double_mono) auto
  then have "1 / 128 \<le> js_minus p a" using assms(7) by (simp only: js_minus_def one_128) simp
  then have "1 / 128 \<le> max 0 (js_minus p a)" by (simp add: le_max_iff_disj)
  then show ?thesis by (rule to_fixed2_pos)
qed

lemma js_minus_nonpos: "p \<le> a \<Longrightarrow> js_minus p a \<le> 0"
  using round_double_nonneg [of "a - p"] by (auto simp: js_minus_def round_double_def)

lemma gap_zero: "p \<le> a \<Longrightarrow> to_fixed 2 (max 0 (js_minus p a)) = 0"
  using js_minus_nonpos [of p a] by (simp add: max_def)

lemma foldl_js_plus_ge:
  assumes "\<forall>x \<in> set xs. 0 \<le> x" "0 \<le> t" "1 / 128 \<le> t \<or> (\<exists>x \<in> set xs. 1 / 128 \<le> x)"
  shows "1 / 128 \<le> foldl js_plus t xs"
  using assms
proof (induction xs arbitrary: t)
  case (Cons x xs)
  have "1 / 128 \<le> js_plus t x" if "1 / 128 \<le> t \<or> 1 / 128 \<le> x"
  proof -
    have "1 / 128 \<le> t + x" using that Cons.prems by auto
    then have "round_double (1 / 128) \<le> round_double (t + x)" by (intro round_double_mono) auto
    then show ?thesis by (simp only: js_plus_def one_128)
  qed
  then have "1 / 128 \<le> js_plus t x \<or> (\<exists>x \<in> set xs. 1 / 128 \<le> x)" using Cons.prems(3) by auto
  moreover have "0 \<le> js_plus t x" "\<forall>x \<in> set xs. 0 \<le> x" using Cons.prems by simp_all
  ultimately have "1 / 128 \<le> foldl js_plus (js_plus t x) xs" by (intro Cons.IH)
  then show ?case by simp
qed simp

lemma foldl_js_plus_le:
  assumes "\<forall>x \<in> set xs. 0 \<le> x \<and> x \<le> of_int B" "0 \<le> t" "t \<le> of_int A" "0 \<le> B"
    "A + int (length xs) * B \<le> 2 ^ 53"
  shows "foldl js_plus t xs \<le> of_int (A + int (length xs) * B)"
  using assms
proof (induction xs arbitrary: t A)
  case (Cons x xs)
  have A: "0 \<le> A" using Cons.prems by (metis of_int_0_le_iff order_trans)
  have "int (length xs) * B \<ge> 0" using Cons.prems by simp
  then have AB: "A + B \<le> 2 ^ 53" using Cons.prems(5) by (simp add: algebra_simps)
  have "js_plus t x \<le> round_double (of_int (A + B))"
    unfolding js_plus_def using Cons.prems by (intro round_double_mono) auto
  also have "\<dots> = of_int (A + B)" using AB A Cons.prems(4) by (intro round_double_int) auto
  finally have "js_plus t x \<le> of_int (A + B)" .
  moreover have "A + B + int (length xs) * B \<le> 2 ^ 53" using Cons.prems(5) by (simp add: algebra_simps)
  ultimately have "foldl js_plus (js_plus t x) xs \<le> of_int (A + B + int (length xs) * B)"
    using Cons.prems by (intro Cons.IH) auto
  then show ?case by (simp add: algebra_simps)
qed simp

lemma foldl_zero: "\<forall>x \<in> set xs. x = 0 \<Longrightarrow> foldl js_plus 0 xs = 0"
  by (induction xs) (auto simp: js_plus_def round_double_def)

lemma lineCapacityHours_bounds:
  assumes "capacityLineSchema l" and "days \<le> 100000"
  shows "0 \<le> lineCapacityHours l days \<and> lineCapacityHours l days \<le> of_int (12000 * 100000)"
proof -
  let ?u = "max 0 (days - availableFromDay l)"
  have u: "0 \<le> ?u" "?u \<le> 100000" using assms by (auto simp: capacityLineSchema_def)
  have s: "0 \<le> cl_people l" "cl_people l \<le> of_int 500" "0 \<le> productiveHoursPerDay l"
    "productiveHoursPerDay l \<le> of_int 24" "0 \<le> availability l" "availability l \<le> of_int 1"
    using assms(1) by (simp_all add: capacityLineSchema_def)
  have e: "js_mult (of_int m) (of_int n) = of_int (m * n)" if "0 \<le> m * n" "m * n \<le> 2 ^ 53" for m n
    using that round_double_int [of "m * n"] by (simp add: js_mult_def)
  have "js_mult (cl_people l) (productiveHoursPerDay l) \<le> js_mult (of_int 500) (of_int 24)"
    using s by (intro js_mult_mono)
  then have 1: "js_mult (cl_people l) (productiveHoursPerDay l) \<le> of_int 12000" using e [of 500 24] by simp
  have "js_mult (js_mult (cl_people l) (productiveHoursPerDay l)) (availability l) \<le> js_mult (of_int 12000) (of_int 1)"
    using 1 s by (intro js_mult_mono js_nonneg)
  then have 2: "js_mult (js_mult (cl_people l) (productiveHoursPerDay l)) (availability l) \<le> of_int 12000"
    using e [of 12000 1] by simp
  let ?h = "js_mult (js_mult (js_mult (cl_people l) (productiveHoursPerDay l)) (availability l)) (of_int ?u)"
  have "(of_int ?u :: rat) \<le> of_int 100000" using u by (simp only: of_int_le_iff)
  then have "?h \<le> js_mult (of_int 12000) (of_int 100000)"
    using 2 s u by (intro js_mult_mono js_nonneg) (simp_all only: of_int_0_le_iff)
  then have 3: "?h \<le> of_int (12000 * 100000)" using e [of 12000 100000] by simp
  have 0: "0 \<le> ?h" using s u by (intro js_nonneg) (simp_all only: of_int_0_le_iff)
  have "to_fixed 2 ?h \<le> to_fixed 2 (of_int (12000 * 100000))" using 0 3 by (intro to_fixed_mono) auto
  then show ?thesis using 0 to_fixed_nonneg [OF 0, of 2] to_fixed_int [of "12000 * 100000" 2]
    unfolding lineCapacityHours_def by simp
qed

lemma supply_bounds:
  assumes "teamPlanSchema team" and "days \<le> 100000"
  shows "0 \<le> foldl (\<lambda>t line. js_plus t (lineCapacityHours line days)) 0
           (filter (\<lambda>line. cl_role line = r) (team_lines team))"
    and "foldl (\<lambda>t line. js_plus t (lineCapacityHours line days)) 0
           (filter (\<lambda>line. cl_role line = r) (team_lines team)) \<le> 2 ^ 38"
proof -
  let ?ls = "filter (\<lambda>line. cl_role line = r) (team_lines team)"
  let ?xs = "map (\<lambda>l. lineCapacityHours l days) ?ls"
  have f: "foldl (\<lambda>t line. js_plus t (lineCapacityHours line days)) t ls
      = foldl js_plus t (map (\<lambda>l. lineCapacityHours l days) ls)" for t ls
    by (induction ls arbitrary: t) simp_all
  have b: "\<forall>x \<in> set ?xs. 0 \<le> x \<and> x \<le> of_int (12000 * 100000)"
    using assms lineCapacityHours_bounds by (auto simp: teamPlanSchema_def list_all_iff)
  have len: "int (length ?xs) \<le> 60"
    using assms(1) order_trans [OF length_filter_le [of "\<lambda>line. cl_role line = r" "team_lines team"], of 60]
    by (simp add: teamPlanSchema_def)
  show "0 \<le> foldl (\<lambda>t line. js_plus t (lineCapacityHours line days)) 0 ?ls"
    unfolding f by (rule foldl_js_plus_nonneg) (use b in auto)
  have "foldl js_plus 0 ?xs \<le> of_int (0 + int (length ?xs) * (12000 * 100000))"
    using b len by (intro foldl_js_plus_le) simp_all
  also have "\<dots> \<le> of_int (60 * (12000 * 100000))" using len by (simp only: of_int_le_iff)
  also have "\<dots> \<le> (2 ^ 38 :: rat)" by simp
  finally show "foldl (\<lambda>t line. js_plus t (lineCapacityHours line days)) 0 ?ls \<le> 2 ^ 38" unfolding f .
qed

definition short_role :: "capacity_input \<Rightarrow> int \<Rightarrow> string \<Rightarrow> bool" where
  "short_role inp days r = (available_for (cap_team inp) days r < to_fixed 2 (hours_of (plannedEffort inp) r))"

lemma hours_of_bounds:
  assumes "roleEffortSchema e"
  shows "0 \<le> hours_of e r" "hours_of e r \<le> 100000"
  using assms
  by (fastforce simp: hours_of_def roleEffortSchema_def list_all_iff split: option.splits dest: map_of_SomeD)+

lemma role_line_gap:
  assumes "teamPlanSchema (cap_team inp)" "roleEffortSchema (plannedEffort inp)" "days \<le> 100000"
  shows "short_role inp days r \<Longrightarrow> 1 / 128 \<le> gapHours (role_line inp days r)"
    and "\<not> short_role inp days r \<Longrightarrow> gapHours (role_line inp days r) = 0"
proof -
  note h = hours_of_bounds [OF assms(2), of r]
  have h38: "hours_of (plannedEffort inp) r \<le> 2 ^ 38" using h(2) by (rule order_trans) simp
  note s = supply_bounds [OF assms(1,3), of r]
  show "short_role inp days r \<Longrightarrow> 1 / 128 \<le> gapHours (role_line inp days r)"
    using gap_positive [OF refl refl h(1) h38 s] by (simp add: short_role_def role_line_def Let_def available_for_def)
  show "\<not> short_role inp days r \<Longrightarrow> gapHours (role_line inp days r) = 0"
    using gap_zero [of "to_fixed 2 (hours_of (plannedEffort inp) r)" "available_for (cap_team inp) days r"]
    by (simp add: short_role_def role_line_def Let_def)
qed


lemma ut_role_line: "ut_role (role_line inp days r) = r"
  by (simp add: role_line_def Let_def)

lemma shortage_has_gap:
  assumes ok: "teamPlanSchema (cap_team inp)" "roleEffortSchema (plannedEffort inp)" "days \<le> 100000"
    and days: "cap_availableWorkingDays inp = Some days"
  shows "0 < totalGapHours (calculateCapacity inp) \<longleftrightarrow> (\<exists>r. short_role inp days r)"
    and "set (map ut_role (filter (\<lambda>l. 0 < gapHours l) (byRole (calculateCapacity inp)))) = {r. short_role inp days r}"
proof -
  let ?roles = "sort (unique (map fst (plannedEffort inp) @ map cl_role (team_lines (cap_team inp))))"
  let ?gaps = "map (\<lambda>r. gapHours (role_line inp days r)) ?roles"
  have lns: "byRole (calculateCapacity inp) = map (role_line inp days) ?roles"
    and tot: "totalGapHours (calculateCapacity inp) = to_fixed 2 (foldl js_plus 0 ?gaps)"
    by (simp_all add: calculateCapacity_def Let_def days comp_def)
  have gap: "0 < gapHours (role_line inp days r) \<longleftrightarrow> short_role inp days r" for r
    using role_line_gap [OF ok, of r] by (cases "short_role inp days r") auto
  have listed: "r \<in> set ?roles" if "short_role inp days r" for r
  proof -
    have "0 \<le> available_for (cap_team inp) days r"
      unfolding available_for_def by (intro to_fixed_nonneg supply_bounds ok)
    then have "hours_of (plannedEffort inp) r \<noteq> 0" using that by (auto simp: short_role_def)
    then show ?thesis by (auto simp: hours_of_def split: option.splits dest!: map_of_SomeD intro!: image_eqI)
  qed
  show "set (map ut_role (filter (\<lambda>l. 0 < gapHours l) (byRole (calculateCapacity inp)))) = {r. short_role inp days r}"
    using listed unfolding lns filter_map map_map set_map set_filter comp_def ut_role_line gap by auto
  show "0 < totalGapHours (calculateCapacity inp) \<longleftrightarrow> (\<exists>r. short_role inp days r)"
  proof
    assume "\<exists>r. short_role inp days r"
    then obtain r where r: "short_role inp days r" by blast
    have "0 \<le> gapHours (role_line inp days q)" for q
      using role_line_gap [OF ok, of q] by (cases "short_role inp days q") auto
    moreover have "1 / 128 \<le> gapHours (role_line inp days r)" using role_line_gap(1) [OF ok r] .
    ultimately have "1 / 128 \<le> foldl js_plus 0 ?gaps"
      using listed [OF r] by (intro foldl_js_plus_ge) auto
    then have "1 / 128 \<le> totalGapHours (calculateCapacity inp)" unfolding tot by (rule to_fixed2_pos)
    then show "0 < totalGapHours (calculateCapacity inp)" by (rule less_le_trans [rotated]) simp
  next
    assume "0 < totalGapHours (calculateCapacity inp)"
    moreover have "foldl js_plus 0 ?gaps = 0" if "\<not> (\<exists>r. short_role inp days r)"
      using that role_line_gap(2) [OF ok] by (intro foldl_zero) auto
    ultimately show "\<exists>r. short_role inp days r" unfolding tot by (metis to_fixed2_0 less_irrefl)
  qed
qed

definition roles_named_short :: "feasibility \<Rightarrow> string list" where
  "roles_named_short fe =
     concat (map risk_subjects (filter (\<lambda>k. risk_kind k = insufficient_capacity) (risks fe)))"

lemma collectRisks_short:
  "concat (map risk_subjects (filter (\<lambda>k. risk_kind k = insufficient_capacity) (collectRisks f)))
   = (if fi_availableWorkingDays f \<noteq> None \<and> 0 < totalGapHours (capacity f)
      then map ut_role (filter (\<lambda>l. 0 < gapHours l) (byRole (capacity f))) else [])"
  by (cases "fi_availableWorkingDays f") (simp_all add: collectRisks_def Let_def risk_def filter_map comp_def)

text \<open>
  Property C16. The verdict is exact. With a team and a measurable timeline the plan is reported as
  not feasible exactly when some role is planned for more hours than it can supply (a shortage of a
  hundredth of an hour is never rounded away), and the risk names exactly those roles; otherwise as
  high risk exactly when the sequenced work is longer than the timeline; and as fitting exactly
  when neither holds.
\<close>
theorem verdict_is_exact:
  assumes "teamPlanSchema (cap_team inp)" and "roleEffortSchema (plannedEffort inp)" and "days \<le> 100000"
    and "cap_availableWorkingDays inp = Some days" and "supplied (cap_team inp)"
    and "fi_availableWorkingDays f = Some days" and "capacity f = calculateCapacity inp"
  shows "(feasibility_status (assessFeasibility f) = NOT_FEASIBLE_WITH_CURRENT_CAPACITY
      \<longleftrightarrow> (\<exists>r. short_role inp days r))
    \<and> (feasibility_status (assessFeasibility f) = HIGH_RISK
      \<longleftrightarrow> \<not> (\<exists>r. short_role inp days r) \<and> days < fi_requiredWorkingDays f)
    \<and> (feasibility_status (assessFeasibility f) \<in> {COMFORTABLE, FEASIBLE, AGGRESSIVE}
      \<longleftrightarrow> \<not> (\<exists>r. short_role inp days r) \<and> fi_requiredWorkingDays f \<le> days)
    \<and> set (roles_named_short (assessFeasibility f)) = {r. short_role inp days r}"
proof -
  note g = shortage_has_gap [OF assms(1-4)]
  have u: "\<not> capacityUnknown (calculateCapacity inp)" using assms(5) by (simp add: calculateCapacity_def Let_def)
  have s: "feasibility_status (assessFeasibility f) =
      (if \<exists>r. short_role inp days r then NOT_FEASIBLE_WITH_CURRENT_CAPACITY
       else if days < fi_requiredWorkingDays f then HIGH_RISK
       else if overloadedRoles (capacity f) \<noteq> [] then AGGRESSIVE
       else if headroom days (fi_requiredWorkingDays f) < lit (1 / 10) then AGGRESSIVE
       else if headroom days (fi_requiredWorkingDays f) < 1 / 4 then FEASIBLE else COMFORTABLE)"
    using u by (simp add: assessFeasibility_def Let_def assms(6,7) g(1) less_max_iff_disj del: not_ex)
  have r: "risks (assessFeasibility f) = collectRisks f"
    by (simp add: assessFeasibility_def Let_def split: option.splits)
  have "set (roles_named_short (assessFeasibility f)) = {r. short_role inp days r}"
    using g unfolding roles_named_short_def r collectRisks_short assms(6,7) by auto
  then show ?thesis unfolding s by auto
qed

section \<open>Recommended staffing covers the work\<close>

lemma two_pows: "(2 :: rat) ^ 53 = 9007199254740992" "(2 :: rat) ^ 28 = 268435456" "(2 :: rat) ^ 29 = 536870912"
  "(2 :: rat) ^ 30 = 1073741824" "(10 :: rat) ^ 7 = 10000000" "(10 :: rat) ^ 6 = 1000000" "(10 :: rat) ^ 9 = 1000000000"
  by simp_all

lemma rel_mult: "0 \<le> (x :: rat) \<Longrightarrow> \<bar>y - x\<bar> \<le> e * x \<Longrightarrow> 0 \<le> c \<Longrightarrow> \<bar>y * c - x * c\<bar> \<le> e * (x * c)"
  using mult_right_mono [of "\<bar>y - x\<bar>" "e * x" c]
  by (simp add: abs_mult left_diff_distrib [symmetric] mult.assoc)

lemma quotient_error:
  assumes n: "1 / 100 \<le> n" and M: "1 \<le> M" "M \<le> 2 ^ 30" and r: "r = n / M"
    and E: "E = js_div n (round_double M)"
  shows "\<bar>E - r\<bar> \<le> 4 / 2 ^ 53 * r"
proof -
  let ?D = "round_double M"
  have D: "\<bar>?D - M\<bar> \<le> M / 2 ^ 53" using M by (intro rel_error) auto
  have "M / 2 ^ 53 \<le> 1 / 2 * M" using M by simp
  then have D2: "M / 2 \<le> ?D" using D by linarith
  then have Dpos: "0 < ?D" using M by linarith
  have rpos: "0 < r" using n M unfolding r by (intro divide_pos_pos) linarith+
  have rM: "r * M = n" using M unfolding r by simp
  define q where "q = n / ?D"
  have qD: "q * ?D = n" using Dpos by (simp add: q_def)
  have qpos: "0 < q" using n Dpos unfolding q_def by (intro divide_pos_pos) linarith+
  have "\<bar>q - r\<bar> * ?D = \<bar>(q - r) * ?D\<bar>" using Dpos by (simp add: abs_mult)
  also have "\<dots> = \<bar>r * M - r * ?D\<bar>" by (simp only: left_diff_distrib qD rM)
  also have "\<dots> = r * \<bar>?D - M\<bar>"
    using rpos by (simp only: right_diff_distrib [symmetric] abs_mult abs_of_pos abs_minus_commute)
  also have "\<dots> \<le> r * (2 / 2 ^ 53 * ?D)" using D D2 rpos by (intro mult_left_mono) auto
  finally have "\<bar>q - r\<bar> * ?D \<le> (2 / 2 ^ 53 * r) * ?D" by (simp only: mult_ac)
  then have qr: "\<bar>q - r\<bar> \<le> 2 / 2 ^ 53 * r" using Dpos by (rule mult_right_le_imp_le)
  have "2 / 2 ^ 53 * r \<le> 1 / 2 * r" using rpos by (intro mult_right_mono) auto
  then have q2: "q \<le> 2 * r" "r / 2 \<le> q" using qr by (simp_all only: abs_le_iff) linarith+
  have "1 / 100 / 2 ^ 30 \<le> r" using n M unfolding r by (intro frac_le) auto
  then have "1 / 2 ^ 100 \<le> q" using q2(2) by (rule_tac order_trans [of _ "1 / 100 / 2 ^ 30 / 2"]) auto
  then have "\<bar>E - q\<bar> \<le> q / 2 ^ 53" unfolding E js_div_def q_def [symmetric] by (intro rel_error) simp
  then show ?thesis using qr q2(1) unfolding abs_le_iff two_pows by linarith
qed

lemma to_fixed6_near:
  assumes "0 \<le> x" "x \<le> 2 ^ 28"
  shows "\<bar>to_fixed 6 x - x\<bar> \<le> 6 / 10 ^ 7"
proof -
  define f where "f = \<lfloor>x * 10 ^ 6 + 1 / 2\<rfloor>"
  let ?c = "of_int f / 10 ^ 6 :: rat"
  have fl: "of_int f \<le> x * 10 ^ 6 + 1 / 2" "x * 10 ^ 6 + 1 / 2 < of_int f + 1"
    unfolding f_def by linarith+
  have c: "\<bar>?c - x\<bar> \<le> 5 / 10 ^ 7"
  proof -
    have "?c = of_int f / 1000000" "(5 / 10 ^ 7 :: rat) = 1 / 2000000" "x * 10 ^ 6 = x * 1000000" by simp_all
    then show ?thesis using fl unfolding abs_le_iff by linarith
  qed
  have f0: "0 \<le> f" unfolding f_def using assms(1) by (simp add: le_floor_iff)
  have "?c = 0 \<or> 1 / 2 ^ 100 \<le> ?c"
  proof (cases "f = 0")
    case False
    then have "(1 :: rat) \<le> of_int f" using f0 by simp
    then have "(1 :: rat) / 10 ^ 6 \<le> ?c" by (intro divide_right_mono) auto
    then show ?thesis by (intro disjI2) (rule order_trans [rotated], assumption, simp)
  qed simp
  then have e: "\<bar>round_double ?c - ?c\<bar> \<le> ?c / 2 ^ 53" by (rule rel_error)
  have "?c \<le> 2 ^ 29" using c assms(2) unfolding abs_le_iff two_pows by linarith
  then have "?c / 2 ^ 53 \<le> 1 / 10 ^ 7" by simp
  moreover have "x < 10 ^ 21" using assms(2) by (rule le_less_trans) simp
  then have "to_fixed 6 x = round_double ?c" using assms(1) by (simp only: to_fixed_small f_def)
  ultimately show ?thesis using e c unfolding abs_le_iff two_pows by linarith
qed

lemma lit_hundredth: "1 / 128 \<le> lit (1 / 100)" "lit (1 / 100) \<le> 1 / 64"
proof -
  have "round_double (1 / 64) = 1 / 64" using round_double_exact_pos [of 1 "- 6"] by (simp add: pow2_def)
  then show "lit (1 / 100) \<le> 1 / 64" using round_double_mono [of "1 / 100" "1 / 64"] by (simp add: lit_def)
  show "1 / 128 \<le> lit (1 / 100)" using round_double_mono [of "1 / 128" "1 / 100"] by (simp add: lit_def one_128)
qed

lemma hundredths_of_a_person:
  assumes r: "0 \<le> r" "r \<le> 1000000" and rlow: "1 / 100 / 2 ^ 30 \<le> r" and rE: "\<bar>E - r\<bar> \<le> 4 / 2 ^ 53 * r"
  defines "P \<equiv> js_div (of_int \<lceil>to_fixed 6 (js_mult E 100)\<rceil>) 100"
  shows "r - 1 / 10 ^ 7 \<le> P" and "P \<le> r + 1 / 100 + 1 / 10 ^ 6"
proof -
  let ?X = "js_mult E 100" and ?T = "to_fixed 6 (js_mult E 100)"
  let ?H = "\<lceil>?T\<rceil>" and ?P = "js_div (of_int \<lceil>to_fixed 6 (js_mult E 100)\<rceil>) 100"
  have E: "\<bar>E * 100 - r * 100\<bar> \<le> 4 / 2 ^ 53 * (r * 100)" using rE r by (intro rel_mult) auto
  then have E1: "\<bar>E * 100 - r * 100\<bar> \<le> 1 / 10 ^ 7" 
  proof -
    have "4 / 2 ^ 53 * (r * 100) \<le> 1 / 10 ^ 7" using r unfolding two_pows by linarith
    then show ?thesis using E by (rule order_trans [rotated])
  qed
  have E0: "1 / 2 ^ 100 \<le> E * 100"
  proof -
    have "r * 100 / 2 \<le> E * 100" using E r unfolding abs_le_iff two_pows by linarith
    moreover have "1 / 100 / 2 ^ 30 * 50 \<le> r * 100 / 2" using rlow unfolding two_pows by linarith
    moreover have "1 / 2 ^ 100 \<le> (1 / 100 / 2 ^ 30 * 50 :: rat)" by simp
    ultimately show ?thesis by linarith
  qed
  have E8: "E * 100 \<le> 100000001" using E1 r unfolding abs_le_iff two_pows by linarith
  have "\<bar>?X - E * 100\<bar> \<le> E * 100 / 2 ^ 53"
    unfolding js_mult_def [of E 100] using E0 by (intro rel_error) simp
  then have X: "\<bar>?X - E * 100\<bar> \<le> 1 / 10 ^ 7" using E8 unfolding two_pows by linarith
  have "0 \<le> (1 / 2 ^ 100 :: rat)" by simp
  then have X28: "0 \<le> ?X" "?X \<le> 2 ^ 28"
    using X E8 E0 by (simp add: js_mult_def round_double_nonneg) (use X E8 in \<open>unfold abs_le_iff two_pows, linarith\<close>)
  have T: "\<bar>?T - r * 100\<bar> \<le> 8 / 10 ^ 7"
    using to_fixed6_near [OF X28] X E1 unfolding abs_le_iff two_pows by linarith
  have H: "?T \<le> of_int ?H" "of_int ?H < ?T + 1" by linarith+
  have T0: "0 \<le> ?T" using X28(1) by (rule to_fixed_nonneg)
  then have H0: "0 \<le> ?H" by linarith
  have H9: "of_int ?H \<le> (200000000 :: rat)" using H T r unfolding abs_le_iff two_pows by linarith
  have "(of_int ?H / 100 :: rat) = 0 \<or> 1 / 2 ^ 100 \<le> (of_int ?H / 100 :: rat)"
  proof (cases "?H = 0")
    case False
    then have "(1 :: rat) \<le> of_int ?H" using H0 by linarith
    then have "1 / 100 \<le> (of_int ?H / 100 :: rat)" by linarith
    moreover have "1 / 2 ^ 100 \<le> (1 / 100 :: rat)" by simp
    ultimately show ?thesis by linarith
  qed simp
  then have "\<bar>?P - of_int ?H / 100\<bar> \<le> of_int ?H / 100 / 2 ^ 53" unfolding js_div_def [of _ 100] by (rule rel_error)
  then have P: "\<bar>?P - of_int ?H / 100\<bar> \<le> 1 / 10 ^ 9" using H9 unfolding two_pows by linarith
  show "r - 1 / 10 ^ 7 \<le> P" "P \<le> r + 1 / 100 + 1 / 10 ^ 6"
    using P H T unfolding P_def abs_le_iff two_pows by linarith+
qed



definition absent_team :: capacity_input where
  "absent_team = \<lparr> plannedEffort = [(''QA'', 40)], cap_team = \<lparr> supplied = True, team_lines = [] \<rparr>,
     cap_calendar = DEFAULT_CALENDAR, cap_availableWorkingDays = Some 10 \<rparr>"

definition absent_team_plan :: feasibility_input where
  "absent_team_plan = \<lparr> fi_requiredWorkingDays = 7, fi_availableWorkingDays = Some 10,
     capacity = calculateCapacity absent_team, highUncertaintyShare = 0, criticalPathDays = 7,
     hasUnassessedCodebase = False, hasExternalDependency = False, clientReviewBudgeted = True,
     fi_allowParallel = True \<rparr>"

lemma absent_team_short: "short_role absent_team 10 ''QA''"
  using to_fixed_int [of 40 2]
  by (simp add: short_role_def absent_team_def available_for_def hours_of_def)

theorem verdict_is_exact_witness:
  "feasibility_status (assessFeasibility absent_team_plan) = NOT_FEASIBLE_WITH_CURRENT_CAPACITY
   \<and> ''QA'' \<in> set (roles_named_short (assessFeasibility absent_team_plan))"
  using verdict_is_exact [of absent_team 10 absent_team_plan] absent_team_short
  by (auto simp: absent_team_def absent_team_plan_def teamPlanSchema_def roleEffortSchema_def)

section \<open>Nothing is approved that should not be\<close>

text \<open>
  Approval is open exactly when all of it holds: the baseline is approved and current,
  the stack locked and current, a timeline is set and its deadline does not precede the start, at
  least one line counts, every approved requirement is covered by a line, every counted line has
  plausible hours, no dependency problem blocks, and a risky verdict has been acknowledged under
  its present status.
\<close>
theorem estimate_gate_exact:
  "canApproveEstimate status (calculateEstimateBlockers inp) (estimates inp) \<longleftrightarrow>
     (status \<in> {E_DRAFT, E_REVIEW_REQUIRED, E_READY_FOR_APPROVAL}
      \<and> baselineApproved inp \<and> baselineCurrent inp \<and> stackLocked inp \<and> stackCurrent inp
      \<and> timelinePresent inp \<and> \<not> deadlinePrecedesStart inp
      \<and> list_ex (\<lambda>e. \<not> el_excluded e) (estimates inp)
      \<and> list_all (\<lambda>i. list_ex (\<lambda>e. i \<in> set (el_requirementIds e)) (estimates inp)) (baselineRequirementIds inp)
      \<and> list_all (\<lambda>e. el_excluded e \<or> list_all isPlausibleHours (map snd (el_effort e))) (estimates inp)
      \<and> \<not> hasBlockingDependencyProblem (dependencyProblems inp)
      \<and> (if feasibilityStatus inp \<in> set ACKNOWLEDGEABLE_STATUSES
           then riskAcknowledgedStatus inp = Some (feasibilityStatus inp) else True))"
proof -
  have 1: "filter (\<lambda>e. \<not> el_excluded e) es = [] \<longleftrightarrow> \<not> list_ex (\<lambda>e. \<not> el_excluded e) es" for es
    by (induction es) auto
  have 2: "uncovered_requirements inp = [] \<longleftrightarrow>
      list_all (\<lambda>i. list_ex (\<lambda>e. i \<in> set (el_requirementIds e)) (estimates inp)) (baselineRequirementIds inp)"
    by (auto simp: uncovered_requirements_def filter_empty_conv list_all_iff list_ex_iff)
  have 3: "filter (\<lambda>e. list_ex (\<lambda>h. \<not> isPlausibleHours h) (map snd (el_effort e)))
        (filter (\<lambda>e. \<not> el_excluded e) (estimates inp)) = []
      \<longleftrightarrow> list_all (\<lambda>e. el_excluded e \<or> list_all isPlausibleHours (map snd (el_effort e))) (estimates inp)"
    by (auto simp: filter_empty_conv list_all_iff list_ex_iff)
  have 4: "filter blocking ps = [] \<longleftrightarrow> \<not> hasBlockingDependencyProblem ps" for ps
    by (auto simp: hasBlockingDependencyProblem_def filter_empty_conv list_ex_iff)
  show ?thesis
    unfolding canApproveEstimate_def calculateEstimateBlockers_def Let_def 2 [symmetric] 3 [symmetric]
      1 4 feasibilityNeedsAcknowledgement_def
    by auto
qed

end
