(* ===== verification/EstimationStore.thy ===== *)
theory EstimationStore
  imports VersionedRows Scheduling Estimator Feasibility
begin

text \<open>
  What the estimation service keeps and reads (apps/api/src/estimation/estimation.repository.ts and
  schemas/estimation.schema.ts): the snapshots, lines, dependencies and runs of one project, with
  the queries and writes on them; the project, baseline and stack it reads (upstream in
  estimation.service.ts); and the roles a project can have work in (role.contract.ts). Times,
  prose, branding fields and the timeline digest, which nothing reads, are left out. A document
  identifier comes from a source of fresh strings, a parameter.
\<close>

section \<open>Roles and dates\<close>

definition add_role :: "bool \<Rightarrow> string \<Rightarrow> string list \<Rightarrow> string list" where
  "add_role c r rs = (if c \<and> r \<notin> set rs then rs @ [r] else rs)"

definition applicableRoles :: "string list \<Rightarrow> string list \<Rightarrow> string list" where
  "applicableRoles projectTypes stackCategories =
     (let has = (\<lambda>cs. list_ex (\<lambda>c. c \<in> set stackCategories) cs);
          is = (\<lambda>ts. list_ex (\<lambda>t. t \<in> set projectTypes) ts)
      in fold (\<lambda>(c, r). add_role c r)
           [(has [''backend'', ''database'', ''api_gateway''], ''BACKEND''),
            (has [''web_frontend'', ''content_management''], ''FRONTEND''),
            (has [''mobile_framework'', ''native_android'', ''native_ios''], ''MOBILE''),
            (has [''desktop_framework''], ''FRONTEND''),
            (has [''ai_model'', ''ai_runtime''] \<or> is [''AI_ML_SOLUTION''], ''AI_ML''),
            (has [''data_processing''] \<or> is [''MIGRATION'', ''SYSTEM_INTEGRATION''], ''DATA_ENGINEER''),
            (has [''web_frontend'', ''mobile_framework'', ''native_android'', ''native_ios'',
                  ''desktop_framework''], ''UI_UX''),
            (True, ''QA''), (True, ''DEVOPS''), (True, ''BA''), (True, ''PM''),
            (has [''backend'', ''integrations'', ''message_queue'']
             \<or> is [''SAAS_PLATFORM'', ''SYSTEM_INTEGRATION'', ''MULTI_PLATFORM_PRODUCT'', ''MODERNISATION''],
             ''SOLUTION_ARCHITECT'')] [])"

datatype start_date = NOT_CONFIRMED | IMMEDIATELY_AFTER_APPROVAL | TENTATIVE_DATE int | CONFIRMED_DATE int

fun calendar_date :: "start_date \<Rightarrow> int option" where
  "calendar_date (TENTATIVE_DATE d) = Some d"
| "calendar_date (CONFIRMED_DATE d) = Some d"
| "calendar_date _ = None"

definition hasCalendarDate :: "start_date \<Rightarrow> bool" where
  "hasCalendarDate d = (calendar_date d \<noteq> None)"

definition validateDeadlineAgainstStart :: "Timeline option \<Rightarrow> start_date option \<Rightarrow> bool" where
  "validateDeadlineAgainstStart timeline start =
     (case timeline of
        Some (FIXED_DEADLINE deadline) \<Rightarrow>
          (case start of
             None \<Rightarrow> True
           | Some sd \<Rightarrow> (case calendar_date sd of None \<Rightarrow> True | Some d \<Rightarrow> \<not> deadline < d))
      | _ \<Rightarrow> True)"

section \<open>What the service reads\<close>

datatype baseline_status = BL_draft | BL_approved | BL_outdated | BL_superseded

record baseline_ref =
  bl_id :: string
  bl_version :: nat
  bl_status :: baseline_status
  bl_itemIds :: "string list"

record stack_ref =
  sk_id :: string
  sk_version :: nat
  sk_locked :: bool

record stack_component_ref =
  sc_version :: nat
  sc_category :: string
  sc_technologyId :: "string option"
  sc_technologyName :: string
  sc_live :: bool

record analysed_item =
  it_id :: string
  it_title :: string
  it_statement :: string
  it_category :: string
  it_nfrDimension :: "string option"
  it_status :: string

record team_capacity =
  tc_workingHoursPerDay :: "rat option"
  tc_includeWeekends :: bool
  tc_clientReviewDays :: "int option"
  tc_uatDays :: "int option"
  tc_deploymentDays :: "int option"

text \<open>
  Baselines are listed newest first, as the repository returns them and after the digest check of
  the baseline service; the stack is the current snapshot.
\<close>

record world =
  w_baselines :: "baseline_ref list"
  w_stack :: "stack_ref option"
  w_components :: "stack_component_ref list"
  w_items :: "analysed_item list"
  w_projectTypes :: "string list"
  w_timeline :: "Timeline option"
  w_startDate :: "start_date option"
  w_teamCapacity :: "team_capacity option"

section \<open>Documents\<close>

datatype estimate_source = SYSTEM_CALCULATED | AI_PROPOSED | USER_OVERRIDE | AI_REESTIMATE | SYSTEM_RECALCULATION

definition USER_AUTHORED_SOURCES :: "estimate_source list" where
  "USER_AUTHORED_SOURCES = [USER_OVERRIDE]"

definition isUserAuthored :: "estimate_source \<Rightarrow> bool" where
  "isUserAuthored s = (s \<in> set USER_AUTHORED_SOURCES)"

record unit_doc =
  u_id :: string
  u_version :: nat
  u_key :: string
  u_requirementIds :: "string list"
  u_module :: string
  u_submodule :: string
  u_feature :: string
  u_taskCategory :: task_category
  u_overheadActivity :: "string option"
  u_complexity :: complexity_level
  u_complexityDrivers :: "complexity_driver list"
  u_uncertainty :: uncertainty_level
  u_uncertaintySources :: "uncertainty_source list"
  u_effort :: role_effort
  u_totalHours :: rat
  u_range :: effort_range
  u_drivers :: "effort_driver list"
  u_source :: estimate_source
  u_originalEffort :: "role_effort option"
  u_originalTotalHours :: "rat option"
  u_overrideNote :: "string option"
  u_excluded :: bool
  u_exclusionReason :: "string option"
  u_recordVersion :: nat

record dep_doc =
  dd_version :: nat
  dd_dep :: Dependency

datatype milestone_kind =
    foundation | module_complete | integration_complete | feature_complete | qa_complete | uat
  | release_readiness | production_deployment

record milestone =
  ms_kind :: milestone_kind
  ms_day :: int
  ms_date :: "int option"
  ms_taskIds :: "string list"

record existing_system =
  es_applies :: bool
  es_repositoryReviewed :: bool

definition NO_EXISTING_SYSTEM :: existing_system where
  "NO_EXISTING_SYSTEM = \<lparr> es_applies = False, es_repositoryReviewed = False \<rparr>"

text \<open>The figures computed from the rest and stored beside it.\<close>

record plan =
  pl_totalEffort :: effort_range
  pl_effortByRole :: role_effort
  pl_implementationHours :: rat
  pl_overheadHours :: rat
  pl_schedule :: Schedule
  pl_milestones :: "milestone list"
  pl_utilisation :: "role_utilisation list"
  pl_recommendedStaffing :: "staffing_line list"
  pl_feasibility :: feasibility
  pl_blockers :: "estimate_blocker list"

record snapshot_doc =
  s_id :: string
  s_version :: nat
  s_status :: estimate_status
  s_baseline :: "(string \<times> nat) option"
  s_stack :: "(string \<times> nat) option"
  s_startDate :: "int option"
  s_calendar :: WorkingCalendar
  s_team :: team_plan
  s_existingSystem :: existing_system
  s_plan :: plan
  s_riskAcknowledgedStatus :: "feasibility_status option"
  s_riskAcknowledgementNote :: "string option"
  s_approvalNote :: "string option"
  s_supersededByVersion :: "nat option"
  s_recordVersion :: nat

datatype run_status = R_running | R_completed | R_failed

record run_doc =
  run_id :: string
  run_estimateVersion :: nat
  run_baselineVersion :: nat
  run_stackVersion :: nat
  run_unitsProduced :: nat
  run_preservedOverrides :: nat
  run_state :: run_status

record est_store =
  snapshots :: "snapshot_doc list"
  units :: "unit_doc list"
  deps :: "dep_doc list"
  runs :: "run_doc list"
  used_ids :: nat

section \<open>Queries and writes\<close>

text \<open>The highest version that is not superseded; the first stored of equal versions.\<close>

definition newest :: "snapshot_doc list \<Rightarrow> snapshot_doc option" where
  "newest xs = newest_of s_version xs"

definition currentSnapshot :: "est_store \<Rightarrow> snapshot_doc option" where
  "currentSnapshot st = newest (filter (\<lambda>s. s_status s \<noteq> E_SUPERSEDED) (snapshots st))"

definition findSnapshot :: "nat \<Rightarrow> est_store \<Rightarrow> snapshot_doc option" where
  "findSnapshot v st = find (\<lambda>s. s_version s = v) (snapshots st)"

definition nextSnapshotVersion :: "est_store \<Rightarrow> nat" where
  "nextSnapshotVersion st = (case newest (snapshots st) of None \<Rightarrow> 0 | Some s \<Rightarrow> s_version s) + 1"

definition createSnapshot :: "snapshot_doc \<Rightarrow> est_store \<Rightarrow> est_store" where
  "createSnapshot s st = st\<lparr> snapshots := snapshots st @ [s] \<rparr>"

definition updateSnapshot ::
  "string \<Rightarrow> nat \<Rightarrow> (snapshot_doc \<Rightarrow> snapshot_doc) \<Rightarrow> est_store \<Rightarrow> est_store option" where
  "updateSnapshot i ver f st =
     map_option (\<lambda>ss. st\<lparr> snapshots := ss \<rparr>)
       (find_and_update (\<lambda>s. s_id s = i \<and> s_recordVersion s = ver)
          (\<lambda>s. (f s)\<lparr> s_recordVersion := ver + 1 \<rparr>) (snapshots st))"

definition supersedeSnapshots :: "nat \<Rightarrow> nat \<Rightarrow> est_store \<Rightarrow> est_store" where
  "supersedeSnapshots exceptVersion by st =
     st\<lparr> snapshots := map (\<lambda>s. if s_version s \<noteq> exceptVersion \<and> s_status s \<noteq> E_SUPERSEDED
                               then s\<lparr> s_status := E_SUPERSEDED, s_supersededByVersion := Some by \<rparr> else s)
                          (snapshots st) \<rparr>"

definition insertUnits :: "unit_doc list \<Rightarrow> est_store \<Rightarrow> est_store" where
  "insertUnits us st = st\<lparr> units := units st @ us \<rparr>"

definition listUnits :: "nat \<Rightarrow> est_store \<Rightarrow> unit_doc list" where
  "listUnits v st = sort_key u_key (filter (\<lambda>u. u_version u = v) (units st))"

definition findUnit :: "string \<Rightarrow> est_store \<Rightarrow> unit_doc option" where
  "findUnit i st = find (\<lambda>u. u_id u = i) (units st)"

definition updateUnit :: "string \<Rightarrow> nat \<Rightarrow> (unit_doc \<Rightarrow> unit_doc) \<Rightarrow> est_store \<Rightarrow> est_store option" where
  "updateUnit i ver f st =
     map_option (\<lambda>us. st\<lparr> units := us \<rparr>)
       (find_and_update (\<lambda>u. u_id u = i \<and> u_recordVersion u = ver)
          (\<lambda>u. (f u)\<lparr> u_recordVersion := ver + 1 \<rparr>) (units st))"

definition deleteReplaceableUnits :: "nat \<Rightarrow> est_store \<Rightarrow> est_store" where
  "deleteReplaceableUnits v st =
     st\<lparr> units := filter (\<lambda>u. \<not> (u_version u = v \<and> u_source u \<notin> {USER_OVERRIDE})) (units st) \<rparr>"

definition countUnits :: "nat \<Rightarrow> est_store \<Rightarrow> nat" where
  "countUnits v st = length (filter (\<lambda>u. u_version u = v) (units st))"

definition nextUnitSequence :: "nat \<Rightarrow> est_store \<Rightarrow> nat" where
  "nextUnitSequence v st = countUnits v st + 1"

definition insertDependencies :: "dep_doc list \<Rightarrow> est_store \<Rightarrow> est_store" where
  "insertDependencies ds st = st\<lparr> deps := deps st @ ds \<rparr>"

definition listDependencies :: "nat \<Rightarrow> est_store \<Rightarrow> Dependency list" where
  "listDependencies v st = sort_key dep_id (map dd_dep (filter (\<lambda>d. dd_version d = v) (deps st)))"

fun remove_first :: "('a \<Rightarrow> bool) \<Rightarrow> 'a list \<Rightarrow> 'a list option" where
  "remove_first P [] = None"
| "remove_first P (x # xs) = (if P x then Some xs else map_option ((#) x) (remove_first P xs))"

definition deleteDependency :: "string \<Rightarrow> est_store \<Rightarrow> est_store option" where
  "deleteDependency i st =
     map_option (\<lambda>ds. st\<lparr> deps := ds \<rparr>) (remove_first (\<lambda>d. dep_id (dd_dep d) = i) (deps st))"

definition deleteReplaceableDependencies :: "nat \<Rightarrow> est_store \<Rightarrow> est_store" where
  "deleteReplaceableDependencies v st =
     st\<lparr> deps := filter (\<lambda>d. \<not> (dd_version d = v \<and> \<not> userDefined (dd_dep d))) (deps st) \<rparr>"

definition createRun :: "run_doc \<Rightarrow> est_store \<Rightarrow> est_store" where
  "createRun r st = st\<lparr> runs := runs st @ [r] \<rparr>"

definition activeRun :: "est_store \<Rightarrow> run_doc option" where
  "activeRun st = find (\<lambda>r. run_state r = R_running) (runs st)"

definition updateRun :: "string \<Rightarrow> (run_doc \<Rightarrow> run_doc) \<Rightarrow> est_store \<Rightarrow> est_store" where
  "updateRun i f st =
     st\<lparr> runs := (case find_and_update (\<lambda>r. run_id r = i) f (runs st) of None \<Rightarrow> runs st | Some rs \<Rightarrow> rs) \<rparr>"

section \<open>Fresh identifiers\<close>

definition fresh_ids :: "(string \<Rightarrow> nat \<Rightarrow> string) \<Rightarrow> string \<Rightarrow> nat \<Rightarrow> est_store \<Rightarrow> string list" where
  "fresh_ids mint pre n st = map (mint pre) [used_ids st..<used_ids st + n]"

definition spend_ids :: "nat \<Rightarrow> est_store \<Rightarrow> est_store" where
  "spend_ids n st = st\<lparr> used_ids := used_ids st + n \<rparr>"

section \<open>Carrying a version forward\<close>

text \<open>Copies with new ids; \<open>recordVersion\<close> starts again at its default.\<close>

definition carried_units :: "(string \<Rightarrow> nat \<Rightarrow> string) \<Rightarrow> nat \<Rightarrow> nat \<Rightarrow> est_store \<Rightarrow> unit_doc list" where
  "carried_units mint from_v to_v st =
     (let existing = listUnits from_v st
      in map (\<lambda>(i, u). u\<lparr> u_id := i, u_version := to_v, u_recordVersion := 0,
     u_overheadActivity := (if u_overheadActivity u = Some [] then None else u_overheadActivity u),
             u_overrideNote := (if u_overrideNote u = Some [] then None else u_overrideNote u),
             u_exclusionReason := (if u_exclusionReason u = Some [] then None else u_exclusionReason u) \<rparr>)
           (zip (fresh_ids mint ''est'' (length existing) st) existing))"

definition carry_map :: "(string \<Rightarrow> nat \<Rightarrow> string) \<Rightarrow> nat \<Rightarrow> est_store \<Rightarrow> (string \<times> string) list" where
  "carry_map mint from_v st =
     (let existing = listUnits from_v st
      in zip (map u_id existing) (fresh_ids mint ''est'' (length existing) st))"

definition carryUnitsForward :: "(string \<Rightarrow> nat \<Rightarrow> string) \<Rightarrow> nat \<Rightarrow> nat \<Rightarrow> est_store \<Rightarrow> est_store" where
  "carryUnitsForward mint from_v to_v st =
     spend_ids (length (listUnits from_v st)) (insertUnits (carried_units mint from_v to_v st) st)"

definition carryDependenciesForward ::
  "(string \<Rightarrow> nat \<Rightarrow> string) \<Rightarrow> nat \<Rightarrow> nat \<Rightarrow> (string \<times> string) list \<Rightarrow> est_store \<Rightarrow> est_store" where
  "carryDependenciesForward mint from_v to_v idMap st =
     (let kept = filter (\<lambda>d. map_of idMap (predecessorId d) \<noteq> None \<and> map_of idMap (successorId d) \<noteq> None)
                   (listDependencies from_v st);
          ids = fresh_ids mint ''dep'' (length kept) st
      in spend_ids (length kept) (insertDependencies
           (map (\<lambda>(i, d). \<lparr> dd_version = to_v,
              dd_dep = d\<lparr> dep_id := i, predecessorId := the (map_of idMap (predecessorId d)),
                          successorId := the (map_of idMap (successorId d)) \<rparr> \<rparr>) (zip ids kept)) st))"

end
