(* ===== verification/EstimationService.thy ===== *)
theory EstimationService
  imports EstimationStore
begin

text \<open>
  The estimation workflow (apps/api/src/estimation/estimation.service.ts and the run of
  estimation-ai.service.ts), from an approved baseline and a locked stack to an approved plan:
  every operation is a function from the store, and what it reads of the project, to the store and
  an error. \<open>assemble\<close> composes the estimate lines, the dependency graph, the calendar, the
  scheduler, the capacity and the feasibility of the other theories. Collation and fresh
  identifiers are parameters; audit events and the view an operation returns, which is
  \<open>assemble\<close> of the store it leaves, are left out. Line identifiers are unique (a unique index of
  the collection), so the document a conditional write of a line finds is the one that was read.
\<close>

section \<open>Parameters and errors\<close>

record est_env =
  collate :: "string \<Rightarrow> string \<Rightarrow> bool"
  est_mint :: "string \<Rightarrow> nat \<Rightarrow> string"

datatype est_error =
    BASELINE_NOT_APPROVED | STACK_NOT_LOCKED | ESTIMATE_NOT_FOUND | VERSION_CONFLICT
  | ESTIMATE_APPROVED | ESTIMATE_ALREADY_APPROVED | ESTIMATE_NOT_APPROVED
  | ESTIMATE_HAS_BLOCKERS "estimate_blocker list" | ESTIMATE_UNIT_NOT_FOUND | DEPENDENCY_NOT_FOUND
  | DEPENDENCY_CYCLE | UNKNOWN_TASK | UNKNOWN_REQUIREMENT | ROLE_NOT_APPLICABLE | IMPLAUSIBLE_HOURS
  | ESTIMATION_NOT_CONFIGURED | ESTIMATION_ALREADY_RUNNING | ESTIMATION_FAILED
  | NO_RISK_TO_ACKNOWLEDGE | ESTIMATE_LIMIT_REACHED

type_synonym est_result = "est_store \<times> est_error option"

definition maxEstimateUnits :: nat where
  "maxEstimateUnits = 1000"

section \<open>Upstream\<close>

record est_upstream =
  up_baseline :: "baseline_ref option"
  up_baselineCurrent :: bool
  up_stack :: "stack_ref option"
  up_stackCurrent :: bool
  up_context :: stack_context

definition upstream_of :: "world \<Rightarrow> est_store \<Rightarrow> est_upstream" where
  "upstream_of w st =
     (let approved = find (\<lambda>b. bl_status b \<in> {BL_approved, BL_outdated}) (w_baselines w);
          locked = (case w_stack w of Some k \<Rightarrow> if sk_locked k then Some k else None | None \<Rightarrow> None);
          components = (case locked of None \<Rightarrow> [] | Some k \<Rightarrow>
            filter (\<lambda>c. sc_version c = sk_version k) (w_components w));
          live = filter sc_live components;
          snapshot = currentSnapshot st;
          pinned = (\<lambda>f v. case Option.bind snapshot f of None \<Rightarrow> True | Some p \<Rightarrow> snd p = v)
      in \<lparr> up_baseline = approved,
           up_baselineCurrent = (case approved of None \<Rightarrow> False
             | Some b \<Rightarrow> bl_status b = BL_approved \<and> pinned s_baseline (bl_version b)),
           up_stack = locked,
           up_stackCurrent = (case locked of None \<Rightarrow> False | Some k \<Rightarrow> pinned s_stack (sk_version k)),
           up_context =
             \<lparr> technologies = map (\<lambda>c. \<lparr> st_category = sc_category c,
                  st_technologyId = (if sc_technologyId c = Some [] then None else sc_technologyId c),
                  st_name = sc_technologyName c \<rparr>) live,
               stack_roles = applicableRoles (w_projectTypes w) (map sc_category live) \<rparr> \<rparr>)"

section \<open>Everything computed from what is stored\<close>

definition dominantRole :: "role_effort \<Rightarrow> string" where
  "dominantRole e =
     (case sort_by (\<lambda>a b. snd b \<le> snd a) e of [] \<Rightarrow> ''BACKEND'' | x # _ \<Rightarrow> fst x)"

definition last_task :: "ScheduledTask list \<Rightarrow> ScheduledTask" where
  "last_task ts = foldl (\<lambda>latest t. if endDay latest < endDay t then t else latest) (hd ts) (tl ts)"

definition milestone_for :: "Schedule \<Rightarrow> milestone_kind \<Rightarrow> unit_doc list \<Rightarrow> milestone list" where
  "milestone_for schedule kind us =
     (let byId = map_of (rev (map (\<lambda>t. (taskId t, t)) (sched_tasks schedule)));
          relevant = List.map_filter (\<lambda>u. byId (u_id u)) us
      in if relevant = [] then []
         else [\<lparr> ms_kind = kind, ms_day = endDay (last_task relevant), ms_date = st_endDate (last_task relevant),
                 ms_taskIds = map u_id us \<rparr>])"

definition with_activity :: "string \<Rightarrow> unit_doc list \<Rightarrow> unit_doc list" where
  "with_activity a us = filter (\<lambda>u. u_overheadActivity u = Some a) us"

definition is_feature :: "unit_doc \<Rightarrow> bool" where
  "is_feature u = (u_overheadActivity u = None \<or> u_overheadActivity u = Some [])"

definition deriveMilestones :: "unit_doc list \<Rightarrow> Schedule \<Rightarrow> milestone list" where
  "deriveMilestones us schedule =
     sort_key ms_day
       (milestone_for schedule foundation (with_activity ''shared_architecture'' us)
        @ milestone_for schedule integration_complete (filter (\<lambda>u. u_taskCategory u = integration) us)
        @ milestone_for schedule feature_complete (filter is_feature us)
        @ milestone_for schedule qa_complete (with_activity ''qa_regression'' us)
        @ milestone_for schedule release_readiness (with_activity ''deployment_preparation'' us))"

definition people_per_role :: "team_plan \<Rightarrow> staffing_line list \<Rightarrow> (string \<times> rat) list" where
  "people_per_role team recommended =
     (if supplied team \<and> team_lines team \<noteq> [] then
        foldl (\<lambda>m l. AList.update (cl_role l) (js_plus (get_or 0 m (cl_role l)) (cl_people l)) m) [] (team_lines team)
      else foldl (\<lambda>m l. AList.update (sl_role l) (sl_people l) m) [] recommended)"

definition view_line :: "unit_doc \<Rightarrow> estimate_view_line" where
  "view_line u = \<lparr> el_id = u_id u, el_requirementIds = u_requirementIds u, el_effort = u_effort u,
     el_excluded = u_excluded u \<rparr>"

definition graph_of :: "unit_doc list \<Rightarrow> Dependency list \<Rightarrow> DependencyGraphInput" where
  "graph_of us ds = \<lparr> dependencies = ds, taskIds = map u_id us,
     excludedTaskIds = map u_id (filter u_excluded us) \<rparr>"

definition concrete_start :: "world \<Rightarrow> int option" where
  "concrete_start w = Option.bind (w_startDate w) calendar_date"

definition blocker_input ::
  "world \<Rightarrow> est_store \<Rightarrow> snapshot_doc \<Rightarrow> feasibility_status \<Rightarrow> estimate_blocker_input" where
  "blocker_input w st s status =
     (let us = listUnits (s_version s) st; up = upstream_of w st
      in \<lparr> estimates = map view_line us,
           dependencyProblems = validateDependencies (graph_of us (listDependencies (s_version s) st)),
           baselineRequirementIds = (case up_baseline up of None \<Rightarrow> [] | Some b \<Rightarrow> bl_itemIds b),
           baselineApproved = (up_baseline up \<noteq> None), baselineCurrent = up_baselineCurrent up,
           stackLocked = (up_stack up \<noteq> None), stackCurrent = up_stackCurrent up,
           timelinePresent = (w_timeline w \<noteq> None),
           deadlinePrecedesStart = (\<not> validateDeadlineAgainstStart (w_timeline w) (w_startDate w)),
           feasibilityStatus = status, riskAcknowledgedStatus = s_riskAcknowledgedStatus s \<rparr>)"

definition assemble :: "est_env \<Rightarrow> world \<Rightarrow> est_store \<Rightarrow> snapshot_doc \<Rightarrow> plan" where
  "assemble env w st s =
     (let us = listUnits (s_version s) st;
          ds = listDependencies (s_version s) st;
          cal = s_calendar s;
          counted = filter (\<lambda>u. \<not> u_excluded u) us;
          totals = aggregateEffort (map (\<lambda>u. \<lparr> ec_range = u_range u, ec_byRole = u_effort u,
                     ec_isImplementation = is_feature u \<rparr>) counted);
          start = concrete_start w;
          available = Option.bind (w_timeline w) (\<lambda>t. timelineWorkingDays t cal start);
          recommended = recommendStaffing (collate env) (et_byRole totals) cal available;
          schedule = buildSchedule (collate env)
            \<lparr> tasks = map (\<lambda>u. \<lparr> task_id = u_id u, role = dominantRole (u_effort u), hours = u_totalHours u \<rparr>) counted,
              task_dependencies = ds, calendar = cal, peoplePerRole = people_per_role (s_team s) recommended,
              startDate = start, allowParallel = True \<rparr>;
          cap = calculateCapacity \<lparr> plannedEffort = et_byRole totals, cap_team = s_team s,
                  cap_calendar = cal, cap_availableWorkingDays = available \<rparr>;
          uncertain = foldl (\<lambda>t u. js_plus t (u_totalHours u)) 0 (filter (\<lambda>u. u_uncertainty u = U_HIGH) counted);
          feasible = assessFeasibility
            \<lparr> fi_requiredWorkingDays = totalWorkingDays schedule, fi_availableWorkingDays = available,
              capacity = cap,
              highUncertaintyShare = (if et_totalHours totals = 0 then 0 else js_div uncertain (et_totalHours totals)),
              criticalPathDays = totalWorkingDays schedule,
              hasUnassessedCodebase = (es_applies (s_existingSystem s) \<and> \<not> es_repositoryReviewed (s_existingSystem s)),
              hasExternalDependency = list_ex (\<lambda>u. u_taskCategory u = integration) counted,
              clientReviewBudgeted = (0 < clientReviewDays cal), fi_allowParallel = True \<rparr>
      in \<lparr> pl_totalEffort = et_range totals, pl_effortByRole = et_byRole totals,
           pl_implementationHours = et_implementationHours totals, pl_overheadHours = et_overheadHours totals,
           pl_schedule = schedule, pl_milestones = deriveMilestones counted schedule,
           pl_utilisation = byRole cap, pl_recommendedStaffing = recommended, pl_feasibility = feasible,
           pl_blockers = calculateEstimateBlockers (blocker_input w st s (feasibility_status feasible)) \<rparr>)"

definition recalculated_status :: "estimate_status \<Rightarrow> plan \<Rightarrow> estimate_status" where
  "recalculated_status old p =
     (if old \<in> {E_APPROVED, E_OUTDATED, E_SUPERSEDED} then old
      else if pl_blockers p = [] then E_READY_FOR_APPROVAL else E_REVIEW_REQUIRED)"

definition recalculate :: "est_env \<Rightarrow> world \<Rightarrow> snapshot_doc \<Rightarrow> est_store \<Rightarrow> est_store" where
  "recalculate env w s st =
     (let target = (case currentSnapshot st of None \<Rightarrow> s | Some fresh \<Rightarrow> fresh);
          p = assemble env w st target
      in case updateSnapshot (s_id target) (s_recordVersion target)
                (\<lambda>d. d\<lparr> s_status := recalculated_status (s_status target) p, s_plan := p \<rparr>) st of
           None \<Rightarrow> st | Some st' \<Rightarrow> st')"

section \<open>Guards\<close>

definition editable :: "nat \<Rightarrow> est_store \<Rightarrow> est_error + snapshot_doc" where
  "editable ver st =
     (case currentSnapshot st of
        None \<Rightarrow> Inl ESTIMATE_NOT_FOUND
      | Some s \<Rightarrow> if s_status s = E_APPROVED then Inl ESTIMATE_APPROVED
                   else if s_recordVersion s \<noteq> ver then Inl VERSION_CONFLICT else Inr s)"

definition write_snapshot :: "snapshot_doc \<Rightarrow> nat \<Rightarrow> (snapshot_doc \<Rightarrow> snapshot_doc) \<Rightarrow> est_store \<Rightarrow> est_store" where
  "write_snapshot s ver f st = (case updateSnapshot (s_id s) ver f st of None \<Rightarrow> st | Some st' \<Rightarrow> st')"

section \<open>Generating the lines\<close>

definition requirement_of :: "analysed_item \<Rightarrow> requirement_input" where
  "requirement_of i = \<lparr> ri_itemId = it_id i, ri_title = it_title i, ri_statement = it_statement i,
     ri_category = it_category i,
     ri_nfrDimension = (if it_nfrDimension i = Some [] then None else it_nfrDimension i), ri_priority = None \<rparr>"

definition no_options :: estimate_options where
  "no_options = \<lparr> proposedComplexity = None, proposedDrivers = None, proposedUncertainty = None,
     proposedCategory = None \<rparr>"

definition items_of :: "world \<Rightarrow> string list \<Rightarrow> analysed_item list" where
  "items_of w is = filter (\<lambda>i. it_id i \<in> set is) (w_items w)"

definition feature_drafts ::
  "world \<Rightarrow> stack_context \<Rightarrow> (string \<times> estimate_options) list \<Rightarrow> string set \<Rightarrow> string list \<Rightarrow> estimate_draft list" where
  "feature_drafts w ctx proposals claimed itemIds =
     map (\<lambda>i. estimateUnit (requirement_of i) ctx
            (case map_of (rev proposals) (it_id i) of None \<Rightarrow> no_options | Some p \<Rightarrow> p))
       (filter (\<lambda>i. it_status i \<notin> {''rejected'', ''superseded''} \<and> it_id i \<notin> claimed) (items_of w itemIds))"

definition unit_key :: "nat \<Rightarrow> string" where
  "unit_key n = ''E-'' @ pad_start 3 (CHR ''0'') (show_nat n)"

definition unit_of_draft :: "nat \<Rightarrow> string \<Rightarrow> string \<Rightarrow> estimate_source \<Rightarrow> estimate_draft \<Rightarrow> unit_doc" where
  "unit_of_draft v i key source d =
     \<lparr> u_id = i, u_version = v, u_key = key, u_requirementIds = dr_requirementIds d, u_module = dr_module d,
       u_submodule = dr_submodule d, u_feature = dr_feature d, u_taskCategory = dr_taskCategory d,
       u_overheadActivity = dr_overheadActivity d, u_complexity = dr_complexity d,
       u_complexityDrivers = dr_complexityDrivers d, u_uncertainty = dr_uncertainty d,
       u_uncertaintySources = dr_uncertaintySources d, u_effort = dr_effort d,
       u_totalHours = dr_totalHours d, u_range = dr_range d, u_drivers = dr_drivers d, u_source = source,
       u_originalEffort = None, u_originalTotalHours = None, u_overrideNote = None, u_excluded = False,
       u_exclusionReason = None, u_recordVersion = 0 \<rparr>"

definition new_units ::
  "nat \<Rightarrow> nat \<Rightarrow> bool \<Rightarrow> string list \<Rightarrow> estimate_draft list \<Rightarrow> unit_doc list" where
  "new_units v n proposed is drafts =
     map (\<lambda>(i, k, d). unit_of_draft v i (unit_key k)
            (if proposed \<and> dr_requirementIds d \<noteq> [] then AI_PROPOSED else SYSTEM_CALCULATED) d)
       (zip is (zip [Suc n..<Suc n + length drafts] drafts))"

definition edge_key :: "string \<Rightarrow> string \<Rightarrow> string" where
  "edge_key p q = p @ ''->'' @ q"

definition inferred_edge :: "string \<times> string \<times> DependencyReason \<Rightarrow> string \<Rightarrow> nat \<Rightarrow> dep_doc" where
  "inferred_edge e i v =
     \<lparr> dd_version = v, dd_dep = \<lparr> dep_id = i, predecessorId = fst e, successorId = fst (snd e),
         dep_type = FINISH_TO_START, reason = snd (snd e), lagDays = 0, userDefined = False, dep_note = None \<rparr> \<rparr>"

text \<open>The edges added, in order: none that is a loop or already known.\<close>

fun new_edges :: "string set \<Rightarrow> (string \<times> string \<times> DependencyReason) list \<Rightarrow> (string \<times> string \<times> DependencyReason) list" where
  "new_edges known [] = []"
| "new_edges known ((p, q, r) # es) =
     (if p = q \<or> edge_key p q \<in> known then new_edges known es
      else (p, q, r) # new_edges (insert (edge_key p q) known) es)"

definition candidate_edges :: "unit_doc list \<Rightarrow> (string \<times> string \<times> DependencyReason) list" where
  "candidate_edges us =
     (let base = find (\<lambda>u. u_overheadActivity u = Some ''shared_architecture'') us;
          regression = find (\<lambda>u. u_overheadActivity u = Some ''qa_regression'') us
      in concat (map (\<lambda>f.
           (case base of None \<Rightarrow> [] | Some b \<Rightarrow> [(u_id b, u_id f, shared_architecture)])
           @ (case regression of None \<Rightarrow> [] | Some q \<Rightarrow> [(u_id f, u_id q, test_target)]))
           (filter is_feature us)))"

definition generateDependencies :: "est_env \<Rightarrow> nat \<Rightarrow> est_store \<Rightarrow> est_store" where
  "generateDependencies env v st =
     (let known = set (map (\<lambda>d. edge_key (predecessorId d) (successorId d)) (listDependencies v st));
          es = new_edges known (candidate_edges (listUnits v st));
          ids = fresh_ids (est_mint env) ''dep'' (length es) st
      in spend_ids (length es) (insertDependencies (map (\<lambda>(i, e). inferred_edge e i v) (zip ids es)) st))"

definition preserved_units :: "nat \<Rightarrow> est_store \<Rightarrow> unit_doc list" where
  "preserved_units v st = filter (\<lambda>u. isUserAuthored (u_source u)) (listUnits v st)"

definition generated_drafts ::
  "world \<Rightarrow> stack_context \<Rightarrow> (string \<times> estimate_options) list \<Rightarrow> string list \<Rightarrow> unit_doc list \<Rightarrow> estimate_draft list" where
  "generated_drafts w ctx proposals itemIds preserved =
     (let features = feature_drafts w ctx proposals (set (concat (map u_requirementIds preserved))) itemIds;
          implementationHours = js_plus (foldl (\<lambda>t d. js_plus t (dr_totalHours d)) 0 features)
                                  (foldl (\<lambda>t u. js_plus t (u_totalHours u)) 0 preserved)
      in features @ overheadUnits implementationHours (stack_roles ctx) OVERHEAD_RULES)"

definition generate ::
  "est_env \<Rightarrow> world \<Rightarrow> snapshot_doc \<Rightarrow> (string \<times> estimate_options) list \<Rightarrow> est_store \<Rightarrow> est_result" where
  "generate env w s proposals st =
     (let up = upstream_of w st
      in case (up_baseline up, up_stack up) of
           (None, _) \<Rightarrow> (st, Some BASELINE_NOT_APPROVED)
         | (_, None) \<Rightarrow> (st, Some STACK_NOT_LOCKED)
         | (Some b, Some _) \<Rightarrow>
             let v = s_version s;
                 preserved = preserved_units v st;
                 st1 = deleteReplaceableDependencies v (deleteReplaceableUnits v st);
                 drafts = generated_drafts w (up_context up) proposals (bl_itemIds b) preserved;
                 n = length drafts
             in if maxEstimateUnits < length preserved + n then (st1, Some ESTIMATE_LIMIT_REACHED)
                else
                  let ids = fresh_ids (est_mint env) ''est'' n st1;
                      st2 = insertUnits (new_units v (length preserved) (proposals \<noteq> []) ids drafts) (spend_ids n st1);
                      st3 = generateDependencies env v st2
                  in (case currentSnapshot st3 of None \<Rightarrow> st3 | Some cur \<Rightarrow> recalculate env w cur st3, None))"

section \<open>Editing by hand\<close>

record override_request =
  ov_effort :: "role_effort option"
  ov_complexity :: "complexity_level option"
  ov_complexityDrivers :: "complexity_driver list option"
  ov_uncertainty :: "uncertainty_level option"
  ov_uncertaintySources :: "uncertainty_source list option"
  ov_note :: "string option"
  ov_excluded :: "bool option"
  ov_exclusionReason :: "string option"

definition merge_effort :: "role_effort \<Rightarrow> role_effort \<Rightarrow> role_effort" where
  "merge_effort e changes = foldl (\<lambda>m rh. AList.update (fst rh) (snd rh) m) e changes"

definition or_else :: "'a option \<Rightarrow> 'a \<Rightarrow> 'a" where
  "or_else x d = (case x of None \<Rightarrow> d | Some v \<Rightarrow> v)"

definition given_text :: "string option \<Rightarrow> string option \<Rightarrow> string option" where
  "given_text new old = (case new of None \<Rightarrow> old | Some s \<Rightarrow> if s = [] then old else Some s)"

definition overridden :: "override_request \<Rightarrow> unit_doc \<Rightarrow> unit_doc" where
  "overridden rq u =
     (let effort = (case ov_effort rq of None \<Rightarrow> u_effort u | Some c \<Rightarrow> merge_effort (u_effort u) c);
          totalHours = totalRoleEffort effort;
          sources = or_else (ov_uncertaintySources rq) (u_uncertaintySources u);
          uncertainty = or_else (ov_uncertainty rq) (fst (deriveUncertainty sources))
      in u\<lparr> u_effort := effort, u_totalHours := totalHours, u_range := rangeFor totalHours uncertainty,
            u_complexity := or_else (ov_complexity rq) (u_complexity u),
            u_complexityDrivers := or_else (ov_complexityDrivers rq) (u_complexityDrivers u),
            u_uncertainty := uncertainty, u_uncertaintySources := sources, u_source := USER_OVERRIDE,
            u_originalEffort := (case u_originalEffort u of None \<Rightarrow> Some (u_effort u) | e \<Rightarrow> e),
            u_originalTotalHours := (case u_originalEffort u of None \<Rightarrow> Some (u_totalHours u)
                                       | _ \<Rightarrow> u_originalTotalHours u),
            u_overrideNote := given_text (ov_note rq) (u_overrideNote u),
            u_excluded := or_else (ov_excluded rq) (u_excluded u),
            u_exclusionReason := given_text (ov_exclusionReason rq) (u_exclusionReason u) \<rparr>)"

definition overrideEstimate ::
  "est_env \<Rightarrow> world \<Rightarrow> string \<Rightarrow> override_request \<Rightarrow> nat \<Rightarrow> est_store \<Rightarrow> est_result" where
  "overrideEstimate env w i rq ver st =
     (case editable ver st of
        Inl e \<Rightarrow> (st, Some e)
      | Inr s \<Rightarrow>
          (case findUnit i st of
             None \<Rightarrow> (st, Some ESTIMATE_UNIT_NOT_FOUND)
           | Some u \<Rightarrow>
               if (case ov_effort rq of None \<Rightarrow> False | Some e \<Rightarrow> list_ex (\<lambda>h. \<not> isPlausibleHours h) (map snd e))
               then (st, Some IMPLAUSIBLE_HOURS)
               else (case updateUnit i (u_recordVersion u) (overridden rq) st of
                       None \<Rightarrow> (st, Some VERSION_CONFLICT)
                     | Some st' \<Rightarrow> (recalculate env w s st', None))))"

definition reset_unit :: "unit_doc \<Rightarrow> role_effort \<Rightarrow> unit_doc" where
  "reset_unit u effort =
     (let totalHours = or_else (u_originalTotalHours u) (totalRoleEffort effort)
      in u\<lparr> u_effort := effort, u_totalHours := totalHours, u_range := rangeFor totalHours (u_uncertainty u),
            u_source := SYSTEM_CALCULATED, u_originalEffort := None, u_originalTotalHours := None,
            u_overrideNote := None \<rparr>)"

definition resetEstimate :: "est_env \<Rightarrow> world \<Rightarrow> string \<Rightarrow> nat \<Rightarrow> est_store \<Rightarrow> est_result" where
  "resetEstimate env w i ver st =
     (case editable ver st of
        Inl e \<Rightarrow> (st, Some e)
      | Inr s \<Rightarrow>
          (case findUnit i st of
             None \<Rightarrow> (st, Some ESTIMATE_UNIT_NOT_FOUND)
           | Some u \<Rightarrow>
               (case u_originalEffort u of
                  None \<Rightarrow> (st, Some ESTIMATE_UNIT_NOT_FOUND)
                | Some effort \<Rightarrow>
                    (recalculate env w s
                       (or_else (updateUnit i (u_recordVersion u) (\<lambda>d. reset_unit d effort) st) st), None))))"

record manual_request =
  mn_feature :: string
  mn_module :: string
  mn_submodule :: string
  mn_taskCategory :: task_category
  mn_complexity :: complexity_level
  mn_complexityDrivers :: "complexity_driver list"
  mn_uncertainty :: uncertainty_level
  mn_uncertaintySources :: "uncertainty_source list"
  mn_effort :: role_effort
  mn_requirementIds :: "string list"

definition manual_unit :: "nat \<Rightarrow> string \<Rightarrow> nat \<Rightarrow> manual_request \<Rightarrow> unit_doc" where
  "manual_unit v i n rq =
     (let totalHours = totalRoleEffort (mn_effort rq)
      in \<lparr> u_id = i, u_version = v, u_key = unit_key n, u_requirementIds = mn_requirementIds rq,
           u_module = mn_module rq, u_submodule = mn_submodule rq, u_feature = mn_feature rq,
           u_taskCategory = mn_taskCategory rq, u_overheadActivity = None, u_complexity = mn_complexity rq,
           u_complexityDrivers = mn_complexityDrivers rq, u_uncertainty = mn_uncertainty rq,
           u_uncertaintySources = mn_uncertaintySources rq, u_effort = mn_effort rq,
           u_totalHours = totalHours, u_range = rangeFor totalHours (mn_uncertainty rq), u_drivers = [],
           u_source = USER_OVERRIDE, u_originalEffort = None, u_originalTotalHours = None,
           u_overrideNote = None, u_excluded = False, u_exclusionReason = None, u_recordVersion = 0 \<rparr>)"

text \<open>The first entry that fails decides the error, hours before role.\<close>

fun manual_effort_error :: "string list \<Rightarrow> role_effort \<Rightarrow> est_error option" where
  "manual_effort_error roles [] = None"
| "manual_effort_error roles ((r, h) # es) =
     (if \<not> isPlausibleHours h then Some IMPLAUSIBLE_HOURS
      else if r \<notin> set roles then Some ROLE_NOT_APPLICABLE
      else manual_effort_error roles es)"

definition requirements_exist :: "world \<Rightarrow> string list \<Rightarrow> bool" where
  "requirements_exist w is = (is = [] \<or> length (items_of w is) = length (remdups is))"

definition addManual :: "est_env \<Rightarrow> world \<Rightarrow> manual_request \<Rightarrow> nat \<Rightarrow> est_store \<Rightarrow> est_result" where
  "addManual env w rq ver st =
     (case editable ver st of
        Inl e \<Rightarrow> (st, Some e)
      | Inr s \<Rightarrow>
          (case manual_effort_error (stack_roles (up_context (upstream_of w st))) (mn_effort rq) of
             Some e \<Rightarrow> (st, Some e)
           | None \<Rightarrow>
               if \<not> requirements_exist w (mn_requirementIds rq) then (st, Some UNKNOWN_REQUIREMENT)
               else if maxEstimateUnits \<le> countUnits (s_version s) st then (st, Some ESTIMATE_LIMIT_REACHED)
               else
                 let n = nextUnitSequence (s_version s) st;
                     i = hd (fresh_ids (est_mint env) ''est'' 1 st)
                 in (recalculate env w s (insertUnits [manual_unit (s_version s) i n rq] (spend_ids 1 st)), None)))"

section \<open>Dependencies\<close>

record dependency_request =
  rq_predecessorId :: string
  rq_successorId :: string
  rq_type :: DependencyType
  rq_reason :: DependencyReason
  rq_lagDays :: int
  rq_note :: "string option"

definition requested_dependency :: "string \<Rightarrow> dependency_request \<Rightarrow> Dependency" where
  "requested_dependency i rq =
     \<lparr> dep_id = i, predecessorId = rq_predecessorId rq, successorId = rq_successorId rq, dep_type = rq_type rq,
       reason = rq_reason rq, lagDays = rq_lagDays rq, userDefined = True, dep_note = given_text (rq_note rq) None \<rparr>"

definition addDependency :: "est_env \<Rightarrow> world \<Rightarrow> dependency_request \<Rightarrow> nat \<Rightarrow> est_store \<Rightarrow> est_result" where
  "addDependency env w rq ver st =
     (case editable ver st of
        Inl e \<Rightarrow> (st, Some e)
      | Inr s \<Rightarrow>
          let us = listUnits (s_version s) st; known = set (map u_id us);
              pending = (requested_dependency ''pending'' rq)\<lparr> dep_note := None \<rparr>;
              problems = validateDependencies (graph_of us (listDependencies (s_version s) st @ [pending]))
          in if rq_predecessorId rq \<notin> known \<or> rq_successorId rq \<notin> known then (st, Some UNKNOWN_TASK)
             else if list_ex (\<lambda>p. problem_kind p \<in> {cycle, self_reference}) problems then (st, Some DEPENDENCY_CYCLE)
             else
               let i = hd (fresh_ids (est_mint env) ''dep'' 1 st)
               in (recalculate env w s
                     (insertDependencies [\<lparr> dd_version = s_version s, dd_dep = requested_dependency i rq \<rparr>]
                       (spend_ids 1 st)), None))"

definition removeDependency :: "est_env \<Rightarrow> world \<Rightarrow> string \<Rightarrow> nat \<Rightarrow> est_store \<Rightarrow> est_result" where
  "removeDependency env w i ver st =
     (case editable ver st of
        Inl e \<Rightarrow> (st, Some e)
      | Inr s \<Rightarrow>
          (case deleteDependency i st of
             None \<Rightarrow> (st, Some DEPENDENCY_NOT_FOUND)
           | Some st' \<Rightarrow> (recalculate env w s st', None)))"

section \<open>Calendar, team and existing system\<close>

definition setCalendar :: "est_env \<Rightarrow> world \<Rightarrow> WorkingCalendar \<Rightarrow> nat \<Rightarrow> est_store \<Rightarrow> est_result" where
  "setCalendar env w cal ver st =
     (case editable ver st of
        Inl e \<Rightarrow> (st, Some e)
      | Inr s \<Rightarrow> (recalculate env w s (write_snapshot s ver (\<lambda>d. d\<lparr> s_calendar := cal \<rparr>) st), None))"

definition setTeam :: "est_env \<Rightarrow> world \<Rightarrow> capacity_line list \<Rightarrow> nat \<Rightarrow> est_store \<Rightarrow> est_result" where
  "setTeam env w lns ver st =
     (case editable ver st of
        Inl e \<Rightarrow> (st, Some e)
      | Inr s \<Rightarrow>
          if list_ex (\<lambda>l. cl_role l \<notin> set (stack_roles (up_context (upstream_of w st)))) lns
          then (st, Some ROLE_NOT_APPLICABLE)
          else (recalculate env w s (write_snapshot s ver
                  (\<lambda>d. d\<lparr> s_team := \<lparr> supplied = (lns \<noteq> []), team_lines = lns \<rparr> \<rparr>) st), None))"

definition setExistingSystem :: "est_env \<Rightarrow> world \<Rightarrow> existing_system \<Rightarrow> nat \<Rightarrow> est_store \<Rightarrow> est_result" where
  "setExistingSystem env w es ver st =
     (case editable ver st of
        Inl e \<Rightarrow> (st, Some e)
      | Inr s \<Rightarrow> (recalculate env w s (write_snapshot s ver (\<lambda>d. d\<lparr> s_existingSystem := es \<rparr>) st), None))"

section \<open>Schedule, risk and approval\<close>

definition versioned :: "nat \<Rightarrow> est_store \<Rightarrow> est_error + snapshot_doc" where
  "versioned ver st =
     (case currentSnapshot st of
        None \<Rightarrow> Inl ESTIMATE_NOT_FOUND
      | Some s \<Rightarrow> if s_recordVersion s \<noteq> ver then Inl VERSION_CONFLICT else Inr s)"

definition recalculateSchedule :: "est_env \<Rightarrow> world \<Rightarrow> nat \<Rightarrow> est_store \<Rightarrow> est_result" where
  "recalculateSchedule env w ver st =
     (case versioned ver st of
        Inl e \<Rightarrow> (st, Some e)
      | Inr s \<Rightarrow>
          let p = assemble env w st s
          in (write_snapshot s (s_recordVersion s)
                (\<lambda>d. d\<lparr> s_plan := (s_plan d)\<lparr> pl_schedule := pl_schedule p, pl_milestones := pl_milestones p \<rparr>,
                        s_startDate := (case concrete_start w of None \<Rightarrow> s_startDate d | x \<Rightarrow> x) \<rparr>) st, None))"

definition acknowledgeRisk :: "est_env \<Rightarrow> world \<Rightarrow> string option \<Rightarrow> nat \<Rightarrow> est_store \<Rightarrow> est_result" where
  "acknowledgeRisk env w note ver st =
     (case editable ver st of
        Inl e \<Rightarrow> (st, Some e)
      | Inr s \<Rightarrow>
          let status = feasibility_status (pl_feasibility (assemble env w st s))
          in if \<not> feasibilityNeedsAcknowledgement status then (st, Some NO_RISK_TO_ACKNOWLEDGE)
             else (write_snapshot s ver
                     (\<lambda>d. d\<lparr> s_riskAcknowledgedStatus := Some status,
                             s_riskAcknowledgementNote := given_text note (s_riskAcknowledgementNote d) \<rparr>) st, None))"

definition approve :: "est_env \<Rightarrow> world \<Rightarrow> string option \<Rightarrow> nat \<Rightarrow> est_store \<Rightarrow> est_result" where
  "approve env w note ver st =
     (case versioned ver st of
        Inl e \<Rightarrow> (st, Some e)
      | Inr s \<Rightarrow>
          if s_status s = E_APPROVED then (st, Some ESTIMATE_ALREADY_APPROVED)
          else
            let p = assemble env w st s
            in if \<not> canApproveEstimate (s_status s) (pl_blockers p) (map view_line (listUnits (s_version s) st))
               then (st, Some (ESTIMATE_HAS_BLOCKERS (pl_blockers p)))
               else (case updateSnapshot (s_id s) (s_recordVersion s)
                            (\<lambda>d. d\<lparr> s_status := E_APPROVED, s_plan := p,
                                    s_approvalNote := given_text note (s_approvalNote d) \<rparr>) st of
                       None \<Rightarrow> (st, Some VERSION_CONFLICT)
                     | Some st' \<Rightarrow> (st', None)))"

section \<open>Creating and reopening\<close>

definition empty_schedule :: Schedule where
  "empty_schedule = \<lparr> sched_tasks = [], totalWorkingDays = 0, criticalPath = [], sched_startDate = None,
     finishDate = None, relativeOnly = True \<rparr>"

definition emptyFeasibility :: feasibility where
  "emptyFeasibility = \<lparr> feasibility_status = CAPACITY_UNKNOWN, determinacy = CONDITIONAL, missingInformation = [],
     requiredWorkingDays = 0, availableWorkingDays = None, scheduleGapDays = 0, requiredHours = 0,
     fe_availableHours = 0, capacityGapHours = 0, risks = [] \<rparr>"

definition empty_plan :: plan where
  "empty_plan = \<lparr> pl_totalEffort = \<lparr> optimistic = 0, expected = 0, conservative = 0 \<rparr>, pl_effortByRole = [],
     pl_implementationHours = 0, pl_overheadHours = 0, pl_schedule = empty_schedule, pl_milestones = [],
     pl_utilisation = [], pl_recommendedStaffing = [], pl_feasibility = emptyFeasibility, pl_blockers = [] \<rparr>"

definition calendarFrom :: "team_capacity option \<Rightarrow> WorkingCalendar" where
  "calendarFrom cap =
     (case cap of
        None \<Rightarrow> DEFAULT_CALENDAR
      | Some c \<Rightarrow> DEFAULT_CALENDAR\<lparr>
          hoursPerDay := (case tc_workingHoursPerDay c of None \<Rightarrow> hoursPerDay DEFAULT_CALENDAR
            | Some h \<Rightarrow> if h = 0 then hoursPerDay DEFAULT_CALENDAR else h),
          workingWeekdays := (if tc_includeWeekends c then [0, 1, 2, 3, 4, 5, 6] else workingWeekdays DEFAULT_CALENDAR),
          clientReviewDays := or_else (tc_clientReviewDays c) 0, uatDays := or_else (tc_uatDays c) 0,
          deploymentDays := or_else (tc_deploymentDays c) 0 \<rparr>)"

definition createInitial :: "est_env \<Rightarrow> world \<Rightarrow> est_store \<Rightarrow> est_store" where
  "createInitial env w st =
     (let up = upstream_of w st
      in createSnapshot
           \<lparr> s_id = hd (fresh_ids (est_mint env) ''esp'' 1 st), s_version = nextSnapshotVersion st, s_status = E_DRAFT,
             s_baseline = map_option (\<lambda>b. (bl_id b, bl_version b)) (up_baseline up),
             s_stack = map_option (\<lambda>k. (sk_id k, sk_version k)) (up_stack up), s_startDate = None,
             s_calendar = calendarFrom (w_teamCapacity w), s_team = EMPTY_TEAM,
             s_existingSystem = NO_EXISTING_SYSTEM, s_plan = empty_plan, s_riskAcknowledgedStatus = None,
             s_riskAcknowledgementNote = None, s_approvalNote = None, s_supersededByVersion = None,
             s_recordVersion = 0 \<rparr> (spend_ids 1 st))"

definition readCurrent :: "est_env \<Rightarrow> world \<Rightarrow> est_store \<Rightarrow> est_result" where
  "readCurrent env w st =
     (case currentSnapshot st of Some _ \<Rightarrow> (st, None) | None \<Rightarrow> (createInitial env w st, None))"

definition reopened :: "string \<Rightarrow> nat \<Rightarrow> snapshot_doc \<Rightarrow> snapshot_doc" where
  "reopened i v s =
     \<lparr> s_id = i, s_version = v, s_status = E_DRAFT, s_baseline = s_baseline s, s_stack = s_stack s,
       s_startDate = s_startDate s, s_calendar = s_calendar s, s_team = s_team s,
       s_existingSystem = s_existingSystem s, s_plan = empty_plan, s_riskAcknowledgedStatus = None,
       s_riskAcknowledgementNote = None, s_approvalNote = None, s_supersededByVersion = None,
       s_recordVersion = 0 \<rparr>"

definition reopen :: "est_env \<Rightarrow> world \<Rightarrow> nat \<Rightarrow> est_store \<Rightarrow> est_result" where
  "reopen env w ver st =
     (case versioned ver st of
        Inl e \<Rightarrow> (st, Some e)
      | Inr s \<Rightarrow>
          if s_status s \<notin> {E_APPROVED, E_OUTDATED} then (st, Some ESTIMATE_NOT_APPROVED)
          else
            let v = nextSnapshotVersion st;
                idMap = carry_map (est_mint env) (s_version s) st;
                st1 = carryUnitsForward (est_mint env) (s_version s) v st;
                st2 = carryDependenciesForward (est_mint env) (s_version s) v idMap st1;
                i = hd (fresh_ids (est_mint env) ''esp'' 1 st2)
            in (supersedeSnapshots v v (createSnapshot (reopened i v s) (spend_ids 1 st2)), None))"

section \<open>A run\<close>

text \<open>What the model runner gives back: nothing was asked, it failed, or its proposals.\<close>

datatype proposal_outcome = No_model | Model_failed | Proposed "(string \<times> estimate_options) list"

definition new_run :: "string \<Rightarrow> nat \<Rightarrow> baseline_ref \<Rightarrow> stack_ref \<Rightarrow> run_doc" where
  "new_run i v b k = \<lparr> run_id = i, run_estimateVersion = v, run_baselineVersion = bl_version b,
     run_stackVersion = sk_version k, run_unitsProduced = 0, run_preservedOverrides = 0, run_state = R_running \<rparr>"

definition run_estimation ::
  "est_env \<Rightarrow> world \<Rightarrow> bool \<Rightarrow> bool \<Rightarrow> proposal_outcome \<Rightarrow> nat \<Rightarrow> est_store \<Rightarrow> est_result" where
  "run_estimation env w useAi configured outcome ver st =
     (case editable ver st of
        Inl e \<Rightarrow> (st, Some e)
      | Inr s \<Rightarrow>
          if activeRun st \<noteq> None then (st, Some ESTIMATION_ALREADY_RUNNING)
          else
            let up = upstream_of w st
            in (case (up_baseline up, up_stack up) of
                  (None, _) \<Rightarrow> (st, Some BASELINE_NOT_APPROVED)
                | (_, None) \<Rightarrow> (st, Some STACK_NOT_LOCKED)
                | (Some b, Some k) \<Rightarrow>
                    if useAi \<and> \<not> configured then (st, Some ESTIMATION_NOT_CONFIGURED)
                    else
                      let i = hd (fresh_ids (est_mint env) ''erun'' 1 st);
                          st1 = createRun (new_run i (s_version s) b k) (spend_ids 1 st);
                          asked = (if useAi then outcome else No_model)
                      in (if asked = Model_failed
                          then (updateRun i (\<lambda>r. r\<lparr> run_state := R_failed \<rparr>) st1, Some ESTIMATION_FAILED)
                          else
                            let proposals = (case asked of Proposed ps \<Rightarrow> ps | _ \<Rightarrow> []);
                                preserved = length (preserved_units (s_version s) st1);
                                res = generate env w s proposals st1
                            in (case snd res of
                                  Some e \<Rightarrow> (fst res, Some e)
                                | None \<Rightarrow>
                                    (updateRun i (\<lambda>r. r\<lparr> run_state := R_completed, run_preservedOverrides := preserved,
                                       run_unitsProduced := countUnits (s_version s) (fst res) - preserved \<rparr>) (fst res), None)))))"

section \<open>Operations and histories\<close>

datatype est_op =
    Op_read
  | Op_run bool bool proposal_outcome nat
  | Op_override string override_request nat
  | Op_reset string nat
  | Op_manual manual_request nat
  | Op_addDependency dependency_request nat
  | Op_removeDependency string nat
  | Op_calendar WorkingCalendar nat
  | Op_team "capacity_line list" nat
  | Op_existing existing_system nat
  | Op_schedule nat
  | Op_acknowledge "string option" nat
  | Op_approve "string option" nat
  | Op_reopen nat

fun perform_op :: "est_env \<Rightarrow> world \<Rightarrow> est_op \<Rightarrow> est_store \<Rightarrow> est_result" where
  "perform_op env w Op_read st = readCurrent env w st"
| "perform_op env w (Op_run ai cfg out ver) st = run_estimation env w ai cfg out ver st"
| "perform_op env w (Op_override i rq ver) st = overrideEstimate env w i rq ver st"
| "perform_op env w (Op_reset i ver) st = resetEstimate env w i ver st"
| "perform_op env w (Op_manual rq ver) st = addManual env w rq ver st"
| "perform_op env w (Op_addDependency rq ver) st = addDependency env w rq ver st"
| "perform_op env w (Op_removeDependency i ver) st = removeDependency env w i ver st"
| "perform_op env w (Op_calendar cal ver) st = setCalendar env w cal ver st"
| "perform_op env w (Op_team lns ver) st = setTeam env w lns ver st"
| "perform_op env w (Op_existing es ver) st = setExistingSystem env w es ver st"
| "perform_op env w (Op_schedule ver) st = recalculateSchedule env w ver st"
| "perform_op env w (Op_acknowledge n ver) st = acknowledgeRisk env w n ver st"
| "perform_op env w (Op_approve n ver) st = approve env w n ver st"
| "perform_op env w (Op_reopen ver) st = reopen env w ver st"

text \<open>A history: the operations in order, each with the project as it is at that moment.\<close>

definition est_history :: "est_env \<Rightarrow> (world \<times> est_op) list \<Rightarrow> est_store \<Rightarrow> est_store" where
  "est_history env ops st = foldl (\<lambda>s (w, op). fst (perform_op env w op s)) st ops"

definition empty_store :: est_store where
  "empty_store = \<lparr> snapshots = [], units = [], deps = [], runs = [], used_ids = 0 \<rparr>"

end
