(* ===== verification/EstimationFacts.thy ===== *)
theory EstimationFacts
  imports EstimationService
begin

text \<open>
  Facts about the estimation service that its guarantees share: what each write touches and what it
  leaves alone, the shape of the version history and how each operation moves it.
\<close>

section \<open>What each write touches\<close>

lemma remove_first_SomeD:
  "remove_first P xs = Some ys \<Longrightarrow> \<exists>us x vs. xs = us @ x # vs \<and> P x \<and> ys = us @ vs"
proof (induction xs arbitrary: ys)
  case (Cons a xs)
  show ?case
  proof (cases "P a")
    case True
    then have "a # xs = [] @ a # xs \<and> P a \<and> ys = [] @ xs" using Cons.prems by simp
    then show ?thesis by blast
  next
    case False
    then obtain zs where "remove_first P xs = Some zs" "ys = a # zs" using Cons.prems by auto
    with Cons.IH obtain us x vs where "xs = us @ x # vs" "P x" "zs = us @ vs" by blast
    then have "a # xs = (a # us) @ x # vs \<and> P x \<and> ys = (a # us) @ vs" using \<open>ys = a # zs\<close> by simp
    then show ?thesis by blast
  qed
qed simp

lemma updateSnapshot_frame:
  "updateSnapshot i v f st = Some st' \<Longrightarrow>
     units st' = units st \<and> deps st' = deps st \<and> runs st' = runs st \<and> used_ids st' = used_ids st"
  by (auto simp: updateSnapshot_def)

lemma recalculate_frame [simp]:
  "units (recalculate env w s st) = units st" "deps (recalculate env w s st) = deps st"
  "runs (recalculate env w s st) = runs st" "used_ids (recalculate env w s st) = used_ids st"
  by (auto simp: recalculate_def Let_def split: option.splits dest!: updateSnapshot_frame)

lemma write_snapshot_frame [simp]:
  "units (write_snapshot s v f st) = units st" "deps (write_snapshot s v f st) = deps st"
  "runs (write_snapshot s v f st) = runs st" "used_ids (write_snapshot s v f st) = used_ids st"
  by (auto simp: write_snapshot_def split: option.splits dest!: updateSnapshot_frame)

lemma store_frame [simp]:
  "snapshots (insertUnits us st) = snapshots st" "units (insertUnits us st) = units st @ us"
  "deps (insertUnits us st) = deps st" "runs (insertUnits us st) = runs st"
  "snapshots (insertDependencies ds st) = snapshots st" "units (insertDependencies ds st) = units st"
  "deps (insertDependencies ds st) = deps st @ ds" "runs (insertDependencies ds st) = runs st"
  "snapshots (spend_ids n st) = snapshots st" "units (spend_ids n st) = units st"
  "deps (spend_ids n st) = deps st" "runs (spend_ids n st) = runs st"
  "used_ids (spend_ids n st) = used_ids st + n" "used_ids (insertUnits us st) = used_ids st"
  "used_ids (insertDependencies ds st) = used_ids st"
  "snapshots (createRun r st) = snapshots st" "units (createRun r st) = units st"
  "deps (createRun r st) = deps st" "used_ids (createRun r st) = used_ids st"
  "snapshots (updateRun i g st) = snapshots st" "units (updateRun i g st) = units st"
  "deps (updateRun i g st) = deps st" "used_ids (updateRun i g st) = used_ids st"
  "snapshots (deleteReplaceableUnits v st) = snapshots st" "deps (deleteReplaceableUnits v st) = deps st"
  "runs (deleteReplaceableUnits v st) = runs st" "used_ids (deleteReplaceableUnits v st) = used_ids st"
  "snapshots (deleteReplaceableDependencies v st) = snapshots st"
  "units (deleteReplaceableDependencies v st) = units st"
  "runs (deleteReplaceableDependencies v st) = runs st"
  "used_ids (deleteReplaceableDependencies v st) = used_ids st"
  "units (createSnapshot s st) = units st" "deps (createSnapshot s st) = deps st"
  "runs (createSnapshot s st) = runs st" "snapshots (createSnapshot s st) = snapshots st @ [s]"
  "used_ids (createSnapshot s st) = used_ids st"
  "units (supersedeSnapshots a b st) = units st" "deps (supersedeSnapshots a b st) = deps st"
  "runs (supersedeSnapshots a b st) = runs st" "used_ids (supersedeSnapshots a b st) = used_ids st"
  by (simp_all add: insertUnits_def insertDependencies_def spend_ids_def createRun_def updateRun_def
      deleteReplaceableUnits_def deleteReplaceableDependencies_def createSnapshot_def supersedeSnapshots_def)

lemma generateDependencies_frame [simp]:
  "snapshots (generateDependencies env v st) = snapshots st" "units (generateDependencies env v st) = units st"
  "runs (generateDependencies env v st) = runs st"
  by (simp_all add: generateDependencies_def Let_def)

lemma editable_SomeD:
  "editable v st = Inr s \<Longrightarrow> currentSnapshot st = Some s \<and> s_status s \<noteq> E_APPROVED \<and> s_recordVersion s = v"
  by (auto simp: editable_def split: option.splits if_splits)

lemma versioned_SomeD: "versioned v st = Inr s \<Longrightarrow> currentSnapshot st = Some s \<and> s_recordVersion s = v"
  by (auto simp: versioned_def split: option.splits if_splits)

lemma generate_runs: "runs (fst (generate env w s ps st)) = runs st"
  by (auto simp: generate_def Let_def split: option.splits)

section \<open>An override survives everything\<close>

fun targets_unit :: "string \<Rightarrow> est_op \<Rightarrow> bool" where
  "targets_unit i (Op_override j rq ver) = (i = j)"
| "targets_unit i (Op_reset j ver) = (i = j)"
| "targets_unit i _ = False"

lemma updateUnit_keeps:
  assumes "updateUnit j v f st = Some st'" "u \<in> set (units st)" "u_id u \<noteq> j"
  shows "u \<in> set (units st')"
proof -
  obtain us where us: "find_and_update (\<lambda>u. u_id u = j \<and> u_recordVersion u = v)
      (\<lambda>u. (f u)\<lparr> u_recordVersion := v + 1 \<rparr>) (units st) = Some us" "st' = st\<lparr> units := us \<rparr>"
    using assms(1) by (auto simp: updateUnit_def)
  from find_and_update_SomeD [OF us(1)] assms(2,3) us(2) show ?thesis by auto
qed

lemma generate_keeps:
  assumes "u \<in> set (units st)" and "u_source u = USER_OVERRIDE"
  shows "u \<in> set (units (fst (generate env w s ps st)))"
  using assms by (auto simp: generate_def Let_def deleteReplaceableUnits_def split: option.splits)

lemma carry_frame [simp]:
  "units (carryUnitsForward m a b st) = units st @ carried_units m a b st"
  "deps (carryUnitsForward m a b st) = deps st" "runs (carryUnitsForward m a b st) = runs st"
  "snapshots (carryUnitsForward m a b st) = snapshots st"
  "units (carryDependenciesForward m a b im st) = units st" "runs (carryDependenciesForward m a b im st) = runs st"
  "snapshots (carryDependenciesForward m a b im st) = snapshots st"
  by (simp_all add: carryUnitsForward_def carryDependenciesForward_def Let_def)

lemma op_keeps_override:
  assumes "u \<in> set (units st)" and "u_source u = USER_OVERRIDE" and "\<not> targets_unit (u_id u) op"
  shows "u \<in> set (units (fst (perform_op env w op st)))"
proof (cases op)
  case Op_read
  then show ?thesis using assms by (auto simp: readCurrent_def createInitial_def Let_def split: option.splits)
next
  case (Op_run ai cfg out ver)
  have "u \<in> set (units (createRun r (spend_ids 1 st)))" for r using assms(1) by simp
  then show ?thesis using Op_run assms generate_keeps [OF _ assms(2)]
    by (auto simp: run_estimation_def Let_def split: sum.splits option.splits)
next
  case (Op_override j rq ver)
  then show ?thesis using assms
    by (auto simp: overrideEstimate_def split: sum.splits option.splits dest: updateUnit_keeps)
next
  case (Op_reset j ver)
  then show ?thesis using assms
    by (auto simp: resetEstimate_def or_else_def split: sum.splits option.splits dest: updateUnit_keeps)
next
  case (Op_removeDependency i ver)
  then show ?thesis using assms
    by (auto simp: removeDependency_def deleteDependency_def split: sum.splits option.splits)
qed (use assms in \<open>auto simp: addManual_def addDependency_def setCalendar_def setTeam_def setExistingSystem_def
    recalculateSchedule_def acknowledgeRisk_def approve_def reopen_def Let_def
    split: sum.splits option.splits dest!: updateSnapshot_frame\<close>)

section \<open>The version history\<close>

text \<open>
  Versions count up from one; every version but the last is superseded; identifiers are distinct
  and come from the source of fresh strings.
\<close>

definition fresh_source :: "est_env \<Rightarrow> bool" where
  "fresh_source env \<longleftrightarrow> (\<forall>p q m n. est_mint env p m = est_mint env q n \<longrightarrow> m = n)"

definition minted_below :: "est_env \<Rightarrow> nat \<Rightarrow> string \<Rightarrow> bool" where
  "minted_below env n i \<longleftrightarrow> (\<exists>p k. k < n \<and> i = est_mint env p k)"

definition history_ok :: "est_env \<Rightarrow> est_store \<Rightarrow> bool" where
  "history_ok env st \<longleftrightarrow>
     map s_version (snapshots st) = [1..<Suc (length (snapshots st))]
     \<and> (\<forall>s \<in> set (butlast (snapshots st)). s_status s = E_SUPERSEDED)
     \<and> (snapshots st \<noteq> [] \<longrightarrow> s_status (last (snapshots st)) \<noteq> E_SUPERSEDED)
     \<and> distinct (map s_id (snapshots st))
     \<and> (\<forall>s \<in> set (snapshots st). minted_below env (used_ids st) (s_id s))"

lemma history_snoc:
  assumes "history_ok env st" and "snapshots st = us @ [s]"
  shows "s_status s \<noteq> E_SUPERSEDED" "\<forall>x \<in> set us. s_status x = E_SUPERSEDED" "s_version s = Suc (length us)"
    "map s_version us = [1..<Suc (length us)]" "distinct (map s_id us)" "s_id s \<notin> s_id ` set us"
    "\<forall>x \<in> set (us @ [s]). minted_below env (used_ids st) (s_id x)"
  using assms by (auto simp: history_ok_def)

text \<open>The snapshots are versioned rows, retired by a reopening, and a history is a chain of them.\<close>

definition superseded :: "nat \<Rightarrow> snapshot_doc \<Rightarrow> snapshot_doc" where
  "superseded v s = s\<lparr> s_status := E_SUPERSEDED, s_supersededByVersion := Some v \<rparr>"

interpretation estimate_versions: versioned_rows s_version "\<lambda>s. s_status s = E_SUPERSEDED" s_id superseded
  by unfold_locales (simp_all add: superseded_def)

abbreviation estimate_chain :: "snapshot_doc list \<Rightarrow> bool" where
  "estimate_chain \<equiv> version_chain s_version (\<lambda>s. s_status s = E_SUPERSEDED) s_id"

lemma history_chain: "history_ok env st \<Longrightarrow> estimate_chain (snapshots st)"
  by (auto simp: history_ok_def version_chain_def list_all_iff)

lemma current_of_history:
  assumes "history_ok env st"
  shows "snapshots st = [] \<Longrightarrow> currentSnapshot st = None"
    and "snapshots st = us @ [s] \<Longrightarrow> currentSnapshot st = Some s"
    and "nextSnapshotVersion st = Suc (length (snapshots st))"
  using estimate_versions.chain_current_iff [OF history_chain [OF assms]] estimate_versions.chain_newest [OF history_chain [OF assms]]
  by (simp_all add: currentSnapshot_def nextSnapshotVersion_def newest_def)

lemma current_last: "history_ok env st \<Longrightarrow> currentSnapshot st = Some s \<Longrightarrow> \<exists>us. snapshots st = us @ [s]"
  by (cases "snapshots st" rule: rev_cases) (auto dest: current_of_history(1,2))

lemma update_current:
  assumes "history_ok env st" and "snapshots st = us @ [s]"
  shows "updateSnapshot (s_id s) (s_recordVersion s) f st
    = Some (st\<lparr> snapshots := us @ [(f s)\<lparr> s_recordVersion := s_recordVersion s + 1 \<rparr>] \<rparr>)"
proof -
  have "estimate_chain (us @ [s])" using history_chain [OF assms(1)] assms(2) by simp
  then show ?thesis unfolding updateSnapshot_def assms(2) by (subst estimate_versions.chain_update) auto
qed

text \<open>A history whose last version is replaced by one with the same identity.\<close>

lemma history_replace:
  assumes "history_ok env st" and "snapshots st = us @ [s]" and "snapshots st' = us @ [s']"
    and "s_id s' = s_id s" and "s_version s' = s_version s" and "s_status s' \<noteq> E_SUPERSEDED"
    and "used_ids st \<le> used_ids st'"
  shows "history_ok env st'"
proof -
  have "minted_below env (used_ids st) i \<Longrightarrow> minted_below env (used_ids st') i" for i
    using assms(7) by (force simp: minted_below_def)
  then show ?thesis using assms(1-6) by (auto simp: history_ok_def)
qed

lemma recalculate_current:
  assumes "history_ok env' st" and "snapshots st = us @ [s]"
  shows "snapshots (recalculate env w t st) = us @ [s\<lparr> s_status := recalculated_status (s_status s) (assemble env w st s),
      s_plan := assemble env w st s, s_recordVersion := s_recordVersion s + 1 \<rparr>]"
  using update_current [OF assms] current_of_history(2) [OF assms] by (simp add: recalculate_def Let_def)

lemma write_current:
  assumes "history_ok env' st" and "snapshots st = us @ [s]"
  shows "snapshots (write_snapshot s (s_recordVersion s) f st) = us @ [(f s)\<lparr> s_recordVersion := s_recordVersion s + 1 \<rparr>]"
  using update_current [OF assms] by (simp add: write_snapshot_def)

section \<open>How an operation moves the current version\<close>

text \<open>
  What stays of the current version whatever is done to it; an approved one keeps everything but
  its dates.
\<close>

definition approved_core :: "snapshot_doc \<Rightarrow> snapshot_doc" where
  "approved_core s = s\<lparr> s_plan := (s_plan s)\<lparr> pl_schedule := empty_schedule, pl_milestones := [] \<rparr>,
     s_startDate := None, s_recordVersion := 0 \<rparr>"

definition advances :: "snapshot_doc \<Rightarrow> snapshot_doc \<Rightarrow> bool" where
  "advances s s' \<longleftrightarrow>
     s_id s' = s_id s \<and> s_version s' = s_version s \<and> s_baseline s' = s_baseline s \<and> s_stack s' = s_stack s
     \<and> s_status s' \<noteq> E_SUPERSEDED \<and> (s_status s' = E_OUTDATED \<longrightarrow> s_status s = E_OUTDATED)
     \<and> (s_status s = E_APPROVED \<longrightarrow> approved_core s' = approved_core s)"

lemma advances_refl: "s_status s \<noteq> E_SUPERSEDED \<Longrightarrow> advances s s"
  by (simp add: advances_def)

lemma approved_core_status: "approved_core s' = approved_core s \<Longrightarrow> s_status s' = s_status s"
proof -
  have "s_status (approved_core x) = s_status x" for x by (simp add: approved_core_def)
  then show "approved_core s' = approved_core s \<Longrightarrow> s_status s' = s_status s" by metis
qed

lemma recalculated_status_simps:
  "recalculated_status st p = E_APPROVED \<longleftrightarrow> st = E_APPROVED"
  "recalculated_status st p = E_OUTDATED \<longleftrightarrow> st = E_OUTDATED"
  "recalculated_status st p = E_SUPERSEDED \<longleftrightarrow> st = E_SUPERSEDED"
  by (auto simp: recalculated_status_def)

lemma recalculate_advances:
  assumes h: "history_ok env' st" "snapshots st = us @ [s]" and st1: "snapshots st1 = us @ [s1]"
    "used_ids st \<le> used_ids st1" and s: "s_status s \<noteq> E_APPROVED"
    and s1: "s_status s1 = s_status s" "s_id s1 = s_id s" "s_version s1 = s_version s"
      "s_baseline s1 = s_baseline s" "s_stack s1 = s_stack s"
  shows "\<exists>s'. snapshots (recalculate env w t st1) = us @ [s'] \<and> advances s s' \<and> s_status s' \<noteq> E_APPROVED"
proof -
  have "s_status s \<noteq> E_SUPERSEDED" using history_snoc(1) [OF h] .
  moreover from this have "history_ok env' st1"
    by (intro history_replace [OF h st1(1)]) (simp_all add: s1 st1(2))
  ultimately show ?thesis
    using recalculate_current [OF _ st1(1), of env' env w t] s s1
    by (auto simp: advances_def recalculated_status_simps)
qed

lemma generate_advances:
  assumes h: "history_ok env' st" "snapshots st = us @ [s]" and s: "s_status s \<noteq> E_APPROVED"
  shows "\<exists>s'. snapshots (fst (generate env w t ps st)) = us @ [s'] \<and> advances s s' \<and> s_status s' \<noteq> E_APPROVED"
proof -
  have "\<exists>s'. us @ [s] = us @ [s'] \<and> advances s s' \<and> s_status s' \<noteq> E_APPROVED"
    using history_snoc(1) [OF h] s by (simp add: advances_refl)
  then show ?thesis
    using recalculate_advances [OF h _ _ s, of _ s env w] h(2)
    by (auto simp: generate_def Let_def fresh_ids_def generateDependencies_def split: option.splits)
qed

lemma run_snapshots:
  "snapshots (fst (run_estimation env w ai cfg out ver st)) = snapshots st
   \<or> (\<exists>t ps r. snapshots (fst (run_estimation env w ai cfg out ver st))
        = snapshots (fst (generate env w t ps (createRun r (spend_ids 1 st)))))"
  unfolding run_estimation_def Let_def by (auto split: sum.split option.split)

lemma approved_op:
  assumes h: "history_ok env' st" "snapshots st = us @ [s]" and a: "s_status s = E_APPROVED"
    and op: "\<forall>v. op \<noteq> Op_reopen v"
  shows "\<exists>s'. snapshots (fst (perform_op env w op st)) = us @ [s'] \<and> advances s s'"
proof -
  note cur = current_of_history(2) [OF h]
  have ed: "editable v st = Inl ESTIMATE_APPROVED" for v using cur a by (simp add: editable_def)
  have adv: "advances s s" using history_snoc(1) [OF h] by (rule advances_refl)
  have keep: "fst (perform_op env w op st) = st" if "\<forall>v. op \<noteq> Op_schedule v"
    using op that cur a
    by (cases op) (simp_all add: ed readCurrent_def run_estimation_def overrideEstimate_def
          resetEstimate_def addManual_def addDependency_def removeDependency_def setCalendar_def setTeam_def
          setExistingSystem_def acknowledgeRisk_def approve_def versioned_def)
  show ?thesis
  proof (cases "\<exists>v. op = Op_schedule v")
    case True
    then obtain v where v: "op = Op_schedule v" by blast
    show ?thesis
      using h(2) cur a adv write_current [OF h] unfolding v
      by (auto simp: recalculateSchedule_def versioned_def Let_def advances_def approved_core_def)
  next
    case False
    then have "fst (perform_op env w op st) = st" using keep by blast
    then show ?thesis using adv h(2) by auto
  qed
qed

text \<open>Most edits leave the snapshots to the recalculation that ends them.\<close>

definition recalculated_edit :: "est_env \<Rightarrow> world \<Rightarrow> est_store \<Rightarrow> est_store \<Rightarrow> bool" where
  "recalculated_edit env w st st' \<longleftrightarrow>
     st' = st \<or> (\<exists>t st1. st' = recalculate env w t st1 \<and> snapshots st1 = snapshots st \<and> used_ids st \<le> used_ids st1)"

lemma recalculated_editI:
  "recalculated_edit env w st st"
  "snapshots st1 = snapshots st \<Longrightarrow> used_ids st \<le> used_ids st1 \<Longrightarrow> recalculated_edit env w st (recalculate env w t st1)"
  by (auto simp: recalculated_edit_def)

lemma updateUnit_snapshots:
  "updateUnit i n f st = Some st1 \<Longrightarrow> snapshots st1 = snapshots st \<and> used_ids st1 = used_ids st"
  by (auto simp: updateUnit_def)

lemma edit_shapes:
  "recalculated_edit env w st (fst (overrideEstimate env w i rq ver st))"
  "recalculated_edit env w st (fst (resetEstimate env w i ver st))"
  "recalculated_edit env w st (fst (addManual env w mq ver st))"
  "recalculated_edit env w st (fst (addDependency env w dq ver st))"
  "recalculated_edit env w st (fst (removeDependency env w i ver st))"
proof -
  show "recalculated_edit env w st (fst (overrideEstimate env w i rq ver st))"
    unfolding overrideEstimate_def
    by (auto split: sum.split option.split intro!: recalculated_editI dest: updateUnit_snapshots)
  have "snapshots (or_else (updateUnit i n f st) st) = snapshots st \<and>
      used_ids (or_else (updateUnit i n f st) st) = used_ids st" for n f
    by (auto simp: or_else_def split: option.split dest: updateUnit_snapshots)
  then show "recalculated_edit env w st (fst (resetEstimate env w i ver st))"
    unfolding resetEstimate_def by (auto split: sum.split option.split intro!: recalculated_editI)
  show "recalculated_edit env w st (fst (addManual env w mq ver st))"
    unfolding addManual_def Let_def by (auto split: sum.split option.split intro!: recalculated_editI)
  show "recalculated_edit env w st (fst (addDependency env w dq ver st))"
    unfolding addDependency_def Let_def by (auto split: sum.split intro!: recalculated_editI)
  show "recalculated_edit env w st (fst (removeDependency env w i ver st))"
    unfolding removeDependency_def
    by (auto simp: deleteDependency_def split: sum.split option.split intro!: recalculated_editI)
qed

lemma edit_advances:
  assumes h: "history_ok env' st" "snapshots st = us @ [s]" and s: "s_status s \<noteq> E_APPROVED"
    and e: "recalculated_edit env w st st'"
  shows "\<exists>s'. snapshots st' = us @ [s'] \<and> advances s s' \<and> s_status s' \<noteq> E_APPROVED"
  using e unfolding recalculated_edit_def
proof (elim disjE exE conjE)
  assume "st' = st"
  then show ?thesis using h(2) s history_snoc(1) [OF h] by (auto simp: advances_refl)
next
  fix t st1
  assume "st' = recalculate env w t st1" "snapshots st1 = snapshots st" "used_ids st \<le> used_ids st1"
  then show ?thesis using recalculate_advances [OF h _ _ s, of st1 s env w t] h(2) by simp
qed

lemma op_advances:
  assumes h: "history_ok env' st" "snapshots st = us @ [s]" and op: "\<forall>v. op \<noteq> Op_reopen v"
  shows "\<exists>s'. snapshots (fst (perform_op env w op st)) = us @ [s'] \<and> advances s s'
    \<and> (s_status s' = E_APPROVED \<longrightarrow> s_status s = E_APPROVED \<or> (\<exists>n v. op = Op_approve n v))"
proof -
  note cur = current_of_history(2) [OF h]
  have same: "\<exists>s'. us @ [s] = us @ [s'] \<and> advances s s'
    \<and> (s_status s' = E_APPROVED \<longrightarrow> s_status s = E_APPROVED \<or> (\<exists>n v. op = Op_approve n v))"
    using history_snoc(1) [OF h] by (auto simp: advances_refl)
  note rc = recalculate_advances [OF h]
  show ?thesis
  proof (cases "s_status s = E_APPROVED")
    case True
    then show ?thesis using approved_op [OF h True op] by blast
  next
    case False
    note rc = rc [OF _ _ False]
    show ?thesis
    proof (cases op)
      case Op_read
      then show ?thesis using cur h(2) same by (simp add: readCurrent_def)
    next
      case (Op_run ai cfg out ver)
      have g: "\<exists>s'. snapshots (fst (generate env w t ps (createRun r (spend_ids 1 st)))) = us @ [s']
          \<and> advances s s' \<and> s_status s' \<noteq> E_APPROVED" for t ps r
      proof (rule generate_advances)
        show "history_ok env' (createRun r (spend_ids 1 st))"
          using history_snoc(1) [OF h] by (intro history_replace [OF h]) (simp_all add: h(2))
      qed (simp_all add: h(2) False)
      have "advances s s" using history_snoc(1) [OF h] by (rule advances_refl)
      then have "\<exists>s'. snapshots (fst (run_estimation env w ai cfg out ver st)) = us @ [s']
          \<and> advances s s' \<and> s_status s' \<noteq> E_APPROVED"
        using run_snapshots [of env w ai cfg out ver st]
      proof (elim disjE exE)
        fix t ps r
        assume "snapshots (fst (run_estimation env w ai cfg out ver st))
          = snapshots (fst (generate env w t ps (createRun r (spend_ids 1 st))))"
        then show ?thesis using g [of t ps r] by simp
      qed (use h(2) False in auto)
      then show ?thesis unfolding Op_run perform_op.simps by blast
    next
      case (Op_override i rq ver)
      then show ?thesis using edit_advances [OF h False edit_shapes(1)] by (simp only: perform_op.simps) blast
    next
      case (Op_reset i ver)
      then show ?thesis using edit_advances [OF h False edit_shapes(2)] by (simp only: perform_op.simps) blast
    next
      case (Op_manual rq ver)
      then show ?thesis using edit_advances [OF h False edit_shapes(3)] by (simp only: perform_op.simps) blast
    next
      case (Op_addDependency rq ver)
      then show ?thesis using edit_advances [OF h False edit_shapes(4)] by (simp only: perform_op.simps) blast
    next
      case (Op_removeDependency i ver)
      then show ?thesis using edit_advances [OF h False edit_shapes(5)] by (simp only: perform_op.simps) blast
    next
      case (Op_calendar cal ver)
      then show ?thesis unfolding Op_calendar perform_op.simps setCalendar_def
        using same h(2) cur rc [OF write_current [OF h]] by (auto simp: editable_def)
    next
      case (Op_team lns ver)
      then show ?thesis unfolding Op_team perform_op.simps setTeam_def
        using same h(2) cur rc [OF write_current [OF h]] by (auto simp: editable_def)
    next
      case (Op_existing es ver)
      then show ?thesis unfolding Op_existing perform_op.simps setExistingSystem_def
        using same h(2) cur rc [OF write_current [OF h]] by (auto simp: editable_def)
    next
      case (Op_schedule ver)
      then show ?thesis
        using h(2) cur False same write_current [OF h] history_snoc(1) [OF h]
        by (auto simp: recalculateSchedule_def versioned_def Let_def advances_def)
    next
      case (Op_acknowledge n ver)
      then show ?thesis
        using h(2) cur False same write_current [OF h] history_snoc(1) [OF h]
        by (auto simp: acknowledgeRisk_def editable_def Let_def advances_def)
    next
      case (Op_approve n ver)
      then show ?thesis
        using h(2) cur False same update_current [OF h]
        by (auto simp: approve_def versioned_def Let_def advances_def)
    next
      case (Op_reopen ver)
      then show ?thesis using op by simp
    qed
  qed
qed

lemma generate_used: "used_ids st \<le> used_ids (fst (generate env w s ps st))"
  by (auto simp: generate_def Let_def generateDependencies_def split: option.splits)

lemma run_used: "used_ids st \<le> used_ids (fst (run_estimation env w ai cfg out ver st))"
proof -
  have "used_ids st \<le> used_ids (fst (generate env w t ps (createRun r (spend_ids n st))))" for t ps r n
    using generate_used [of "createRun r (spend_ids n st)"] by (rule order_trans [rotated]) simp
  then show ?thesis unfolding run_estimation_def Let_def by (auto split: sum.split option.split)
qed

lemma reopen_used: "used_ids st \<le> used_ids (fst (reopen env w ver st))"
  by (simp add: reopen_def Let_def carryUnitsForward_def carryDependenciesForward_def split: sum.split)

lemma op_used: "used_ids st \<le> used_ids (fst (perform_op env w op st))"
proof -
  have e: "recalculated_edit env w st st' \<Longrightarrow> used_ids st \<le> used_ids st'" for st'
    by (auto simp: recalculated_edit_def)
  show ?thesis
    by (cases op)
      (simp_all add: e edit_shapes run_used reopen_used readCurrent_def createInitial_def setCalendar_def setTeam_def
        setExistingSystem_def recalculateSchedule_def acknowledgeRisk_def approve_def Let_def
        split: sum.split option.split, auto dest: updateSnapshot_frame)
qed

lemma reopen_snapshots:
  assumes h: "history_ok env' st" "snapshots st = us @ [s]"
  shows "snd (reopen env w ver st) \<noteq> None \<and> fst (reopen env w ver st) = st
    \<or> (\<exists>p n. snd (reopen env w ver st) = None \<and> s_status s \<in> {E_APPROVED, E_OUTDATED}
          \<and> used_ids st \<le> n \<and> n < used_ids (fst (reopen env w ver st))
          \<and> snapshots (fst (reopen env w ver st))
            = us @ [superseded (Suc (Suc (length us))) s, reopened (est_mint env p n) (Suc (Suc (length us))) s])"
proof (cases "s_recordVersion s = ver \<and> s_status s \<in> {E_APPROVED, E_OUTDATED}")
  case True
  have cur: "versioned ver st = Inr s" using current_of_history(2) [OF h] True by (simp add: versioned_def)
  have v: "nextSnapshotVersion st = Suc (Suc (length us))" using current_of_history(3) [OF h(1)] h(2) by simp
  have "(if s_version x \<noteq> k \<and> s_status x \<noteq> E_SUPERSEDED
      then x\<lparr>s_status := E_SUPERSEDED, s_supersededByVersion := Some k\<rparr> else x) = x" if "x \<in> set us" for x k
    using history_snoc(2) [OF h] that by simp
  then have us: "map (\<lambda>x. if s_version x \<noteq> k \<and> s_status x \<noteq> E_SUPERSEDED
      then x\<lparr>s_status := E_SUPERSEDED, s_supersededByVersion := Some k\<rparr> else x) us = us" for k
    by (simp add: map_idI)
  define st1 where "st1 = carryUnitsForward (est_mint env) (s_version s) (Suc (Suc (length us))) st"
  define st2 where "st2 = carryDependenciesForward (est_mint env) (s_version s) (Suc (Suc (length us)))
      (carry_map (est_mint env) (s_version s) st) st1"
  have frame: "snapshots st2 = us @ [s]" "used_ids st \<le> used_ids st2"
    unfolding st2_def st1_def by (simp_all add: h(2)) (simp add: carryUnitsForward_def carryDependenciesForward_def Let_def)
  have re: "reopen env w ver st = (supersedeSnapshots (Suc (Suc (length us))) (Suc (Suc (length us)))
      (createSnapshot (reopened (est_mint env ''esp'' (used_ids st2)) (Suc (Suc (length us))) s) (spend_ids 1 st2)), None)"
    using True by (simp add: reopen_def cur Let_def v fresh_ids_def flip: st1_def st2_def)
  have "snd (reopen env w ver st) = None \<and> s_status s \<in> {E_APPROVED, E_OUTDATED}
      \<and> used_ids st \<le> used_ids st2 \<and> used_ids st2 < used_ids (fst (reopen env w ver st))
      \<and> snapshots (fst (reopen env w ver st))
        = us @ [superseded (Suc (Suc (length us))) s, reopened (est_mint env ''esp'' (used_ids st2)) (Suc (Suc (length us))) s]"
    unfolding re using True frame history_snoc(1,3) [OF h]
    by (simp add: supersedeSnapshots_def us superseded_def) (simp add: reopened_def)
  then show ?thesis by blast
next
  case False
  then show ?thesis using current_of_history(2) [OF h] by (auto simp: reopen_def versioned_def)
qed

lemma op_empty:
  assumes "history_ok env' st" "snapshots st = []"
  shows "fst (perform_op env w op st) = (if op = Op_read then createInitial env w st else st)"
  using current_of_history(1) [OF assms]
  by (cases op) (simp_all add: readCurrent_def run_estimation_def overrideEstimate_def editable_def versioned_def
      resetEstimate_def addManual_def addDependency_def removeDependency_def setCalendar_def setTeam_def
      setExistingSystem_def recalculateSchedule_def acknowledgeRisk_def approve_def reopen_def)

lemma op_history_ok:
  assumes "history_ok env st" and fresh: "fresh_source env"
  shows "history_ok env (fst (perform_op env w op st))"
proof (cases "snapshots st" rule: rev_cases)
  case Nil
  have "nextSnapshotVersion st = 1" using current_of_history(3) [OF assms(1)] Nil by simp
  then have "history_ok env (createInitial env w st)"
    using Nil by (force simp: history_ok_def createInitial_def Let_def fresh_ids_def minted_below_def)
  then show ?thesis using op_empty [OF assms(1) Nil] assms(1) by simp
next
  case (snoc us s)
  note h = assms(1) snoc
  show ?thesis
  proof (cases "\<exists>v. op = Op_reopen v")
    case False
    then obtain s' where s': "snapshots (fst (perform_op env w op st)) = us @ [s']" "advances s s'"
      using op_advances [OF h, of op env w] by blast
    show ?thesis using s'(2) op_used by (intro history_replace [OF h s'(1)]) (simp_all add: advances_def)
  next
    case True
    then obtain ver where op: "op = Op_reopen ver" by blast
    let ?st = "fst (reopen env w ver st)" and ?v = "Suc (Suc (length us))"
    consider "?st = st" | p n where "used_ids st \<le> n" "n < used_ids ?st"
        "snapshots ?st = us @ [superseded ?v s, reopened (est_mint env p n) ?v s]"
      using reopen_snapshots [OF h, of env w ver] by blast
    then have "history_ok env ?st"
    proof cases
      case (2 p n)
      have below: "minted_below env (used_ids ?st) (s_id x) \<and> s_id x \<noteq> est_mint env p n" if "x \<in> set (us @ [s])" for x
      proof -
        have "minted_below env (used_ids st) (s_id x)" using history_snoc(7) [OF h] that by blast
        then obtain q k where "k < used_ids st" "s_id x = est_mint env q k" by (auto simp: minted_below_def)
        moreover from this 2(1) fresh have "est_mint env q k \<noteq> est_mint env p n" by (force simp: fresh_source_def)
        moreover have "k < used_ids ?st" using calculation(1) 2(1,2) by linarith
        ultimately show ?thesis unfolding minted_below_def by metis
      qed
      have "minted_below env (used_ids ?st) (est_mint env p n)" using 2(2) by (auto simp: minted_below_def)
      moreover have "est_mint env p n \<notin> s_id ` set (us @ [s])" using below by (metis imageE)
      moreover have "\<forall>x \<in> set (us @ [s]). minted_below env (used_ids ?st) (s_id x)" using below by blast
      ultimately show ?thesis
        using 2(3) history_snoc(1-6) [OF h]
        by (auto simp: history_ok_def superseded_def reopened_def butlast_append)
    qed (use assms(1) in simp)
    then show ?thesis by (simp add: op)
  qed
qed

lemma history_ok_empty: "history_ok env empty_store"
  by (simp add: history_ok_def empty_store_def)

lemma est_history_snoc: "est_history env (ops @ [(w, op)]) st = fst (perform_op env w op (est_history env ops st))"
  by (simp add: est_history_def)

lemma est_history_ok: "history_ok env st \<Longrightarrow> fresh_source env \<Longrightarrow> history_ok env (est_history env ops st)"
  by (induction ops rule: rev_induct) (auto simp: est_history_snoc op_history_ok est_history_def [of _ "[]"])

section \<open>Lines of a history\<close>

definition lines_ok :: "est_env \<Rightarrow> est_store \<Rightarrow> bool" where
  "lines_ok env st \<longleftrightarrow>
     distinct (map u_id (units st)) \<and> (\<forall>u \<in> set (units st). minted_below env (used_ids st) (u_id u))
     \<and> (\<forall>u \<in> set (units st). u_version u \<le> length (snapshots st))"

lemma fresh_ids_facts:
  assumes "fresh_source env"
  shows "distinct (fresh_ids (est_mint env) p n st)" "length (fresh_ids (est_mint env) p n st) = n"
    "i \<in> set (fresh_ids (est_mint env) p n st) \<Longrightarrow> minted_below env (used_ids st + n) i \<and> \<not> minted_below env (used_ids st) i"
proof -
  show "distinct (fresh_ids (est_mint env) p n st)"
    using assms by (auto simp: fresh_ids_def distinct_map inj_on_def fresh_source_def)
  show "length (fresh_ids (est_mint env) p n st) = n" by (simp add: fresh_ids_def)
  assume "i \<in> set (fresh_ids (est_mint env) p n st)"
  then obtain k where k: "used_ids st \<le> k" "k < used_ids st + n" "i = est_mint env p k"
    by (auto simp: fresh_ids_def)
  have "\<not> minted_below env (used_ids st) i"
  proof
    assume "minted_below env (used_ids st) i"
    then obtain q m where "m < used_ids st" "i = est_mint env q m" by (auto simp: minted_below_def)
    with assms k(3) have "m = k" unfolding fresh_source_def by metis
    with \<open>m < used_ids st\<close> k(1) show False by simp
  qed
  moreover have "minted_below env (used_ids st + n) i" using k unfolding minted_below_def by blast
  ultimately show "minted_below env (used_ids st + n) i \<and> \<not> minted_below env (used_ids st) i" by blast
qed

lemma minted_below_mono: "minted_below env m i \<Longrightarrow> m \<le> n \<Longrightarrow> minted_below env n i"
  unfolding minted_below_def by (metis less_le_trans)

lemma lines_ok_mono:
  assumes "lines_ok env st" "units st' = units st" "used_ids st \<le> used_ids st'"
    "length (snapshots st) \<le> length (snapshots st')"
  shows "lines_ok env st'"
  using assms by (auto simp: lines_ok_def intro: minted_below_mono order_trans)

lemma lines_ok_subset:
  assumes "lines_ok env st" "units st' = filter P (units st)" "used_ids st \<le> used_ids st'"
    "length (snapshots st) \<le> length (snapshots st')"
  shows "lines_ok env st'"
  using assms by (auto simp: lines_ok_def distinct_map_filter intro: minted_below_mono order_trans)

lemma lines_ok_append:
  assumes ok: "lines_ok env st" and "units st' = units st @ new" "used_ids st + n \<le> used_ids st'"
    and "length (snapshots st) \<le> length (snapshots st')" and fresh: "fresh_source env"
    and new: "map u_id new = fresh_ids (est_mint env) p n st" "\<forall>u \<in> set new. u_version u \<le> length (snapshots st')"
  shows "lines_ok env st'"
proof -
  note f = fresh_ids_facts [OF fresh]
  have ids: "u_id u \<in> set (fresh_ids (est_mint env) p n st)" if "u \<in> set new" for u
    using that unfolding new(1) [symmetric] by simp
  have "u_id ` set (units st) \<inter> u_id ` set new = {}"
  proof -
    have "minted_below env (used_ids st) (u_id u)" if "u \<in> set (units st)" for u
      using ok that by (simp add: lines_ok_def)
    moreover have "\<not> minted_below env (used_ids st) (u_id u)" if "u \<in> set new" for u
      using f(3) [OF ids [OF that]] by blast
    ultimately have "u_id a \<noteq> u_id b" if "a \<in> set (units st)" "b \<in> set new" for a b
      using that by metis
    then show ?thesis by blast
  qed
  moreover have "distinct (map u_id new)" unfolding new(1) by (rule f(1))
  moreover have "minted_below env (used_ids st') (u_id u)" if "u \<in> set new" for u
    using f(3) [OF ids [OF that]] assms(3) by (blast intro: minted_below_mono)
  moreover have "minted_below env (used_ids st') (u_id u) \<and> u_version u \<le> length (snapshots st')"
    if "u \<in> set (units st)" for u
  proof -
    have "minted_below env (used_ids st) (u_id u)" "u_version u \<le> length (snapshots st)"
      using ok that by (simp_all add: lines_ok_def)
    moreover have "used_ids st \<le> used_ids st'" using assms(3) by simp
    ultimately show ?thesis using assms(4) by (blast intro: minted_below_mono order_trans)
  qed
  moreover have "distinct (map u_id (units st))" using ok by (simp add: lines_ok_def)
  ultimately show ?thesis
    unfolding lines_ok_def assms(2) map_append distinct_append set_append set_map ball_Un using new(2) by blast
qed

lemma lines_ok_update:
  assumes ok: "lines_ok env st" and up: "updateUnit i v f st = Some st'"
    and f: "\<And>u. u_id (f u) = u_id u \<and> u_version (f u) = u_version u"
  shows "lines_ok env st'"
proof -
  obtain us where us: "find_and_update (\<lambda>u. u_id u = i \<and> u_recordVersion u = v)
      (\<lambda>u. (f u)\<lparr> u_recordVersion := v + 1 \<rparr>) (units st) = Some us" "st' = st\<lparr> units := us \<rparr>"
    using up by (auto simp: updateUnit_def)
  have "map u_id us = map u_id (units st) \<and> map u_version us = map u_version (units st)"
    using find_and_update_SomeD [OF us(1)] f by auto
  moreover have "lines_ok env st \<longleftrightarrow> distinct (map u_id (units st)) \<and> (\<forall>i \<in> set (map u_id (units st)). minted_below env (used_ids st) i)
     \<and> (\<forall>v \<in> set (map u_version (units st)). v \<le> length (snapshots st))" for st
    by (auto simp: lines_ok_def)
  ultimately show ?thesis using ok us(2) by (simp del: set_map)
qed

lemma updateSnapshot_length: "updateSnapshot i v f st = Some st' \<Longrightarrow> length (snapshots st') = length (snapshots st)"
  by (auto simp: updateSnapshot_def dest!: find_and_update_SomeD)

lemma snapshots_length [simp]:
  "length (snapshots (recalculate env w t st)) = length (snapshots st)"
  "length (snapshots (write_snapshot t v f st)) = length (snapshots st)"
  by (auto simp: recalculate_def write_snapshot_def Let_def updateSnapshot_length split: option.split)

lemma lines_ok_recalculate [simp]: "lines_ok env' st \<Longrightarrow> lines_ok env' (recalculate env w t st)"
  by (erule lines_ok_mono) simp_all

lemma new_units_ids: "length is = length ds \<Longrightarrow> map u_id (new_units v n p is ds) = is"
proof -
  assume l: "length is = length ds"
  let ?kd = "zip [Suc n..<Suc n + length ds] ds"
  have "map u_id (new_units v n p is ds) = map fst (zip is ?kd)"
    by (auto simp: new_units_def unit_of_draft_def)
  also have "\<dots> = is" using l by (intro map_fst_zip) (simp del: upt_Suc)
  finally show ?thesis .
qed

lemma new_units_version: "u \<in> set (new_units v n p is ds) \<Longrightarrow> u_version u = v"
  by (auto simp: new_units_def unit_of_draft_def)

lemma lines_ok_fresh:
  assumes "lines_ok env st" "fresh_source env" "units st' = units st @ new" "used_ids st + n \<le> used_ids st'"
    "length (snapshots st) \<le> length (snapshots st')" "map u_id new = fresh_ids (est_mint env) p n st"
    "\<And>u. u \<in> set new \<Longrightarrow> u_version u \<le> length (snapshots st')"
  shows "lines_ok env st'"
  using lines_ok_append [OF assms(1,3,4,5,2,6)] assms(7) by blast

lemma generate_lines_ok:
  assumes ok: "lines_ok env st" and fresh: "fresh_source env" and v: "s_version s \<le> length (snapshots st)"
  shows "lines_ok env (fst (generate env w s ps st))"
proof (cases "up_baseline (upstream_of w st) = None \<or> up_stack (upstream_of w st) = None")
  case False
  then obtain b k where bk: "up_baseline (upstream_of w st) = Some b" "up_stack (upstream_of w st) = Some k" by auto
  let ?pre = "preserved_units (s_version s) st"
  let ?drafts = "generated_drafts w (up_context (upstream_of w st)) ps (bl_itemIds b) ?pre"
  define st1 where "st1 = deleteReplaceableDependencies (s_version s) (deleteReplaceableUnits (s_version s) st)"
  let ?n = "length ?drafts"
  let ?new = "new_units (s_version s) (length ?pre) (ps \<noteq> []) (fresh_ids (est_mint env) ''est'' ?n st1) ?drafts"
  let ?st2 = "insertUnits ?new (spend_ids ?n st1)"
  have ok1: "lines_ok env st1"
    by (rule lines_ok_subset [OF ok]) (simp_all add: st1_def deleteReplaceableUnits_def deleteReplaceableDependencies_def)
  have "map u_id ?new = fresh_ids (est_mint env) ''est'' ?n st1"
    by (rule new_units_ids) (simp add: fresh_ids_facts(2) [OF fresh])
  moreover have "snapshots st1 = snapshots st" by (simp add: st1_def)
  ultimately have ok2: "lines_ok env ?st2"
    using v by (intro lines_ok_fresh [OF ok1 fresh]) (auto dest: new_units_version)
  then have ok3: "lines_ok env (generateDependencies env (s_version s) ?st2)"
    by (rule lines_ok_mono) (simp_all add: generateDependencies_def Let_def)
  have "fst (generate env w s ps st) = (if maxEstimateUnits < length ?pre + ?n then st1
      else (case currentSnapshot (generateDependencies env (s_version s) ?st2) of
              None \<Rightarrow> generateDependencies env (s_version s) ?st2
            | Some cur \<Rightarrow> recalculate env w cur (generateDependencies env (s_version s) ?st2)))"
    by (simp add: generate_def Let_def bk flip: st1_def)
  then show ?thesis using ok1 ok3 by (simp split: option.split)
qed (use ok in \<open>auto simp: generate_def Let_def split: option.splits\<close>)

lemma run_lines_ok:
  assumes ok: "lines_ok env st" and fresh: "fresh_source env" and h: "history_ok env st"
  shows "lines_ok env (fst (run_estimation env w ai cfg out ver st))"
proof -
  have v: "s_version s \<le> length (snapshots st)" if "editable ver st = Inr s" for s
    using editable_SomeD [OF that] current_last [OF h, of s] history_snoc(3) [OF h] by force
  have ok1: "lines_ok env (createRun r (spend_ids 1 st))" for r
    by (rule lines_ok_mono [OF ok]) simp_all
  then have "lines_ok env (fst (generate env w s ps (createRun r (spend_ids 1 st))))"
    if "editable ver st = Inr s" for s ps r
    using v [OF that] by (intro generate_lines_ok fresh) simp_all
  moreover have "lines_ok env st' \<Longrightarrow> lines_ok env (updateRun i f st')" for st' i f
    by (erule lines_ok_mono) simp_all
  ultimately show ?thesis
    using ok ok1 unfolding run_estimation_def Let_def by (auto split: sum.split option.split)
qed

lemma carried_ids: "length is = length us \<Longrightarrow> map u_id (map (\<lambda>(i, u). u\<lparr>u_id := i, u_version := v, u_recordVersion := 0,
      u_overheadActivity := e u, u_overrideNote := f u, u_exclusionReason := g u\<rparr>) (zip is us)) = is"
  by (simp add: comp_def case_prod_beta map_fst_zip [unfolded comp_def])

lemma reopen_lines_ok:
  assumes ok: "lines_ok env st" and fresh: "fresh_source env" and h: "history_ok env st"
  shows "lines_ok env (fst (reopen env w ver st))"
proof (cases "versioned ver st")
  case (Inr s)
  let ?v = "nextSnapshotVersion st" and ?m = "est_mint env"
  let ?n = "length (listUnits (s_version s) st)"
  have ids: "map u_id (carried_units ?m (s_version s) ?v st) = fresh_ids ?m ''est'' ?n st"
    unfolding carried_units_def Let_def by (rule carried_ids) (simp add: fresh_ids_def)
  have ver: "u_version u = ?v" if "u \<in> set (carried_units ?m (s_version s) ?v st)" for u
    using that by (auto simp: carried_units_def Let_def)
  have v: "?v = Suc (length (snapshots st))" using current_of_history(3) [OF h] .
  show ?thesis
  proof (cases "s_status s \<in> {E_APPROVED, E_OUTDATED}")
    case True
    show ?thesis
      using True ver v
      by (intro lines_ok_fresh [OF ok fresh _ _ _ ids])
        (auto simp: reopen_def Inr Let_def carryUnitsForward_def carryDependenciesForward_def supersedeSnapshots_def)
  qed (use ok in \<open>simp add: reopen_def Inr\<close>)
qed (use ok in \<open>simp add: reopen_def\<close>)

lemma op_lines_ok:
  assumes ok: "lines_ok env st" and fresh: "fresh_source env" and h: "history_ok env st"
  shows "lines_ok env (fst (perform_op env w op st))"
proof (cases op)
  case Op_read
  then show ?thesis using ok
    by (auto simp: readCurrent_def createInitial_def Let_def split: option.split intro: lines_ok_mono)
next
  case (Op_run ai cfg out ver)
  then show ?thesis using run_lines_ok [OF assms] by simp
next
  case (Op_override i rq ver)
  have "lines_ok env st1" if "updateUnit i v (overridden rq) st = Some st1" for v st1
    by (rule lines_ok_update [OF ok that]) (simp add: overridden_def Let_def)
  then show ?thesis using ok by (auto simp: Op_override overrideEstimate_def split: sum.split option.split)
next
  case (Op_reset i ver)
  have "lines_ok env st1" if "updateUnit i v (\<lambda>d. reset_unit d e) st = Some st1" for v e st1
    by (rule lines_ok_update [OF ok that]) (simp add: reset_unit_def Let_def)
  then have "lines_ok env (or_else (updateUnit i v (\<lambda>d. reset_unit d e) st) st)" for v e
    using ok by (auto simp: or_else_def split: option.split)
  then show ?thesis using ok by (auto simp: Op_reset resetEstimate_def split: sum.split option.split)
next
  case (Op_manual rq ver)
  have v: "s_version s \<le> length (snapshots st)" if "editable ver st = Inr s" for s
    using editable_SomeD [OF that] current_last [OF h, of s] history_snoc(3) [OF h] by force
  have "lines_ok env (insertUnits [manual_unit (s_version s) (hd (fresh_ids (est_mint env) ''est'' 1 st)) n rq] (spend_ids 1 st))"
    if "editable ver st = Inr s" for s n
  proof (rule lines_ok_fresh [OF ok fresh, where n = 1 and p = "''est''"])
    let ?u = "manual_unit (s_version s) (hd (fresh_ids (est_mint env) ''est'' 1 st)) n rq"
    show "units (insertUnits [?u] (spend_ids 1 st)) = units st @ [?u]" by simp
    show "map u_id [?u] = fresh_ids (est_mint env) ''est'' 1 st"
      by (simp add: manual_unit_def Let_def fresh_ids_def)
    show "u_version u \<le> length (snapshots (insertUnits [?u] (spend_ids 1 st)))" if "u \<in> set [?u]" for u
      using that v [OF \<open>editable ver st = Inr s\<close>] by (simp add: manual_unit_def Let_def)
  qed simp_all
  then show ?thesis using ok
    by (auto simp: Op_manual addManual_def Let_def split: sum.split option.split)
next
  case (Op_addDependency rq ver)
  have "lines_ok env (insertDependencies ds (spend_ids 1 st))" for ds by (rule lines_ok_mono [OF ok]) simp_all
  then show ?thesis using ok by (auto simp: Op_addDependency addDependency_def Let_def split: sum.split)
next
  case (Op_removeDependency i ver)
  have "lines_ok env st1" if "deleteDependency i st = Some st1" for st1
    by (rule lines_ok_mono [OF ok]) (use that in \<open>auto simp: deleteDependency_def\<close>)
  then show ?thesis using ok by (auto simp: Op_removeDependency removeDependency_def split: sum.split option.split)
next
  case (Op_reopen ver)
  then show ?thesis using reopen_lines_ok [OF assms] by simp
next
  case (Op_approve n ver)
  have "lines_ok env st1" if "updateSnapshot i v f st = Some st1" for i v f st1
    using updateSnapshot_frame [OF that] updateSnapshot_length [OF that] by (intro lines_ok_mono [OF ok]) simp_all
  then show ?thesis using ok by (auto simp: Op_approve approve_def Let_def split: sum.split option.split)
qed (use lines_ok_mono [OF ok, of "write_snapshot _ _ _ st"] ok in \<open>auto simp: setCalendar_def setTeam_def
    setExistingSystem_def recalculateSchedule_def acknowledgeRisk_def Let_def split: sum.split\<close>)

end
