(* ===== verification/EstimationGuarantees.thy ===== *)
theory EstimationGuarantees
  imports EstimationFacts
begin

text \<open>
  What the estimation service guarantees, over any history of its operations: a figure a person set
  survives, versions are numbered and superseded in order, what was approved stays what it was,
  approval is gated and can be reached, and reopening carries the plan forward. The last section
  evaluates each on one small project.
\<close>

section \<open>A figure a person set survives\<close>

text \<open>
  Property C6. No history of operations, re-estimations by a model, approvals and reopenings
  included, changes or removes a line a person authored, unless one of them edits or resets that
  very line.
\<close>
theorem overrides_survive:
  assumes "u \<in> set (units st)" and "isUserAuthored (u_source u)"
    and "list_all (\<lambda>(w, op). \<not> targets_unit (u_id u) op) ops"
  shows "u \<in> set (units (est_history env ops st))"
  using assms(3)
proof (induction ops rule: rev_induct)
  case Nil
  then show ?case using assms(1) by (simp add: est_history_def)
next
  case (snoc x ops)
  obtain w op where x: "x = (w, op)" by (cases x)
  have "u_source u = USER_OVERRIDE" using assms(2) by (simp add: isUserAuthored_def USER_AUTHORED_SOURCES_def)
  with snoc show ?case by (simp add: x est_history_snoc op_keeps_override)
qed

section \<open>Versions\<close>

lemma advances_core:
  "advances s s' \<Longrightarrow> s_status s = E_APPROVED \<Longrightarrow> approved_core s' = approved_core s \<and> s_status s' = E_APPROVED"
  using approved_core_status [of s' s] by (auto simp: advances_def)

lemma core_superseded: "approved_core (superseded v s) = superseded v (approved_core s)"
  by (simp add: approved_core_def superseded_def)

text \<open>Once approved, a version stays as it is, or as it is but superseded.\<close>

definition keeps_approved :: "snapshot_doc \<Rightarrow> est_store \<Rightarrow> bool" where
  "keeps_approved s st \<longleftrightarrow>
     (\<exists>us s'. snapshots st = us @ [s'] \<and> approved_core s' = approved_core s)
     \<or> (\<exists>x v. x \<in> set (butlast (snapshots st)) \<and> approved_core x = superseded v (approved_core s))"

lemma op_butlast:
  assumes "history_ok env st" "x \<in> set (butlast (snapshots st))"
  shows "x \<in> set (butlast (snapshots (fst (perform_op env w op st))))"
proof -
  from assms(2) obtain us s where h2: "snapshots st = us @ [s]" by (cases "snapshots st" rule: rev_cases) auto
  note h = assms(1) h2
  have x: "x \<in> set us" using assms(2) h2 by simp
  show ?thesis
  proof (cases "\<exists>v. op = Op_reopen v")
    case False
    then obtain s' where "snapshots (fst (perform_op env w op st)) = us @ [s']"
      using op_advances [OF h, of op env w] by blast
    then show ?thesis using x by simp
  next
    case True
    then obtain ver where op: "op = Op_reopen ver" by blast
    show ?thesis using reopen_snapshots [OF h, of env w ver] x h2 by (auto simp: op butlast_append)
  qed
qed

lemma op_keeps_approved:
  assumes h: "history_ok env st" and a: "s_status s = E_APPROVED" and k: "keeps_approved s st"
  shows "keeps_approved s (fst (perform_op env w op st))"
  using k [unfolded keeps_approved_def]
proof (elim disjE exE conjE)
  fix x v
  assume "x \<in> set (butlast (snapshots st))" "approved_core x = superseded v (approved_core s)"
  then show "keeps_approved s (fst (perform_op env w op st))"
    using op_butlast [OF h, of x w op] by (auto simp: keeps_approved_def)
next
  fix us s'
  assume st: "snapshots st = us @ [s']" and c: "approved_core s' = approved_core s"
  then have a': "s_status s' = E_APPROVED" using approved_core_status [OF c] a by simp
  show "keeps_approved s (fst (perform_op env w op st))"
  proof (cases "\<exists>v. op = Op_reopen v")
    case False
    then obtain s2 where "snapshots (fst (perform_op env w op st)) = us @ [s2]" "advances s' s2"
      using op_advances [OF h st, of op env w] by blast
    then show ?thesis using advances_core [OF _ a'] c by (auto simp: keeps_approved_def)
  next
    case True
    then obtain ver where op: "op = Op_reopen ver" by blast
    show ?thesis
      using reopen_snapshots [OF h st, of env w ver] c core_superseded [of _ s'] st
      by (fastforce simp: op keeps_approved_def butlast_append)
  qed
qed

lemma history_keeps_approved:
  assumes "history_ok env st" "fresh_source env" "s_status s = E_APPROVED" "keeps_approved s st"
  shows "keeps_approved s (est_history env ops st)"
proof (induction ops rule: rev_induct)
  case Nil
  then show ?case using assms(4) by (simp add: est_history_def)
next
  case (snoc x ops)
  obtain w op where x: "x = (w, op)" by (cases x)
  show ?case
    using snoc op_keeps_approved [OF est_history_ok [OF assms(1,2)] assms(3)] by (simp add: x est_history_snoc)
qed


section \<open>Approval\<close>

definition gate_input :: "est_env \<Rightarrow> world \<Rightarrow> est_store \<Rightarrow> snapshot_doc \<Rightarrow> estimate_blocker_input" where
  "gate_input env w st s = blocker_input w st s (feasibility_status (pl_feasibility (assemble env w st s)))"

lemma assemble_blockers: "pl_blockers (assemble env w st s) = calculateEstimateBlockers (gate_input env w st s)"
  by (simp add: gate_input_def assemble_def Let_def)

lemma gate_estimates: "estimates (gate_input env w st s) = map view_line (listUnits (s_version s) st)"
  by (simp add: gate_input_def blocker_input_def Let_def)


definition approval_open :: "est_env \<Rightarrow> world \<Rightarrow> nat \<Rightarrow> est_store \<Rightarrow> snapshot_doc \<Rightarrow> bool" where
  "approval_open env w ver st s \<longleftrightarrow>
     s_recordVersion s = ver \<and> s_status s \<in> {E_DRAFT, E_REVIEW_REQUIRED, E_READY_FOR_APPROVAL}
     \<and> calculateEstimateBlockers (gate_input env w st s) = []
     \<and> list_ex (\<lambda>u. \<not> u_excluded u) (listUnits (s_version s) st)"

definition approved_as :: "plan \<Rightarrow> string option \<Rightarrow> snapshot_doc \<Rightarrow> snapshot_doc" where
  "approved_as p note s = s\<lparr> s_status := E_APPROVED, s_plan := p,
     s_approvalNote := given_text note (s_approvalNote s), s_recordVersion := s_recordVersion s + 1 \<rparr>"

text \<open>
  Property C8. Approval is gated and freezes what it judged. Approving succeeds exactly when the
  caller has read the latest record of a version not yet approved and every condition of the gate
  holds at that moment of the stored lines, dependencies, project, baseline and stack. The current
  version then is the one read, approved, holding exactly the plan computed from them; otherwise
  nothing is written.
\<close>
theorem approval_is_gated:
  assumes "history_ok env st" and "currentSnapshot st = Some s"
  shows "(snd (approve env w note ver st) = None) = approval_open env w ver st s
    \<and> (if approval_open env w ver st s
       then currentSnapshot (fst (approve env w note ver st)) = Some (approved_as (assemble env w st s) note s)
       else fst (approve env w note ver st) = st)"
proof -
  obtain us where us: "snapshots st = us @ [s]" using current_last [OF assms(1,2)] by blast
  note h = assms(1) us
  let ?s' = "approved_as (assemble env w st s) note s"
  have "list_ex (\<lambda>e. \<not> el_excluded e) (map view_line us) = list_ex (\<lambda>u. \<not> u_excluded u) us" for us
    by (induction us) (simp_all add: view_line_def)
  then have gate: "canApproveEstimate (s_status s) (pl_blockers (assemble env w st s)) (map view_line (listUnits (s_version s) st))
      \<and> s_recordVersion s = ver \<longleftrightarrow> approval_open env w ver st s"
    by (auto simp: approval_open_def canApproveEstimate_def assemble_blockers)
  have opened: "approve env w note ver st = (st\<lparr> snapshots := us @ [?s'] \<rparr>, None)" if "approval_open env w ver st s"
    using that gate assms(2) update_current [OF h]
    by (auto simp: approve_def versioned_def Let_def approved_as_def approval_open_def)
  have shut: "fst (approve env w note ver st) = st \<and> snd (approve env w note ver st) \<noteq> None" if "\<not> approval_open env w ver st s"
    using that gate assms(2) by (auto simp: approve_def versioned_def Let_def)
  have "history_ok env (st\<lparr> snapshots := us @ [?s'] \<rparr>)"
    by (rule history_replace [OF h, where s' = ?s']) (simp_all add: approved_as_def)
  then have "currentSnapshot (st\<lparr> snapshots := us @ [?s'] \<rparr>) = Some ?s'"
    by (rule current_of_history(2)) simp
  then show ?thesis using opened shut by auto
qed

lemma assemble_cong:
  assumes "listUnits (s_version s) st' = listUnits (s_version s) st"
    and "listDependencies (s_version s) st' = listDependencies (s_version s) st"
    and "upstream_of w st' = upstream_of w st"
    and "s_version s' = s_version s" "s_calendar s' = s_calendar s" "s_team s' = s_team s"
      "s_existingSystem s' = s_existingSystem s"
  shows "assemble env w st' s' = (assemble env w st s)\<lparr> pl_blockers :=
      calculateEstimateBlockers ((gate_input env w st s)\<lparr> riskAcknowledgedStatus := s_riskAcknowledgedStatus s' \<rparr>) \<rparr>"
  using assms by (simp add: assemble_def Let_def gate_input_def blocker_input_def)

text \<open>Acknowledging the present status takes the last blocker away and touches no other.\<close>

lemma risk_blocker_last:
  "calculateEstimateBlockers inp = calculateEstimateBlockers (inp\<lparr> riskAcknowledgedStatus := Some (feasibilityStatus inp) \<rparr>)
   \<or> calculateEstimateBlockers inp =
       calculateEstimateBlockers (inp\<lparr> riskAcknowledgedStatus := Some (feasibilityStatus inp) \<rparr>)
         @ [blocker unacknowledged_risk 1 []]"
  by (simp add: calculateEstimateBlockers_def Let_def uncovered_requirements_def)

lemma eb_kind_blocker [simp]: "eb_kind (blocker k n is) = k"
  by (simp add: blocker_def)

lemma acknowledged_no_risk_blocker:
  assumes "feasibilityNeedsAcknowledgement (feasibilityStatus inp) \<longrightarrow> riskAcknowledgedStatus inp = Some (feasibilityStatus inp)"
  shows "unacknowledged_risk \<notin> set (map eb_kind (calculateEstimateBlockers inp))"
proof -
  have "\<not> (feasibilityNeedsAcknowledgement (feasibilityStatus inp) \<and> riskAcknowledgedStatus inp \<noteq> Some (feasibilityStatus inp))"
    using assms by blast
  then show ?thesis
    unfolding calculateEstimateBlockers_def Let_def by auto
qed

lemma only_risk:
  assumes "map eb_kind (calculateEstimateBlockers inp) = [unacknowledged_risk]"
  shows "calculateEstimateBlockers (inp\<lparr> riskAcknowledgedStatus := Some (feasibilityStatus inp) \<rparr>) = []"
    and "feasibilityNeedsAcknowledgement (feasibilityStatus inp)"
proof -
  let ?pre = "calculateEstimateBlockers (inp\<lparr> riskAcknowledgedStatus := Some (feasibilityStatus inp) \<rparr>)"
  have "unacknowledged_risk \<notin> set (map eb_kind ?pre)" by (rule acknowledged_no_risk_blocker) simp
  then show "?pre = []" using risk_blocker_last [of inp] assms by auto
  show "feasibilityNeedsAcknowledgement (feasibilityStatus inp)"
    using acknowledged_no_risk_blocker [of inp] assms by auto
qed

text \<open>
  Property C30. A risky plan is never a dead end. If the only thing between the current version and
  approval is a risk nobody has acknowledged, then acknowledging it succeeds, and approving right
  after, with the record version the acknowledgement left, succeeds too.
\<close>
theorem acknowledged_plan_can_be_approved:
  assumes "history_ok env st" and "currentSnapshot st = Some s"
    and "s_status s \<in> {E_DRAFT, E_REVIEW_REQUIRED, E_READY_FOR_APPROVAL}"
    and "list_ex (\<lambda>u. \<not> u_excluded u) (listUnits (s_version s) st)"
    and "map eb_kind (pl_blockers (assemble env w st s)) = [unacknowledged_risk]"
  shows "snd (acknowledgeRisk env w n (s_recordVersion s) st) = None
    \<and> snd (approve env w m (s_recordVersion s + 1) (fst (acknowledgeRisk env w n (s_recordVersion s) st))) = None"
proof -
  obtain us where us: "snapshots st = us @ [s]" using current_last [OF assms(1,2)] by blast
  note h = assms(1) us
  let ?status = "feasibility_status (pl_feasibility (assemble env w st s))"
  let ?s' = "s\<lparr> s_riskAcknowledgedStatus := Some ?status,
      s_riskAcknowledgementNote := given_text n (s_riskAcknowledgementNote s), s_recordVersion := s_recordVersion s + 1 \<rparr>"
  let ?st' = "st\<lparr> snapshots := us @ [?s'] \<rparr>"
  have ns: "s_status s \<noteq> E_APPROVED" "s_status s \<noteq> E_SUPERSEDED" using assms(3) by auto
  have fs: "feasibilityStatus (gate_input env w st s) = ?status" by (simp add: gate_input_def blocker_input_def Let_def)
  have kinds: "map eb_kind (calculateEstimateBlockers (gate_input env w st s)) = [unacknowledged_risk]"
    using assms(5) by (simp only: assemble_blockers)
  have risky: "feasibilityNeedsAcknowledgement ?status" using only_risk(2) [OF kinds] by (simp only: fs)
  have ack: "acknowledgeRisk env w n (s_recordVersion s) st = (?st', None)"
    using assms(2) ns risky update_current [OF h]
    by (simp add: acknowledgeRisk_def editable_def Let_def write_snapshot_def)
  have h': "history_ok env ?st'" by (rule history_replace [OF h, where s' = ?s']) (simp_all add: ns)
  then have cur: "currentSnapshot ?st' = Some ?s'" by (rule current_of_history(2)) simp
  have "upstream_of w ?st' = upstream_of w st" using cur assms(2) by (simp add: upstream_of_def Let_def split: option.split)
  then have asm: "assemble env w ?st' ?s' = (assemble env w st s)\<lparr> pl_blockers :=
      calculateEstimateBlockers ((gate_input env w st s)\<lparr> riskAcknowledgedStatus := Some ?status \<rparr>) \<rparr>"
    by (subst assemble_cong [of s _ st]) (simp_all add: listUnits_def listDependencies_def)
  have "calculateEstimateBlockers ((gate_input env w st s)\<lparr> riskAcknowledgedStatus := Some ?status \<rparr>) = []"
    using only_risk(1) [OF kinds] by (simp only: fs)
  then have none: "pl_blockers (assemble env w ?st' ?s') = []" unfolding asm by simp
  have ex: "list_ex (\<lambda>e. \<not> el_excluded e) (map view_line (listUnits (s_version s) ?st'))"
    using assms(4) by (auto simp: list_ex_iff view_line_def listUnits_def)
  have up: "updateSnapshot (s_id s) (s_recordVersion s + 1) f ?st'
      = Some (?st'\<lparr> snapshots := us @ [(f ?s')\<lparr> s_recordVersion := s_recordVersion s + 1 + 1 \<rparr>] \<rparr>)" for f
    using update_current [OF h', of us ?s' f] by simp
  have "snd (approve env w m (s_recordVersion s + 1) ?st') = None"
    using cur ns assms(3) none ex up
    by (simp add: approve_def versioned_def Let_def canApproveEstimate_def)
  then show ?thesis by (simp add: ack)
qed

section \<open>Reopening\<close>

lemma est_lines_ok:
  assumes "fresh_source env"
  shows "lines_ok env (est_history env ops empty_store)"
proof (induction ops rule: rev_induct)
  case Nil
  then show ?case by (simp add: est_history_def lines_ok_def empty_store_def)
next
  case (snoc x ops)
  obtain w op where x: "x = (w, op)" by (cases x)
  show ?case using snoc op_lines_ok [OF _ assms est_history_ok [OF history_ok_empty assms]]
    by (simp add: x est_history_snoc)
qed

lemma sorted_listUnits: "sorted (map u_key (listUnits v st))"
  by (simp add: listUnits_def)

lemma mset_listUnits: "mset (listUnits v st) = mset (filter (\<lambda>u. u_version u = v) (units st))"
  by (simp add: listUnits_def)

definition copied_unit :: "string \<Rightarrow> nat \<Rightarrow> unit_doc \<Rightarrow> unit_doc" where
  "copied_unit i v u = u\<lparr> u_id := i, u_version := v, u_recordVersion := 0,
     u_overheadActivity := (if u_overheadActivity u = Some [] then None else u_overheadActivity u),
     u_overrideNote := (if u_overrideNote u = Some [] then None else u_overrideNote u),
     u_exclusionReason := (if u_exclusionReason u = Some [] then None else u_exclusionReason u) \<rparr>"

lemma carried_as_map:
  assumes "distinct (map u_id (listUnits a st))"
  shows "carried_units m a b st = map (\<lambda>u. copied_unit (the (map_of (carry_map m a st) (u_id u))) b u) (listUnits a st)"
proof -
  let ?us = "listUnits a st" and ?is = "fresh_ids m ''est'' (length (listUnits a st)) st"
  have "zip ?is ?us = map (\<lambda>u. (the (map_of (zip (map u_id ?us) ?is) (u_id u)), u)) ?us"
  proof (rule nth_equalityI)
    fix i assume i: "i < length (zip ?is ?us)"
    then have "map_of (zip (map u_id ?us) ?is) (map u_id ?us ! i) = Some (?is ! i)"
      using assms by (intro map_of_zip_nth) (auto simp: fresh_ids_def)
    then show "zip ?is ?us ! i = map (\<lambda>u. (the (map_of (zip (map u_id ?us) ?is) (u_id u)), u)) ?us ! i"
      using i by (simp add: fresh_ids_def)
  qed (simp add: fresh_ids_def)
  then show ?thesis by (simp add: carried_units_def carry_map_def Let_def copied_unit_def comp_def)
qed

lemma sort_copies: "sorted (map u_key us) \<Longrightarrow> sort_key u_key (map (\<lambda>u. copied_unit (f u) v u) us) = map (\<lambda>u. copied_unit (f u) v u) us"
  by (rule sort_key_id_if_sorted) (simp add: copied_unit_def comp_def)


definition deps_ok :: "est_store \<Rightarrow> bool" where
  "deps_ok st \<longleftrightarrow> (\<forall>d \<in> set (deps st). dd_version d \<le> length (snapshots st))"

lemma deps_ok_extend:
  assumes "deps_ok st" "set (deps st') \<subseteq> set (deps st) \<union> {d. dd_version d \<le> length (snapshots st')}"
    "length (snapshots st) \<le> length (snapshots st')"
  shows "deps_ok st'"
  using assms by (fastforce simp: deps_ok_def)

lemma op_length:
  assumes "history_ok env st"
  shows "length (snapshots st) \<le> length (snapshots (fst (perform_op env w op st)))"
proof (cases "snapshots st" rule: rev_cases)
  case (snoc us s)
  note h = assms snoc
  show ?thesis
  proof (cases "\<exists>v. op = Op_reopen v")
    case False
    then show ?thesis using op_advances [OF h, of op env w] snoc by auto
  next
    case True
    then obtain v where "op = Op_reopen v" by blast
    then show ?thesis using reopen_snapshots [OF h, of env w v] snoc by auto
  qed
qed simp

lemma generate_deps:
  "d \<in> set (deps (fst (generate env w s ps st))) \<Longrightarrow> d \<in> set (deps st) \<or> dd_version d = s_version s"
  by (auto simp: generate_def Let_def generateDependencies_def inferred_edge_def deleteReplaceableDependencies_def
      split: option.splits if_splits)

lemma current_version: "history_ok env st \<Longrightarrow> currentSnapshot st = Some s \<Longrightarrow> s_version s = length (snapshots st)"
  by (metis current_last history_snoc(3) length_append_singleton)

lemma editable_version: "history_ok env st \<Longrightarrow> editable v st = Inr s \<Longrightarrow> s_version s = length (snapshots st)"
  by (rule current_version) (auto simp: editable_def split: option.splits if_splits)

lemma versioned_version: "history_ok env st \<Longrightarrow> versioned v st = Inr s \<Longrightarrow> s_version s = length (snapshots st)"
  by (rule current_version) (auto simp: versioned_def split: option.splits if_splits)

lemma op_deps:
  assumes h: "history_ok env st" and d: "d \<in> set (deps (fst (perform_op env w op st)))"
    and nr: "\<forall>ver. op \<noteq> Op_reopen ver"
  shows "d \<in> set (deps st) \<or> dd_version d \<le> length (snapshots st)"
proof (cases op)
  case (Op_run ai cfg out ver)
  have "d \<in> set (deps st) \<or> dd_version d \<le> length (snapshots st)"
    if "d \<in> set (deps (fst (generate env w s ps (createRun r (spend_ids n st)))))" "editable ver st = Inr s" for s ps r n
    using generate_deps [OF that(1)] editable_version [OF h that(2)] by auto
  then show ?thesis using d
    by (auto simp: Op_run run_estimation_def Let_def split: sum.splits option.splits if_splits)
next
  case (Op_removeDependency i ver)
  have "set (deps st1) \<subseteq> set (deps st)" if "deleteDependency i st = Some st1" for st1
    using that by (auto simp: deleteDependency_def dest!: remove_first_SomeD)
  then show ?thesis using d by (auto simp: Op_removeDependency removeDependency_def split: sum.splits option.splits)
next
  case (Op_addDependency rq ver)
  then show ?thesis using d editable_version [OF h, of ver]
    by (auto simp: addDependency_def Let_def split: sum.splits if_splits)
next
  case (Op_override i rq ver)
  have "deps st1 = deps st" if "updateUnit i v f st = Some st1" for v f st1 using that by (auto simp: updateUnit_def)
  then show ?thesis using d by (auto simp: Op_override overrideEstimate_def split: sum.splits option.splits if_splits)
next
  case (Op_reset i ver)
  have "deps (or_else (updateUnit i v f st) st) = deps st" for v f by (auto simp: updateUnit_def or_else_def split: option.split)
  then show ?thesis using d by (auto simp: Op_reset resetEstimate_def split: sum.splits option.splits)
qed (use d nr in \<open>auto simp: readCurrent_def createInitial_def addManual_def setCalendar_def setTeam_def
    setExistingSystem_def recalculateSchedule_def acknowledgeRisk_def approve_def Let_def
    split: sum.splits option.splits if_splits dest!: updateSnapshot_frame\<close>)

lemma reopen_deps:
  assumes h: "history_ok env st" and d: "d \<in> set (deps (fst (reopen env w ver st)))"
  shows "d \<in> set (deps st) \<or> dd_version d \<le> length (snapshots (fst (reopen env w ver st)))"
  using d current_of_history(3) [OF h]
  by (auto simp: reopen_def Let_def carryDependenciesForward_def carryUnitsForward_def supersedeSnapshots_def
      createSnapshot_def insertDependencies_def insertUnits_def spend_ids_def split: sum.splits if_splits)

lemma op_deps_ok:
  assumes "history_ok env st" and "deps_ok st"
  shows "deps_ok (fst (perform_op env w op st))"
proof (rule deps_ok_extend [OF assms(2) _ op_length [OF assms(1)]], rule subsetI)
  fix d assume d: "d \<in> set (deps (fst (perform_op env w op st)))"
  show "d \<in> set (deps st) \<union> {d. dd_version d \<le> length (snapshots (fst (perform_op env w op st)))}"
  proof (cases "\<exists>ver. op = Op_reopen ver")
    case True
    then obtain ver where op: "op = Op_reopen ver" by blast
    show ?thesis using reopen_deps [OF assms(1), of d w ver] d by (auto simp: op)
  next
    case False
    then show ?thesis using op_deps [OF assms(1) d] op_length [OF assms(1), of w op] by force
  qed
qed

text \<open>What an edge says, without its identifier.\<close>

definition edge_content :: "Dependency \<Rightarrow> string \<times> string \<times> DependencyType \<times> DependencyReason \<times> int \<times> bool" where
  "edge_content d = (predecessorId d, successorId d, dep_type d, reason d, lagDays d, userDefined d)"

lemma est_deps_ok:
  assumes "fresh_source env"
  shows "deps_ok (est_history env ops empty_store)"
proof (induction ops rule: rev_induct)
  case Nil
  then show ?case by (simp add: est_history_def deps_ok_def empty_store_def)
next
  case (snoc x ops)
  obtain w op where x: "x = (w, op)" by (cases x)
  show ?case using snoc op_deps_ok [OF est_history_ok [OF history_ok_empty assms]]
    by (simp add: x est_history_snoc)
qed


text \<open>The edges of a version between its own lines.\<close>

definition plan_dependencies :: "nat \<Rightarrow> est_store \<Rightarrow> (string \<times> string \<times> DependencyType \<times> DependencyReason \<times> int \<times> bool) set" where
  "plan_dependencies v st =
     {e \<in> edge_content ` set (listDependencies v st).
        fst e \<in> u_id ` set (listUnits v st) \<and> fst (snd e) \<in> u_id ` set (listUnits v st)}"

text \<open>An edge with its two ends renamed.\<close>

definition renamed :: "(string \<Rightarrow> string) \<Rightarrow> string \<times> string \<times> 'a \<Rightarrow> string \<times> string \<times> 'a" where
  "renamed f e = (f (fst e), f (fst (snd e)), snd (snd e))"

lemma reopen_store:
  assumes "versioned ver st = Inr s" "snd (reopen env w ver st) = None" "history_ok env st"
  shows "units (fst (reopen env w ver st)) = units st @ carried_units (est_mint env) (s_version s) (nextSnapshotVersion st) st"
    and "deps (fst (reopen env w ver st)) =
      deps (carryDependenciesForward (est_mint env) (s_version s) (nextSnapshotVersion st)
        (carry_map (est_mint env) (s_version s) st) (carryUnitsForward (est_mint env) (s_version s) (nextSnapshotVersion st) st))"
  using assms(2) by (auto simp: reopen_def assms(1) Let_def supersedeSnapshots_def createSnapshot_def
      spend_ids_def carryDependenciesForward_def carryUnitsForward_def insertDependencies_def insertUnits_def split: if_splits)

lemma carried_deps:
  obtains js where "length js = length (filter (\<lambda>d. map_of im (predecessorId d) \<noteq> None \<and> map_of im (successorId d) \<noteq> None)
      (listDependencies a st))"
    and "deps (carryDependenciesForward m a b im (carryUnitsForward m a b' st)) = deps st @
      map (\<lambda>(i, d). \<lparr> dd_version = b, dd_dep = d\<lparr> dep_id := i, predecessorId := the (map_of im (predecessorId d)),
          successorId := the (map_of im (successorId d)) \<rparr> \<rparr>) (zip js
        (filter (\<lambda>d. map_of im (predecessorId d) \<noteq> None \<and> map_of im (successorId d) \<noteq> None) (listDependencies a st)))"
proof -
  let ?st = "carryUnitsForward m a b' st"
  let ?kept = "filter (\<lambda>d. map_of im (predecessorId d) \<noteq> None \<and> map_of im (successorId d) \<noteq> None) (listDependencies a st)"
  have 1: "deps ?st = deps st" by (simp add: carryUnitsForward_def)
  then have 2: "listDependencies a ?st = listDependencies a st" by (simp add: listDependencies_def)
  show ?thesis
  proof (rule that [of "fresh_ids m ''dep'' (length ?kept) ?st"])
    show "length (fresh_ids m ''dep'' (length ?kept) ?st) = length ?kept" by (simp add: fresh_ids_def)
  qed (simp add: carryDependenciesForward_def Let_def 1 2 del: not_None_eq)
qed

lemma map_of_zip_None: "length xs = length ys \<Longrightarrow> (map_of (zip xs ys) k \<noteq> None) = (k \<in> set xs)"
  by (metis domIff dom_map_of_zip)

lemma carried_edges:
  assumes "length ids = length kept"
  shows "edge_content ` set (map (\<lambda>(i, d). d\<lparr> dep_id := i, predecessorId := f (predecessorId d),
      successorId := f (successorId d) \<rparr>) (zip ids kept)) = renamed f ` edge_content ` set kept"
proof -
  have "edge_content ` set (map (\<lambda>(i, d). d\<lparr> dep_id := i, predecessorId := f (predecessorId d),
      successorId := f (successorId d) \<rparr>) (zip ids kept)) = (\<lambda>x. renamed f (edge_content (snd x))) ` set (zip ids kept)"
    unfolding set_map image_image by (rule image_cong) (auto simp: edge_content_def renamed_def)
  also have "\<dots> = (\<lambda>d. renamed f (edge_content d)) ` set (map snd (zip ids kept))" by (simp add: image_image)
  also have "map snd (zip ids kept) = kept" using assms by simp
  finally show ?thesis by (simp add: image_image)
qed

section \<open>The invariant of the store\<close>

definition est_ok :: "est_env \<Rightarrow> est_store \<Rightarrow> bool" where
  "est_ok env st \<longleftrightarrow> history_ok env st \<and> lines_ok env st \<and> deps_ok st"


text \<open>
  Property C15. Reopening an approved plan loses nothing and touches nothing. Renaming the lines of
  the approved version by an injective function gives the lines of the new version, in the same
  order and otherwise unchanged, and maps its dependencies onto those of the new version; the lines
  and dependencies of the approved version are what they were.
\<close>
theorem reopen_carries_forward:
  assumes "fresh_source env" and "est_ok env st"
    and "currentSnapshot st = Some s" and "snd (reopen env w ver st) = None"
  shows "\<exists>f. inj_on f (u_id ` set (listUnits (s_version s) st))
    \<and> listUnits (Suc (s_version s)) (fst (reopen env w ver st))
        = map (\<lambda>u. copied_unit (f (u_id u)) (Suc (s_version s)) u) (listUnits (s_version s) st)
    \<and> plan_dependencies (Suc (s_version s)) (fst (reopen env w ver st))
        = renamed f ` plan_dependencies (s_version s) st
    \<and> listUnits (s_version s) (fst (reopen env w ver st)) = listUnits (s_version s) st
    \<and> listDependencies (s_version s) (fst (reopen env w ver st)) = listDependencies (s_version s) st"
proof -
  have h: "history_ok env st" and l: "lines_ok env st" and d: "deps_ok st"
    using assms(2) by (simp_all add: est_ok_def)
  have ver: "versioned ver st = Inr s" using assms(3,4) by (auto simp: versioned_def reopen_def split: if_splits)
  have v: "s_version s = length (snapshots st)" using versioned_version [OF h ver] .
  have v': "nextSnapshotVersion st = Suc (s_version s)" using current_of_history(3) [OF h] v by simp
  let ?us = "listUnits (s_version s) st" and ?m = "est_mint env" and ?st' = "fst (reopen env w ver st)"
  let ?ids = "fresh_ids ?m ''est'' (length ?us) st"
  let ?map = "carry_map ?m (s_version s) st"
  define f where "f k = the (map_of ?map k)" for k
  have map: "?map = zip (map u_id ?us) ?ids" by (simp add: carry_map_def Let_def)
  have len: "length ?ids = length ?us" by (simp add: fresh_ids_def)
  have dist: "distinct (map u_id ?us)"
    using l by (simp add: lines_ok_def distinct_map inj_on_def listUnits_def)
  have inj: "inj_on f (u_id ` set ?us)"
  proof -
    have "map f (map u_id ?us) = ?ids"
    proof (rule nth_equalityI)
      fix i assume "i < length (map f (map u_id ?us))"
      then show "map f (map u_id ?us) ! i = ?ids ! i"
        using map_of_zip_nth [of "map u_id ?us" ?ids i] dist len by (simp add: f_def map)
    qed (simp add: len)
    then have "distinct (map f (map u_id ?us))" using fresh_ids_facts(1) [OF assms(1)] by simp
    then show ?thesis by (simp add: distinct_map del: map_map)
  qed
  have us: "units ?st' = units st @ map (\<lambda>u. copied_unit (f (u_id u)) (Suc (s_version s)) u) ?us"
    using reopen_store(1) [OF ver assms(4) h] carried_as_map [OF dist] by (simp add: v' f_def)
  have none: "filter (\<lambda>u. u_version u = Suc (s_version s)) (units st) = []"
    using l v by (fastforce simp: lines_ok_def filter_empty_conv)
  have copies: "filter (\<lambda>u. u_version u = n) (map (\<lambda>u. copied_unit (f (u_id u)) (Suc (s_version s)) u) ?us)
      = (if n = Suc (s_version s) then map (\<lambda>u. copied_unit (f (u_id u)) (Suc (s_version s)) u) ?us else [])" for n
    by (auto simp: filter_map comp_def copied_unit_def)
  have new: "listUnits (Suc (s_version s)) ?st' = map (\<lambda>u. copied_unit (f (u_id u)) (Suc (s_version s)) u) ?us"
    unfolding listUnits_def [of "Suc (s_version s)" ?st'] us filter_append none copies
    using sort_copies [OF sorted_listUnits] by simp
  have old: "listUnits (s_version s) ?st' = ?us"
    unfolding listUnits_def [of "s_version s" ?st'] us filter_append copies by (simp add: listUnits_def [symmetric])
  let ?kept = "filter (\<lambda>d. map_of ?map (predecessorId d) \<noteq> None \<and> map_of ?map (successorId d) \<noteq> None)
     (listDependencies (s_version s) st)"
  obtain js where js: "length js = length ?kept" and ds: "deps ?st' = deps st @
      map (\<lambda>(i, d). \<lparr> dd_version = Suc (s_version s), dd_dep = d\<lparr> dep_id := i, predecessorId := f (predecessorId d),
          successorId := f (successorId d) \<rparr> \<rparr>) (zip js ?kept)"
    unfolding reopen_store(2) [OF ver assms(4) h] v' f_def
    by (rule carried_deps [of ?map "s_version s" st ?m "Suc (s_version s)" "Suc (s_version s)"])
  have nodeps: "filter (\<lambda>d. dd_version d = Suc (s_version s)) (deps st) = []"
    using d v by (fastforce simp: deps_ok_def filter_empty_conv)
  have "set (listDependencies (Suc (s_version s)) ?st') = set (map (\<lambda>(i, d). d\<lparr> dep_id := i,
      predecessorId := f (predecessorId d), successorId := f (successorId d) \<rparr>) (zip js ?kept))"
    by (force simp: listDependencies_def ds nodeps)
  then have edges: "edge_content ` set (listDependencies (Suc (s_version s)) ?st') = renamed f ` edge_content ` set ?kept"
    using carried_edges [OF js, of f] by simp
  have ends: "map_of ?map k \<noteq> None \<longleftrightarrow> k \<in> u_id ` set ?us" for k
    unfolding map using map_of_zip_None [of "map u_id ?us" ?ids k] len by simp
  have kept: "edge_content ` set ?kept = plan_dependencies (s_version s) st"
    unfolding plan_dependencies_def ends set_filter by (auto simp: edge_content_def)
  have ids': "u_id ` set (listUnits (Suc (s_version s)) ?st') = f ` u_id ` set ?us"
    unfolding new by (force simp: copied_unit_def)
  have "plan_dependencies (Suc (s_version s)) ?st' = renamed f ` plan_dependencies (s_version s) st"
    unfolding plan_dependencies_def [of "Suc (s_version s)"] edges kept ids'
    by (auto simp: plan_dependencies_def renamed_def)
  moreover have "listDependencies (s_version s) ?st' = listDependencies (s_version s) st"
    by (simp add: listDependencies_def ds comp_def case_prod_beta)
  ultimately show ?thesis using inj new old by blast
qed

section \<open>Witnesses\<close>

definition sample_env :: est_env where
  "sample_env = \<lparr> collate = (\<lambda>_ _. True), est_mint = (\<lambda>p n. replicate n CHR ''a'') \<rparr>"

definition sample_world :: world where
  "sample_world = \<lparr> w_baselines = [\<lparr> bl_id = ''b'', bl_version = 1, bl_status = BL_approved, bl_itemIds = [''r''] \<rparr>],
     w_stack = Some \<lparr> sk_id = ''k'', sk_version = 1, sk_locked = True \<rparr>, w_components = [], w_items = [],
     w_projectTypes = [], w_timeline = Some (WORKING_DAYS 10), w_startDate = None, w_teamCapacity = None \<rparr>"

definition sample_line :: "nat \<Rightarrow> bool \<Rightarrow> unit_doc" where
  "sample_line n out = \<lparr> u_id = replicate n CHR ''a'', u_version = 1, u_key = unit_key n, u_requirementIds = [''r''],
     u_module = ''m'', u_submodule = '''', u_feature = ''f'', u_taskCategory = testing, u_overheadActivity = None,
     u_complexity = TRIVIAL, u_complexityDrivers = [], u_uncertainty = U_LOW, u_uncertaintySources = [],
     u_effort = [(''QA'', 40)], u_totalHours = 40, u_range = \<lparr> optimistic = 30, expected = 40, conservative = 50 \<rparr>,
     u_drivers = [], u_source = USER_OVERRIDE, u_originalEffort = None, u_originalTotalHours = None,
     u_overrideNote = None, u_excluded = out, u_exclusionReason = None, u_recordVersion = 0 \<rparr>"

text \<open>Forty hours of testing, ten days to do them in, and a tester who is not available.\<close>

definition sample_snapshot :: "estimate_status \<Rightarrow> snapshot_doc" where
  "sample_snapshot status = \<lparr> s_id = '''', s_version = 1, s_status = status, s_baseline = Some (''b'', 1),
     s_stack = Some (''k'', 1), s_startDate = None, s_calendar = DEFAULT_CALENDAR,
     s_team = \<lparr> supplied = True, team_lines = [\<lparr> cl_role = ''QA'', cl_people = 0, productiveHoursPerDay = 6,
       workingDaysPerWeek = 5, availability = 1, availableFromDay = 0 \<rparr>] \<rparr>,
     s_existingSystem = NO_EXISTING_SYSTEM, s_plan = empty_plan, s_riskAcknowledgedStatus = None,
     s_riskAcknowledgementNote = None, s_approvalNote = None, s_supersededByVersion = None, s_recordVersion = 7 \<rparr>"

definition sample_edge :: dep_doc where
  "sample_edge = \<lparr> dd_version = 1, dd_dep = \<lparr> dep_id = ''d'', predecessorId = ''a'', successorId = ''aa'',
     dep_type = FINISH_TO_START, reason = test_target, lagDays = 0, userDefined = True, dep_note = None \<rparr> \<rparr>"

definition sample_store :: "estimate_status \<Rightarrow> unit_doc list \<Rightarrow> dep_doc list \<Rightarrow> est_store" where
  "sample_store status us ds = \<lparr> snapshots = [sample_snapshot status], units = us, deps = ds, runs = [], used_ids = 5 \<rparr>"

lemma sample_env_fresh: "fresh_source sample_env"
  by (auto simp: fresh_source_def sample_env_def dest: arg_cong [where f = length])

lemma sample_minted: "k < n \<Longrightarrow> minted_below sample_env n (replicate k CHR ''a'')"
  by (auto simp: minted_below_def sample_env_def)

lemma sample_history_ok: "status \<noteq> E_SUPERSEDED \<Longrightarrow> history_ok sample_env (sample_store status us ds)"
  using sample_minted [of 0 5] by (simp add: history_ok_def sample_store_def sample_snapshot_def)

lemma sample_current: "status \<noteq> E_SUPERSEDED \<Longrightarrow> currentSnapshot (sample_store status us ds) = Some (sample_snapshot status)"
  by (simp add: currentSnapshot_def newest_def sample_store_def sample_snapshot_def)

lemma sample_est_ok: "est_ok sample_env (sample_store E_APPROVED [sample_line 1 False, sample_line 2 True] [sample_edge])"
  using sample_history_ok [of E_APPROVED] sample_minted [of 1 5] sample_minted [of 2 5]
  by (simp add: numeral_2_eq_2 est_ok_def lines_ok_def deps_ok_def sample_store_def sample_line_def sample_edge_def)

lemma assemble_short:
  assumes "Option.bind (w_timeline w) (\<lambda>t. timelineWorkingDays t (s_calendar s) (concrete_start w)) = Some a"
    and "supplied (s_team s)"
    and "0 < totalGapHours (calculateCapacity \<lparr> plannedEffort = et_byRole (aggregateEffort
        (map (\<lambda>u. \<lparr> ec_range = u_range u, ec_byRole = u_effort u, ec_isImplementation = is_feature u \<rparr>)
          (filter (\<lambda>u. \<not> u_excluded u) (listUnits (s_version s) st)))),
      cap_team = s_team s, cap_calendar = s_calendar s, cap_availableWorkingDays = Some a \<rparr>)"
  shows "feasibility_status (pl_feasibility (assemble env w st s)) = NOT_FEASIBLE_WITH_CURRENT_CAPACITY"
proof -
  have "\<not> capacityUnknown (calculateCapacity inp)" if "cap_team inp = s_team s" for inp
    using assms(2) that by (simp add: calculateCapacity_def Let_def)
  then show ?thesis using assms(1,3) by (simp add: assemble_def Let_def assessFeasibility_def)
qed

lemma forty: "round_double 40 = 40" "to_fixed d 40 = 40" "round_double 0 = 0" "to_fixed d 0 = 0"
  using round_double_int [of 40] to_fixed_int [of 40] round_double_int [of 0] to_fixed_int [of 0] by simp_all

lemma sample_risky:
  "feasibility_status (pl_feasibility (assemble sample_env sample_world
     (sample_store E_REVIEW_REQUIRED [sample_line 1 False] []) (sample_snapshot E_REVIEW_REQUIRED)))
   = NOT_FEASIBLE_WITH_CURRENT_CAPACITY"
  by (rule assemble_short [of _ _ 10])
    (simp_all add: sample_world_def sample_snapshot_def sample_store_def sample_line_def listUnits_def
      concrete_start_def aggregateEffort_def Let_def sumRoleEffort_def calculateCapacity_def unique_def
      role_line_def hours_of_def available_for_def lineCapacityHours_def js_plus_def js_minus_def js_mult_def forty)

lemma no_edges_no_problems: "validateDependencies \<lparr> dependencies = [], taskIds = [''a''], excludedTaskIds = [] \<rparr> = []"
  by code_simp

lemma sample_blockers:
  "map eb_kind (pl_blockers (assemble sample_env sample_world
     (sample_store E_REVIEW_REQUIRED [sample_line 1 False] []) (sample_snapshot E_REVIEW_REQUIRED))) = [unacknowledged_risk]"
  unfolding assemble_blockers gate_input_def sample_risky blocker_input_def Let_def upstream_of_def
    sample_current [of E_REVIEW_REQUIRED, simplified]
  by (simp add: sample_world_def sample_store_def sample_snapshot_def sample_line_def
      listUnits_def listDependencies_def graph_of_def view_line_def calculateEstimateBlockers_def Let_def
      no_edges_no_problems isPlausibleHours_def MAXIMUM_FEATURE_HOURS_def uncovered_requirements_def feasibilityNeedsAcknowledgement_def
      ACKNOWLEDGEABLE_STATUSES_def validateDeadlineAgainstStart_def)


theorem overrides_survive_witness:
  "sample_line 1 False \<in> set (units (est_history sample_env
     [(sample_world, Op_run False False No_model 7), (sample_world, Op_reset ''aa'' 8), (sample_world, Op_approve None 9),
      (sample_world, Op_reopen 10)]
     (sample_store E_REVIEW_REQUIRED [sample_line 1 False] [])))"
  by (rule overrides_survive)
    (simp_all add: sample_store_def sample_line_def isUserAuthored_def USER_AUTHORED_SOURCES_def)



theorem approval_is_gated_witness:
  "snd (approve sample_env sample_world None 7 (sample_store E_REVIEW_REQUIRED [sample_line 1 False] [])) \<noteq> None
   \<and> fst (approve sample_env sample_world None 7 (sample_store E_REVIEW_REQUIRED [sample_line 1 False] []))
      = sample_store E_REVIEW_REQUIRED [sample_line 1 False] []"
proof -
  let ?st = "sample_store E_REVIEW_REQUIRED [sample_line 1 False] []" and ?s = "sample_snapshot E_REVIEW_REQUIRED"
  have "\<not> approval_open sample_env sample_world 7 ?st ?s"
    using sample_blockers by (auto simp: approval_open_def assemble_blockers)
  moreover have "history_ok sample_env ?st" "currentSnapshot ?st = Some ?s"
    by (simp_all add: sample_history_ok sample_current)
  ultimately show ?thesis
    using approval_is_gated [of sample_env ?st ?s sample_world None 7] by simp
qed

theorem acknowledged_plan_can_be_approved_witness:
  "snd (approve sample_env sample_world None 8 (fst (acknowledgeRisk sample_env sample_world None 7
     (sample_store E_REVIEW_REQUIRED [sample_line 1 False] [])))) = None"
proof -
  let ?st = "sample_store E_REVIEW_REQUIRED [sample_line 1 False] []" and ?s = "sample_snapshot E_REVIEW_REQUIRED"
  have "history_ok sample_env ?st" "currentSnapshot ?st = Some ?s"
    by (simp_all add: sample_history_ok sample_current)
  moreover have "list_ex (\<lambda>u. \<not> u_excluded u) (listUnits (s_version ?s) ?st)"
    by (simp add: listUnits_def sample_store_def sample_snapshot_def sample_line_def)
  moreover have "s_recordVersion ?s = 7" "s_status ?s = E_REVIEW_REQUIRED" by (simp_all add: sample_snapshot_def)
  ultimately show ?thesis
    using acknowledged_plan_can_be_approved [OF _ _ _ _ sample_blockers, of None None] by simp
qed

theorem reopen_carries_forward_witness:
  "\<exists>f. inj_on f {''a'', ''aa''}
    \<and> plan_dependencies 2 (fst (reopen sample_env sample_world 7
        (sample_store E_APPROVED [sample_line 1 False, sample_line 2 True] [sample_edge])))
      = {(f ''a'', f ''aa'', FINISH_TO_START, test_target, 0, True)}"
proof -
  let ?st = "sample_store E_APPROVED [sample_line 1 False, sample_line 2 True] [sample_edge]" and ?s = "sample_snapshot E_APPROVED"
  have cur: "currentSnapshot ?st = Some ?s" by (simp add: sample_current)
  have lns: "u_id ` set (listUnits 1 ?st) = {''a'', ''aa''}"
    by (auto simp: listUnits_def sample_store_def sample_line_def numeral_2_eq_2)
  have v: "s_version ?s = 1" "s_status ?s = E_APPROVED" "s_recordVersion ?s = 7" by (simp_all add: sample_snapshot_def)
  have "snd (reopen sample_env sample_world 7 ?st) = None" using cur v by (simp add: reopen_def versioned_def Let_def)
  moreover have "plan_dependencies 1 ?st = {(''a'', ''aa'', FINISH_TO_START, test_target, 0, True)}"
    unfolding plan_dependencies_def lns by (auto simp: listDependencies_def sample_store_def sample_edge_def edge_content_def)
  ultimately show ?thesis
    using reopen_carries_forward [OF sample_env_fresh sample_est_ok cur, of sample_world 7] unfolding v lns
    by (auto simp: renamed_def numeral_2_eq_2)
qed

end
