(* ===== verification/EstimationFindings.thy ===== *)
theory EstimationFindings
  imports EstimationGuarantees
begin

text \<open>
  Where the estimation service does not do what its comments say: theorems about the model that
  exhibit each divergence.
\<close>

section \<open>The pinned baseline never moves\<close>

lemma op_pinned:
  assumes "history_ok env st" "currentSnapshot st = Some s" and fresh: "fresh_source env"
  shows "\<exists>s'. currentSnapshot (fst (perform_op env w op st)) = Some s'
    \<and> s_baseline s' = s_baseline s \<and> s_stack s' = s_stack s"
proof -
  obtain us where us: "snapshots st = us @ [s]" using current_last [OF assms(1,2)] by blast
  note h = assms(1) us
  have h': "history_ok env (fst (perform_op env w op st))" by (rule op_history_ok [OF assms(1) fresh])
  show ?thesis
  proof (cases "\<exists>v. op = Op_reopen v")
    case False
    then obtain s' where "snapshots (fst (perform_op env w op st)) = us @ [s']" "advances s s'"
      using op_advances [OF h, of op env w] by blast
    then show ?thesis using current_of_history(2) [OF h'] by (auto simp: advances_def)
  next
    case True
    then obtain ver where op: "op = Op_reopen ver" by blast
    from reopen_snapshots [OF h, of env w ver] show ?thesis
    proof (elim disjE exE conjE)
      assume "fst (reopen env w ver st) = st"
      then show ?thesis using assms(2) by (simp add: op)
    next
      fix p n
      assume "snapshots (fst (reopen env w ver st))
        = us @ [superseded (Suc (Suc (length us))) s, reopened (est_mint env p n) (Suc (Suc (length us))) s]"
      then have "currentSnapshot (fst (perform_op env w op st)) = Some (reopened (est_mint env p n) (Suc (Suc (length us))) s)"
        by (intro current_of_history(2) [OF h', of "us @ [superseded (Suc (Suc (length us))) s]"]) (simp add: op)
      then show ?thesis by (simp add: reopened_def)
    qed
  qed
qed

lemma history_pinned:
  assumes "history_ok env st" "currentSnapshot st = Some s" "fresh_source env"
  shows "\<exists>s'. currentSnapshot (est_history env ops st) = Some s' \<and> s_baseline s' = s_baseline s \<and> s_stack s' = s_stack s"
proof (induction ops rule: rev_induct)
  case Nil
  then show ?case using assms by (simp add: est_history_def)
next
  case (snoc x ops)
  obtain w op where x: "x = (w, op)" by (cases x)
  from snoc obtain s' where "currentSnapshot (est_history env ops st) = Some s'" "s_baseline s' = s_baseline s" "s_stack s' = s_stack s"
    by blast
  then show ?case
    using op_pinned [OF est_history_ok [OF assms(1,3)] _ assms(3), of ops s' w op] by (simp add: x est_history_snoc)
qed

lemma stale_baseline_blocks: "\<not> baselineCurrent inp \<Longrightarrow> calculateEstimateBlockers inp \<noteq> []"
  by (simp add: calculateEstimateBlockers_def Let_def)

text \<open>
  A plan never recovers from a new baseline. The version of the baseline a plan starts
  from is carried into every later version of the plan, reopened ones included, so once the project's
  approved baseline has another version no history of operations ever lets the plan be approved again.
\<close>
theorem moved_baseline_blocks_forever:
  assumes "fresh_source env" and "history_ok env st" and "currentSnapshot st = Some s"
    and "s_baseline s = Some (b, v)"
    and "find (\<lambda>b. bl_status b \<in> {BL_approved, BL_outdated}) (w_baselines w) = Some bl" and "bl_version bl \<noteq> v"
  shows "snd (approve env w n ver (est_history env ops st)) \<noteq> None"
proof -
  let ?st = "est_history env ops st"
  obtain s' where s': "currentSnapshot ?st = Some s'" "s_baseline s' = Some (b, v)"
    using history_pinned [OF assms(2,3,1)] assms(4) by metis
  have "\<not> up_baselineCurrent (upstream_of w ?st)"
    using s' assms(5,6) by (simp add: upstream_of_def Let_def)
  then have "\<not> baselineCurrent (gate_input env w ?st s')" by (simp add: gate_input_def blocker_input_def Let_def)
  then have "pl_blockers (assemble env w ?st s') \<noteq> []"
    unfolding assemble_blockers by (rule stale_baseline_blocks)
  then show ?thesis using s' by (simp add: approve_def versioned_def Let_def canApproveEstimate_def)
qed

section \<open>A run that fails part way\<close>

lemma active_run_frame:
  assumes "activeRun st \<noteq> None"
  shows "runs (fst (perform_op env w op st)) = runs st"
proof (cases op)
  case (Op_override i rq ver)
  have "runs st1 = runs st" if "updateUnit i v f st = Some st1" for v f st1 using that by (auto simp: updateUnit_def)
  then show ?thesis by (auto simp: Op_override overrideEstimate_def split: sum.split option.split)
next
  case (Op_reset i ver)
  have "runs (or_else (updateUnit i v f st) st) = runs st" for v f by (auto simp: updateUnit_def or_else_def split: option.split)
  then show ?thesis by (auto simp: Op_reset resetEstimate_def split: sum.split option.split)
next
  case (Op_removeDependency i ver)
  have "runs st1 = runs st" if "deleteDependency i st = Some st1" for st1 using that by (auto simp: deleteDependency_def)
  then show ?thesis by (auto simp: Op_removeDependency removeDependency_def split: sum.split option.split)
next
  case (Op_approve n ver)
  then show ?thesis by (auto simp: approve_def Let_def dest!: updateSnapshot_frame split: sum.split option.split)
qed (use assms in \<open>auto simp: readCurrent_def createInitial_def run_estimation_def addManual_def addDependency_def
    setCalendar_def setTeam_def setExistingSystem_def recalculateSchedule_def acknowledgeRisk_def reopen_def Let_def
    carryDependenciesForward_def carryUnitsForward_def supersedeSnapshots_def
    split: sum.split option.split\<close>)

lemma active_run_stays:
  assumes "activeRun st \<noteq> None"
  shows "activeRun (est_history env ops st) = activeRun st"
proof (induction ops rule: rev_induct)
  case Nil
  then show ?case by (simp add: est_history_def)
next
  case (snoc x ops)
  obtain w op where x: "x = (w, op)" by (cases x)
  have "activeRun (est_history env ops st) \<noteq> None" using snoc assms by simp
  then have "runs (est_history env (ops @ [x]) st) = runs (est_history env ops st)"
    unfolding x est_history_snoc by (rule active_run_frame)
  then show ?case using snoc by (simp add: activeRun_def)
qed

lemma running_refused: "activeRun st \<noteq> None \<Longrightarrow> snd (run_estimation env w ai cfg out ver st) \<noteq> None"
  by (auto simp: run_estimation_def split: sum.split)

lemma generate_error_runs: "snd (generate env w s ps st) = Some e \<Longrightarrow> runs (fst (generate env w s ps st)) = runs st"
  by (auto simp: generate_def Let_def deleteReplaceableDependencies_def deleteReplaceableUnits_def
      split: option.splits if_splits)

lemma find_appended: "Q r \<Longrightarrow> find Q (rs @ [r]) \<noteq> None"
  by (induction rs) auto

text \<open>
  A run that fails part way is never over. When generating the lines fails, which it
  does when there would be too many of them, the run stays marked as running, and from then on every
  run is refused whatever else is done.
\<close>
theorem failed_run_blocks_forever:
  assumes "snd (run_estimation env w ai cfg out ver st) = Some ESTIMATE_LIMIT_REACHED"
  shows "snd (run_estimation env w' ai' cfg' out' ver' (est_history env ops (fst (run_estimation env w ai cfg out ver st)))) \<noteq> None"
proof -
  have "activeRun (fst (generate env w s ps (createRun (new_run i v b k) st0))) \<noteq> None"
    if "snd (generate env w s ps (createRun (new_run i v b k) st0)) = Some e" for s ps i v b k st0 e
    using generate_error_runs [OF that] by (simp add: activeRun_def createRun_def new_run_def find_appended)
  then have "activeRun (fst (run_estimation env w ai cfg out ver st)) \<noteq> None"
    using assms by (auto simp: run_estimation_def editable_def Let_def split: sum.splits option.splits if_splits)
  then show ?thesis using active_run_stays running_refused by metis
qed


theorem moved_baseline_blocks_forever_witness:
  "snd (approve sample_env (sample_world\<lparr> w_baselines := [\<lparr> bl_id = ''b2'', bl_version = 2, bl_status = BL_approved, bl_itemIds = [] \<rparr>] \<rparr>)
     None 9 (est_history sample_env [(sample_world, Op_reopen 7), (sample_world, Op_run False False No_model 0)]
       (sample_store E_APPROVED [sample_line 1 False] []))) \<noteq> None"
  by (rule moved_baseline_blocks_forever [OF sample_env_fresh sample_history_ok sample_current, where b = "''b''" and v = 1
        and bl = "\<lparr> bl_id = ''b2'', bl_version = 2, bl_status = BL_approved, bl_itemIds = [] \<rparr>"])
    (simp_all add: sample_snapshot_def sample_world_def)

text \<open>A thousand and one lines written by hand.\<close>

lemma many_lines:
  "snd (run_estimation sample_env sample_world False False No_model 7
     (sample_store E_DRAFT (replicate 1001 (sample_line 1 False)) [])) = Some ESTIMATE_LIMIT_REACHED"
proof -
  let ?st = "sample_store E_DRAFT (replicate 1001 (sample_line 1 False)) []"
  have "preserved_units 1 (createRun r (spend_ids 1 ?st)) = sort_key u_key (replicate 1001 (sample_line 1 False))" for r
    by (auto simp: preserved_units_def listUnits_def createRun_def spend_ids_def sample_store_def sample_line_def
        isUserAuthored_def USER_AUTHORED_SOURCES_def filter_replicate intro!: filter_True)
  then have "length (preserved_units 1 (createRun r (spend_ids 1 ?st))) = 1001" for r by simp
  moreover have "currentSnapshot (createRun r (spend_ids 1 ?st)) = Some (sample_snapshot E_DRAFT)" for r
    using sample_current [of E_DRAFT "replicate 1001 (sample_line 1 False)" "[]"]
    by (simp add: currentSnapshot_def createRun_def spend_ids_def)
  moreover have "activeRun ?st = None" "s_recordVersion (sample_snapshot E_DRAFT) = 7" "s_status (sample_snapshot E_DRAFT) = E_DRAFT"
    "s_version (sample_snapshot E_DRAFT) = 1"
    by (simp_all add: activeRun_def sample_store_def sample_snapshot_def)
  ultimately show ?thesis
    using sample_current [of E_DRAFT "replicate 1001 (sample_line 1 False)" "[]"]
    by (simp add: run_estimation_def editable_def Let_def generate_def upstream_of_def sample_world_def maxEstimateUnits_def)
qed

theorem failed_run_blocks_forever_witness:
  "snd (run_estimation sample_env sample_world False False No_model 9
     (est_history sample_env [(sample_world, Op_calendar DEFAULT_CALENDAR 7)]
       (fst (run_estimation sample_env sample_world False False No_model 7
         (sample_store E_DRAFT (replicate 1001 (sample_line 1 False)) []))))) \<noteq> None"
  using many_lines by (rule failed_run_blocks_forever)

section \<open>Lines\<close>

lemma new_unit_keys:
  "length is = length ds \<Longrightarrow> map u_key (new_units v n p is ds) = map unit_key [Suc n..<Suc n + length ds]"
proof -
  assume l: "length is = length ds"
  let ?ks = "[Suc n..<Suc n + length ds]"
  have "map u_key (new_units v n p is ds) = map unit_key (map fst (map snd (zip is (zip ?ks ds))))"
    by (auto simp: new_units_def unit_of_draft_def)
  also have "map snd (zip is (zip ?ks ds)) = zip ?ks ds" using l by (intro map_snd_zip) (simp del: upt_Suc)
  also have "map fst (zip ?ks ds) = ?ks" by (intro map_fst_zip) (simp del: upt_Suc)
  finally show ?thesis .
qed

text \<open>
  Two lines can carry the same key. New lines are numbered from the count of the lines kept, whatever
  the keys of those are: with one line kept whose key is the second, the first new line gets it again.
\<close>
lemma duplicate_line_key:
  assumes "u \<in> set kept" "u_key u = unit_key (Suc (length kept))" "ds \<noteq> []" "length is = length ds"
  shows "\<not> distinct (map u_key (kept @ new_units v (length kept) p is ds))"
proof -
  have "unit_key (Suc (length kept)) \<in> set (map u_key (new_units v (length kept) p is ds))"
    unfolding new_unit_keys [OF assms(4)] using assms(3) by (auto simp del: upt_Suc simp: image_iff)
  moreover have "unit_key (Suc (length kept)) \<in> set (map u_key kept)" using assms(1,2) by (metis image_eqI set_map)
  ultimately show ?thesis unfolding map_append distinct_append by blast
qed

text \<open>
  A line written by hand is lost once it is overridden and reset: reset marks it as calculated by
  the system, so the next run deletes it.
\<close>
lemma reset_manual_line_is_replaceable:
  "isUserAuthored (u_source (manual_unit v i n rq))
   \<and> u_originalEffort (overridden chg (manual_unit v i n rq)) = Some (mn_effort rq)
   \<and> reset_unit (overridden chg (manual_unit v i n rq)) (mn_effort rq) \<notin> set (units (deleteReplaceableUnits v st))"
proof -
  have 1: "u_source (manual_unit v i n rq) = USER_OVERRIDE" "u_originalEffort (manual_unit v i n rq) = None"
    "u_effort (manual_unit v i n rq) = mn_effort rq" "u_version (manual_unit v i n rq) = v"
    by (simp_all add: manual_unit_def Let_def)
  have 2: "u_originalEffort (overridden chg u) = (case u_originalEffort u of None \<Rightarrow> Some (u_effort u) | e \<Rightarrow> e)"
    "u_version (overridden chg u) = u_version u" for u
    unfolding overridden_def Let_def by simp_all
  have 3: "u_source (reset_unit u e) = SYSTEM_CALCULATED" "u_version (reset_unit u e) = u_version u" for u e
    unfolding reset_unit_def Let_def by simp_all
  have "reset_unit u e \<notin> set (units (deleteReplaceableUnits (u_version u) st))" for u e
    by (simp add: deleteReplaceableUnits_def 3)
  from this [of "overridden chg (manual_unit v i n rq)"] show ?thesis
    by (simp only: 1 2 isUserAuthored_def USER_AUTHORED_SOURCES_def option.case) simp
qed

text \<open>
  A line of a superseded version can be edited: the line is looked up by its identifier alone, so
  editing the current version with the identifier of a line of an approved and reopened one rewrites
  the frozen version.
\<close>
lemma superseded_line_is_edited:
  assumes "editable ver st = Inr s" "findUnit i st = Some u" "u_version u < s_version s" "ov_effort rq = None"
    "distinct (map u_id (units st))"
  shows "snd (overrideEstimate env w i rq ver st) = None
    \<and> (overridden rq u)\<lparr> u_recordVersion := u_recordVersion u + 1 \<rparr> \<in> set (units (fst (overrideEstimate env w i rq ver st)))
    \<and> u_version (overridden rq u) = u_version u \<and> u_source (overridden rq u) = USER_OVERRIDE"
proof -
  obtain pre post where us: "units st = pre @ u # post" "u_id u = i"
    using assms(2) unfolding findUnit_def find_Some_iff by (metis id_take_nth_drop)
  then have "u_id u \<notin> u_id ` set pre" using assms(5) by simp
  then have "\<forall>x \<in> set pre. u_id x \<noteq> i" unfolding us(2) by (metis image_eqI)
  then have "find_and_update (\<lambda>x. u_id x = i \<and> u_recordVersion x = u_recordVersion u)
      (\<lambda>x. (overridden rq x)\<lparr> u_recordVersion := u_recordVersion u + 1 \<rparr>) (units st)
    = Some (pre @ (overridden rq u)\<lparr> u_recordVersion := u_recordVersion u + 1 \<rparr> # post)"
    unfolding us(1) using us(2) by (induction pre) auto
  then show ?thesis using assms(1,2,4)
    by (simp add: overrideEstimate_def updateUnit_def) (simp add: overridden_def Let_def)
qed

section \<open>Statuses\<close>

text \<open>No operation marks a plan as outdated, though the status exists and reopening allows for it.\<close>

definition none_outdated :: "est_store \<Rightarrow> bool" where
  "none_outdated st \<longleftrightarrow> (\<forall>s \<in> set (snapshots st). s_status s \<noteq> E_OUTDATED)"

lemma op_none_outdated:
  assumes h: "history_ok env st" and n: "none_outdated st"
  shows "none_outdated (fst (perform_op env w op st))"
proof (cases "snapshots st" rule: rev_cases)
  case Nil
  then show ?thesis using op_empty [OF h Nil, of env w op] n
    by (simp add: none_outdated_def createInitial_def Let_def)
next
  case (snoc us s)
  note hs = h snoc
  show ?thesis
  proof (cases "\<exists>v. op = Op_reopen v")
    case False
    then obtain s' where "snapshots (fst (perform_op env w op st)) = us @ [s']" "advances s s'"
      using op_advances [OF hs, of op env w] by blast
    then show ?thesis using n snoc by (auto simp: none_outdated_def advances_def)
  next
    case True
    then obtain ver where op: "op = Op_reopen ver" by blast
    from reopen_snapshots [OF hs, of env w ver] n snoc show ?thesis
      by (auto simp: op none_outdated_def superseded_def reopened_def)
  qed
qed

lemma never_outdated:
  assumes "fresh_source env"
  shows "none_outdated (est_history env ops empty_store)"
proof (induction ops rule: rev_induct)
  case Nil
  then show ?case by (simp add: est_history_def none_outdated_def empty_store_def)
next
  case (snoc x ops)
  obtain w op where x: "x = (w, op)" by (cases x)
  show ?case using snoc op_none_outdated [OF est_history_ok [OF history_ok_empty assms]]
    by (simp add: x est_history_snoc)
qed

text \<open>The transition table has no way from review to approved; approving takes it all the same.\<close>

lemma approval_skips_the_table:
  "\<not> canTransitionEstimate E_REVIEW_REQUIRED E_APPROVED \<and> \<not> canTransitionEstimate E_DRAFT E_APPROVED
   \<and> (canApproveEstimate E_REVIEW_REQUIRED [] es = list_ex (\<lambda>e. \<not> el_excluded e) es)
   \<and> (canApproveEstimate E_DRAFT [] es = list_ex (\<lambda>e. \<not> el_excluded e) es)"
  by (simp add: canTransitionEstimate_def canApproveEstimate_def)

end
