(* ===== verification/StackCatalog.thy ===== *)
theory StackCatalog
  imports Prelude
begin

text \<open>
  The vocabulary of the technology stack, under packages/contracts/src/stack: the categories a
  project can fill and which of them its type needs (technology-category.contract.ts,
  project-type-categories.ts), and the reviewed catalogue of technologies
  (technology-catalog.contract.ts, technology-catalog.data.ts), translated entry by entry. Of an
  entry the facts that decide anything are kept; labels, strengths, limitations, notes, the review
  date and the incompatibility reasons are prose and left out. A typographic apostrophe is written
  as the plain one.
\<close>

section \<open>Project types and categories\<close>

datatype project_type =
    ADMIN_PORTAL | AI_ML_SOLUTION | ANDROID_APPLICATION | APPLICATION_ENHANCEMENT
   | AUTOMATION_WORKFLOW | BACKEND_API | CROSS_PLATFORM_MOBILE | DESKTOP_APPLICATION
   | ECOMMERCE_PLATFORM | IOS_APPLICATION | MIGRATION | MOBILE_APPLICATION | MODERNISATION
   | MULTI_PLATFORM_PRODUCT | OTHER | SAAS_PLATFORM | SYSTEM_INTEGRATION | WEBSITE
   | WEB_APPLICATION

datatype technology_category =
    web_frontend | backend | mobile_framework | native_android | native_ios | desktop_framework
   | database | cache | search | vector_storage | object_storage | authentication
   | authorization | api_gateway | message_queue | realtime | payment | ai_runtime | ai_model
   | data_processing | background_jobs | integrations | hosting | containerization | ci_cd
   | monitoring | logging | analytics | testing | security_tooling | content_management | other

definition TECHNOLOGY_CATEGORIES :: "technology_category list" where
  "TECHNOLOGY_CATEGORIES =
    [web_frontend, backend, mobile_framework, native_android, native_ios, desktop_framework,
     database, cache, search, vector_storage, object_storage, authentication, authorization,
     api_gateway, message_queue, realtime, payment, ai_runtime, ai_model, data_processing,
     background_jobs, integrations, hosting, containerization, ci_cd, monitoring, logging,
     analytics, testing, security_tooling, content_management, other]"

definition allowsMultiple :: "technology_category \<Rightarrow> bool" where
  "allowsMultiple c = (c \<in> {payment, ai_model, data_processing, integrations, analytics, testing, security_tooling,
      other})"

definition JUSTIFICATION_REQUIRED_CATEGORIES :: "technology_category list" where
  "JUSTIFICATION_REQUIRED_CATEGORIES =
    [cache, search, vector_storage, message_queue, api_gateway, realtime, containerization,
     data_processing]"

definition requiresJustification :: "technology_category \<Rightarrow> bool" where
  "requiresJustification c = (c \<in> set JUSTIFICATION_REQUIRED_CATEGORIES)"

section \<open>Which categories a project needs\<close>

datatype category_applicability = required | optional | conditional | not_applicable

record category_entry =
  ca_category :: technology_category
  ca_applicability :: category_applicability
  ca_justifiedBy :: "string list"

definition UNIVERSAL_OPTIONAL :: "technology_category list" where
  "UNIVERSAL_OPTIONAL =
    [hosting, ci_cd, monitoring, logging, testing, security_tooling, analytics, integrations,
     other]"

fun PLANS :: "project_type \<Rightarrow> technology_category list \<times> technology_category list" where
  "PLANS WEBSITE = ([web_frontend],
      [content_management, backend, database, object_storage])"
| "PLANS WEB_APPLICATION = ([web_frontend, backend, database],
      [authentication, authorization, object_storage, background_jobs])"
| "PLANS SAAS_PLATFORM = ([web_frontend, backend, database, authentication],
      [authorization, object_storage, background_jobs, payment])"
| "PLANS ADMIN_PORTAL = ([web_frontend, backend],
      [database, authentication, authorization])"
| "PLANS ECOMMERCE_PLATFORM = ([web_frontend, backend, database, payment],
      [authentication, content_management, object_storage, background_jobs, authorization])"
| "PLANS MOBILE_APPLICATION = ([mobile_framework],
      [backend, database, authentication, object_storage])"
| "PLANS ANDROID_APPLICATION = ([native_android],
      [backend, database, authentication, object_storage])"
| "PLANS IOS_APPLICATION = ([native_ios],
      [backend, database, authentication, object_storage])"
| "PLANS CROSS_PLATFORM_MOBILE = ([mobile_framework],
      [backend, database, authentication, object_storage])"
| "PLANS DESKTOP_APPLICATION = ([desktop_framework],
      [database, backend, object_storage])"
| "PLANS BACKEND_API = ([backend, database],
      [authentication, authorization, object_storage, background_jobs])"
| "PLANS AI_ML_SOLUTION = ([ai_model],
      [ai_runtime, backend, database, object_storage, background_jobs])"
| "PLANS AUTOMATION_WORKFLOW = ([backend],
      [background_jobs, database, integrations, ai_model])"
| "PLANS SYSTEM_INTEGRATION = ([integrations, backend],
      [database, background_jobs, object_storage])"
| "PLANS MIGRATION = ([database],
      [backend, object_storage, background_jobs])"
| "PLANS MODERNISATION = ([backend],
      [web_frontend, database, authentication, containerization])"
| "PLANS APPLICATION_ENHANCEMENT = ([],
      [web_frontend, backend, database, mobile_framework, authentication])"
| "PLANS MULTI_PLATFORM_PRODUCT = ([backend, database],
      [web_frontend, mobile_framework, native_android, native_ios, desktop_framework,
       authentication, object_storage])"
| "PLANS OTHER = ([],
      TECHNOLOGY_CATEGORIES)"

definition applicability_rank :: "category_applicability \<Rightarrow> nat" where
  "applicability_rank a = (case a of not_applicable \<Rightarrow> 0 | conditional \<Rightarrow> 1 | optional \<Rightarrow> 2 | required \<Rightarrow> 3)"

type_synonym plan_map = "(technology_category \<times> category_applicability) list"

definition raise_level :: "category_applicability \<Rightarrow> technology_category \<Rightarrow> plan_map \<Rightarrow> plan_map" where
  "raise_level level category strongest =
     (case map_of strongest category of
        None \<Rightarrow> AList.update category level strongest
      | Some held \<Rightarrow> if applicability_rank held < applicability_rank level
                     then AList.update category level strongest else strongest)"

definition strongest_levels :: "project_type list \<Rightarrow> plan_map" where
  "strongest_levels types =
     foldl (\<lambda>m t. fold (raise_level optional) (snd (PLANS t) @ UNIVERSAL_OPTIONAL)
                    (fold (raise_level required) (fst (PLANS t)) m)) [] types"

definition planCategories :: "project_type list \<Rightarrow> category_entry list" where
  "planCategories types =
     (let strongest = strongest_levels types
      in map (\<lambda>c. \<lparr> ca_category = c,
             ca_applicability = (if requiresJustification c then conditional
               else case map_of strongest c of None \<Rightarrow> not_applicable | Some a \<Rightarrow> a),
             ca_justifiedBy = [] \<rparr>) TECHNOLOGY_CATEGORIES)"

definition requiredCategories :: "category_entry list \<Rightarrow> technology_category list" where
  "requiredCategories plan = map ca_category (filter (\<lambda>e. ca_applicability e = required) plan)"

definition projectTypeIsActionable :: "project_type list \<Rightarrow> bool" where
  "projectTypeIsActionable types = (types \<noteq> [] \<and> OTHER \<notin> set types)"

section \<open>Entries of the catalogue\<close>

datatype cost_posture = FREE_SELF_HOSTED | FREE_TIER_AVAILABLE | COMMERCIAL | USAGE_BASED | MIXED | UNKNOWN

definition impliesSpend :: "cost_posture \<Rightarrow> bool" where
  "impliesSpend p = (p \<in> {COMMERCIAL, USAGE_BASED})"

datatype maturity_level = established | growing | emerging | legacy | deprecated

datatype burden_level = burden_low | burden_medium | burden_high

record catalog_entry =
  en_id :: string
  en_name :: string
  en_category :: technology_category
  secondaryCategories :: "technology_category list"
  aliases :: "string list"
  en_licence :: string
  en_selfHostable :: bool
  maturity :: maturity_level
  supportedProjectTypes :: "project_type list"
  incompatibleWith :: "string list"
  operationalComplexity :: burden_level
  infrastructureBurden :: burden_level
  en_costPosture :: cost_posture
  recommendedVersion :: "string option"

text \<open>The defaults of the fields most entries do not state.\<close>

definition entry ::
  "string \<Rightarrow> string \<Rightarrow> technology_category \<Rightarrow> string \<Rightarrow> cost_posture \<Rightarrow> maturity_level \<Rightarrow> bool \<Rightarrow> catalog_entry" where
  "entry i n c l p m h =
     \<lparr> en_id = i, en_name = n, en_category = c, secondaryCategories = [], aliases = [], en_licence = l,
       en_selfHostable = h, maturity = m, supportedProjectTypes = [], incompatibleWith = [],
       operationalComplexity = burden_low, infrastructureBurden = burden_low, en_costPosture = p,
       recommendedVersion = None \<rparr>"

definition fillsCategory :: "catalog_entry \<Rightarrow> technology_category \<Rightarrow> bool" where
  "fillsCategory e c = (en_category e = c \<or> c \<in> set (secondaryCategories e))"

definition suitsProjectType :: "catalog_entry \<Rightarrow> project_type \<Rightarrow> bool" where
  "suitsProjectType e t = (supportedProjectTypes e = [] \<or> t \<in> set (supportedProjectTypes e))"

definition matchesName :: "catalog_entry \<Rightarrow> string \<Rightarrow> bool" where
  "matchesName e name =
     (let needle = js_lower (js_trim name)
      in js_lower (en_name e) = needle \<or> list_ex (\<lambda>a. js_lower a = needle) (aliases e))"

section \<open>The catalogue\<close>

definition web_frontend_entries :: "catalog_entry list" where
  "web_frontend_entries = [
    (entry ''react'' ''React'' web_frontend ''MIT'' FREE_SELF_HOSTED established True)
      \<lparr> aliases := [''reactjs'', ''react.js''] \<rparr>,
    (entry ''nextjs'' ''Next.js'' web_frontend ''MIT'' MIXED established True)
      \<lparr> secondaryCategories := [backend],
        aliases := [''next'', ''next.js''] \<rparr>,
    (entry ''vue'' ''Vue'' web_frontend ''MIT'' FREE_SELF_HOSTED established True)
      \<lparr> aliases := [''vuejs'', ''vue.js''] \<rparr>,
    entry ''angular'' ''Angular'' web_frontend ''MIT'' FREE_SELF_HOSTED established True,
    (entry ''svelte'' ''Svelte'' web_frontend ''MIT'' FREE_SELF_HOSTED growing True)
      \<lparr> aliases := [''sveltekit''] \<rparr>,
    (entry ''astro'' ''Astro'' web_frontend ''MIT'' FREE_SELF_HOSTED growing True)
      \<lparr> supportedProjectTypes := [WEBSITE, ECOMMERCE_PLATFORM] \<rparr>,
    (entry ''html-css-js'' ''Plain HTML, CSS and JavaScript'' web_frontend ''None'' FREE_SELF_HOSTED established True)
      \<lparr> aliases := [''vanilla js'', ''static html''],
        supportedProjectTypes := [WEBSITE] \<rparr>]"

definition backend_entries :: "catalog_entry list" where
  "backend_entries = [
    (entry ''nestjs'' ''NestJS'' backend ''MIT'' FREE_SELF_HOSTED established True)
      \<lparr> aliases := [''nest''] \<rparr>,
    entry ''express'' ''Express'' backend ''MIT'' FREE_SELF_HOSTED established True,
    (entry ''django'' ''Django'' backend ''BSD-3-Clause'' FREE_SELF_HOSTED established True)
      \<lparr> secondaryCategories := [authentication, content_management] \<rparr>,
    (entry ''laravel'' ''Laravel'' backend ''MIT'' FREE_SELF_HOSTED established True)
      \<lparr> secondaryCategories := [authentication, background_jobs] \<rparr>,
    (entry ''spring-boot'' ''Spring Boot'' backend ''Apache-2.0'' FREE_SELF_HOSTED established True)
      \<lparr> aliases := [''spring'', ''java spring''] \<rparr>,
    entry ''fastapi'' ''FastAPI'' backend ''MIT'' FREE_SELF_HOSTED established True,
    (entry ''dotnet'' ''ASP.NET Core'' backend ''MIT'' FREE_SELF_HOSTED established True)
      \<lparr> aliases := [''.net'', ''asp.net'', ''dotnet core''] \<rparr>,
    (entry ''go-backend'' ''Go'' backend ''BSD-3-Clause'' FREE_SELF_HOSTED established True)
      \<lparr> aliases := [''golang''] \<rparr>,
    (entry ''rails'' ''Ruby on Rails'' backend ''MIT'' FREE_SELF_HOSTED established True)
      \<lparr> aliases := [''rails'', ''ruby on rails''] \<rparr>]"

definition client_entries :: "catalog_entry list" where
  "client_entries = [
    (entry ''flutter'' ''Flutter'' mobile_framework ''BSD-3-Clause'' FREE_SELF_HOSTED established True)
      \<lparr> secondaryCategories := [desktop_framework],
        supportedProjectTypes := [MOBILE_APPLICATION, CROSS_PLATFORM_MOBILE, MULTI_PLATFORM_PRODUCT, DESKTOP_APPLICATION] \<rparr>,
    (entry ''react-native'' ''React Native'' mobile_framework ''MIT'' FREE_SELF_HOSTED established True)
      \<lparr> supportedProjectTypes := [MOBILE_APPLICATION, CROSS_PLATFORM_MOBILE, MULTI_PLATFORM_PRODUCT] \<rparr>,
    (entry ''kotlin-android'' ''Kotlin (Android)'' native_android ''Apache-2.0'' FREE_SELF_HOSTED established True)
      \<lparr> aliases := [''kotlin'', ''jetpack compose''],
        supportedProjectTypes := [ANDROID_APPLICATION, MOBILE_APPLICATION, MULTI_PLATFORM_PRODUCT] \<rparr>,
    (entry ''swift-ios'' ''Swift (iOS)'' native_ios ''Apache-2.0'' FREE_SELF_HOSTED established True)
      \<lparr> aliases := [''swift'', ''swiftui''],
        supportedProjectTypes := [IOS_APPLICATION, MOBILE_APPLICATION, MULTI_PLATFORM_PRODUCT] \<rparr>,
    (entry ''electron'' ''Electron'' desktop_framework ''MIT'' FREE_SELF_HOSTED established True)
      \<lparr> supportedProjectTypes := [DESKTOP_APPLICATION, MULTI_PLATFORM_PRODUCT] \<rparr>,
    (entry ''tauri'' ''Tauri'' desktop_framework ''MIT'' FREE_SELF_HOSTED growing True)
      \<lparr> supportedProjectTypes := [DESKTOP_APPLICATION, MULTI_PLATFORM_PRODUCT] \<rparr>]"

definition database_entries :: "catalog_entry list" where
  "database_entries = [
    (entry ''postgresql'' ''PostgreSQL'' database ''PostgreSQL'' FREE_SELF_HOSTED established True)
      \<lparr> secondaryCategories := [vector_storage, search],
        aliases := [''postgres'', ''psql''],
        operationalComplexity := burden_medium \<rparr>,
    (entry ''mysql'' ''MySQL'' database ''GPL-2.0 / commercial'' MIXED established True)
      \<lparr> aliases := [''mariadb''],
        operationalComplexity := burden_medium \<rparr>,
    (entry ''mongodb'' ''MongoDB'' database ''SSPL-1.0'' MIXED established True)
      \<lparr> aliases := [''mongo''],
        operationalComplexity := burden_medium \<rparr>,
    entry ''sqlite'' ''SQLite'' database ''Public domain'' FREE_SELF_HOSTED established True,
    (entry ''sql-server'' ''Microsoft SQL Server'' database ''Commercial'' COMMERCIAL established True)
      \<lparr> aliases := [''mssql'', ''sqlserver''],
        operationalComplexity := burden_medium \<rparr>,
    (entry ''oracle-db'' ''Oracle Database'' database ''Commercial'' COMMERCIAL established True)
      \<lparr> operationalComplexity := burden_high \<rparr>,
    (entry ''dynamodb'' ''Amazon DynamoDB'' database ''Proprietary'' USAGE_BASED established False)
      \<lparr> incompatibleWith := [''on-premise'', ''azure'', ''gcp''] \<rparr>]"

definition cache_search_entries :: "catalog_entry list" where
  "cache_search_entries = [
    (entry ''redis'' ''Redis'' cache ''RSALv2 / SSPL'' MIXED established True)
      \<lparr> secondaryCategories := [message_queue, background_jobs],
        operationalComplexity := burden_medium,
        infrastructureBurden := burden_medium \<rparr>,
    (entry ''valkey'' ''Valkey'' cache ''BSD-3-Clause'' FREE_SELF_HOSTED growing True)
      \<lparr> secondaryCategories := [message_queue],
        operationalComplexity := burden_medium,
        infrastructureBurden := burden_medium \<rparr>,
    (entry ''elasticsearch'' ''Elasticsearch'' search ''Elastic-2.0 / SSPL'' MIXED established True)
      \<lparr> operationalComplexity := burden_high,
        infrastructureBurden := burden_high \<rparr>,
    (entry ''opensearch'' ''OpenSearch'' search ''Apache-2.0'' FREE_SELF_HOSTED established True)
      \<lparr> operationalComplexity := burden_high,
        infrastructureBurden := burden_high \<rparr>,
    entry ''meilisearch'' ''Meilisearch'' search ''MIT'' MIXED growing True,
    (entry ''pgvector'' ''pgvector'' vector_storage ''PostgreSQL'' FREE_SELF_HOSTED established True)
      \<lparr> incompatibleWith := [''mysql'', ''mongodb'', ''sqlite'', ''sql-server'', ''oracle-db'', ''dynamodb''] \<rparr>,
    (entry ''qdrant'' ''Qdrant'' vector_storage ''Apache-2.0'' MIXED growing True)
      \<lparr> operationalComplexity := burden_medium,
        infrastructureBurden := burden_medium \<rparr>]"

definition storage_entries :: "catalog_entry list" where
  "storage_entries = [
    (entry ''minio'' ''MinIO'' object_storage ''AGPL-3.0'' FREE_SELF_HOSTED established True)
      \<lparr> operationalComplexity := burden_medium,
        infrastructureBurden := burden_medium \<rparr>,
    (entry ''s3'' ''Amazon S3'' object_storage ''Proprietary'' USAGE_BASED established False)
      \<lparr> incompatibleWith := [''on-premise''] \<rparr>]"

definition auth_entries :: "catalog_entry list" where
  "auth_entries = [
    (entry ''keycloak'' ''Keycloak'' authentication ''Apache-2.0'' FREE_SELF_HOSTED established True)
      \<lparr> secondaryCategories := [authorization],
        operationalComplexity := burden_high,
        infrastructureBurden := burden_medium \<rparr>,
    entry ''auth0'' ''Auth0'' authentication ''Proprietary'' USAGE_BASED established False,
    (entry ''app-native-auth'' ''Application-native authentication'' authentication ''Varies'' FREE_SELF_HOSTED established True)
      \<lparr> aliases := [''built-in auth'', ''custom auth''] \<rparr>,
    entry ''casbin'' ''Casbin'' authorization ''Apache-2.0'' FREE_SELF_HOSTED growing True,
    (entry ''kong'' ''Kong'' api_gateway ''Apache-2.0'' MIXED established True)
      \<lparr> operationalComplexity := burden_high,
        infrastructureBurden := burden_medium \<rparr>,
    (entry ''nginx'' ''nginx'' api_gateway ''BSD-2-Clause'' FREE_SELF_HOSTED established True)
      \<lparr> secondaryCategories := [hosting] \<rparr>,
    entry ''socket-io'' ''Socket.IO'' realtime ''MIT'' FREE_SELF_HOSTED established True,
    (entry ''server-sent-events'' ''Server-Sent Events'' realtime ''Open standard'' FREE_SELF_HOSTED established True)
      \<lparr> aliases := [''sse''] \<rparr>]"

definition queue_entries :: "catalog_entry list" where
  "queue_entries = [
    (entry ''rabbitmq'' ''RabbitMQ'' message_queue ''MPL-2.0'' FREE_SELF_HOSTED established True)
      \<lparr> operationalComplexity := burden_medium,
        infrastructureBurden := burden_medium \<rparr>,
    (entry ''kafka'' ''Apache Kafka'' message_queue ''Apache-2.0'' MIXED established True)
      \<lparr> operationalComplexity := burden_high,
        infrastructureBurden := burden_high \<rparr>,
    (entry ''db-backed-jobs'' ''Database-backed job queue'' background_jobs ''Varies'' FREE_SELF_HOSTED established True)
      \<lparr> aliases := [''database queue'', ''polling worker''] \<rparr>,
    (entry ''bullmq'' ''BullMQ'' background_jobs ''MIT'' FREE_SELF_HOSTED established True)
      \<lparr> incompatibleWith := [''django'', ''fastapi'', ''laravel'', ''spring-boot'', ''rails'', ''dotnet'', ''go-backend''] \<rparr>,
    (entry ''celery'' ''Celery'' background_jobs ''BSD-3-Clause'' FREE_SELF_HOSTED established True)
      \<lparr> incompatibleWith := [''nestjs'', ''express'', ''laravel'', ''dotnet''] \<rparr>]"

definition payment_entries :: "catalog_entry list" where
  "payment_entries = [
    entry ''stripe'' ''Stripe'' payment ''Proprietary'' USAGE_BASED established False,
    entry ''razorpay'' ''Razorpay'' payment ''Proprietary'' USAGE_BASED established False,
    entry ''paypal'' ''PayPal'' payment ''Proprietary'' USAGE_BASED established False]"

definition ai_entries :: "catalog_entry list" where
  "ai_entries = [
    (entry ''ollama'' ''Ollama'' ai_runtime ''MIT'' FREE_SELF_HOSTED growing True)
      \<lparr> operationalComplexity := burden_medium,
        infrastructureBurden := burden_medium \<rparr>,
    (entry ''vllm'' ''vLLM'' ai_runtime ''Apache-2.0'' FREE_SELF_HOSTED growing True)
      \<lparr> operationalComplexity := burden_high,
        infrastructureBurden := burden_high \<rparr>,
    entry ''openai-api'' ''OpenAI API'' ai_model ''Proprietary'' USAGE_BASED established False,
    entry ''anthropic-api'' ''Anthropic API'' ai_model ''Proprietary'' USAGE_BASED established False,
    (entry ''open-weights-model'' ''Open-weights model (Llama, Qwen, Mistral)'' ai_model ''Varies by model'' FREE_SELF_HOSTED growing True)
      \<lparr> aliases := [''llama'', ''qwen'', ''mistral'', ''local model''],
        infrastructureBurden := burden_high \<rparr>]"

definition hosting_entries :: "catalog_entry list" where
  "hosting_entries = [
    (entry ''aws'' ''Amazon Web Services'' hosting ''Proprietary'' USAGE_BASED established False)
      \<lparr> aliases := [''amazon web services''] \<rparr>,
    entry ''azure'' ''Microsoft Azure'' hosting ''Proprietary'' USAGE_BASED established False,
    (entry ''gcp'' ''Google Cloud Platform'' hosting ''Proprietary'' USAGE_BASED established False)
      \<lparr> aliases := [''google cloud''] \<rparr>,
    (entry ''vps-hosting'' ''Virtual private server'' hosting ''Varies'' COMMERCIAL established True)
      \<lparr> aliases := [''vps'', ''hetzner'', ''digitalocean'', ''linode''],
        operationalComplexity := burden_medium,
        infrastructureBurden := burden_medium \<rparr>,
    (entry ''on-premise'' ''Client's own infrastructure'' hosting ''None'' FREE_SELF_HOSTED established True)
      \<lparr> aliases := [''on-prem'', ''on premise'', ''self-hosted''],
        operationalComplexity := burden_high,
        infrastructureBurden := burden_high \<rparr>]"

definition delivery_entries :: "catalog_entry list" where
  "delivery_entries = [
    entry ''docker'' ''Docker'' containerization ''Apache-2.0'' MIXED established True,
    (entry ''kubernetes'' ''Kubernetes'' containerization ''Apache-2.0'' FREE_SELF_HOSTED established True)
      \<lparr> aliases := [''k8s''],
        operationalComplexity := burden_high,
        infrastructureBurden := burden_high \<rparr>,
    entry ''github-actions'' ''GitHub Actions'' ci_cd ''Proprietary'' FREE_TIER_AVAILABLE established False,
    (entry ''gitlab-ci'' ''GitLab CI'' ci_cd ''MIT'' MIXED established True)
      \<lparr> infrastructureBurden := burden_medium \<rparr>,
    (entry ''jenkins'' ''Jenkins'' ci_cd ''MIT'' FREE_SELF_HOSTED legacy True)
      \<lparr> operationalComplexity := burden_high,
        infrastructureBurden := burden_medium \<rparr>]"

definition observability_entries :: "catalog_entry list" where
  "observability_entries = [
    (entry ''prometheus-grafana'' ''Prometheus and Grafana'' monitoring ''Apache-2.0'' FREE_SELF_HOSTED established True)
      \<lparr> aliases := [''prometheus'', ''grafana''],
        operationalComplexity := burden_medium,
        infrastructureBurden := burden_medium \<rparr>,
    entry ''datadog'' ''Datadog'' monitoring ''Proprietary'' USAGE_BASED established False,
    (entry ''sentry'' ''Sentry'' monitoring ''FSL / BSL'' MIXED established True)
      \<lparr> infrastructureBurden := burden_medium \<rparr>,
    (entry ''opensearch-logs'' ''OpenSearch for logs'' logging ''Apache-2.0'' FREE_SELF_HOSTED established True)
      \<lparr> aliases := [''elk'', ''opensearch dashboards''],
        operationalComplexity := burden_high,
        infrastructureBurden := burden_high \<rparr>,
    (entry ''structured-file-logs'' ''Structured file logs'' logging ''Varies'' FREE_SELF_HOSTED established True)
      \<lparr> aliases := [''json logs'', ''pino'', ''winston''] \<rparr>,
    (entry ''plausible'' ''Plausible Analytics'' analytics ''AGPL-3.0'' MIXED growing True)
      \<lparr> infrastructureBurden := burden_medium \<rparr>,
    (entry ''google-analytics'' ''Google Analytics'' analytics ''Proprietary'' FREE_TIER_AVAILABLE established False)
      \<lparr> aliases := [''ga4''] \<rparr>]"

definition testing_entries :: "catalog_entry list" where
  "testing_entries = [
    entry ''playwright'' ''Playwright'' testing ''Apache-2.0'' FREE_SELF_HOSTED established True,
    entry ''jest'' ''Jest'' testing ''MIT'' FREE_SELF_HOSTED established True,
    entry ''vitest'' ''Vitest'' testing ''MIT'' FREE_SELF_HOSTED growing True,
    entry ''pytest'' ''pytest'' testing ''MIT'' FREE_SELF_HOSTED established True,
    (entry ''clamav'' ''ClamAV'' security_tooling ''GPL-2.0'' FREE_SELF_HOSTED established True)
      \<lparr> infrastructureBurden := burden_medium \<rparr>,
    (entry ''dependency-audit'' ''Dependency vulnerability scanning'' security_tooling ''Varies'' FREE_SELF_HOSTED established True)
      \<lparr> aliases := [''npm audit'', ''dependabot'', ''trivy''] \<rparr>]"

definition content_entries :: "catalog_entry list" where
  "content_entries = [
    (entry ''wordpress'' ''WordPress'' content_management ''GPL-2.0'' FREE_SELF_HOSTED established True)
      \<lparr> supportedProjectTypes := [WEBSITE, ECOMMERCE_PLATFORM],
        operationalComplexity := burden_medium \<rparr>,
    (entry ''strapi'' ''Strapi'' content_management ''MIT'' MIXED growing True)
      \<lparr> infrastructureBurden := burden_medium \<rparr>,
    (entry ''markdown-content'' ''Markdown files in the repository'' content_management ''None'' FREE_SELF_HOSTED established True)
      \<lparr> supportedProjectTypes := [WEBSITE] \<rparr>]"

definition data_entries :: "catalog_entry list" where
  "data_entries = [
    (entry ''rest-api'' ''REST over HTTP'' integrations ''Open standard'' FREE_SELF_HOSTED established True)
      \<lparr> aliases := [''rest'', ''http api''] \<rparr>,
    entry ''graphql'' ''GraphQL'' integrations ''MIT'' FREE_SELF_HOSTED established True,
    entry ''soap'' ''SOAP'' integrations ''Open standard'' FREE_SELF_HOSTED legacy True,
    (entry ''sftp-exchange'' ''Scheduled SFTP file exchange'' integrations ''Open standard'' FREE_SELF_HOSTED established True)
      \<lparr> aliases := [''sftp'', ''file drop''] \<rparr>,
    (entry ''etl-scripts'' ''Scheduled transformation jobs'' data_processing ''Varies'' FREE_SELF_HOSTED established True)
      \<lparr> aliases := [''etl'', ''batch jobs''] \<rparr>,
    (entry ''airflow'' ''Apache Airflow'' data_processing ''Apache-2.0'' MIXED established True)
      \<lparr> operationalComplexity := burden_high,
        infrastructureBurden := burden_high \<rparr>]"

definition TECHNOLOGY_CATALOG :: "catalog_entry list" where
  "TECHNOLOGY_CATALOG =
     web_frontend_entries @ backend_entries @ client_entries @ database_entries
     @ cache_search_entries @ storage_entries @ auth_entries @ queue_entries
     @ payment_entries @ ai_entries @ hosting_entries @ delivery_entries
     @ observability_entries @ testing_entries @ content_entries @ data_entries"

definition CATALOG_BY_ID :: "(string \<times> catalog_entry) list" where
  "CATALOG_BY_ID = map (\<lambda>e. (en_id e, e)) TECHNOLOGY_CATALOG"

definition findTechnology :: "string \<Rightarrow> catalog_entry option" where
  "findTechnology i = map_of (rev CATALOG_BY_ID) i"

definition resolveByName :: "string \<Rightarrow> catalog_entry option" where
  "resolveByName name =
     (let needle = js_lower (js_trim name)
      in if needle = [] then None
         else find (\<lambda>e. en_id e = needle \<or> js_lower (en_name e) = needle
                        \<or> list_ex (\<lambda>a. js_lower a = needle) (aliases e)) TECHNOLOGY_CATALOG)"

end
