(* ===== verification/StackRules.thy ===== *)
theory StackRules
  imports StackCatalog JsNumber
begin

text \<open>
  The rules of the technology stack, under packages/contracts/src/stack: who may decide a component
  (stack-authority.contract.ts), how well founded a choice is (stack-evidence.ts), what is wrong
  with a stack (compatibility.contract.ts), what stands between it and approval (stack-blockers.ts,
  stack-snapshot.contract.ts) and the constraints read out of requirement text
  (apps/api/src/stack/constraints.service.ts). Of a finding or a blocker the sentences are left out.
\<close>

section \<open>Authority\<close>

datatype stack_authority_level =
    A_UNDEFINED | A_AI_RECOMMENDATION | A_USER_SELECTED | A_USER_APPROVED | A_LOCKED_USER_SELECTION

definition STACK_AUTHORITY_LEVELS :: "stack_authority_level list" where
  "STACK_AUTHORITY_LEVELS =
     [A_UNDEFINED, A_AI_RECOMMENDATION, A_USER_SELECTED, A_USER_APPROVED, A_LOCKED_USER_SELECTION]"

definition AUTHORITY_RANK :: "stack_authority_level \<Rightarrow> nat" where
  "AUTHORITY_RANK l = index_of l STACK_AUTHORITY_LEVELS"

definition canOverride :: "stack_authority_level \<Rightarrow> stack_authority_level \<Rightarrow> bool" where
  "canOverride incoming held = (AUTHORITY_RANK incoming > AUTHORITY_RANK held)"

definition aiMayOccupy :: "stack_authority_level \<Rightarrow> bool" where
  "aiMayOccupy held = (held = A_UNDEFINED \<or> held = A_AI_RECOMMENDATION)"

datatype stack_component_status =
    NOT_DEFINED | AI_RECOMMENDED | USER_SELECTED | USER_APPROVED | LOCKED | REJECTED | SUPERSEDED

fun STATUS_AUTHORITY :: "stack_component_status \<Rightarrow> stack_authority_level" where
  "STATUS_AUTHORITY NOT_DEFINED = A_UNDEFINED"
| "STATUS_AUTHORITY AI_RECOMMENDED = A_AI_RECOMMENDATION"
| "STATUS_AUTHORITY USER_SELECTED = A_USER_SELECTED"
| "STATUS_AUTHORITY USER_APPROVED = A_USER_APPROVED"
| "STATUS_AUTHORITY LOCKED = A_LOCKED_USER_SELECTION"
| "STATUS_AUTHORITY REJECTED = A_UNDEFINED"
| "STATUS_AUTHORITY SUPERSEDED = A_UNDEFINED"

definition authorityOf :: "stack_component_status \<Rightarrow> stack_authority_level" where
  "authorityOf s = STATUS_AUTHORITY s"

fun STACK_COMPONENT_TRANSITIONS :: "stack_component_status \<Rightarrow> stack_component_status list" where
  "STACK_COMPONENT_TRANSITIONS NOT_DEFINED = [AI_RECOMMENDED, USER_SELECTED]"
| "STACK_COMPONENT_TRANSITIONS AI_RECOMMENDED =
     [USER_SELECTED, USER_APPROVED, REJECTED, SUPERSEDED, AI_RECOMMENDED]"
| "STACK_COMPONENT_TRANSITIONS USER_SELECTED = [USER_APPROVED, USER_SELECTED, REJECTED, SUPERSEDED]"
| "STACK_COMPONENT_TRANSITIONS USER_APPROVED = [LOCKED, USER_SELECTED, SUPERSEDED]"
| "STACK_COMPONENT_TRANSITIONS LOCKED = [USER_APPROVED]"
| "STACK_COMPONENT_TRANSITIONS REJECTED = [USER_SELECTED, AI_RECOMMENDED]"
| "STACK_COMPONENT_TRANSITIONS SUPERSEDED = []"

definition canTransitionComponent :: "stack_component_status \<Rightarrow> stack_component_status \<Rightarrow> bool" where
  "canTransitionComponent f t = (t \<in> set (STACK_COMPONENT_TRANSITIONS f))"

definition DECIDED_COMPONENT_STATUSES :: "stack_component_status list" where
  "DECIDED_COMPONENT_STATUSES = [USER_SELECTED, USER_APPROVED, LOCKED]"

definition isDecided :: "stack_component_status \<Rightarrow> bool" where
  "isDecided s = (s \<in> set DECIDED_COMPONENT_STATUSES)"

definition aiMayReplace :: "stack_component_status \<Rightarrow> bool" where
  "aiMayReplace s = aiMayOccupy (authorityOf s)"

datatype selection_source = USER | CLIENT_REQUIREMENT_SOURCE | EXISTING_INFRASTRUCTURE

definition isMandated :: "selection_source \<Rightarrow> bool" where
  "isMandated s = (s \<in> {CLIENT_REQUIREMENT_SOURCE, EXISTING_INFRASTRUCTURE})"

datatype stack_selection_mode = AI_RECOMMENDS_ALL | USER_SELECTS_ALL | HYBRID

definition modeNeedsInference :: "stack_selection_mode \<Rightarrow> bool" where
  "modeNeedsInference m = (m \<noteq> USER_SELECTS_ALL)"

text \<open>The named rules agree with the precedence they stand for.\<close>

lemma aiMayOccupy_rank: "aiMayOccupy held \<longleftrightarrow> AUTHORITY_RANK held \<le> AUTHORITY_RANK A_AI_RECOMMENDATION"
  by (cases held) (simp_all add: aiMayOccupy_def AUTHORITY_RANK_def STACK_AUTHORITY_LEVELS_def)

lemma aiMayReplace_iff: "aiMayReplace s \<longleftrightarrow> \<not> isDecided s"
  by (cases s) (simp_all add: aiMayReplace_def aiMayOccupy_def authorityOf_def isDecided_def DECIDED_COMPONENT_STATUSES_def)

lemma isDecided_iff: "isDecided s \<longleftrightarrow> s = USER_SELECTED \<or> s = USER_APPROVED \<or> s = LOCKED"
  by (auto simp: isDecided_def DECIDED_COMPONENT_STATUSES_def)

section \<open>Evidence\<close>

datatype stack_evidence_kind =
    CLIENT_REQUIREMENT | CONFIRMED_CLARIFICATION | ARCHITECTURAL_DERIVATION | PROJECT_CONSTRAINT
  | USER_PREFERENCE

definition isClientEvidence :: "stack_evidence_kind \<Rightarrow> bool" where
  "isClientEvidence k = (k \<in> {CLIENT_REQUIREMENT, CONFIRMED_CLARIFICATION})"

record stack_evidence_facts =
  ef_kind :: stack_evidence_kind
  ef_requirementIds :: "string list"
  ef_clarificationKeys :: "string list"
  ef_mandated :: bool
  ef_satisfiesConstraint :: bool
  ef_userSelected :: bool
  ef_inCatalog :: bool
  ef_openConflict :: bool
  ef_missingContext :: bool

datatype stack_evidence_rule =
    explicit_mandate | client_requirement | confirmed_clarification | multiple_requirements
  | stated_constraint | user_decision | reviewed_catalog_entry | open_conflict | missing_context

definition STACK_EVIDENCE_RULES :: "(stack_evidence_rule \<times> rat \<times> (stack_evidence_facts \<Rightarrow> bool)) list" where
  "STACK_EVIDENCE_RULES =
     [(explicit_mandate, lit (4/10), ef_mandated),
      (client_requirement, lit (2/10), \<lambda>f. isClientEvidence (ef_kind f) \<and> ef_requirementIds f \<noteq> []),
      (confirmed_clarification, lit (15/100), \<lambda>f. ef_clarificationKeys f \<noteq> []),
      (multiple_requirements, lit (1/10), \<lambda>f. length (ef_requirementIds f) > 1),
      (stated_constraint, lit (1/10), ef_satisfiesConstraint),
      (user_decision, lit (15/100), ef_userSelected),
      (reviewed_catalog_entry, lit (5/100), ef_inCatalog),
      (open_conflict, - lit (25/100), ef_openConflict),
      (missing_context, - lit (15/100), ef_missingContext)]"

datatype stack_evidence_band = unsupported | weak | moderate | strong

definition stackEvidenceBandFor :: "rat \<Rightarrow> stack_evidence_band" where
  "stackEvidenceBandFor score =
     (if score \<le> lit (5/100) then unsupported
      else if score < lit (25/100) then weak
      else if score < lit (55/100) then moderate else strong)"

record stack_evidence_result =
  er_score :: rat
  er_band :: stack_evidence_band
  er_contributions :: "(stack_evidence_rule \<times> rat) list"

text \<open>A sum of doubles of either sign.\<close>

definition js_add :: "rat \<Rightarrow> rat \<Rightarrow> rat" where
  "js_add x y = (if 0 \<le> x + y then round_double (x + y) else - round_double (- (x + y)))"

definition calculateStackEvidence :: "stack_evidence_facts \<Rightarrow> stack_evidence_result" where
  "calculateStackEvidence facts =
     (let contributions = map (\<lambda>(i, w, _). (i, w)) (filter (\<lambda>(_, _, applies). applies facts) STACK_EVIDENCE_RULES);
          raw = foldl (\<lambda>t c. js_add t (snd c)) 0 contributions;
          score = max 0 (min 1 (to_fixed 4 raw))
      in \<lparr> er_score = score, er_band = stackEvidenceBandFor score, er_contributions = contributions \<rparr>)"

section \<open>Findings\<close>

text \<open>The strings the enumerations are in the code, where one is compared or printed.\<close>

fun category_name :: "technology_category \<Rightarrow> string" where
  "category_name web_frontend = ''web_frontend''"
| "category_name backend = ''backend''"
| "category_name mobile_framework = ''mobile_framework''"
| "category_name native_android = ''native_android''"
| "category_name native_ios = ''native_ios''"
| "category_name desktop_framework = ''desktop_framework''"
| "category_name database = ''database''"
| "category_name cache = ''cache''"
| "category_name search = ''search''"
| "category_name vector_storage = ''vector_storage''"
| "category_name object_storage = ''object_storage''"
| "category_name authentication = ''authentication''"
| "category_name authorization = ''authorization''"
| "category_name api_gateway = ''api_gateway''"
| "category_name message_queue = ''message_queue''"
| "category_name realtime = ''realtime''"
| "category_name payment = ''payment''"
| "category_name ai_runtime = ''ai_runtime''"
| "category_name ai_model = ''ai_model''"
| "category_name data_processing = ''data_processing''"
| "category_name background_jobs = ''background_jobs''"
| "category_name integrations = ''integrations''"
| "category_name hosting = ''hosting''"
| "category_name containerization = ''containerization''"
| "category_name ci_cd = ''ci_cd''"
| "category_name monitoring = ''monitoring''"
| "category_name logging = ''logging''"
| "category_name analytics = ''analytics''"
| "category_name testing = ''testing''"
| "category_name security_tooling = ''security_tooling''"
| "category_name content_management = ''content_management''"
| "category_name other = ''other''"

fun project_type_name :: "project_type \<Rightarrow> string" where
  "project_type_name ADMIN_PORTAL = ''ADMIN_PORTAL''"
| "project_type_name AI_ML_SOLUTION = ''AI_ML_SOLUTION''"
| "project_type_name ANDROID_APPLICATION = ''ANDROID_APPLICATION''"
| "project_type_name APPLICATION_ENHANCEMENT = ''APPLICATION_ENHANCEMENT''"
| "project_type_name AUTOMATION_WORKFLOW = ''AUTOMATION_WORKFLOW''"
| "project_type_name BACKEND_API = ''BACKEND_API''"
| "project_type_name CROSS_PLATFORM_MOBILE = ''CROSS_PLATFORM_MOBILE''"
| "project_type_name DESKTOP_APPLICATION = ''DESKTOP_APPLICATION''"
| "project_type_name ECOMMERCE_PLATFORM = ''ECOMMERCE_PLATFORM''"
| "project_type_name IOS_APPLICATION = ''IOS_APPLICATION''"
| "project_type_name MIGRATION = ''MIGRATION''"
| "project_type_name MOBILE_APPLICATION = ''MOBILE_APPLICATION''"
| "project_type_name MODERNISATION = ''MODERNISATION''"
| "project_type_name MULTI_PLATFORM_PRODUCT = ''MULTI_PLATFORM_PRODUCT''"
| "project_type_name OTHER = ''OTHER''"
| "project_type_name SAAS_PLATFORM = ''SAAS_PLATFORM''"
| "project_type_name SYSTEM_INTEGRATION = ''SYSTEM_INTEGRATION''"
| "project_type_name WEBSITE = ''WEBSITE''"
| "project_type_name WEB_APPLICATION = ''WEB_APPLICATION''"

datatype risk_level = RISK_NONE | RISK_LOW | RISK_MEDIUM | RISK_HIGH | RISK_BLOCKING

definition RISK_LEVELS :: "risk_level list" where
  "RISK_LEVELS = [RISK_NONE, RISK_LOW, RISK_MEDIUM, RISK_HIGH, RISK_BLOCKING]"

definition RISK_RANK :: "risk_level \<Rightarrow> nat" where
  "RISK_RANK l = index_of l RISK_LEVELS"

definition ACKNOWLEDGEMENT_THRESHOLD :: risk_level where
  "ACKNOWLEDGEMENT_THRESHOLD = RISK_HIGH"

definition isBlocking :: "risk_level \<Rightarrow> bool" where
  "isBlocking l = (l = RISK_BLOCKING)"

definition needsAcknowledgement :: "risk_level \<Rightarrow> bool" where
  "needsAcknowledgement l = (RISK_RANK l \<ge> RISK_RANK ACKNOWLEDGEMENT_THRESHOLD \<and> l \<noteq> RISK_BLOCKING)"

datatype compatibility_kind =
    category_mismatch
  | mutual_incompatibility
  | duplicate_responsibility
  | unsupported_project_type
  | mandate_contradiction
  | self_hosting_violation
  | budget_violation
  | data_residency_concern
  | deprecated_technology
  | operational_burden
  | licence_concern
  | missing_required_category
  | unjustified_category

fun kind_name :: "compatibility_kind \<Rightarrow> string" where
  "kind_name category_mismatch = ''category_mismatch''"
| "kind_name mutual_incompatibility = ''mutual_incompatibility''"
| "kind_name duplicate_responsibility = ''duplicate_responsibility''"
| "kind_name unsupported_project_type = ''unsupported_project_type''"
| "kind_name mandate_contradiction = ''mandate_contradiction''"
| "kind_name self_hosting_violation = ''self_hosting_violation''"
| "kind_name budget_violation = ''budget_violation''"
| "kind_name data_residency_concern = ''data_residency_concern''"
| "kind_name deprecated_technology = ''deprecated_technology''"
| "kind_name operational_burden = ''operational_burden''"
| "kind_name licence_concern = ''licence_concern''"
| "kind_name missing_required_category = ''missing_required_category''"
| "kind_name unjustified_category = ''unjustified_category''"

record compatibility_finding =
  fi_id :: string
  fi_kind :: compatibility_kind
  fi_level :: risk_level
  fi_categories :: "technology_category list"
  fi_componentIds :: "string list"
  fi_requirementIds :: "string list"

definition finding ::
  "compatibility_kind \<Rightarrow> risk_level \<Rightarrow> technology_category list \<Rightarrow> string list \<Rightarrow> string list
   \<Rightarrow> compatibility_finding" where
  "finding k l cats cmps reqs =
     \<lparr> fi_id = kind_name k @ '':'' @ js_join ''+'' (cmps @ map category_name cats),
       fi_kind = k, fi_level = l, fi_categories = cats, fi_componentIds = cmps, fi_requirementIds = reqs \<rparr>"

record technology_mandate =
  tm_technologyId :: string
  tm_category :: technology_category
  tm_requirementIds :: "string list"

record stack_constraints =
  selfHostedOnly :: bool
  selfHostedEvidence :: "string list"
  noRecurringSpend :: bool
  noSpendEvidence :: "string list"
  dataResidency :: bool
  dataResidencyEvidence :: "string list"
  mandates :: "technology_mandate list"

definition EMPTY_CONSTRAINTS :: stack_constraints where
  "EMPTY_CONSTRAINTS =
     \<lparr> selfHostedOnly = False, selfHostedEvidence = [], noRecurringSpend = False, noSpendEvidence = [],
       dataResidency = False, dataResidencyEvidence = [], mandates = [] \<rparr>"

record component_facts =
  cf_id :: string
  cf_category :: technology_category
  cf_entry :: "catalog_entry option"
  cf_active :: bool

record compatibility_input =
  ci_projectTypes :: "project_type list"
  ci_components :: "component_facts list"
  ci_constraints :: stack_constraints
  ci_required :: "technology_category list"
  ci_justified :: "technology_category list"

section \<open>The rules\<close>

definition category_findings :: "component_facts \<Rightarrow> compatibility_finding list" where
  "category_findings c = (case cf_entry c of None \<Rightarrow> []
     | Some e \<Rightarrow> if fillsCategory e (cf_category c) then []
                else [finding category_mismatch RISK_BLOCKING [cf_category c] [cf_id c] []])"

text \<open>An incompatibility counts whichever of the two entries declares it.\<close>

definition clash :: "catalog_entry \<Rightarrow> catalog_entry \<Rightarrow> bool" where
  "clash e e' = (en_id e' \<in> set (incompatibleWith e) \<or> en_id e \<in> set (incompatibleWith e'))"

definition pair_findings :: "component_facts \<Rightarrow> component_facts \<Rightarrow> compatibility_finding list" where
  "pair_findings a b = (case (cf_entry a, cf_entry b) of
       (Some e, Some e') \<Rightarrow>
         if \<not> cf_id a < cf_id b then []
         else if clash e e'
         then [finding mutual_incompatibility RISK_BLOCKING [cf_category a, cf_category b] [cf_id a, cf_id b] []]
         else []
     | _ \<Rightarrow> [])"

definition by_category :: "component_facts list \<Rightarrow> (technology_category \<times> component_facts list) list" where
  "by_category active =
     foldl (\<lambda>m c. AList.update (cf_category c)
               ((case map_of m (cf_category c) of None \<Rightarrow> [] | Some held \<Rightarrow> held) @ [c]) m) [] active"

definition duplicate_findings :: "technology_category \<times> component_facts list \<Rightarrow> compatibility_finding list" where
  "duplicate_findings = (\<lambda>(category, held).
     if length held > 1 \<and> \<not> allowsMultiple category
     then [finding duplicate_responsibility RISK_BLOCKING [category] (map cf_id held) []] else [])"

definition project_type_findings :: "project_type list \<Rightarrow> component_facts \<Rightarrow> compatibility_finding list" where
  "project_type_findings types c = (case cf_entry c of None \<Rightarrow> []
     | Some e \<Rightarrow> if types = [] \<or> list_ex (suitsProjectType e) types then []
                else [finding unsupported_project_type RISK_BLOCKING [cf_category c] [cf_id c] []])"

definition mandate_findings :: "component_facts list \<Rightarrow> technology_mandate \<Rightarrow> compatibility_finding list" where
  "mandate_findings active m =
     (if tm_requirementIds m = [] then []
      else if list_ex (\<lambda>c. map_option en_id (cf_entry c) = Some (tm_technologyId m)) active then []
      else let occupying = filter (\<lambda>c. cf_category c = tm_category m) active
           in if occupying = [] then []
              else [finding mandate_contradiction RISK_BLOCKING [tm_category m] (map cf_id occupying)
                      (tm_requirementIds m)])"

definition constraint_findings :: "stack_constraints \<Rightarrow> component_facts \<Rightarrow> compatibility_finding list" where
  "constraint_findings k c = (case cf_entry c of None \<Rightarrow> []
     | Some e \<Rightarrow>
         (if selfHostedOnly k \<and> \<not> en_selfHostable e
          then [finding self_hosting_violation RISK_BLOCKING [cf_category c] [cf_id c] (selfHostedEvidence k)] else [])
         @ (if noRecurringSpend k \<and> impliesSpend (en_costPosture e)
            then [finding budget_violation RISK_HIGH [cf_category c] [cf_id c] (noSpendEvidence k)] else [])
         @ (if dataResidency k \<and> \<not> en_selfHostable e
            then [finding data_residency_concern RISK_HIGH [cf_category c] [cf_id c] (dataResidencyEvidence k)] else []))"

definition RESTRICTIVE_LICENCES :: "string list" where
  "RESTRICTIVE_LICENCES = [''AGPL'', ''SSPL'', ''GPL'', ''BSL'', ''Elastic'']"

definition entry_findings :: "component_facts \<Rightarrow> compatibility_finding list" where
  "entry_findings c = (case cf_entry c of None \<Rightarrow> []
     | Some e \<Rightarrow>
         (if maturity e = deprecated
          then [finding deprecated_technology RISK_HIGH [cf_category c] [cf_id c] []] else [])
         @ (if operationalComplexity e = burden_high \<and> infrastructureBurden e = burden_high
            then [finding operational_burden RISK_MEDIUM [cf_category c] [cf_id c] []] else [])
         @ (if list_ex (\<lambda>l. js_includes (en_licence e) l) RESTRICTIVE_LICENCES
            then [finding licence_concern RISK_LOW [cf_category c] [cf_id c] []] else []))"

definition JUSTIFIABLE :: "technology_category list" where
  "JUSTIFIABLE = [cache, search, vector_storage, message_queue, api_gateway, realtime, containerization,
     data_processing]"

definition evaluateCompatibility :: "compatibility_input \<Rightarrow> compatibility_finding list" where
  "evaluateCompatibility inp =
     (let active = filter cf_active (ci_components inp);
          byCategory = by_category active
      in concat (map category_findings active)
         @ concat (map (\<lambda>a. concat (map (pair_findings a) active)) active)
         @ concat (map duplicate_findings byCategory)
         @ concat (map (project_type_findings (ci_projectTypes inp)) active)
         @ concat (map (mandate_findings active) (mandates (ci_constraints inp)))
         @ concat (map (constraint_findings (ci_constraints inp)) active)
         @ concat (map entry_findings active)
         @ concat (map (\<lambda>c. if map_of byCategory c = None
                            then [finding missing_required_category RISK_MEDIUM [c] [] []] else [])
                     (ci_required inp))
         @ concat (map (\<lambda>(c, held). if c \<in> set JUSTIFIABLE \<and> c \<notin> set (ci_justified inp) \<and> held \<noteq> []
                            then [finding unjustified_category RISK_MEDIUM [c] (map cf_id held) []] else [])
                     byCategory))"

definition highestRisk :: "compatibility_finding list \<Rightarrow> risk_level" where
  "highestRisk fs = foldl (\<lambda>highest f. if RISK_RANK (fi_level f) > RISK_RANK highest then fi_level f else highest)
     RISK_NONE fs"

definition blockingFindings :: "compatibility_finding list \<Rightarrow> compatibility_finding list" where
  "blockingFindings fs = filter (\<lambda>f. isBlocking (fi_level f)) fs"

definition acknowledgeableFindings :: "compatibility_finding list \<Rightarrow> compatibility_finding list" where
  "acknowledgeableFindings fs = filter (\<lambda>f. needsAcknowledgement (fi_level f)) fs"

section \<open>Blockers and statuses\<close>

datatype stack_blocker_kind =
    undecided_required_category | blocking_compatibility | stack_unacknowledged_risk
  | undecided_recommendation | stack_baseline_not_current | stack_baseline_not_approved
  | project_type_unconfirmed | project_type_changed | empty_stack

record stack_blocker =
  sb_kind :: stack_blocker_kind
  sb_count :: nat
  sb_componentIds :: "string list"
  sb_findingIds :: "string list"

record blocker_component =
  bc_id :: string
  bc_category :: technology_category
  bc_status :: stack_component_status
  bc_acknowledged :: "string list"

record stack_blocker_input =
  bi_components :: "blocker_component list"
  bi_required :: "technology_category list"
  bi_findings :: "compatibility_finding list"
  bi_baselineApproved :: bool
  bi_baselineCurrent :: bool
  bi_typeConfirmed :: bool
  bi_decidedTypes :: "project_type list"
  bi_currentTypes :: "project_type list"

definition sameTypes :: "project_type list \<Rightarrow> project_type list \<Rightarrow> bool" where
  "sameTypes a b =
     (length a = length b
      \<and> js_join '','' (sort (map project_type_name a)) = js_join '','' (sort (map project_type_name b)))"

text \<open>\<open>[...new Set(xs)]\<close>: the first occurrence of each.\<close>

definition set_of_list :: "'a list \<Rightarrow> 'a list" where
  "set_of_list xs = rev (remdups (rev xs))"

definition one_blocker :: "stack_blocker_kind \<Rightarrow> stack_blocker" where
  "one_blocker k = \<lparr> sb_kind = k, sb_count = 1, sb_componentIds = [], sb_findingIds = [] \<rparr>"

definition finding_blocker :: "stack_blocker_kind \<Rightarrow> compatibility_finding list \<Rightarrow> stack_blocker" where
  "finding_blocker k fs = \<lparr> sb_kind = k, sb_count = length fs,
     sb_componentIds = set_of_list (concat (map fi_componentIds fs)), sb_findingIds = map fi_id fs \<rparr>"

definition calculateStackBlockers :: "stack_blocker_input \<Rightarrow> stack_blocker list" where
  "calculateStackBlockers inp =
     (if \<not> bi_baselineApproved inp then [one_blocker stack_baseline_not_approved]
      else if \<not> bi_typeConfirmed inp then [one_blocker project_type_unconfirmed]
      else
        let moved = (if sameTypes (bi_decidedTypes inp) (bi_currentTypes inp) then [] else [one_blocker project_type_changed])
              @ (if bi_baselineCurrent inp then [] else [one_blocker stack_baseline_not_current]);
            live = filter (\<lambda>c. bc_status c \<noteq> REJECTED \<and> bc_status c \<noteq> SUPERSEDED) (bi_components inp)
        in if live = [] then moved @ [one_blocker empty_stack]
           else
             let decided = map bc_category (filter (\<lambda>c. isDecided (bc_status c)) live);
                 undecided = filter (\<lambda>c. c \<notin> set decided) (bi_required inp);
                 pending = filter (\<lambda>c. bc_status c = AI_RECOMMENDED) live;
                 blocking = blockingFindings (bi_findings inp);
                 acknowledged = concat (map bc_acknowledged live);
                 unacknowledged = filter (\<lambda>f. fi_id f \<notin> set acknowledged) (acknowledgeableFindings (bi_findings inp))
             in moved
                @ (if undecided = [] then [] else
                     [\<lparr> sb_kind = undecided_required_category, sb_count = length undecided,
                        sb_componentIds = [], sb_findingIds = [] \<rparr>])
                @ (if pending = [] then [] else
                     [\<lparr> sb_kind = undecided_recommendation, sb_count = length pending,
                        sb_componentIds = map bc_id pending, sb_findingIds = [] \<rparr>])
                @ (if blocking = [] then [] else [finding_blocker blocking_compatibility blocking])
                @ (if unacknowledged = [] then [] else [finding_blocker stack_unacknowledged_risk unacknowledged]))"

datatype stack_snapshot_status =
    SN_DRAFT | SN_REVIEW_REQUIRED | SN_READY_FOR_APPROVAL | SN_APPROVED | SN_LOCKED | SN_OUTDATED | SN_SUPERSEDED

fun STACK_SNAPSHOT_TRANSITIONS :: "stack_snapshot_status \<Rightarrow> stack_snapshot_status list" where
  "STACK_SNAPSHOT_TRANSITIONS SN_DRAFT = [SN_REVIEW_REQUIRED, SN_READY_FOR_APPROVAL, SN_SUPERSEDED]"
| "STACK_SNAPSHOT_TRANSITIONS SN_REVIEW_REQUIRED = [SN_DRAFT, SN_READY_FOR_APPROVAL, SN_SUPERSEDED]"
| "STACK_SNAPSHOT_TRANSITIONS SN_READY_FOR_APPROVAL = [SN_DRAFT, SN_REVIEW_REQUIRED, SN_APPROVED, SN_SUPERSEDED]"
| "STACK_SNAPSHOT_TRANSITIONS SN_APPROVED = [SN_LOCKED, SN_DRAFT, SN_OUTDATED, SN_SUPERSEDED]"
| "STACK_SNAPSHOT_TRANSITIONS SN_LOCKED = [SN_APPROVED, SN_OUTDATED, SN_SUPERSEDED]"
| "STACK_SNAPSHOT_TRANSITIONS SN_OUTDATED = [SN_DRAFT, SN_SUPERSEDED]"
| "STACK_SNAPSHOT_TRANSITIONS SN_SUPERSEDED = []"

definition canTransitionSnapshot :: "stack_snapshot_status \<Rightarrow> stack_snapshot_status \<Rightarrow> bool" where
  "canTransitionSnapshot f t = (f = t \<or> t \<in> set (STACK_SNAPSHOT_TRANSITIONS f))"

definition canApproveStack :: "stack_snapshot_status \<Rightarrow> stack_blocker list \<Rightarrow> nat \<Rightarrow> bool" where
  "canApproveStack s blockers components =
     ((s = SN_DRAFT \<or> s = SN_REVIEW_REQUIRED \<or> s = SN_READY_FOR_APPROVAL) \<and> blockers = [] \<and> components > 0)"

definition canLockStack :: "stack_snapshot_status \<Rightarrow> bool" where
  "canLockStack s = (s = SN_APPROVED)"

section \<open>Constraints in requirement text\<close>

record constraint_source =
  cs_itemId :: string
  cs_title :: string
  cs_description :: string
  cs_status :: string

definition IGNORED_STATUSES :: "string list" where
  "IGNORED_STATUSES = [''rejected'', ''superseded'', ''duplicate'']"

definition SELF_HOSTED_PHRASES :: "string list" where
  "SELF_HOSTED_PHRASES = [''self-host'', ''self host'', ''on-premise'', ''on premise'', ''on-prem'',
     ''must remain on the client'', ''inside our network'', ''no cloud'', ''not use any cloud'',
     ''own infrastructure'', ''own servers'']"

definition NO_SPEND_PHRASES :: "string list" where
  "NO_SPEND_PHRASES = [''no licence fee'', ''no license fee'', ''no subscription'', ''no recurring cost'',
     ''no ongoing cost'', ''open-source only'', ''open source only'', ''without paid'', ''no paid service'',
     ''zero cost'']"

definition RESIDENCY_PHRASES :: "string list" where
  "RESIDENCY_PHRASES = [''data residency'', ''must not leave'', ''remain within the eu'', ''remain in the eu'',
     ''stay within the country'', ''gdpr'', ''personal data must be stored'', ''data sovereignty'']"

definition MANDATE_PHRASES :: "string list" where
  "MANDATE_PHRASES = [''must use'', ''must be built with'', ''must be built on'', ''must run on'',
     ''is required to use'', ''the client requires'', ''mandates'', ''standardised on'', ''standardized on'']"

definition isWordCharacter :: "char \<Rightarrow> bool" where
  "isWordCharacter c = ((CHR ''a'' \<le> c \<and> c \<le> CHR ''z'') \<or> (CHR ''0'' \<le> c \<and> c \<le> CHR ''9''))"

text \<open>The search, with the character before the rest of the text.\<close>

fun word_in :: "char \<Rightarrow> string \<Rightarrow> string \<Rightarrow> bool" where
  "word_in before [] needle = False"
| "word_in before (x # xs) needle =
     ((starts_with (x # xs) needle \<and> \<not> isWordCharacter before
       \<and> \<not> isWordCharacter (case drop (length needle) (x # xs) of [] \<Rightarrow> CHR '' '' | y # _ \<Rightarrow> y))
      \<or> word_in x xs needle)"

definition containsWord :: "string \<Rightarrow> string \<Rightarrow> bool" where
  "containsWord haystack needle = (needle \<noteq> [] \<and> word_in (CHR '' '') haystack needle)"

definition source_text :: "constraint_source \<Rightarrow> string" where
  "source_text s = js_lower (cs_title s @ '' '' @ cs_description s)"

definition mentions :: "string list \<Rightarrow> constraint_source \<Rightarrow> bool" where
  "mentions phrases s = list_ex (js_includes (source_text s)) phrases"

definition names_entry :: "string \<Rightarrow> catalog_entry \<Rightarrow> bool" where
  "names_entry t e = (matchesName e (en_name e) \<and> list_ex (\<lambda>l. containsWord t (js_lower l)) (en_name e # aliases e))"

definition add_mandate :: "string \<Rightarrow> catalog_entry \<Rightarrow> (string \<times> technology_mandate) list \<Rightarrow> (string \<times> technology_mandate) list" where
  "add_mandate item e m =
     AList.update (en_id e)
       \<lparr> tm_technologyId = en_id e, tm_category = en_category e,
         tm_requirementIds = (case map_of m (en_id e) of None \<Rightarrow> [] | Some t \<Rightarrow> tm_requirementIds t) @ [item] \<rparr> m"

definition source_mandates :: "constraint_source \<Rightarrow> (string \<times> technology_mandate) list \<Rightarrow> (string \<times> technology_mandate) list" where
  "source_mandates s m =
     (if mentions MANDATE_PHRASES s
      then fold (add_mandate (cs_itemId s)) (filter (names_entry (source_text s)) TECHNOLOGY_CATALOG) m else m)"

definition deriveConstraints :: "constraint_source list \<Rightarrow> stack_constraints" where
  "deriveConstraints sources =
     (let live = filter (\<lambda>s. cs_status s \<notin> set IGNORED_STATUSES) sources
      in if live = [] then EMPTY_CONSTRAINTS
         else
           let self = map cs_itemId (filter (mentions SELF_HOSTED_PHRASES) live);
               spend = map cs_itemId (filter (mentions NO_SPEND_PHRASES) live);
               residency = map cs_itemId (filter (mentions RESIDENCY_PHRASES) live)
           in \<lparr> selfHostedOnly = (self \<noteq> []), selfHostedEvidence = self,
                noRecurringSpend = (spend \<noteq> []), noSpendEvidence = spend,
                dataResidency = (residency \<noteq> []), dataResidencyEvidence = residency,
                mandates = map snd (fold source_mandates live []) \<rparr>)"

end
