(* ===== verification/StackStore.thy ===== *)
theory StackStore
  imports StackRules VersionedRows
begin

text \<open>
  What the stack service keeps (apps/api/src/stack/stack.repository.ts, schemas/stack.schema.ts):
  the snapshots, components and recommendation runs of one project, with the queries and writes on
  them; and what it reads of the project, its baselines and its requirements. The prose of a
  recommendation, telemetry of a run and creation times are left out. A document identifier comes
  from a source of fresh strings, a parameter.
\<close>

section \<open>Documents\<close>

datatype version_source =
    REQUIRED_VERSION | USER_SELECTED_VERSION | CATALOG_RECOMMENDED_VERSION | UNSPECIFIED

record component_version =
  cv_source :: version_source
  cv_value :: "string option"

definition UNPINNED_VERSION :: component_version where
  "UNPINNED_VERSION = \<lparr> cv_source = UNSPECIFIED, cv_value = None \<rparr>"

definition version_ok :: "component_version \<Rightarrow> bool" where
  "version_ok v = ((cv_source v = UNSPECIFIED) = (cv_value v = None))"

record stack_evidence =
  sv_kind :: stack_evidence_kind
  sv_requirementIds :: "string list"
  sv_sourceIds :: "string list"
  sv_clarificationKeys :: "string list"

record recommendation_detail =
  rd_alternativeTechnologyId :: "string option"
  rd_modelConfidence :: rat
  rd_runId :: string

record risk_acknowledgement =
  ra_findingId :: string
  ra_note :: string
  ra_acknowledgedAt :: nat
  ra_requirementIds :: "string list"

record stack_component =
  c_id :: string
  c_version :: nat
  c_category :: technology_category
  c_technologyId :: "string option"
  c_technologyName :: string
  c_status :: stack_component_status
  c_authority :: stack_authority_level
  c_selectionSource :: "selection_source option"
  c_mandatory :: bool
  c_pinned :: component_version
  c_evidence :: stack_evidence
  c_evidenceStrength :: rat
  c_contributions :: "(stack_evidence_rule \<times> rat) list"
  c_licence :: string
  c_costPosture :: cost_posture
  c_selfHostable :: bool
  c_recommendation :: "recommendation_detail option"
  c_acknowledgements :: "risk_acknowledgement list"
  c_notes :: string
  c_replacedTechnologyName :: "string option"
  c_replacedReason :: "string option"
  c_lockedAt :: "nat option"
  c_recordVersion :: nat

datatype stack_decision_kind =
    mode_selected | component_selected | recommendation_accepted | recommendation_rejected
  | component_replaced | component_locked | component_unlocked | risk_acknowledged
  | stack_approved | stack_locked | stack_reopened

record stack_decision =
  sd_kind :: stack_decision_kind
  sd_category :: "technology_category option"
  sd_technologyName :: "string option"
  sd_previousTechnologyName :: "string option"
  sd_decidedAt :: nat

record stack_snapshot =
  sn_id :: string
  sn_version :: nat
  sn_status :: stack_snapshot_status
  sn_mode :: stack_selection_mode
  sn_baseline :: "(string \<times> nat) option"
  sn_projectTypes :: "project_type list"
  sn_plan :: "category_entry list"
  sn_findings :: "compatibility_finding list"
  sn_highestRisk :: risk_level
  sn_blockers :: "stack_blocker list"
  sn_decisions :: "stack_decision list"
  sn_lastRun :: "string option"
  sn_approvedAt :: "nat option"
  sn_lockedAt :: "nat option"
  sn_supersededBy :: "nat option"
  sn_recordVersion :: nat

datatype run_status = RUN_running | RUN_completed | RUN_partial | RUN_failed | RUN_cancelled

record recommendation_run =
  rr_id :: string
  rr_stackVersion :: nat
  rr_baselineVersion :: nat
  rr_requested :: "technology_category list"
  rr_filled :: "technology_category list"
  rr_status :: run_status

record stack_store =
  k_snapshots :: "stack_snapshot list"
  k_components :: "stack_component list"
  k_runs :: "recommendation_run list"
  k_used :: nat

section \<open>Snapshots\<close>

definition createSnapshot :: "stack_snapshot \<Rightarrow> stack_store \<Rightarrow> stack_store" where
  "createSnapshot s st = st\<lparr> k_snapshots := k_snapshots st @ [s] \<rparr>"

definition currentSnapshot :: "stack_store \<Rightarrow> stack_snapshot option" where
  "currentSnapshot st = newest_of sn_version (filter (\<lambda>s. sn_status s \<noteq> SN_SUPERSEDED) (k_snapshots st))"

definition findSnapshot :: "nat \<Rightarrow> stack_store \<Rightarrow> stack_snapshot option" where
  "findSnapshot v st = find (\<lambda>s. sn_version s = v) (k_snapshots st)"

definition nextSnapshotVersion :: "stack_store \<Rightarrow> nat" where
  "nextSnapshotVersion st = (case newest_of sn_version (k_snapshots st) of None \<Rightarrow> 0 | Some s \<Rightarrow> sn_version s) + 1"

definition updateSnapshot ::
  "string \<Rightarrow> nat \<Rightarrow> (stack_snapshot \<Rightarrow> stack_snapshot) \<Rightarrow> stack_store \<Rightarrow> stack_store option" where
  "updateSnapshot i ver f st =
     map_option (\<lambda>ss. st\<lparr> k_snapshots := ss \<rparr>)
       (find_and_update (\<lambda>s. sn_id s = i \<and> sn_recordVersion s = ver)
          (\<lambda>s. (f s)\<lparr> sn_recordVersion := ver + 1 \<rparr>) (k_snapshots st))"

definition retire_snapshot :: "nat \<Rightarrow> stack_snapshot \<Rightarrow> stack_snapshot" where
  "retire_snapshot v s = s\<lparr> sn_status := SN_SUPERSEDED, sn_supersededBy := Some v \<rparr>"

definition supersedeSnapshots :: "nat \<Rightarrow> nat \<Rightarrow> stack_store \<Rightarrow> stack_store" where
  "supersedeSnapshots exceptVersion v st =
     st\<lparr> k_snapshots := map (\<lambda>s. if sn_version s \<noteq> exceptVersion \<and> sn_status s \<noteq> SN_SUPERSEDED
                                 then retire_snapshot v s else s) (k_snapshots st) \<rparr>"

interpretation stack_versions: versioned_rows sn_version "\<lambda>s. sn_status s = SN_SUPERSEDED" sn_id retire_snapshot
  by unfold_locales (simp_all add: retire_snapshot_def)

section \<open>Components\<close>

definition createComponent :: "stack_component \<Rightarrow> stack_store \<Rightarrow> stack_store" where
  "createComponent c st = st\<lparr> k_components := k_components st @ [c] \<rparr>"

definition listComponents :: "nat \<Rightarrow> stack_store \<Rightarrow> stack_component list" where
  "listComponents v st =
     sort_key (\<lambda>c. category_name (c_category c)) (filter (\<lambda>c. c_version c = v) (k_components st))"

definition findComponent :: "string \<Rightarrow> stack_store \<Rightarrow> stack_component option" where
  "findComponent i st = find (\<lambda>c. c_id c = i) (k_components st)"

definition is_live :: "stack_component \<Rightarrow> bool" where
  "is_live c = (c_status c \<noteq> REJECTED \<and> c_status c \<noteq> SUPERSEDED)"

definition liveInCategory :: "nat \<Rightarrow> technology_category \<Rightarrow> stack_store \<Rightarrow> stack_component list" where
  "liveInCategory v cat st = filter (\<lambda>c. c_version c = v \<and> c_category c = cat \<and> is_live c) (k_components st)"

definition updateComponent ::
  "string \<Rightarrow> nat \<Rightarrow> (stack_component \<Rightarrow> stack_component) \<Rightarrow> stack_store \<Rightarrow> stack_store option" where
  "updateComponent i ver f st =
     map_option (\<lambda>cs. st\<lparr> k_components := cs \<rparr>)
       (find_and_update (\<lambda>c. c_id c = i \<and> c_recordVersion c = ver)
          (\<lambda>c. (f c)\<lparr> c_recordVersion := ver + 1 \<rparr>) (k_components st))"

text \<open>A write whose result the code does not look at.\<close>

definition writeComponent :: "(stack_component \<Rightarrow> stack_component) \<Rightarrow> stack_component \<Rightarrow> stack_store \<Rightarrow> stack_store" where
  "writeComponent f c st = (case updateComponent (c_id c) (c_recordVersion c) f st of None \<Rightarrow> st | Some st' \<Rightarrow> st')"

definition with_status :: "stack_component_status \<Rightarrow> stack_component \<Rightarrow> stack_component" where
  "with_status s c = c\<lparr> c_status := s, c_authority := authorityOf s \<rparr>"

definition countComponents :: "nat \<Rightarrow> stack_store \<Rightarrow> nat" where
  "countComponents v st = length (filter (\<lambda>c. c_version c = v) (k_components st))"

definition newId :: "(string \<Rightarrow> nat \<Rightarrow> string) \<Rightarrow> string \<Rightarrow> stack_store \<Rightarrow> string" where
  "newId mint pre st = mint pre (k_used st)"

definition spend_id :: "stack_store \<Rightarrow> stack_store" where
  "spend_id st = st\<lparr> k_used := k_used st + 1 \<rparr>"

text \<open>
  The copy of one component into a new version. The lock, what it replaced and the time of locking
  are not carried.
\<close>

definition carried :: "string \<Rightarrow> nat \<Rightarrow> stack_component \<Rightarrow> stack_component" where
  "carried i v c = c\<lparr> c_id := i, c_version := v,
     c_technologyId := (if c_technologyId c = Some [] then None else c_technologyId c),
     c_status := (if c_status c = LOCKED then USER_APPROVED else c_status c),
     c_authority := (if c_status c = LOCKED then A_USER_APPROVED else c_authority c),
     c_replacedTechnologyName := None, c_replacedReason := None, c_lockedAt := None, c_recordVersion := 0 \<rparr>"

definition carryForward :: "(string \<Rightarrow> nat \<Rightarrow> string) \<Rightarrow> nat \<Rightarrow> nat \<Rightarrow> stack_store \<Rightarrow> stack_store" where
  "carryForward mint from_v to_v st =
     foldl (\<lambda>s c. if c_status c = REJECTED \<or> c_status c = SUPERSEDED then s
                  else createComponent (carried (newId mint ''cmp'' s) to_v c) (spend_id s))
       st (listComponents from_v st)"

section \<open>Runs\<close>

definition createRun :: "recommendation_run \<Rightarrow> stack_store \<Rightarrow> stack_store" where
  "createRun r st = st\<lparr> k_runs := k_runs st @ [r] \<rparr>"

definition activeRun :: "stack_store \<Rightarrow> recommendation_run option" where
  "activeRun st = find (\<lambda>r. rr_status r = RUN_running) (k_runs st)"

definition updateRun :: "string \<Rightarrow> (recommendation_run \<Rightarrow> recommendation_run) \<Rightarrow> stack_store \<Rightarrow> stack_store" where
  "updateRun i f st =
     (case find_and_update (\<lambda>r. rr_id r = i) f (k_runs st) of None \<Rightarrow> st | Some rs \<Rightarrow> st\<lparr> k_runs := rs \<rparr>)"

section \<open>What the service reads\<close>

datatype stack_baseline_status = SB_draft | SB_in_review | SB_approved | SB_outdated | SB_superseded

record stack_baseline =
  sl_id :: string
  sl_version :: nat
  sl_status :: stack_baseline_status
  sl_itemIds :: "string list"

record stack_item =
  si_id :: string
  si_title :: string
  si_statement :: string
  si_status :: string

text \<open>
  The project's types, its baselines newest first (after the check of the baseline service for
  outdated ones) and the requirement items of its analysis.
\<close>

record stack_world =
  kw_projectTypes :: "project_type list"
  kw_baselines :: "stack_baseline list"
  kw_items :: "stack_item list"

definition findItemsByIds :: "stack_world \<Rightarrow> string list \<Rightarrow> stack_item list" where
  "findItemsByIds w is = filter (\<lambda>i. si_id i \<in> set is) (kw_items w)"

end
