(* ===== verification/StackService.thy ===== *)
theory StackService
  imports StackStore
begin

text \<open>
  The technology-stack workflow (apps/api/src/stack/stack.service.ts) and the recommendation run
  (recommendation.service.ts): every operation on the store, with the project as it is at that
  moment as an argument, the errors as values beside the store they leave, and histories of
  operations. The model call is its outcome, a list of recommendations that the runner accepts when
  it passes the semantic checks; audit events and logging are left out.
\<close>

section \<open>Errors and results\<close>

datatype stack_error =
    BASELINE_NOT_APPROVED | STACK_NOT_FOUND | STACK_CONFLICT | STACK_LOCKED | STACK_NOT_LOCKED
  | STACK_NOT_APPROVED | STACK_ALREADY_APPROVED | STACK_HAS_BLOCKERS "stack_blocker list"
  | COMPONENT_NOT_FOUND | COMPONENT_CONFLICT | COMPONENT_LOCKED | COMPONENT_NOT_RECOMMENDED
  | CATEGORY_NOT_APPLICABLE | UNKNOWN_TECHNOLOGY | TECHNOLOGY_WRONG_CATEGORY | UNKNOWN_REQUIREMENT
  | RECOMMENDATION_NOT_CONFIGURED | RECOMMENDATION_ALREADY_RUNNING | RECOMMENDATION_FAILED
  | NOTHING_TO_RECOMMEND | FINDING_NOT_FOUND | FINDING_NOT_ACKNOWLEDGEABLE | COMPONENT_LIMIT_REACHED

type_synonym stack_result = "stack_store \<times> stack_error option"

text \<open>The clock and the source of fresh identifiers.\<close>

record stack_env =
  ke_mint :: "string \<Rightarrow> nat \<Rightarrow> string"
  ke_now :: nat

definition maxComponents :: nat where
  "maxComponents = 80"

section \<open>The baseline, the plan and the constraints\<close>

definition approvedBaseline :: "stack_world \<Rightarrow> stack_baseline option" where
  "approvedBaseline w = find (\<lambda>b. sl_status b = SB_approved \<or> sl_status b = SB_outdated) (kw_baselines w)"

definition baselineIsCurrent :: "stack_snapshot \<Rightarrow> stack_baseline option \<Rightarrow> bool" where
  "baselineIsCurrent s baseline = (case baseline of None \<Rightarrow> False
     | Some b \<Rightarrow> sl_status b = SB_approved
         \<and> (case sn_baseline s of None \<Rightarrow> True | Some p \<Rightarrow> snd p = 0 \<or> snd p = sl_version b))"

definition CONDITIONAL_KEYWORDS :: "(technology_category \<times> string list) list" where
  "CONDITIONAL_KEYWORDS =
    [(cache, [''cache'', ''caching'']),
     (search, [''full-text search'', ''search the catalogue'', ''faceted search'', ''search index'']),
     (vector_storage, [''semantic search'', ''similarity search'', ''retrieval-augmented'', ''embedding'',
        ''vector search'']),
     (message_queue, [''message queue'', ''event stream'', ''publish and subscribe'', ''message broker'']),
     (api_gateway, [''api gateway'', ''rate limit'', ''rate-limit'']),
     (realtime, [''real time'', ''real-time'', ''live update'', ''websocket'', ''push notification'']),
     (containerization, [''container'', ''docker'', ''kubernetes'', ''orchestration'']),
     (data_processing, [''etl'', ''data pipeline'', ''batch processing'', ''transform the data''])]"

definition item_text :: "stack_item \<Rightarrow> string" where
  "item_text i = js_lower (si_title i @ '' '' @ si_statement i)"

definition justification :: "stack_item list \<Rightarrow> technology_category \<Rightarrow> string list" where
  "justification items c = (case map_of CONDITIONAL_KEYWORDS c of None \<Rightarrow> []
     | Some keywords \<Rightarrow> map si_id (filter (\<lambda>i. list_ex (js_includes (item_text i)) keywords) items))"

definition justified_entry :: "stack_item list \<Rightarrow> category_entry \<Rightarrow> category_entry" where
  "justified_entry items e =
     (let j = justification items (ca_category e)
      in if ca_applicability e \<noteq> conditional \<or> j = [] then e
         else e\<lparr> ca_applicability := optional, ca_justifiedBy := j \<rparr>)"

definition planFor :: "stack_world \<Rightarrow> stack_snapshot \<Rightarrow> category_entry list" where
  "planFor w s =
     (let plan = planCategories (sn_projectTypes s)
      in case approvedBaseline w of None \<Rightarrow> plan
         | Some b \<Rightarrow> map (justified_entry (findItemsByIds w (sl_itemIds b))) plan)"

definition constraintsFor :: "stack_world \<Rightarrow> string list \<Rightarrow> stack_constraints" where
  "constraintsFor w is =
     (if is = [] then EMPTY_CONSTRAINTS
      else deriveConstraints (map (\<lambda>i. \<lparr> cs_itemId = si_id i, cs_title = si_title i,
             cs_description = si_statement i, cs_status = si_status i \<rparr>) (findItemsByIds w is)))"

section \<open>The assembled view\<close>

record stack_view =
  sw_plan :: "category_entry list"
  sw_findings :: "compatibility_finding list"
  sw_highestRisk :: risk_level
  sw_blockers :: "stack_blocker list"
  sw_components :: "stack_component list"

definition facts_of :: "stack_component \<Rightarrow> component_facts" where
  "facts_of c = \<lparr> cf_id = c_id c, cf_category = c_category c,
     cf_entry = (case c_technologyId c of None \<Rightarrow> None | Some t \<Rightarrow> if t = [] then None else findTechnology t),
     cf_active = is_live c \<rparr>"

definition compatibility_of :: "stack_world \<Rightarrow> stack_store \<Rightarrow> stack_snapshot \<Rightarrow> compatibility_input" where
  "compatibility_of w st s =
     (let plan = planFor w s
      in \<lparr> ci_projectTypes = sn_projectTypes s, ci_components = map facts_of (listComponents (sn_version s) st),
           ci_constraints = constraintsFor w (case approvedBaseline w of None \<Rightarrow> [] | Some b \<Rightarrow> sl_itemIds b),
           ci_required = requiredCategories plan,
           ci_justified = map ca_category (filter (\<lambda>e. ca_justifiedBy e \<noteq> []) plan) \<rparr>)"

definition blocker_component_of :: "stack_component \<Rightarrow> blocker_component" where
  "blocker_component_of c = \<lparr> bc_id = c_id c, bc_category = c_category c, bc_status = c_status c,
     bc_acknowledged = map ra_findingId (c_acknowledgements c) \<rparr>"

definition blockers_of :: "stack_world \<Rightarrow> stack_store \<Rightarrow> stack_snapshot \<Rightarrow> stack_blocker_input" where
  "blockers_of w st s =
     \<lparr> bi_components = map blocker_component_of (listComponents (sn_version s) st),
       bi_required = requiredCategories (planFor w s),
       bi_findings = evaluateCompatibility (compatibility_of w st s),
       bi_baselineApproved = (approvedBaseline w \<noteq> None),
       bi_baselineCurrent = baselineIsCurrent s (approvedBaseline w),
       bi_typeConfirmed = projectTypeIsActionable (kw_projectTypes w),
       bi_decidedTypes = sn_projectTypes s, bi_currentTypes = kw_projectTypes w \<rparr>"

definition assemble :: "stack_world \<Rightarrow> stack_store \<Rightarrow> stack_snapshot \<Rightarrow> stack_view" where
  "assemble w st s =
     (let findings = evaluateCompatibility (compatibility_of w st s)
      in \<lparr> sw_plan = planFor w s, sw_findings = findings, sw_highestRisk = highestRisk findings,
           sw_blockers = calculateStackBlockers (blockers_of w st s),
           sw_components = listComponents (sn_version s) st \<rparr>)"

section \<open>Recording a decision\<close>

definition nextStatus :: "stack_snapshot_status \<Rightarrow> nat \<Rightarrow> stack_snapshot_status" where
  "nextStatus current blockerCount =
     (if current = SN_LOCKED \<or> current = SN_SUPERSEDED then current
      else if current = SN_APPROVED \<or> current = SN_OUTDATED then current
      else if blockerCount = 0 then SN_READY_FOR_APPROVAL else SN_REVIEW_REQUIRED)"

text \<open>A string that is given; the empty string counts as absent.\<close>

definition given :: "string option \<Rightarrow> string option" where
  "given s = (if s = Some [] then None else s)"

definition decision ::
  "stack_decision_kind \<Rightarrow> technology_category option \<Rightarrow> string option \<Rightarrow> string option \<Rightarrow> nat \<Rightarrow> stack_decision" where
  "decision k cat tech prev now = \<lparr> sd_kind = k, sd_category = cat, sd_technologyName = given tech,
     sd_previousTechnologyName = given prev, sd_decidedAt = now \<rparr>"

definition recalculated :: "stack_view \<Rightarrow> stack_decision \<Rightarrow> stack_snapshot \<Rightarrow> stack_snapshot" where
  "recalculated v d s = s\<lparr> sn_status := nextStatus (sn_status s) (length (sw_blockers v)),
     sn_findings := sw_findings v, sn_highestRisk := sw_highestRisk v, sn_blockers := sw_blockers v,
     sn_plan := sw_plan v, sn_decisions := sn_decisions s @ [d] \<rparr>"

definition recalculate :: "stack_world \<Rightarrow> stack_snapshot \<Rightarrow> stack_decision \<Rightarrow> stack_store \<Rightarrow> stack_store" where
  "recalculate w s d st =
     (let target = (case currentSnapshot st of None \<Rightarrow> s | Some f \<Rightarrow> f)
      in case updateSnapshot (sn_id target) (sn_recordVersion target)
                (\<lambda>_. recalculated (assemble w st target) d target) st of
           None \<Rightarrow> st | Some st' \<Rightarrow> st')"

definition snapshotOr404 :: "stack_store \<Rightarrow> stack_error + stack_snapshot" where
  "snapshotOr404 st = (case currentSnapshot st of None \<Rightarrow> Inl STACK_NOT_FOUND | Some s \<Rightarrow> Inr s)"

definition editable :: "bool \<Rightarrow> nat \<Rightarrow> stack_store \<Rightarrow> stack_error + stack_snapshot" where
  "editable allowLocked ver st =
     (case snapshotOr404 st of Inl e \<Rightarrow> Inl e
      | Inr s \<Rightarrow> if sn_status s = SN_LOCKED \<and> \<not> allowLocked then Inl STACK_LOCKED
                 else if sn_recordVersion s \<noteq> ver then Inl STACK_CONFLICT else Inr s)"

definition versioned :: "nat \<Rightarrow> stack_store \<Rightarrow> stack_error + stack_snapshot" where
  "versioned ver st =
     (case snapshotOr404 st of Inl e \<Rightarrow> Inl e
      | Inr s \<Rightarrow> if sn_recordVersion s \<noteq> ver then Inl STACK_CONFLICT else Inr s)"

section \<open>The first snapshot and the mode\<close>

definition createInitial :: "stack_env \<Rightarrow> stack_world \<Rightarrow> stack_store \<Rightarrow> stack_store" where
  "createInitial env w st =
     createSnapshot
       \<lparr> sn_id = newId (ke_mint env) ''stk'' st, sn_version = nextSnapshotVersion st, sn_status = SN_DRAFT,
         sn_mode = HYBRID, sn_baseline = map_option (\<lambda>b. (sl_id b, sl_version b)) (approvedBaseline w),
         sn_projectTypes = kw_projectTypes w, sn_plan = planCategories (kw_projectTypes w), sn_findings = [],
         sn_highestRisk = RISK_NONE, sn_blockers = [], sn_decisions = [], sn_lastRun = None,
         sn_approvedAt = None, sn_lockedAt = None, sn_supersededBy = None, sn_recordVersion = 0 \<rparr> (spend_id st)"

definition readCurrent :: "stack_env \<Rightarrow> stack_world \<Rightarrow> stack_store \<Rightarrow> stack_result" where
  "readCurrent env w st = (case currentSnapshot st of None \<Rightarrow> (createInitial env w st, None) | Some s \<Rightarrow> (st, None))"

definition write_snapshot :: "stack_snapshot \<Rightarrow> (stack_snapshot \<Rightarrow> stack_snapshot) \<Rightarrow> stack_store \<Rightarrow> stack_result" where
  "write_snapshot s f st =
     (case updateSnapshot (sn_id s) (sn_recordVersion s) f st of None \<Rightarrow> (st, Some STACK_CONFLICT) | Some st' \<Rightarrow> (st', None))"

definition setMode :: "stack_env \<Rightarrow> stack_selection_mode \<Rightarrow> nat \<Rightarrow> stack_store \<Rightarrow> stack_result" where
  "setMode env m ver st =
     (case editable False ver st of Inl e \<Rightarrow> (st, Some e)
      | Inr s \<Rightarrow> write_snapshot s (\<lambda>s. s\<lparr> sn_mode := m,
          sn_decisions := sn_decisions s @ [decision mode_selected None None None (ke_now env)] \<rparr>) st)"

section \<open>Choosing a technology\<close>

definition resolveTechnology :: "string option \<Rightarrow> string option \<Rightarrow> stack_error + (catalog_entry option \<times> string)" where
  "resolveTechnology technologyId customName =
     (case given technologyId of
        Some t \<Rightarrow> (case findTechnology t of None \<Rightarrow> Inl UNKNOWN_TECHNOLOGY | Some e \<Rightarrow> Inr (Some e, en_name e))
      | None \<Rightarrow>
          let typed = js_trim (case customName of None \<Rightarrow> [] | Some n \<Rightarrow> n)
          in (case resolveByName typed of None \<Rightarrow> Inr (None, typed) | Some e \<Rightarrow> Inr (Some e, en_name e)))"

definition requirementsExist :: "stack_world \<Rightarrow> string list \<Rightarrow> bool" where
  "requirementsExist w is = (is = [] \<or> length (findItemsByIds w is) = length (remdups is))"

record select_request =
  rq_category :: technology_category
  rq_technologyId :: "string option"
  rq_customName :: "string option"
  rq_source :: selection_source
  rq_mandatory :: bool
  rq_version :: "component_version option"
  rq_notes :: "string option"
  rq_requirementIds :: "string list"

definition new_component ::
  "string \<Rightarrow> nat \<Rightarrow> technology_category \<Rightarrow> catalog_entry option \<Rightarrow> string \<Rightarrow> stack_component_status
   \<Rightarrow> stack_evidence \<Rightarrow> stack_evidence_result \<Rightarrow> stack_component" where
  "new_component i v cat e nm s ev r =
     \<lparr> c_id = i, c_version = v, c_category = cat, c_technologyId = map_option en_id e, c_technologyName = nm,
       c_status = s, c_authority = authorityOf s, c_selectionSource = None, c_mandatory = False,
       c_pinned = UNPINNED_VERSION, c_evidence = ev, c_evidenceStrength = er_score r,
       c_contributions = er_contributions r,
       c_licence = (case e of None \<Rightarrow> [] | Some x \<Rightarrow> en_licence x),
       c_costPosture = (case e of None \<Rightarrow> UNKNOWN | Some x \<Rightarrow> en_costPosture x),
       c_selfHostable = (case e of None \<Rightarrow> False | Some x \<Rightarrow> en_selfHostable x),
       c_recommendation = None, c_acknowledgements = [], c_notes = [], c_replacedTechnologyName = None,
       c_replacedReason = None, c_lockedAt = None, c_recordVersion = 0 \<rparr>"

definition evidence_of :: "stack_evidence_kind \<Rightarrow> string list \<Rightarrow> stack_evidence" where
  "evidence_of k reqs = \<lparr> sv_kind = k, sv_requirementIds = reqs, sv_sourceIds = [], sv_clarificationKeys = [] \<rparr>"

definition selection_kind :: "bool \<Rightarrow> selection_source \<Rightarrow> stack_evidence_kind" where
  "selection_kind mandatory source =
     (if mandatory then CLIENT_REQUIREMENT
      else if source = EXISTING_INFRASTRUCTURE then PROJECT_CONSTRAINT else USER_PREFERENCE)"

definition selected_component :: "string \<Rightarrow> nat \<Rightarrow> select_request \<Rightarrow> catalog_entry option \<Rightarrow> string \<Rightarrow> stack_component" where
  "selected_component i v rq e nm =
     (let k = selection_kind (rq_mandatory rq) (rq_source rq);
          strength = calculateStackEvidence
            \<lparr> ef_kind = k, ef_requirementIds = rq_requirementIds rq, ef_clarificationKeys = [],
              ef_mandated = rq_mandatory rq, ef_satisfiesConstraint = (rq_source rq = EXISTING_INFRASTRUCTURE),
              ef_userSelected = True, ef_inCatalog = (e \<noteq> None), ef_openConflict = False, ef_missingContext = False \<rparr>
      in (new_component i v (rq_category rq) e nm USER_SELECTED (evidence_of k (rq_requirementIds rq)) strength)
           \<lparr> c_selectionSource := Some (rq_source rq), c_mandatory := rq_mandatory rq,
             c_pinned := (case rq_version rq of None \<Rightarrow> UNPINNED_VERSION | Some v \<Rightarrow> v),
             c_notes := (case rq_notes rq of None \<Rightarrow> [] | Some n \<Rightarrow> n) \<rparr>)"

definition supersede_all :: "stack_component list \<Rightarrow> stack_store \<Rightarrow> stack_store" where
  "supersede_all cs st = foldl (\<lambda>s c. writeComponent (with_status SUPERSEDED) c s) st cs"

definition select :: "stack_env \<Rightarrow> stack_world \<Rightarrow> select_request \<Rightarrow> nat \<Rightarrow> stack_store \<Rightarrow> stack_result" where
  "select env w rq ver st =
     (case editable False ver st of Inl err \<Rightarrow> (st, Some err)
      | Inr s \<Rightarrow>
         (case find (\<lambda>e. ca_category e = rq_category rq) (planFor w s) of
            None \<Rightarrow> (st, Some CATEGORY_NOT_APPLICABLE)
          | Some a \<Rightarrow>
              if ca_applicability a = not_applicable then (st, Some CATEGORY_NOT_APPLICABLE)
              else (case resolveTechnology (rq_technologyId rq) (rq_customName rq) of
                  Inl err \<Rightarrow> (st, Some err)
                | Inr (e, nm) \<Rightarrow>
                    if (case e of None \<Rightarrow> False | Some x \<Rightarrow> \<not> fillsCategory x (rq_category rq))
                    then (st, Some TECHNOLOGY_WRONG_CATEGORY)
                    else if \<not> requirementsExist w (rq_requirementIds rq) then (st, Some UNKNOWN_REQUIREMENT)
                    else
                      let existing = liveInCategory (sn_version s) (rq_category rq) st
                      in if list_ex (\<lambda>c. c_status c = LOCKED) existing then (st, Some COMPONENT_LOCKED)
                         else
                           let st1 = (if allowsMultiple (rq_category rq) then st else supersede_all existing st)
                           in if countComponents (sn_version s) st1 \<ge> maxComponents
                              then (st1, Some COMPONENT_LIMIT_REACHED)
                              else
                                let st2 = createComponent
                                      (selected_component (newId (ke_mint env) ''cmp'' st1) (sn_version s) rq e nm)
                                      (spend_id st1)
                                in (recalculate w s (decision component_selected (Some (rq_category rq)) (Some nm) None
                                      (ke_now env)) st2, None))))"

section \<open>Deciding about a recommendation\<close>

datatype recommendation_decision = Accept | Reject | Replace

record decide_request =
  dr_decision :: recommendation_decision
  dr_technologyId :: "string option"
  dr_customName :: "string option"
  dr_reason :: "string option"

definition transition ::
  "stack_component \<Rightarrow> stack_component_status \<Rightarrow> (stack_component \<Rightarrow> stack_component) \<Rightarrow> stack_store
   \<Rightarrow> stack_error + stack_store" where
  "transition c s f st =
     (case updateComponent (c_id c) (c_recordVersion c) (f \<circ> with_status s) st of
        None \<Rightarrow> Inl COMPONENT_CONFLICT | Some st' \<Rightarrow> Inr st')"

definition strengthAfterAcceptance :: "stack_component \<Rightarrow> rat" where
  "strengthAfterAcceptance c = er_score (calculateStackEvidence
     \<lparr> ef_kind = sv_kind (c_evidence c), ef_requirementIds = sv_requirementIds (c_evidence c),
       ef_clarificationKeys = sv_clarificationKeys (c_evidence c), ef_mandated = c_mandatory c,
       ef_satisfiesConstraint = False, ef_userSelected = True, ef_inCatalog = (given (c_technologyId c) \<noteq> None),
       ef_openConflict = False, ef_missingContext = False \<rparr>)"

definition replacement :: "string \<Rightarrow> nat \<Rightarrow> stack_component \<Rightarrow> catalog_entry option \<Rightarrow> string \<Rightarrow> string option \<Rightarrow> stack_component" where
  "replacement i v c e nm reason =
     (let strength = calculateStackEvidence
            \<lparr> ef_kind = USER_PREFERENCE, ef_requirementIds = [], ef_clarificationKeys = [], ef_mandated = False,
              ef_satisfiesConstraint = False, ef_userSelected = True, ef_inCatalog = (e \<noteq> None),
              ef_openConflict = False, ef_missingContext = False \<rparr>
      in (new_component i v (c_category c) e nm USER_SELECTED (evidence_of USER_PREFERENCE []) strength)
           \<lparr> c_selectionSource := Some USER, c_replacedTechnologyName := Some (c_technologyName c),
             c_replacedReason := given reason \<rparr>)"

definition decide :: "stack_env \<Rightarrow> stack_world \<Rightarrow> string \<Rightarrow> decide_request \<Rightarrow> nat \<Rightarrow> stack_store \<Rightarrow> stack_result" where
  "decide env w i rq ver st =
     (case editable False ver st of Inl err \<Rightarrow> (st, Some err)
      | Inr s \<Rightarrow>
         (case findComponent i st of None \<Rightarrow> (st, Some COMPONENT_NOT_FOUND)
          | Some c \<Rightarrow>
              if c_status c = LOCKED then (st, Some COMPONENT_LOCKED)
              else if c_status c \<noteq> AI_RECOMMENDED then (st, Some COMPONENT_NOT_RECOMMENDED)
              else (case dr_decision rq of
                  Accept \<Rightarrow> (case transition c USER_APPROVED (\<lambda>c'. c'\<lparr> c_evidenceStrength := strengthAfterAcceptance c \<rparr>) st of
                      Inl err \<Rightarrow> (st, Some err)
                    | Inr st1 \<Rightarrow> (recalculate w s (decision recommendation_accepted (Some (c_category c))
                                    (Some (c_technologyName c)) None (ke_now env)) st1, None))
                | Reject \<Rightarrow> (case transition c REJECTED id st of
                      Inl err \<Rightarrow> (st, Some err)
                    | Inr st1 \<Rightarrow> (recalculate w s (decision recommendation_rejected (Some (c_category c))
                                    (Some (c_technologyName c)) None (ke_now env)) st1, None))
                | Replace \<Rightarrow> (case resolveTechnology (dr_technologyId rq) (dr_customName rq) of
                      Inl err \<Rightarrow> (st, Some err)
                    | Inr (e, nm) \<Rightarrow>
                        if (case e of None \<Rightarrow> False | Some x \<Rightarrow> \<not> fillsCategory x (c_category c))
                        then (st, Some TECHNOLOGY_WRONG_CATEGORY)
                        else (case transition c SUPERSEDED id st of
                            Inl err \<Rightarrow> (st, Some err)
                          | Inr st1 \<Rightarrow>
                              let st2 = createComponent
                                    (replacement (newId (ke_mint env) ''cmp'' st1) (sn_version s) c e nm (dr_reason rq))
                                    (spend_id st1)
                              in (recalculate w s (decision component_replaced (Some (c_category c)) (Some nm)
                                    (Some (c_technologyName c)) (ke_now env)) st2, None))))))"

section \<open>Locking one component\<close>

definition lockComponent :: "stack_env \<Rightarrow> stack_world \<Rightarrow> string \<Rightarrow> nat \<Rightarrow> stack_store \<Rightarrow> stack_result" where
  "lockComponent env w i ver st =
     (case editable False ver st of Inl err \<Rightarrow> (st, Some err)
      | Inr s \<Rightarrow>
         (case findComponent i st of None \<Rightarrow> (st, Some COMPONENT_NOT_FOUND)
          | Some c \<Rightarrow>
              if \<not> canTransitionComponent (c_status c) LOCKED then (st, Some COMPONENT_NOT_RECOMMENDED)
              else (case transition c LOCKED (\<lambda>c'. c'\<lparr> c_lockedAt := Some (ke_now env) \<rparr>) st of
                  Inl err \<Rightarrow> (st, Some err)
                | Inr st1 \<Rightarrow> (recalculate w s (decision component_locked (Some (c_category c))
                                (Some (c_technologyName c)) None (ke_now env)) st1, None))))"

definition unlockComponent :: "stack_env \<Rightarrow> stack_world \<Rightarrow> string \<Rightarrow> nat \<Rightarrow> stack_store \<Rightarrow> stack_result" where
  "unlockComponent env w i ver st =
     (case editable True ver st of Inl err \<Rightarrow> (st, Some err)
      | Inr s \<Rightarrow>
         (case findComponent i st of None \<Rightarrow> (st, Some COMPONENT_NOT_FOUND)
          | Some c \<Rightarrow>
              if c_status c \<noteq> LOCKED then (st, Some COMPONENT_NOT_RECOMMENDED)
              else (recalculate w s (decision component_unlocked (Some (c_category c))
                      (Some (c_technologyName c)) None (ke_now env))
                    (writeComponent (\<lambda>c. (with_status USER_APPROVED c)\<lparr> c_lockedAt := None \<rparr>) c st), None)))"

section \<open>Acknowledging a risk\<close>

definition acknowledgement :: "compatibility_finding \<Rightarrow> string \<Rightarrow> nat \<Rightarrow> risk_acknowledgement" where
  "acknowledgement f note now = \<lparr> ra_findingId = fi_id f, ra_note = note, ra_acknowledgedAt = now,
     ra_requirementIds = fi_requirementIds f \<rparr>"

definition acknowledge_on :: "risk_acknowledgement \<Rightarrow> string \<Rightarrow> stack_store \<Rightarrow> stack_store" where
  "acknowledge_on a i st = (case findComponent i st of None \<Rightarrow> st
     | Some c \<Rightarrow> writeComponent (\<lambda>c. c\<lparr> c_acknowledgements := c_acknowledgements c @ [a] \<rparr>) c st)"

definition acknowledgeRisk :: "stack_env \<Rightarrow> stack_world \<Rightarrow> string \<Rightarrow> string option \<Rightarrow> nat \<Rightarrow> stack_store \<Rightarrow> stack_result" where
  "acknowledgeRisk env w i note ver st =
     (case editable False ver st of Inl err \<Rightarrow> (st, Some err)
      | Inr s \<Rightarrow>
         (case find (\<lambda>f. fi_id f = i) (sw_findings (assemble w st s)) of
            None \<Rightarrow> (st, Some FINDING_NOT_FOUND)
          | Some f \<Rightarrow>
              if \<not> needsAcknowledgement (fi_level f) then (st, Some FINDING_NOT_ACKNOWLEDGEABLE)
              else
                let a = acknowledgement f (case note of None \<Rightarrow> [] | Some n \<Rightarrow> n) (ke_now env)
                in (recalculate w s (decision risk_acknowledged None None None (ke_now env))
                      (fold (acknowledge_on a) (fi_componentIds f) st), None)))"

section \<open>Approving, locking and reopening the stack\<close>

definition approve :: "stack_env \<Rightarrow> stack_world \<Rightarrow> nat \<Rightarrow> stack_store \<Rightarrow> stack_result" where
  "approve env w ver st =
     (case versioned ver st of Inl err \<Rightarrow> (st, Some err)
      | Inr s \<Rightarrow>
          if sn_status s = SN_LOCKED then (st, Some STACK_LOCKED)
          else if sn_status s = SN_APPROVED then (st, Some STACK_ALREADY_APPROVED)
          else
            let v = assemble w st s
            in if \<not> canApproveStack (sn_status s) (sw_blockers v) (length (sw_components v))
               then (st, Some (STACK_HAS_BLOCKERS (sw_blockers v)))
               else write_snapshot s (\<lambda>s. s\<lparr> sn_status := SN_APPROVED, sn_approvedAt := Some (ke_now env),
                      sn_decisions := sn_decisions s @ [decision stack_approved None None None (ke_now env)] \<rparr>) st)"

definition lock_live :: "nat \<Rightarrow> stack_component \<Rightarrow> stack_store \<Rightarrow> stack_store" where
  "lock_live now c st =
     (if c_status c = USER_APPROVED \<or> c_status c = USER_SELECTED
      then writeComponent (\<lambda>c. (with_status LOCKED c)\<lparr> c_lockedAt := Some now \<rparr>) c st else st)"

definition lock :: "stack_env \<Rightarrow> nat \<Rightarrow> stack_store \<Rightarrow> stack_result" where
  "lock env ver st =
     (case versioned ver st of Inl err \<Rightarrow> (st, Some err)
      | Inr s \<Rightarrow>
          if \<not> canLockStack (sn_status s) then (st, Some STACK_NOT_APPROVED)
          else write_snapshot s (\<lambda>s. s\<lparr> sn_status := SN_LOCKED, sn_lockedAt := Some (ke_now env),
                 sn_decisions := sn_decisions s @ [decision stack_locked None None None (ke_now env)] \<rparr>)
                 (fold (lock_live (ke_now env)) (listComponents (sn_version s) st) st))"

definition reopened :: "string \<Rightarrow> nat \<Rightarrow> stack_decision \<Rightarrow> stack_snapshot \<Rightarrow> stack_snapshot" where
  "reopened i v d s =
     \<lparr> sn_id = i, sn_version = v, sn_status = SN_DRAFT, sn_mode = sn_mode s, sn_baseline = sn_baseline s,
       sn_projectTypes = sn_projectTypes s, sn_plan = sn_plan s, sn_findings = [], sn_highestRisk = RISK_NONE,
       sn_blockers = [], sn_decisions = sn_decisions s @ [d], sn_lastRun = None, sn_approvedAt = None,
       sn_lockedAt = None, sn_supersededBy = None, sn_recordVersion = 0 \<rparr>"

definition unlock :: "stack_env \<Rightarrow> nat \<Rightarrow> stack_store \<Rightarrow> stack_result" where
  "unlock env ver st =
     (case versioned ver st of Inl err \<Rightarrow> (st, Some err)
      | Inr s \<Rightarrow>
          if sn_status s \<noteq> SN_LOCKED then (st, Some STACK_NOT_LOCKED)
          else
            let v = nextSnapshotVersion st;
                st1 = carryForward (ke_mint env) (sn_version s) v st;
                st2 = createSnapshot (reopened (newId (ke_mint env) ''stk'' st1) v
                        (decision stack_reopened None None None (ke_now env)) s) (spend_id st1)
            in (supersedeSnapshots v v st2, None))"

section \<open>What later phases read\<close>

record authoritative_technology =
  at_category :: technology_category
  at_technologyId :: "string option"
  at_technologyName :: string
  at_version :: "string option"
  at_authority :: stack_authority_level
  at_selectionSource :: "selection_source option"
  at_mandatory :: bool
  at_licence :: string
  at_costPosture :: cost_posture
  at_selfHostable :: bool
  at_requirementIds :: "string list"

record downstream_authority =
  da_contractVersion :: nat
  da_snapshotId :: string
  da_stackVersion :: nat
  da_lockedAt :: nat
  da_baselineId :: string
  da_baselineVersion :: nat
  da_projectTypes :: "project_type list"
  da_technologies :: "authoritative_technology list"
  da_excluded :: "technology_category list"
  da_acknowledged :: "(string \<times> string) list"

definition DOWNSTREAM_AUTHORITY_VERSION :: nat where
  "DOWNSTREAM_AUTHORITY_VERSION = 1"

definition technology_of :: "stack_component \<Rightarrow> authoritative_technology" where
  "technology_of c =
     \<lparr> at_category = c_category c, at_technologyId = given (c_technologyId c), at_technologyName = c_technologyName c,
       at_version = given (cv_value (c_pinned c)), at_authority = authorityOf (c_status c),
       at_selectionSource = c_selectionSource c, at_mandatory = c_mandatory c, at_licence = c_licence c,
       at_costPosture = c_costPosture c, at_selfHostable = c_selfHostable c,
       at_requirementIds = sv_requirementIds (c_evidence c) \<rparr>"

text \<open>An acknowledged risk is kept with the technology it is about and the note.\<close>

definition authority :: "stack_store \<Rightarrow> stack_error + downstream_authority" where
  "authority st =
     (case snapshotOr404 st of Inl err \<Rightarrow> Inl err
      | Inr s \<Rightarrow>
          if sn_status s \<noteq> SN_LOCKED then Inl STACK_NOT_LOCKED
          else (case (sn_baseline s, sn_lockedAt s) of
              (Some (b, bv), Some t) \<Rightarrow>
                if b = [] \<or> bv = 0 then Inl BASELINE_NOT_APPROVED
                else
                  let live = filter is_live (listComponents (sn_version s) st);
                      filled = map c_category live
                  in Inr \<lparr> da_contractVersion = DOWNSTREAM_AUTHORITY_VERSION, da_snapshotId = sn_id s,
                       da_stackVersion = sn_version s, da_lockedAt = t, da_baselineId = b, da_baselineVersion = bv,
                       da_projectTypes = sn_projectTypes s, da_technologies = map technology_of live,
                       da_excluded = map ca_category (filter (\<lambda>e. ca_applicability e \<noteq> not_applicable
                           \<and> ca_category e \<notin> set filled) (sn_plan s)),
                       da_acknowledged = concat (map (\<lambda>c. map (\<lambda>a. (c_technologyName c, ra_note a))
                           (c_acknowledgements c)) live) \<rparr>
            | _ \<Rightarrow> Inl BASELINE_NOT_APPROVED))"

definition isAuthoritative :: "downstream_authority \<Rightarrow> bool" where
  "isAuthoritative a = (da_contractVersion a = DOWNSTREAM_AUTHORITY_VERSION \<and> da_technologies a \<noteq> [])"

definition technologyFor :: "downstream_authority \<Rightarrow> technology_category \<Rightarrow> authoritative_technology list" where
  "technologyFor a c = filter (\<lambda>t. at_category t = c) (da_technologies a)"

section \<open>Recommendations\<close>

record recommendation =
  rc_category :: technology_category
  rc_technologyId :: string
  rc_requirementIds :: "string list"
  rc_alternative :: "string option"
  rc_confidence :: rat

definition categoriesToFill ::
  "category_entry list \<Rightarrow> stack_component list \<Rightarrow> technology_category list option \<Rightarrow> technology_category list" where
  "categoriesToFill plan components requested =
     (let decided = map c_category (filter (\<lambda>c. isDecided (c_status c) \<or> c_status c = AI_RECOMMENDED) components);
          offerable = map ca_category (filter (\<lambda>e. ca_applicability e = required \<or> ca_applicability e = optional) plan);
          candidates = (case requested of None \<Rightarrow> offerable | Some r \<Rightarrow> filter (\<lambda>c. c \<in> set r) offerable)
      in filter (\<lambda>c. c \<notin> set decided) candidates)"

definition allowedEntries :: "project_type list \<Rightarrow> technology_category list \<Rightarrow> catalog_entry list" where
  "allowedEntries types categories =
     filter (\<lambda>e. list_ex (fillsCategory e) categories \<and> (types = [] \<or> list_ex (suitsProjectType e) types)
                 \<and> maturity e \<noteq> deprecated) TECHNOLOGY_CATALOG"

text \<open>The requirements the model is given, of an approved baseline only.\<close>

definition baselineFor :: "stack_world \<Rightarrow> stack_baseline option" where
  "baselineFor w = find (\<lambda>b. sl_status b = SB_approved) (kw_baselines w)"

definition evidenceFor :: "stack_world \<Rightarrow> string list" where
  "evidenceFor w =
     map si_id (filter (\<lambda>i. si_status i \<noteq> ''rejected'' \<and> si_status i \<noteq> ''superseded'')
       (case baselineFor w of None \<Rightarrow> [] | Some b \<Rightarrow> findItemsByIds w (sl_itemIds b)))"

definition recommendation_valid :: "string list \<Rightarrow> technology_category list \<Rightarrow> string list \<Rightarrow> recommendation list \<Rightarrow> bool" where
  "recommendation_valid knownIds categories known recs =
     (list_all (\<lambda>r. rc_technologyId r \<in> set knownIds \<and> rc_category r \<in> set categories
                    \<and> list_all (\<lambda>q. q \<in> set known) (rc_requirementIds r)) recs
      \<and> distinct (map rc_category recs))"

definition recommended_component :: "string \<Rightarrow> nat \<Rightarrow> string \<Rightarrow> recommendation \<Rightarrow> catalog_entry \<Rightarrow> stack_component" where
  "recommended_component i v run r e =
     (let k = (if rc_requirementIds r \<noteq> [] then CLIENT_REQUIREMENT else ARCHITECTURAL_DERIVATION);
          strength = calculateStackEvidence
            \<lparr> ef_kind = k, ef_requirementIds = rc_requirementIds r, ef_clarificationKeys = [], ef_mandated = False,
              ef_satisfiesConstraint = False, ef_userSelected = False, ef_inCatalog = True, ef_openConflict = False,
              ef_missingContext = (rc_requirementIds r = []) \<rparr>
      in (new_component i v (rc_category r) (Some e) (en_name e) AI_RECOMMENDED
            (evidence_of k (rc_requirementIds r)) strength)
           \<lparr> c_pinned := (case given (recommendedVersion e) of None \<Rightarrow> UNPINNED_VERSION
                | Some x \<Rightarrow> \<lparr> cv_source = CATALOG_RECOMMENDED_VERSION, cv_value = Some x \<rparr>),
             c_recommendation := Some \<lparr> rd_alternativeTechnologyId = given (rc_alternative r),
                rd_modelConfidence = rc_confidence r, rd_runId = run \<rparr> \<rparr>)"

text \<open>
  One recommendation is written unless the slot is held by a decision; \<open>components\<close> is the list
  read before the model was asked. The categories filled are returned with the store.
\<close>

definition write_recommendation ::
  "stack_env \<Rightarrow> nat \<Rightarrow> string \<Rightarrow> stack_component list \<Rightarrow> recommendation
   \<Rightarrow> stack_store \<times> technology_category list \<Rightarrow> stack_store \<times> technology_category list" where
  "write_recommendation env v run components r = (\<lambda>(st, filled).
     (case findTechnology (rc_technologyId r) of None \<Rightarrow> (st, filled)
      | Some e \<Rightarrow>
          if \<not> fillsCategory e (rc_category r) then (st, filled)
          else
            let held = filter (\<lambda>c. c_category c = rc_category r \<and> is_live c) components
            in if list_ex (\<lambda>c. \<not> aiMayReplace (c_status c)) held then (st, filled)
               else
                 let st1 = supersede_all held st
                 in (createComponent (recommended_component (newId (ke_mint env) ''cmp'' st1) v run r e) (spend_id st1),
                     filled @ [rc_category r])))"

definition recommend ::
  "stack_env \<Rightarrow> stack_world \<Rightarrow> bool \<Rightarrow> recommendation list option \<Rightarrow> technology_category list option \<Rightarrow> nat
   \<Rightarrow> stack_store \<Rightarrow> stack_result" where
  "recommend env w configured outcome requested ver st =
     (case editable False ver st of Inl err \<Rightarrow> (st, Some err)
      | Inr s \<Rightarrow>
          if \<not> configured then (st, Some RECOMMENDATION_NOT_CONFIGURED)
          else if activeRun st \<noteq> None then (st, Some RECOMMENDATION_ALREADY_RUNNING)
          else
            let components = listComponents (sn_version s) st;
                categories = categoriesToFill (planFor w s) components requested
            in if categories = [] then (st, Some NOTHING_TO_RECOMMEND)
               else
                 let run = newId (ke_mint env) ''rec'' st;
                     st1 = createRun \<lparr> rr_id = run, rr_stackVersion = sn_version s,
                        rr_baselineVersion = (case baselineFor w of None \<Rightarrow> 0 | Some b \<Rightarrow> sl_version b),
                        rr_requested = categories, rr_filled = [], rr_status = RUN_running \<rparr> (spend_id st);
                     known = map en_id (allowedEntries (sn_projectTypes s) categories);
                     accepted = (case outcome of None \<Rightarrow> None
                        | Some recs \<Rightarrow> if recommendation_valid known categories (evidenceFor w) recs then Some recs else None)
                 in (case accepted of
                       None \<Rightarrow> (updateRun run (\<lambda>r. r\<lparr> rr_status := RUN_failed \<rparr>) st1, Some RECOMMENDATION_FAILED)
                     | Some recs \<Rightarrow>
                         let res = fold (write_recommendation env (sn_version s) run components) recs (st1, []);
                             st2 = updateRun run (\<lambda>r. r\<lparr> rr_filled := snd res,
                               rr_status := (if length (snd res) = length categories then RUN_completed else RUN_partial) \<rparr>)
                               (fst res)
                         in (case currentSnapshot st2 of None \<Rightarrow> (st2, None)
                             | Some f \<Rightarrow> (case updateSnapshot (sn_id f) (sn_recordVersion f) (\<lambda>f. f\<lparr> sn_lastRun := Some run \<rparr>) st2 of
                                 None \<Rightarrow> (st2, None) | Some st3 \<Rightarrow> (st3, None)))))"

section \<open>Operations and histories\<close>

datatype stack_op =
    Op_read
  | Op_mode stack_selection_mode nat
  | Op_select select_request nat
  | Op_decide string decide_request nat
  | Op_lockComponent string nat
  | Op_unlockComponent string nat
  | Op_acknowledge string "string option" nat
  | Op_approve nat
  | Op_lock nat
  | Op_unlock nat
  | Op_recommend bool "recommendation list option" "technology_category list option" nat

fun perform_op :: "stack_env \<Rightarrow> stack_world \<Rightarrow> stack_op \<Rightarrow> stack_store \<Rightarrow> stack_result" where
  "perform_op env w Op_read st = readCurrent env w st"
| "perform_op env w (Op_mode m ver) st = setMode env m ver st"
| "perform_op env w (Op_select rq ver) st = select env w rq ver st"
| "perform_op env w (Op_decide i rq ver) st = decide env w i rq ver st"
| "perform_op env w (Op_lockComponent i ver) st = lockComponent env w i ver st"
| "perform_op env w (Op_unlockComponent i ver) st = unlockComponent env w i ver st"
| "perform_op env w (Op_acknowledge i note ver) st = acknowledgeRisk env w i note ver st"
| "perform_op env w (Op_approve ver) st = approve env w ver st"
| "perform_op env w (Op_lock ver) st = lock env ver st"
| "perform_op env w (Op_unlock ver) st = unlock env ver st"
| "perform_op env w (Op_recommend cfg out cats ver) st = recommend env w cfg out cats ver st"

text \<open>A history: the operations in order, each with the clock and the project at that moment.\<close>

definition stack_history :: "(string \<Rightarrow> nat \<Rightarrow> string) \<Rightarrow> (nat \<times> stack_world \<times> stack_op) list \<Rightarrow> stack_store \<Rightarrow> stack_store" where
  "stack_history mint ops st =
     foldl (\<lambda>s (now, w, op). fst (perform_op \<lparr> ke_mint = mint, ke_now = now \<rparr> w op s)) st ops"

definition empty_stack_store :: stack_store where
  "empty_stack_store = \<lparr> k_snapshots = [], k_components = [], k_runs = [], k_used = 0 \<rparr>"

end
