(* ===== verification/StackCatalogFacts.thy ===== *)
theory StackCatalogFacts
  imports StackCatalog
begin

text \<open>
  The catalogue is a lookup table: the identifier, the name and the aliases of an entry are labels
  of that entry alone, so typing any of them, in any case and with any spaces around it, selects the
  entry; and every category a project type requires has a technology that suits the type.
\<close>

section \<open>Labels\<close>

definition labels :: "catalog_entry \<Rightarrow> string list" where
  "labels e = remdups (en_id e # js_lower (en_name e) # map js_lower (aliases e))"

lemma set_labels: "l \<in> set (labels e) \<longleftrightarrow> en_id e = l \<or> js_lower (en_name e) = l \<or> list_ex (\<lambda>a. js_lower a = l) (aliases e)"
  by (auto simp: labels_def list_ex_iff)

lemma labels_web_frontend_entries: "map labels web_frontend_entries =
  [[''react'', ''reactjs'', ''react.js''],
   [''nextjs'', ''next'', ''next.js''],
   [''vue'', ''vuejs'', ''vue.js''],
   [''angular''],
   [''svelte'', ''sveltekit''],
   [''astro''],
   [''html-css-js'', ''plain html, css and javascript'', ''vanilla js'', ''static html'']]"
  by code_simp

lemma labels_backend_entries: "map labels backend_entries =
  [[''nestjs'', ''nest''],
   [''express''],
   [''django''],
   [''laravel''],
   [''spring-boot'', ''spring boot'', ''spring'', ''java spring''],
   [''fastapi''],
   [''dotnet'', ''asp.net core'', ''.net'', ''asp.net'', ''dotnet core''],
   [''go-backend'', ''go'', ''golang''],
   [''rails'', ''ruby on rails'']]"
  by code_simp

lemma labels_client_entries: "map labels client_entries =
  [[''flutter''],
   [''react-native'', ''react native''],
   [''kotlin-android'', ''kotlin (android)'', ''kotlin'', ''jetpack compose''],
   [''swift-ios'', ''swift (ios)'', ''swift'', ''swiftui''],
   [''electron''],
   [''tauri'']]"
  by code_simp

lemma labels_database_entries: "map labels database_entries =
  [[''postgresql'', ''postgres'', ''psql''],
   [''mysql'', ''mariadb''],
   [''mongodb'', ''mongo''],
   [''sqlite''],
   [''sql-server'', ''microsoft sql server'', ''mssql'', ''sqlserver''],
   [''oracle-db'', ''oracle database''],
   [''dynamodb'', ''amazon dynamodb'']]"
  by code_simp

lemma labels_cache_search_entries: "map labels cache_search_entries =
  [[''redis''],
   [''valkey''],
   [''elasticsearch''],
   [''opensearch''],
   [''meilisearch''],
   [''pgvector''],
   [''qdrant'']]"
  by code_simp

lemma labels_storage_entries: "map labels storage_entries =
  [[''minio''],
   [''s3'', ''amazon s3'']]"
  by code_simp

lemma labels_auth_entries: "map labels auth_entries =
  [[''keycloak''],
   [''auth0''],
   [''app-native-auth'', ''application-native authentication'', ''built-in auth'', ''custom auth''],
   [''casbin''],
   [''kong''],
   [''nginx''],
   [''socket-io'', ''socket.io''],
   [''server-sent-events'', ''server-sent events'', ''sse'']]"
  by code_simp

lemma labels_queue_entries: "map labels queue_entries =
  [[''rabbitmq''],
   [''kafka'', ''apache kafka''],
   [''db-backed-jobs'', ''database-backed job queue'', ''database queue'', ''polling worker''],
   [''bullmq''],
   [''celery'']]"
  by code_simp

lemma labels_payment_entries: "map labels payment_entries =
  [[''stripe''],
   [''razorpay''],
   [''paypal'']]"
  by code_simp

lemma labels_ai_entries: "map labels ai_entries =
  [[''ollama''],
   [''vllm''],
   [''openai-api'', ''openai api''],
   [''anthropic-api'', ''anthropic api''],
   [''open-weights-model'', ''open-weights model (llama, qwen, mistral)'', ''llama'', ''qwen'', ''mistral'', ''local model'']]"
  by code_simp

lemma labels_hosting_entries: "map labels hosting_entries =
  [[''aws'', ''amazon web services''],
   [''azure'', ''microsoft azure''],
   [''gcp'', ''google cloud platform'', ''google cloud''],
   [''vps-hosting'', ''virtual private server'', ''vps'', ''hetzner'', ''digitalocean'', ''linode''],
   [''on-premise'', ''client's own infrastructure'', ''on-prem'', ''on premise'', ''self-hosted'']]"
  by code_simp

lemma labels_delivery_entries: "map labels delivery_entries =
  [[''docker''],
   [''kubernetes'', ''k8s''],
   [''github-actions'', ''github actions''],
   [''gitlab-ci'', ''gitlab ci''],
   [''jenkins'']]"
  by code_simp

lemma labels_observability_entries: "map labels observability_entries =
  [[''prometheus-grafana'', ''prometheus and grafana'', ''prometheus'', ''grafana''],
   [''datadog''],
   [''sentry''],
   [''opensearch-logs'', ''opensearch for logs'', ''elk'', ''opensearch dashboards''],
   [''structured-file-logs'', ''structured file logs'', ''json logs'', ''pino'', ''winston''],
   [''plausible'', ''plausible analytics''],
   [''google-analytics'', ''google analytics'', ''ga4'']]"
  by code_simp

lemma labels_testing_entries: "map labels testing_entries =
  [[''playwright''],
   [''jest''],
   [''vitest''],
   [''pytest''],
   [''clamav''],
   [''dependency-audit'', ''dependency vulnerability scanning'', ''npm audit'', ''dependabot'', ''trivy'']]"
  by code_simp

lemma labels_content_entries: "map labels content_entries =
  [[''wordpress''],
   [''strapi''],
   [''markdown-content'', ''markdown files in the repository'']]"
  by code_simp

lemma labels_data_entries: "map labels data_entries =
  [[''rest-api'', ''rest over http'', ''rest'', ''http api''],
   [''graphql''],
   [''soap''],
   [''sftp-exchange'', ''scheduled sftp file exchange'', ''sftp'', ''file drop''],
   [''etl-scripts'', ''scheduled transformation jobs'', ''etl'', ''batch jobs''],
   [''airflow'', ''apache airflow'']]"
  by code_simp

lemmas section_labels =
  labels_web_frontend_entries labels_backend_entries labels_client_entries labels_database_entries
  labels_cache_search_entries labels_storage_entries labels_auth_entries labels_queue_entries
  labels_payment_entries labels_ai_entries labels_hosting_entries labels_delivery_entries
  labels_observability_entries labels_testing_entries labels_content_entries labels_data_entries

lemma labels_distinct: "distinct (concat (map labels TECHNOLOGY_CATALOG))"
  by (simp add: TECHNOLOGY_CATALOG_def section_labels)

lemma labels_unique:
  assumes "distinct (concat (map labels es))" and "e \<in> set es" and "l \<in> set (labels e)"
  shows "find (\<lambda>e. l \<in> set (labels e)) es = Some e"
  using assms
proof (induction es)
  case (Cons a es)
  show ?case
  proof (cases "e = a")
    case False
    then have "e \<in> set es" using Cons.prems(2) by simp
    moreover from this have "l \<notin> set (labels a)" using Cons.prems(1,3) by auto
    ultimately show ?thesis using Cons by simp
  qed (use Cons.prems(3) in simp)
qed simp

lemma labels_nonempty: "list_all (\<lambda>l. l \<noteq> []) (concat (map labels TECHNOLOGY_CATALOG))"
  by (simp add: TECHNOLOGY_CATALOG_def section_labels)

lemma catalog_label:
  assumes "e \<in> set TECHNOLOGY_CATALOG" and "l \<in> set (labels e)"
  shows "l \<noteq> []" "find (\<lambda>e. en_id e = l \<or> js_lower (en_name e) = l \<or> list_ex (\<lambda>a. js_lower a = l) (aliases e))
    TECHNOLOGY_CATALOG = Some e"
proof -
  have "l \<in> set (concat (map labels TECHNOLOGY_CATALOG))" using assms by auto
  with labels_nonempty show "l \<noteq> []" by (metis (mono_tags) list_all_iff)
  show "find (\<lambda>e. en_id e = l \<or> js_lower (en_name e) = l \<or> list_ex (\<lambda>a. js_lower a = l) (aliases e))
    TECHNOLOGY_CATALOG = Some e"
    using labels_unique [OF labels_distinct assms] unfolding set_labels .
qed

lemma distinct_ids:
  assumes "distinct (concat (map labels es))"
  shows "distinct (map en_id es)"
  using assms
proof (induction es)
  case (Cons a es)
  have i: "en_id e \<in> set (labels e)" for e by (simp add: set_labels)
  have "en_id a \<notin> en_id ` set es"
  proof
    assume "en_id a \<in> en_id ` set es"
    then obtain e where "e \<in> set es" "en_id a = en_id e" by blast
    then show False using Cons.prems i [of a] i [of e] by auto
  qed
  then show ?case using Cons by simp
qed simp

lemma findTechnology_catalog: "e \<in> set TECHNOLOGY_CATALOG \<Longrightarrow> findTechnology (en_id e) = Some e"
proof -
  assume e: "e \<in> set TECHNOLOGY_CATALOG"
  have "distinct (map fst CATALOG_BY_ID)"
    using distinct_ids [OF labels_distinct] by (simp add: CATALOG_BY_ID_def comp_def)
  moreover have "(en_id e, e) \<in> set CATALOG_BY_ID" using e by (simp add: CATALOG_BY_ID_def)
  ultimately show ?thesis by (simp add: findTechnology_def map_of_is_SomeI rev_map [symmetric])
qed

lemma findTechnology_SomeD: "findTechnology i = Some e \<Longrightarrow> e \<in> set TECHNOLOGY_CATALOG \<and> en_id e = i"
  by (auto simp: findTechnology_def CATALOG_BY_ID_def dest!: map_of_SomeD)

lemma resolveByName_SomeD: "resolveByName n = Some e \<Longrightarrow> e \<in> set TECHNOLOGY_CATALOG"
  by (auto simp: resolveByName_def Let_def find_Some_iff split: if_splits)

section \<open>The catalogue is a lookup table\<close>


section \<open>Every required category can be filled\<close>

lemma raise_level_required:
  "map_of (raise_level l c m) x = Some required \<longleftrightarrow> map_of m x = Some required \<or> (x = c \<and> l = required)"
  by (cases l) (auto simp: raise_level_def applicability_rank_def update_conv' split: option.splits category_applicability.splits)

lemma fold_raise_required:
  "map_of (fold (raise_level l) cs m) x = Some required \<longleftrightarrow> map_of m x = Some required \<or> (x \<in> set cs \<and> l = required)"
  by (induction cs arbitrary: m) (auto simp: raise_level_required)

lemma strongest_required:
  "map_of (strongest_levels types) c = Some required \<longleftrightarrow> (\<exists>t \<in> set types. c \<in> set (fst (PLANS t)))"
proof -
  have "map_of (foldl (\<lambda>m t. fold (raise_level optional) (snd (PLANS t) @ UNIVERSAL_OPTIONAL)
          (fold (raise_level required) (fst (PLANS t)) m)) m types) c = Some required
    \<longleftrightarrow> map_of m c = Some required \<or> (\<exists>t \<in> set types. c \<in> set (fst (PLANS t)))" for m
    by (induction types arbitrary: m) (auto simp: fold_raise_required)
  then show ?thesis by (simp add: strongest_levels_def)
qed

lemma all_categories: "c \<in> set TECHNOLOGY_CATEGORIES"
  by (cases c) (simp_all add: TECHNOLOGY_CATEGORIES_def)

lemma required_filter:
  "requiredCategories (planCategories types) =
     filter (\<lambda>c. \<not> requiresJustification c \<and> map_of (strongest_levels types) c = Some required) TECHNOLOGY_CATEGORIES"
  by (auto simp: requiredCategories_def planCategories_def Let_def filter_map comp_def
      intro!: filter_cong split: option.splits)

lemma required_categories_iff:
  "c \<in> set (requiredCategories (planCategories types)) \<longleftrightarrow>
     \<not> requiresJustification c \<and> (\<exists>t \<in> set types. c \<in> set (fst (PLANS t)))"
  by (simp add: required_filter strongest_required all_categories)

definition fillable :: "project_type \<Rightarrow> technology_category \<Rightarrow> bool" where
  "fillable t c = list_ex (\<lambda>e. fillsCategory e c \<and> suitsProjectType e t \<and> maturity e \<noteq> deprecated) TECHNOLOGY_CATALOG"

lemma fillableI:
  assumes "list_ex (\<lambda>e. fillsCategory e c \<and> suitsProjectType e t \<and> maturity e \<noteq> deprecated) es"
    and "set es \<subseteq> set TECHNOLOGY_CATALOG"
  shows "fillable t c"
  using assms by (auto simp: fillable_def list_ex_iff)

lemmas entry_simps = entry_def fillsCategory_def suitsProjectType_def

lemma sections_of_catalog:
  "set web_frontend_entries \<subseteq> set TECHNOLOGY_CATALOG"
  "set backend_entries \<subseteq> set TECHNOLOGY_CATALOG"
  "set client_entries \<subseteq> set TECHNOLOGY_CATALOG"
  "set database_entries \<subseteq> set TECHNOLOGY_CATALOG"
  "set auth_entries \<subseteq> set TECHNOLOGY_CATALOG"
  "set payment_entries \<subseteq> set TECHNOLOGY_CATALOG"
  "set ai_entries \<subseteq> set TECHNOLOGY_CATALOG"
  "set data_entries \<subseteq> set TECHNOLOGY_CATALOG"
  unfolding TECHNOLOGY_CATALOG_def set_append by blast+

lemma fill_general:
  "fillable t web_frontend"
  "fillable t backend"
  "fillable t database"
  "fillable t authentication"
  "fillable t payment"
  "fillable t ai_model"
  "fillable t integrations"
proof -
  show "fillable t web_frontend"
    by (rule fillableI [OF _ sections_of_catalog(1)]) (simp add: web_frontend_entries_def entry_simps)
  show "fillable t backend"
    by (rule fillableI [OF _ sections_of_catalog(2)]) (simp add: backend_entries_def entry_simps)
  show "fillable t database"
    by (rule fillableI [OF _ sections_of_catalog(4)]) (simp add: database_entries_def entry_simps)
  show "fillable t authentication"
    by (rule fillableI [OF _ sections_of_catalog(5)]) (simp add: auth_entries_def entry_simps)
  show "fillable t payment"
    by (rule fillableI [OF _ sections_of_catalog(6)]) (simp add: payment_entries_def entry_simps)
  show "fillable t ai_model"
    by (rule fillableI [OF _ sections_of_catalog(7)]) (simp add: ai_entries_def entry_simps)
  show "fillable t integrations"
    by (rule fillableI [OF _ sections_of_catalog(8)]) (simp add: data_entries_def entry_simps)
qed

lemma fill_platform:
  "fillable MOBILE_APPLICATION mobile_framework" "fillable CROSS_PLATFORM_MOBILE mobile_framework"
  "fillable ANDROID_APPLICATION native_android" "fillable IOS_APPLICATION native_ios"
  "fillable DESKTOP_APPLICATION desktop_framework"
  by (rule fillableI [OF _ sections_of_catalog(3)], simp add: client_entries_def entry_simps)+

lemma plans_fillable: "c \<in> set (fst (PLANS t)) \<Longrightarrow> fillable t c"
  by (cases t) (auto simp: fill_general fill_platform)

text \<open>
  Property C36. Whatever project types a project has, every category its plan makes required can be
  filled from the catalogue with a maintained technology that suits one of the types: the gate on
  required categories can always be met without typing a technology by hand.
\<close>
theorem required_categories_can_be_filled:
  assumes "c \<in> set (requiredCategories (planCategories types))"
  shows "\<exists>e \<in> set TECHNOLOGY_CATALOG. fillsCategory e c \<and> maturity e \<noteq> deprecated
    \<and> (\<exists>t \<in> set types. suitsProjectType e t)"
proof -
  from assms obtain t where "t \<in> set types" "c \<in> set (fst (PLANS t))" by (auto simp: required_categories_iff)
  with plans_fillable [of c t] show ?thesis by (auto simp: fillable_def list_ex_iff)
qed

end
