(* ===== verification/StackRulesFacts.thy ===== *)
theory StackRulesFacts
  imports StackRules "HOL-Library.Multiset"
begin

text \<open>
  What the rules of the stack decide, exactly: when a stack has a blocking finding, when nothing
  stands between it and approval, and that two technologies named for one slot can never be
  reconciled.
\<close>

section \<open>Grouping by category\<close>

lemma by_category_map_of:
  "map_of (by_category cs) c =
     (let held = filter (\<lambda>x. cf_category x = c) cs in if held = [] then None else Some held)"
proof -
  have "map_of (foldl (\<lambda>m c. AList.update (cf_category c)
            ((case map_of m (cf_category c) of None \<Rightarrow> [] | Some held \<Rightarrow> held) @ [c]) m) m cs) c =
     (let held = (case map_of m c of None \<Rightarrow> [] | Some h \<Rightarrow> h) @ filter (\<lambda>x. cf_category x = c) cs
      in if filter (\<lambda>x. cf_category x = c) cs = [] then map_of m c else Some held)" for m
    by (induction cs arbitrary: m) (auto simp: Let_def update_conv')
  from this [of "[]"] show ?thesis by (simp add: by_category_def Let_def)
qed

lemma by_category_keys: "distinct (map fst (by_category cs))"
proof -
  have "distinct (map fst m) \<Longrightarrow> distinct (map fst (foldl (\<lambda>m c. AList.update (cf_category c)
            ((case map_of m (cf_category c) of None \<Rightarrow> [] | Some held \<Rightarrow> held) @ [c]) m) m cs))" for m
    by (induction cs arbitrary: m) (simp_all add: distinct_update)
  then show ?thesis by (simp add: by_category_def)
qed

lemma by_category_iff:
  "(c, held) \<in> set (by_category cs) \<longleftrightarrow> held = filter (\<lambda>x. cf_category x = c) cs \<and> held \<noteq> []"
proof -
  have "(c, held) \<in> set (by_category cs) \<longleftrightarrow> map_of (by_category cs) c = Some held"
    using by_category_keys by (simp add: map_of_eq_Some_iff)
  then show ?thesis by (auto simp: by_category_map_of Let_def split: if_splits)
qed

section \<open>Blocking findings\<close>

lemma blocking_append [simp]: "blockingFindings (xs @ ys) = blockingFindings xs @ blockingFindings ys"
  by (simp add: blockingFindings_def)

lemma blocking_concat: "blockingFindings (concat xss) = [] \<longleftrightarrow> (\<forall>xs \<in> set xss. blockingFindings xs = [])"
  by (induction xss) (simp_all add: blockingFindings_def)

lemma blocking_finding [simp]:
  "blockingFindings [] = []" "blockingFindings [finding k l cs is rs] = (if l = RISK_BLOCKING then [finding k l cs is rs] else [])"
  by (simp_all add: blockingFindings_def isBlocking_def finding_def)

lemma clash_sym: "clash e e' \<longleftrightarrow> clash e' e"
  by (auto simp: clash_def)

text \<open>What makes a stack of active components buildable under its constraints.\<close>

definition fits :: "project_type list \<Rightarrow> bool \<Rightarrow> component_facts \<Rightarrow> bool" where
  "fits types selfHosted c = (case cf_entry c of None \<Rightarrow> True
     | Some e \<Rightarrow> fillsCategory e (cf_category c) \<and> (types = [] \<or> list_ex (suitsProjectType e) types)
         \<and> (selfHosted \<longrightarrow> en_selfHostable e))"

definition at_odds :: "component_facts \<Rightarrow> component_facts \<Rightarrow> bool" where
  "at_odds a b = (case (cf_entry a, cf_entry b) of
     (Some e, Some e') \<Rightarrow> cf_id a \<noteq> cf_id b \<and> clash e e' | _ \<Rightarrow> False)"

definition contradicted :: "component_facts list \<Rightarrow> technology_mandate \<Rightarrow> bool" where
  "contradicted active m =
     (tm_requirementIds m \<noteq> [] \<and> list_ex (\<lambda>c. cf_category c = tm_category m) active
      \<and> \<not> list_ex (\<lambda>c. map_option en_id (cf_entry c) = Some (tm_technologyId m)) active)"

lemma blocking_fits:
  "blockingFindings (category_findings c) = [] \<and> blockingFindings (project_type_findings ts c) = []
     \<and> blockingFindings (constraint_findings k c) = [] \<longleftrightarrow> fits ts (selfHostedOnly k) c"
  by (auto simp: category_findings_def project_type_findings_def constraint_findings_def fits_def split: option.splits)

lemma blocking_pairs:
  "(\<forall>a \<in> set cs. \<forall>b \<in> set cs. blockingFindings (pair_findings a b) = []) \<longleftrightarrow> (\<forall>a \<in> set cs. \<forall>b \<in> set cs. \<not> at_odds a b)"
proof -
  have "blockingFindings (pair_findings a b) = [] \<and> blockingFindings (pair_findings b a) = [] \<longleftrightarrow> \<not> at_odds a b" for a b
    using clash_sym less_linear [of "cf_id a" "cf_id b"]
    by (auto simp: pair_findings_def at_odds_def split: option.splits)
  then show ?thesis by blast
qed

lemma blocking_duplicates:
  "(\<forall>p \<in> set (by_category cs). blockingFindings (duplicate_findings p) = []) \<longleftrightarrow>
     (\<forall>c. \<not> allowsMultiple c \<longrightarrow> length (filter (\<lambda>x. cf_category x = c) cs) \<le> 1)"
proof -
  have d: "blockingFindings (duplicate_findings (c, h)) = [] \<longleftrightarrow> allowsMultiple c \<or> length h \<le> 1" for c h
    by (cases "allowsMultiple c") (auto simp: duplicate_findings_def)
  show ?thesis
  proof (intro iffI allI impI ballI)
    fix c
    assume all: "\<forall>p \<in> set (by_category cs). blockingFindings (duplicate_findings p) = []" and c: "\<not> allowsMultiple c"
    show "length (filter (\<lambda>x. cf_category x = c) cs) \<le> 1"
    proof (cases "filter (\<lambda>x. cf_category x = c) cs = []")
      case False
      then have "(c, filter (\<lambda>x. cf_category x = c) cs) \<in> set (by_category cs)" by (simp add: by_category_iff)
      with all d c show ?thesis by blast
    qed simp
  next
    fix p
    assume one: "\<forall>c. \<not> allowsMultiple c \<longrightarrow> length (filter (\<lambda>x. cf_category x = c) cs) \<le> 1" and p: "p \<in> set (by_category cs)"
    obtain c h where e: "p = (c, h)" by (cases p)
    then have "h = filter (\<lambda>x. cf_category x = c) cs" using p by (simp add: by_category_iff)
    then have "allowsMultiple c \<or> length h \<le> 1" using one by blast
    then show "blockingFindings (duplicate_findings p) = []" using d e by blast
  qed
qed

lemma blocking_mandates: "blockingFindings (mandate_findings cs m) = [] \<longleftrightarrow> \<not> contradicted cs m"
  by (auto simp: mandate_findings_def contradicted_def Let_def list_ex_iff filter_empty_conv)

lemma never_blocking [simp]:
  "blockingFindings (entry_findings c) = []"
  "blockingFindings (if b then [finding k RISK_MEDIUM cs is rs] else []) = []"
  by (auto simp: entry_findings_def split: option.splits)

lemma unblocked_iff:
  "blockingFindings (evaluateCompatibility inp) = [] \<longleftrightarrow>
     (let active = filter cf_active (ci_components inp)
      in (\<forall>c \<in> set active. fits (ci_projectTypes inp) (selfHostedOnly (ci_constraints inp)) c)
         \<and> (\<forall>a \<in> set active. \<forall>b \<in> set active. \<not> at_odds a b)
         \<and> (\<forall>c. \<not> allowsMultiple c \<longrightarrow> length (filter (\<lambda>x. cf_category x = c) active) \<le> 1)
         \<and> (\<forall>m \<in> set (mandates (ci_constraints inp)). \<not> contradicted active m))"
proof -
  have split: "blockingFindings (case p of (c, held) \<Rightarrow> if Q c held then [finding k RISK_MEDIUM (F c) (G held) []] else []) = []"
    for p :: "technology_category \<times> component_facts list" and Q k F G
    by (cases p) simp
  show ?thesis
    unfolding evaluateCompatibility_def Let_def blocking_append append_is_Nil_conv blocking_concat
      set_map ball_simps blocking_pairs blocking_duplicates blocking_mandates
      using blocking_fits split by (simp add: blocking_pairs) blast
qed


section \<open>Two technologies for one slot\<close>

text \<open>
  When requirements name two technologies that fill one and the same single-slot
  category, no stack with anything in that category is free of blocking findings: one of them
  alone contradicts the other mandate, and both together hold one slot twice. The constraints of a
  sentence that names the technology to use and the one it replaces are therefore unsatisfiable.
\<close>
theorem two_mandates_for_one_slot_never_clear:
  assumes "{m, m'} \<subseteq> set (mandates (ci_constraints inp))"
    and "tm_technologyId m \<noteq> tm_technologyId m'" "tm_category m = c" "tm_category m' = c"
    and "tm_requirementIds m \<noteq> []" "tm_requirementIds m' \<noteq> []" "\<not> allowsMultiple c"
    and only: "\<forall>x \<in> set (ci_components inp). \<forall>e. cf_entry x = Some e \<and> en_id e \<in> {tm_technologyId m, tm_technologyId m'}
        \<longrightarrow> (\<forall>d. fillsCategory e d \<longrightarrow> d = c)"
    and "\<exists>x \<in> set (ci_components inp). cf_active x \<and> cf_category x = c"
  shows "blockingFindings (evaluateCompatibility inp) \<noteq> []"
proof
  let ?active = "filter cf_active (ci_components inp)"
  let ?inC = "filter (\<lambda>x. cf_category x = c) ?active"
  assume "blockingFindings (evaluateCompatibility inp) = []"
  then have fit: "\<forall>x \<in> set ?active. fits (ci_projectTypes inp) (selfHostedOnly (ci_constraints inp)) x"
    and one: "length ?inC \<le> 1" and man: "\<not> contradicted ?active m" "\<not> contradicted ?active m'"
    using assms(1,7) unblocked_iff [of inp] by (auto simp: Let_def)
  have held: "\<exists>x \<in> set ?inC. map_option en_id (cf_entry x) = Some (tm_technologyId n)"
    if n: "n = m \<or> n = m'" for n
  proof -
    have "list_ex (\<lambda>x. cf_category x = c) ?active" using assms(9) by (auto simp: list_ex_iff)
    then have "list_ex (\<lambda>x. map_option en_id (cf_entry x) = Some (tm_technologyId n)) ?active"
      using n man assms(3-6) unfolding contradicted_def by (elim disjE) simp_all
    then obtain x e where x: "x \<in> set ?active" "cf_entry x = Some e" "en_id e = tm_technologyId n"
      by (auto simp: list_ex_iff)
    from fit x(1,2) have "fillsCategory e (cf_category x)" by (auto simp: fits_def)
    moreover have "x \<in> set (ci_components inp)" "en_id e \<in> {tm_technologyId m, tm_technologyId m'}" using x n by auto
    ultimately have "cf_category x = c" using only x(2) by blast
    then have "x \<in> set ?inC" using x(1) by simp
    then show ?thesis using x(2,3) by auto
  qed
  obtain x y where x: "x \<in> set ?inC" "map_option en_id (cf_entry x) = Some (tm_technologyId m)"
    and y: "y \<in> set ?inC" "map_option en_id (cf_entry y) = Some (tm_technologyId m')"
    using held [of m] held [of m'] by blast
  then have "x \<noteq> y" using assms(2) by auto
  then have "card {x, y} \<le> card (set ?inC)" using x(1) y(1) by (intro card_mono) auto
  also have "\<dots> \<le> length ?inC" by (rule card_length)
  finally show False using one \<open>x \<noteq> y\<close> by simp
qed

section \<open>The gate\<close>

lemma project_type_name_inj: "project_type_name a = project_type_name b \<Longrightarrow> a = b"
  by (cases a; cases b) simp_all

lemma project_type_name_comma: "CHR '','' \<notin> set (project_type_name t)"
  by (cases t) simp_all

lemma sort_names: "sort (map project_type_name xs) = map project_type_name (sort_key project_type_name xs)"
  by (rule properties_for_sort) simp_all

lemma join_names_inj:
  assumes "xs \<noteq> []" and "ys \<noteq> []"
    and "js_join '','' (map project_type_name xs) = js_join '','' (map project_type_name ys)"
  shows "xs = ys"
proof -
  have split: "js_split CHR '','' (js_join '','' (map project_type_name zs)) = map project_type_name zs" if "zs \<noteq> []" for zs
    using that by (intro js_split_join) (auto simp: project_type_name_comma)
  have "map project_type_name xs = js_split CHR '','' (js_join '','' (map project_type_name xs))"
    by (rule split [OF assms(1), symmetric])
  also have "\<dots> = map project_type_name ys" unfolding assms(3) by (rule split [OF assms(2)])
  finally show ?thesis using project_type_name_inj by (simp add: inj_map_eq_map inj_def)
qed

lemma sameTypes_iff: "sameTypes a b \<longleftrightarrow> mset a = mset b"
proof
  assume s: "sameTypes a b"
  then have len: "length a = length b"
    and j: "js_join '','' (map project_type_name (sort_key project_type_name a))
      = js_join '','' (map project_type_name (sort_key project_type_name b))"
    unfolding sameTypes_def sort_names by blast+
  show "mset a = mset b"
  proof (cases "a = []")
    case False
    then have "b \<noteq> []" using len by (metis length_0_conv)
    with False have "set (sort_key project_type_name a) \<noteq> {}" "set (sort_key project_type_name b) \<noteq> {}"
      by simp_all
    then have "sort_key project_type_name a = sort_key project_type_name b"
      by (intro join_names_inj [OF _ _ j]) (metis set_empty)+
    then have "mset (sort_key project_type_name a) = mset (sort_key project_type_name b)" by (rule arg_cong)
    then show ?thesis by (simp only: mset_sort)
  qed (use len in simp)
next
  assume m: "mset a = mset b"
  have "sort (map project_type_name b) = sort (map project_type_name a)"
    by (rule properties_for_sort) (simp_all add: m)
  moreover have "length a = length b" using m by (rule mset_eq_length)
  ultimately show "sameTypes a b" unfolding sameTypes_def by simp
qed

lemma set_of_list_set [simp]: "set (set_of_list xs) = set xs"
  by (simp add: set_of_list_def)

definition live_of :: "stack_blocker_input \<Rightarrow> blocker_component list" where
  "live_of inp = filter (\<lambda>c. bc_status c \<noteq> REJECTED \<and> bc_status c \<noteq> SUPERSEDED) (bi_components inp)"

text \<open>
  Nothing stands between a stack and approval exactly when its baseline is approved
  and the one it was decided against, the project types are confirmed and, as a multiset, the ones
  it was decided against, something is chosen, every required category has a person's decision, no
  suggestion waits for one, nothing blocks, and every high risk was acknowledged on a live component.
\<close>
theorem stack_gate_exact:
  "calculateStackBlockers inp = [] \<longleftrightarrow>
     bi_baselineApproved inp \<and> bi_baselineCurrent inp \<and> bi_typeConfirmed inp
     \<and> mset (bi_decidedTypes inp) = mset (bi_currentTypes inp) \<and> live_of inp \<noteq> []
     \<and> (\<forall>c \<in> set (bi_required inp). \<exists>x \<in> set (live_of inp). bc_category x = c \<and> isDecided (bc_status x))
     \<and> (\<forall>x \<in> set (live_of inp). bc_status x \<noteq> AI_RECOMMENDED)
     \<and> blockingFindings (bi_findings inp) = []
     \<and> (\<forall>f \<in> set (bi_findings inp). needsAcknowledgement (fi_level f)
          \<longrightarrow> (\<exists>x \<in> set (live_of inp). fi_id f \<in> set (bc_acknowledged x)))"
proof -
  have "(filter (\<lambda>c. c \<notin> set (map bc_category (filter (\<lambda>c. isDecided (bc_status c)) (live_of inp)))) (bi_required inp) = [])
    \<longleftrightarrow> (\<forall>c \<in> set (bi_required inp). \<exists>x \<in> set (live_of inp). bc_category x = c \<and> isDecided (bc_status x))"
    by (auto simp: filter_empty_conv)
  moreover have "filter (\<lambda>f. fi_id f \<notin> set (concat (map bc_acknowledged (live_of inp)))) (acknowledgeableFindings (bi_findings inp)) = []
    \<longleftrightarrow> (\<forall>f \<in> set (bi_findings inp). needsAcknowledgement (fi_level f)
          \<longrightarrow> (\<exists>x \<in> set (live_of inp). fi_id f \<in> set (bc_acknowledged x)))"
    by (auto simp: filter_empty_conv acknowledgeableFindings_def)
  moreover have "filter (\<lambda>c. bc_status c = AI_RECOMMENDED) (live_of inp) = []
    \<longleftrightarrow> (\<forall>x \<in> set (live_of inp). bc_status x \<noteq> AI_RECOMMENDED)"
    by (auto simp: filter_empty_conv)
  ultimately show ?thesis
    unfolding calculateStackBlockers_def Let_def live_of_def [symmetric] sameTypes_iff [symmetric]
    by (simp split: if_split)
qed

end
