(* ===== verification/StackFacts.thy ===== *)
theory StackFacts
  imports StackService StackCatalogFacts StackRulesFacts
begin

text \<open>
  Facts about the stack service that its guarantees share: what each write touches, how an
  operation moves the components it finds and which it adds, and how it moves the versions.
\<close>

section \<open>Frames\<close>

lemma stack_updateSnapshot_frame:
  "updateSnapshot i v f st = Some st' \<Longrightarrow>
     k_components st' = k_components st \<and> k_runs st' = k_runs st \<and> k_used st' = k_used st"
  by (auto simp: updateSnapshot_def)

lemma stack_recalculate_frame [simp]:
  "k_components (recalculate w s d st) = k_components st" "k_runs (recalculate w s d st) = k_runs st"
  "k_used (recalculate w s d st) = k_used st"
  by (auto simp: recalculate_def Let_def split: option.splits dest!: stack_updateSnapshot_frame)

lemma stack_write_snapshot_frame [simp]:
  "k_components (fst (write_snapshot s f st)) = k_components st" "k_runs (fst (write_snapshot s f st)) = k_runs st"
  "k_used (fst (write_snapshot s f st)) = k_used st"
  by (auto simp: write_snapshot_def split: option.splits dest!: stack_updateSnapshot_frame)

lemma stack_store_frame [simp]:
  "k_components (createSnapshot s st) = k_components st" "k_used (createSnapshot s st) = k_used st"
  "k_snapshots (createSnapshot s st) = k_snapshots st @ [s]"
  "k_components (supersedeSnapshots x v st) = k_components st" "k_used (supersedeSnapshots x v st) = k_used st"
  "k_components (createComponent c st) = k_components st @ [c]" "k_used (createComponent c st) = k_used st"
  "k_snapshots (createComponent c st) = k_snapshots st"
  "k_components (spend_id st) = k_components st" "k_used (spend_id st) = k_used st + 1"
  "k_snapshots (spend_id st) = k_snapshots st"
  "k_components (createRun r st) = k_components st" "k_used (createRun r st) = k_used st"
  "k_snapshots (createRun r st) = k_snapshots st"
  by (simp_all add: createSnapshot_def supersedeSnapshots_def createComponent_def spend_id_def createRun_def)

lemma updateRun_frame [simp]:
  "k_components (updateRun i f st) = k_components st" "k_used (updateRun i f st) = k_used st"
  "k_snapshots (updateRun i f st) = k_snapshots st"
  by (auto simp: updateRun_def split: option.splits)

lemma writeComponent_frame [simp]:
  "k_snapshots (writeComponent f c st) = k_snapshots st" "k_used (writeComponent f c st) = k_used st"
  by (auto simp: writeComponent_def updateComponent_def split: option.splits)

lemma supersede_all_frame [simp]:
  "k_snapshots (supersede_all cs st) = k_snapshots st" "k_used (supersede_all cs st) = k_used st"
proof -
  have "k_snapshots (foldl (\<lambda>s c. writeComponent g c s) st cs) = k_snapshots st
      \<and> k_used (foldl (\<lambda>s c. writeComponent g c s) st cs) = k_used st" for g
    by (induction cs arbitrary: st) simp_all
  then show "k_snapshots (supersede_all cs st) = k_snapshots st" "k_used (supersede_all cs st) = k_used st"
    by (simp_all add: supersede_all_def)
qed

lemma stack_editable_SomeD:
  "editable b ver st = Inr s \<Longrightarrow>
     currentSnapshot st = Some s \<and> sn_recordVersion s = ver \<and> (b \<or> sn_status s \<noteq> SN_LOCKED)"
  by (auto simp: editable_def snapshotOr404_def split: option.splits if_splits)

lemma stack_versioned_SomeD: "versioned ver st = Inr s \<Longrightarrow> currentSnapshot st = Some s \<and> sn_recordVersion s = ver"
  by (auto simp: versioned_def snapshotOr404_def split: option.splits if_splits)

section \<open>Writes to components\<close>

definition bump :: "(stack_component \<Rightarrow> stack_component) \<Rightarrow> stack_component \<Rightarrow> stack_component" where
  "bump f c = (f c)\<lparr> c_recordVersion := c_recordVersion c + 1 \<rparr>"

abbreviation distinct_ids_in :: "stack_store \<Rightarrow> bool" where
  "distinct_ids_in st \<equiv> distinct (map c_id (k_components st))"

lemma row_unique: "distinct_ids_in st \<Longrightarrow> c \<in> set (k_components st) \<Longrightarrow> d \<in> set (k_components st) \<Longrightarrow> c_id c = c_id d \<Longrightarrow> c = d"
  by (metis distinct_map inj_onD)

lemma updateComponent_row:
  assumes "distinct_ids_in st" and "c \<in> set (k_components st)"
  shows "updateComponent (c_id c) (c_recordVersion c) f st
    = Some (st\<lparr> k_components := map (\<lambda>d. if d = c then bump f c else d) (k_components st) \<rparr>)"
proof -
  have "find_and_update (\<lambda>d. c_id d = c_id c \<and> c_recordVersion d = c_recordVersion c)
      (\<lambda>d. (f d)\<lparr> c_recordVersion := c_recordVersion c + 1 \<rparr>) (k_components st)
    = Some (map (\<lambda>d. if c_id d = c_id c then (f d)\<lparr> c_recordVersion := c_recordVersion c + 1 \<rparr> else d) (k_components st))"
    by (rule find_and_update_distinct [OF assms]) auto
  moreover have "map (\<lambda>d. if c_id d = c_id c then (f d)\<lparr> c_recordVersion := c_recordVersion c + 1 \<rparr> else d) (k_components st)
    = map (\<lambda>d. if d = c then bump f c else d) (k_components st)"
    using row_unique [OF assms(1) _ assms(2)] by (auto simp: bump_def)
  ultimately show ?thesis by (simp add: updateComponent_def)
qed

lemma writeComponent_row:
  assumes "distinct_ids_in st" and "c \<in> set (k_components st)"
  shows "writeComponent f c st = st\<lparr> k_components := map (\<lambda>d. if d = c then bump f c else d) (k_components st) \<rparr>"
  using updateComponent_row [OF assms] by (simp add: writeComponent_def)

lemma transition_row:
  assumes "distinct_ids_in st" and "c \<in> set (k_components st)"
  shows "transition c s f st
    = Inr (st\<lparr> k_components := map (\<lambda>d. if d = c then bump (f \<circ> with_status s) c else d) (k_components st) \<rparr>)"
  using updateComponent_row [OF assms] by (simp add: transition_def)

text \<open>Several rows of the store written one after the other.\<close>

lemma write_rows:
  assumes "distinct_ids_in st" "set cs \<subseteq> set (k_components st)" "distinct cs" "\<And>c. c_id (f c) = c_id c"
  shows "foldl (\<lambda>s c. writeComponent f c s) st cs
    = st\<lparr> k_components := map (\<lambda>d. if d \<in> set cs then bump f d else d) (k_components st) \<rparr>"
  using assms(1-3)
proof (induction cs arbitrary: st)
  case (Cons c cs)
  let ?st = "st\<lparr> k_components := map (\<lambda>d. if d = c then bump f c else d) (k_components st) \<rparr>"
  have w: "writeComponent f c st = ?st" using Cons.prems by (intro writeComponent_row) auto
  have ids: "map c_id (k_components ?st) = map c_id (k_components st)" by (auto simp: bump_def assms(4))
  have d: "distinct_ids_in ?st" unfolding ids by (rule Cons.prems(1))
  moreover have "set cs \<subseteq> set (k_components ?st)" using Cons.prems(2,3) by (auto simp: image_iff)
  ultimately have "foldl (\<lambda>s c. writeComponent f c s) ?st cs
      = ?st\<lparr> k_components := map (\<lambda>d. if d \<in> set cs then bump f d else d) (k_components ?st) \<rparr>"
    using Cons.prems(3) by (intro Cons.IH) auto
  moreover have "bump f c \<notin> set cs"
  proof
    assume b: "bump f c \<in> set cs"
    have "c_id (bump f c) = c_id c" by (simp add: bump_def assms(4))
    then have "bump f c = c" using b Cons.prems(1,2) row_unique by auto
    then show False using b Cons.prems(3) by auto
  qed
  ultimately show ?case using Cons.prems(3) by (simp add: w comp_def)
qed simp

lemma supersede_rows:
  assumes "distinct_ids_in st" "set cs \<subseteq> set (k_components st)" "distinct cs"
  shows "supersede_all cs st
    = st\<lparr> k_components := map (\<lambda>d. if d \<in> set cs then bump (with_status SUPERSEDED) d else d) (k_components st) \<rparr>"
  unfolding supersede_all_def by (rule write_rows [OF assms]) (simp add: with_status_def)

lemma findComponent_SomeD: "findComponent i st = Some c \<Longrightarrow> c \<in> set (k_components st) \<and> c_id c = i"
  by (auto simp: findComponent_def find_Some_iff)

lemma set_listComponents [simp]: "set (listComponents v st) = {c \<in> set (k_components st). c_version c = v}"
  by (auto simp: listComponents_def)

lemma distinct_rows: "distinct_ids_in st \<Longrightarrow> distinct (k_components st)"
  by (simp add: distinct_map)

lemma distinct_listComponents: "distinct_ids_in st \<Longrightarrow> distinct (listComponents v st)"
  by (simp add: listComponents_def distinct_rows)

lemma lock_rows:
  assumes "distinct_ids_in st"
  shows "fold (lock_live now) (listComponents v st) st
    = st\<lparr> k_components := map (\<lambda>d. if c_version d = v \<and> (c_status d = USER_APPROVED \<or> c_status d = USER_SELECTED)
        then bump (\<lambda>c. (with_status LOCKED c)\<lparr> c_lockedAt := Some now \<rparr>) d else d) (k_components st) \<rparr>"
proof -
  let ?g = "\<lambda>c. (with_status LOCKED c)\<lparr> c_lockedAt := Some now \<rparr>"
  let ?P = "\<lambda>c. c_status c = USER_APPROVED \<or> c_status c = USER_SELECTED"
  have "fold (lock_live now) cs s = foldl (\<lambda>s c. writeComponent ?g c s) s (filter ?P cs)" for cs s
    by (induction cs arbitrary: s) (simp_all add: lock_live_def)
  moreover have "foldl (\<lambda>s c. writeComponent ?g c s) st (filter ?P (listComponents v st))
      = st\<lparr> k_components := map (\<lambda>d. if d \<in> set (filter ?P (listComponents v st)) then bump ?g d else d) (k_components st) \<rparr>"
    using distinct_listComponents [OF assms] assms by (intro write_rows) (auto simp: with_status_def)
  ultimately show ?thesis by (auto intro!: arg_cong [where f = "\<lambda>x. st\<lparr> k_components := x \<rparr>"])
qed

text \<open>Carrying forward appends copies of the live rows, with fresh ids, and writes nothing else.\<close>

definition copies :: "(string \<Rightarrow> nat \<Rightarrow> string) \<Rightarrow> nat \<Rightarrow> nat \<Rightarrow> stack_component list \<Rightarrow> stack_component list" where
  "copies mint n v cs = map2 (\<lambda>k c. carried (mint ''cmp'' k) v c) [n..<n + length cs] cs"

lemma copies_Cons: "copies mint n v (c # cs) = carried (mint ''cmp'' n) v c # copies mint (Suc n) v cs"
  by (simp add: copies_def upt_conv_Cons del: upt_Suc)

lemma carryForward_rows:
  "carryForward mint v v' st = (let live = filter is_live (listComponents v st)
     in st\<lparr> k_components := k_components st @ copies mint (k_used st) v' live, k_used := k_used st + length live \<rparr>)"
proof -
  have "foldl (\<lambda>s c. if c_status c = REJECTED \<or> c_status c = SUPERSEDED then s
          else createComponent (carried (newId mint ''cmp'' s) v' c) (spend_id s)) s cs
    = s\<lparr> k_components := k_components s @ copies mint (k_used s) v' (filter is_live cs),
         k_used := k_used s + length (filter is_live cs) \<rparr>" for s cs
  proof (induction cs arbitrary: s)
    case Nil
    then show ?case by (simp add: copies_def)
  next
    case (Cons c cs)
    then show ?case
      by (auto simp: is_live_def copies_Cons newId_def createComponent_def spend_id_def)
  qed
  then show ?thesis by (simp add: carryForward_def Let_def)
qed

section \<open>How an operation moves components\<close>

text \<open>A component up to its record version.\<close>

definition touch :: "stack_component \<Rightarrow> stack_component" where
  "touch c = c\<lparr> c_recordVersion := 0 \<rparr>"

lemma touch_bump [simp]: "touch (bump f c) = touch (f c)" and bump_id: "c_id (f c) = c_id c \<Longrightarrow> c_id (bump f c) = c_id c"
  by (simp_all add: touch_def bump_def)

text \<open>What an operation may make of a component it finds, record version aside.\<close>

fun may_become :: "stack_op \<Rightarrow> stack_component \<Rightarrow> stack_component \<Rightarrow> bool" where
  "may_become (Op_select rq ver) c c' =
     (c_category c = rq_category rq \<and> is_live c \<and> c_status c \<noteq> LOCKED \<and> touch c' = touch (with_status SUPERSEDED c))"
| "may_become (Op_decide i rq ver) c c' =
     (c_id c = i \<and> c_status c = AI_RECOMMENDED \<and> touch c' = touch (case dr_decision rq of
        Accept \<Rightarrow> (with_status USER_APPROVED c)\<lparr> c_evidenceStrength := strengthAfterAcceptance c \<rparr>
      | Reject \<Rightarrow> with_status REJECTED c
      | Replace \<Rightarrow> with_status SUPERSEDED c))"
| "may_become (Op_lockComponent i ver) c c' =
     (c_id c = i \<and> c_status c = USER_APPROVED \<and> (\<exists>t. touch c' = touch ((with_status LOCKED c)\<lparr> c_lockedAt := Some t \<rparr>)))"
| "may_become (Op_unlockComponent i ver) c c' =
     (c_id c = i \<and> c_status c = LOCKED \<and> touch c' = touch ((with_status USER_APPROVED c)\<lparr> c_lockedAt := None \<rparr>))"
| "may_become (Op_acknowledge i note ver) c c' =
     (\<exists>as. touch c' = touch (c\<lparr> c_acknowledgements := c_acknowledgements c @ as \<rparr>))"
| "may_become (Op_lock ver) c c' =
     ((c_status c = USER_APPROVED \<or> c_status c = USER_SELECTED)
      \<and> (\<exists>t. touch c' = touch ((with_status LOCKED c)\<lparr> c_lockedAt := Some t \<rparr>)))"
| "may_become (Op_recommend cfg out cats ver) c c' =
     (is_live c \<and> aiMayReplace (c_status c) \<and> touch c' = touch (with_status SUPERSEDED c))"
| "may_become _ c c' = False"

text \<open>What an operation may add.\<close>

definition from_catalogue :: "stack_component \<Rightarrow> bool" where
  "from_catalogue c = (\<exists>e \<in> set TECHNOLOGY_CATALOG. c_technologyId c = Some (en_id e) \<and> c_technologyName c = en_name e
     \<and> fillsCategory e (c_category c) \<and> c_licence c = en_licence e \<and> c_costPosture c = en_costPosture e
     \<and> c_selfHostable c = en_selfHostable e)"

fun may_create :: "stack_op \<Rightarrow> stack_component \<Rightarrow> bool" where
  "may_create (Op_select rq ver) c = (c_status c = USER_SELECTED \<and> c_category c = rq_category rq)"
| "may_create (Op_decide i rq ver) c = (dr_decision rq = Replace \<and> c_status c = USER_SELECTED)"
| "may_create (Op_recommend cfg out cats ver) c = (c_status c = AI_RECOMMENDED \<and> c_authority c = A_AI_RECOMMENDATION \<and> from_catalogue c)"
| "may_create (Op_unlock ver) c = (is_live c \<and> c_status c \<noteq> LOCKED)"
| "may_create _ c = False"

definition fresh_ids :: "(string \<Rightarrow> nat \<Rightarrow> string) \<Rightarrow> nat \<Rightarrow> nat \<Rightarrow> stack_component list \<Rightarrow> bool" where
  "fresh_ids mint m n cs = (distinct (map c_id cs) \<and> (\<forall>c \<in> set cs. \<exists>p k. m \<le> k \<and> k < n \<and> c_id c = mint p k))"

definition component_step :: "(string \<Rightarrow> nat \<Rightarrow> string) \<Rightarrow> stack_op \<Rightarrow> stack_store \<Rightarrow> stack_store \<Rightarrow> bool" where
  "component_step mint op st st' = (\<exists>f news. k_components st' = map f (k_components st) @ news
     \<and> (\<forall>c \<in> set (k_components st). c_id (f c) = c_id c \<and> c_version (f c) = c_version c
           \<and> (touch (f c) = touch c \<or> may_become op c (f c)))
     \<and> k_used st \<le> k_used st' \<and> fresh_ids mint (k_used st) (k_used st') news \<and> (\<forall>c \<in> set news. may_create op c))"

lemma fresh_Nil [simp]: "fresh_ids mint m n []"
  by (simp add: fresh_ids_def)

lemma fresh_new [simp]: "fresh_ids mint m (Suc m) [c] \<longleftrightarrow> (\<exists>p. c_id c = mint p m)"
  by (auto simp: fresh_ids_def less_Suc_eq_le dest: le_antisym)

lemma component_step_id [simp]: "component_step mint op st st"
  unfolding component_step_def by (rule exI [of _ "\<lambda>c. c"], rule exI [of _ "[]"]) simp

lemma component_stepI:
  assumes "k_components st' = map f (k_components st) @ news"
    and "\<And>c. c \<in> set (k_components st) \<Longrightarrow> c_id (f c) = c_id c \<and> c_version (f c) = c_version c
           \<and> (touch (f c) = touch c \<or> may_become op c (f c))"
    and "k_used st \<le> k_used st'" "fresh_ids mint (k_used st) (k_used st') news" "\<And>c. c \<in> set news \<Longrightarrow> may_create op c"
  shows "component_step mint op st st'"
  unfolding component_step_def using assms by blast

lemma component_step_same:
  "k_components st' = k_components st \<Longrightarrow> k_used st \<le> k_used st' \<Longrightarrow> component_step mint op st st'"
  by (rule component_stepI [where f = "\<lambda>c. c" and news = "[]"]) simp_all

text \<open>A step that rewrites the rows of a set and adds at most one.\<close>

lemma component_step_rows:
  assumes "k_components st' = map (\<lambda>d. if d \<in> S then bump g d else d) (k_components st) @ news"
    and "\<And>d. c_id (g d) = c_id d \<and> c_version (g d) = c_version d" and "\<And>d. d \<in> S \<Longrightarrow> d \<in> set (k_components st) \<Longrightarrow> may_become op d (bump g d)"
    and "k_used st \<le> k_used st'" "fresh_ids mint (k_used st) (k_used st') news" "\<And>c. c \<in> set news \<Longrightarrow> may_create op c"
  shows "component_step mint op st st'"
  by (rule component_stepI [OF assms(1) _ assms(4-6)]) (use assms(2,3) in \<open>auto simp: bump_def\<close>)

lemma with_status_simps [simp]:
  "c_id (with_status s c) = c_id c" "c_version (with_status s c) = c_version c" "c_status (with_status s c) = s"
  "c_category (with_status s c) = c_category c" "c_authority (with_status s c) = authorityOf s"
  by (simp_all add: with_status_def)

lemma new_component_simps [simp]:
  "c_id (new_component i v cat e nm s ev r) = i" "c_version (new_component i v cat e nm s ev r) = v"
  "c_category (new_component i v cat e nm s ev r) = cat" "c_status (new_component i v cat e nm s ev r) = s"
  "c_authority (new_component i v cat e nm s ev r) = authorityOf s"
  by (simp_all add: new_component_def)

lemma created_simps [simp]:
  "c_id (selected_component i v rq e nm) = i" "c_version (selected_component i v rq e nm) = v"
  "c_category (selected_component i v rq e nm) = rq_category rq" "c_status (selected_component i v rq e nm) = USER_SELECTED"
  "c_id (replacement i v c e nm r) = i" "c_version (replacement i v c e nm r) = v"
  "c_category (replacement i v c e nm r) = c_category c" "c_status (replacement i v c e nm r) = USER_SELECTED"
  "c_id (recommended_component i v run rc en) = i" "c_version (recommended_component i v run rc en) = v"
  "c_category (recommended_component i v run rc en) = rc_category rc" "c_status (recommended_component i v run rc en) = AI_RECOMMENDED"
  "c_authority (recommended_component i v run rc en) = A_AI_RECOMMENDATION"
  by (simp_all add: selected_component_def replacement_def recommended_component_def Let_def authorityOf_def)

lemma liveInCategory_rows:
  "c \<in> set (liveInCategory v cat st) \<longleftrightarrow> c \<in> set (k_components st) \<and> c_version c = v \<and> c_category c = cat \<and> is_live c"
  by (auto simp: liveInCategory_def)

lemma select_step:
  assumes d: "distinct_ids_in st"
  shows "component_step (ke_mint env) (Op_select rq ver) st (fst (select env w rq ver st))"
proof -
  define ex where "ex v = liveInCategory v (rq_category rq) st" for v
  define st1 where "st1 v = (if allowsMultiple (rq_category rq) then st else supersede_all (ex v) st)" for v
  have ex: "set (ex v) \<subseteq> set (k_components st)" "distinct (ex v)" for v
    using d by (auto simp: ex_def liveInCategory_rows) (simp add: liveInCategory_def distinct_rows)
  have st1: "k_components (st1 v) = map (\<lambda>c. if c \<in> (if allowsMultiple (rq_category rq) then {} else set (ex v))
      then bump (with_status SUPERSEDED) c else c) (k_components st)" "k_used (st1 v) = k_used st" for v
    using supersede_rows [OF d ex] by (simp_all add: st1_def)
  have step: "component_step (ke_mint env) (Op_select rq ver) st st'"
    if l: "\<not> list_ex (\<lambda>c. c_status c = LOCKED) (ex v)" and k: "k_components st' = k_components (st1 v) @ news"
      and n: "k_used st \<le> k_used st'" "fresh_ids (ke_mint env) (k_used st) (k_used st') news"
      and c: "\<And>c. c \<in> set news \<Longrightarrow> may_create (Op_select rq ver) c" for st' v news
    by (rule component_step_rows [OF k [unfolded st1(1)] _ _ n c])
       (use l in \<open>auto simp: ex_def liveInCategory_rows list_ex_iff split: if_splits\<close>)
  have bare: "component_step (ke_mint env) (Op_select rq ver) st (st1 v)"
    if "\<not> list_ex (\<lambda>c. c_status c = LOCKED) (ex v)" for v
    by (rule step [OF that, where news = "[]"]) (simp_all add: st1)
  have full: "component_step (ke_mint env) (Op_select rq ver) st
      (recalculate w s dc (createComponent (selected_component (newId (ke_mint env) ''cmp'' (st1 v)) v' rq e nm) (spend_id (st1 v))))"
    if "\<not> list_ex (\<lambda>c. c_status c = LOCKED) (ex v)" for v v' e nm s dc
    by (rule step [OF that]) (auto simp: st1(2) newId_def)
  show ?thesis
  proof (cases "editable False ver st")
    case (Inr s)
    note sel = select_def Let_def ex_def [symmetric] st1_def [symmetric]
    show ?thesis
      using bare [of "sn_version s"] full [where v = "sn_version s"]
      unfolding sel by (simp add: Inr split: option.split sum.split prod.split)
  qed (simp add: select_def)
qed

text \<open>One found row is rewritten, and at most one component added.\<close>

lemma one_row_step:
  assumes "distinct_ids_in st" "findComponent i st = Some c"
    and "k_components st' = map (\<lambda>d. if d = c then bump g c else d) (k_components st) @ news"
    and "\<And>d. c_id (g d) = c_id d \<and> c_version (g d) = c_version d" "may_become op c (bump g c)"
    and "k_used st \<le> k_used st'" "fresh_ids mint (k_used st) (k_used st') news" "\<And>c. c \<in> set news \<Longrightarrow> may_create op c"
  shows "component_step mint op st st'"
proof (rule component_step_rows [where S = "{c}" and g = g, OF _ assms(4) _ assms(6-8)])
  show "k_components st' = map (\<lambda>d. if d \<in> {c} then bump g d else d) (k_components st) @ news"
    unfolding assms(3) by auto
qed (use assms(5) in auto)

lemma decide_step:
  assumes d: "distinct_ids_in st"
  shows "component_step (ke_mint env) (Op_decide i rq ver) st (fst (decide env w i rq ver st))"
proof (cases "editable False ver st")
  case (Inr s)
  show ?thesis
  proof (cases "findComponent i st")
    case (Some c)
    have c: "c \<in> set (k_components st)" "c_id c = i" using findComponent_SomeD [OF Some] by auto
    define rows where "rows f = st\<lparr> k_components := map (\<lambda>d. if d = c then bump f c else d) (k_components st) \<rparr>" for f
    have t: "transition c x f st = Inr (rows (f \<circ> with_status x))" for x f
      unfolding rows_def by (rule transition_row [OF d c(1)])
    let ?op = "Op_decide i rq ver"
    note simps = decide_def Inr Some t may_become.simps Let_def
    show ?thesis
    proof (cases "c_status c = AI_RECOMMENDED")
      case ai: True
      show ?thesis
      proof (cases "dr_decision rq")
        case Accept
        have "component_step (ke_mint env) ?op st (recalculate w s dc (rows ((\<lambda>c'. c'\<lparr> c_evidenceStrength := strengthAfterAcceptance c \<rparr>) \<circ> with_status USER_APPROVED)))" for dc
          by (rule one_row_step [OF d Some, where news = "[]" and g = "(\<lambda>c'. c'\<lparr> c_evidenceStrength := strengthAfterAcceptance c \<rparr>) \<circ> with_status USER_APPROVED"])
             (use c ai Accept in \<open>simp_all add: rows_def\<close>)
        then show ?thesis by (simp add: simps ai Accept)
      next
        case Reject
        have "component_step (ke_mint env) ?op st (recalculate w s dc (rows (id \<circ> with_status REJECTED)))" for dc
          by (rule one_row_step [OF d Some, where news = "[]"]) (use c ai Reject in \<open>simp_all add: rows_def\<close>)
        then show ?thesis by (simp add: simps ai Reject)
      next
        case Replace
        have "component_step (ke_mint env) ?op st (recalculate w s dc (createComponent
            (replacement (newId (ke_mint env) ''cmp'' (rows (id \<circ> with_status SUPERSEDED))) v c e nm r)
            (spend_id (rows (id \<circ> with_status SUPERSEDED)))))" for dc v e nm r
          by (rule one_row_step [OF d Some]) (use c ai Replace in \<open>auto simp: rows_def newId_def\<close>)
        then show ?thesis by (simp add: simps ai Replace split: sum.split prod.split option.split)
      qed
    qed (simp add: simps)
  qed (simp add: decide_def Inr)
qed (simp add: decide_def)

lemma lockComponent_step:
  assumes d: "distinct_ids_in st"
  shows "component_step (ke_mint env) (Op_lockComponent i ver) st (fst (lockComponent env w i ver st))"
proof (cases "editable False ver st")
  case (Inr s)
  show ?thesis
  proof (cases "findComponent i st")
    case (Some c)
    have c: "c \<in> set (k_components st)" "c_id c = i" using findComponent_SomeD [OF Some] by auto
    show ?thesis
    proof (cases "canTransitionComponent (c_status c) LOCKED")
      case True
      then have "c_status c = USER_APPROVED" by (cases "c_status c") (simp_all add: canTransitionComponent_def)
      then show ?thesis
        by (intro one_row_step [OF d Some, where news = "[]" and g = "(\<lambda>c. c\<lparr> c_lockedAt := Some (ke_now env) \<rparr>) \<circ> with_status LOCKED"])
           (use c in \<open>auto simp: lockComponent_def Inr Some True canTransitionComponent_def transition_row [OF d c(1)]\<close>)
    qed (simp add: lockComponent_def Inr Some)
  qed (simp add: lockComponent_def Inr)
qed (simp add: lockComponent_def)

lemma unlockComponent_step:
  assumes d: "distinct_ids_in st"
  shows "component_step (ke_mint env) (Op_unlockComponent i ver) st (fst (unlockComponent env w i ver st))"
proof (cases "editable True ver st")
  case (Inr s)
  show ?thesis
  proof (cases "findComponent i st")
    case (Some c)
    have c: "c \<in> set (k_components st)" "c_id c = i" using findComponent_SomeD [OF Some] by auto
    show ?thesis
    proof (cases "c_status c = LOCKED")
      case True
      then show ?thesis
        by (intro one_row_step [OF d Some, where news = "[]" and g = "\<lambda>c. (with_status USER_APPROVED c)\<lparr> c_lockedAt := None \<rparr>"])
           (use c in \<open>auto simp: unlockComponent_def Inr Some True writeComponent_row [OF d c(1)]\<close>)
    qed (simp add: unlockComponent_def Inr Some)
  qed (simp add: unlockComponent_def Inr)
qed (simp add: unlockComponent_def)

lemma lock_step:
  assumes d: "distinct_ids_in st"
  shows "component_step (ke_mint env) (Op_lock ver) st (fst (lock env ver st))"
proof (cases "versioned ver st")
  case (Inr s)
  show ?thesis
  proof (cases "canLockStack (sn_status s)")
    case True
    show ?thesis
      by (rule component_step_rows [where S = "{d. c_version d = sn_version s \<and> (c_status d = USER_APPROVED \<or> c_status d = USER_SELECTED)}"
          and g = "\<lambda>c. (with_status LOCKED c)\<lparr> c_lockedAt := Some (ke_now env) \<rparr>" and news = "[]"])
         (auto simp: lock_def Inr True lock_rows [OF d])
  qed (simp add: lock_def Inr)
qed (simp add: lock_def)

text \<open>Acknowledgements only ever grow.\<close>

definition acknowledged_more :: "stack_component \<Rightarrow> stack_component \<Rightarrow> bool" where
  "acknowledged_more c c' = (\<exists>as. touch c' = touch (c\<lparr> c_acknowledgements := c_acknowledgements c @ as \<rparr>))"

lemma acknowledge_on_row:
  assumes "distinct_ids_in st"
  shows "\<exists>f. acknowledge_on a i st = st\<lparr> k_components := map f (k_components st) \<rparr>
    \<and> (\<forall>c. c_id (f c) = c_id c \<and> acknowledged_more c (f c))"
proof (cases "findComponent i st")
  case None
  have "acknowledged_more c c" for c by (auto simp: acknowledged_more_def intro: exI [of _ "[]"])
  then show ?thesis using None by (intro exI [of _ "\<lambda>c. c"]) (simp add: acknowledge_on_def)
next
  case (Some c)
  have m: "acknowledged_more d d" "acknowledged_more d (bump (\<lambda>c. c\<lparr> c_acknowledgements := c_acknowledgements c @ [a] \<rparr>) d)" for d
    by (auto simp: acknowledged_more_def intro: exI [of _ "[]"])
  show ?thesis
    using findComponent_SomeD [OF Some] m
    by (intro exI [of _ "\<lambda>d. if d = c then bump (\<lambda>c. c\<lparr> c_acknowledgements := c_acknowledgements c @ [a] \<rparr>) c else d"])
       (auto simp: acknowledge_on_def Some writeComponent_row [OF assms] bump_def)
qed

lemma acknowledged_trans: "acknowledged_more c d \<Longrightarrow> acknowledged_more d e \<Longrightarrow> acknowledged_more c e"
proof -
  assume "acknowledged_more c d" "acknowledged_more d e"
  then obtain as bs where a: "touch d = touch (c\<lparr> c_acknowledgements := c_acknowledgements c @ as \<rparr>)"
    and b: "touch e = touch (d\<lparr> c_acknowledgements := c_acknowledgements d @ bs \<rparr>)" by (auto simp: acknowledged_more_def)
  have d: "c_acknowledgements d = c_acknowledgements c @ as"
    using arg_cong [OF a, of c_acknowledgements] by (simp add: touch_def)
  have up: "touch (x\<lparr> c_acknowledgements := xs \<rparr>) = (touch x)\<lparr> c_acknowledgements := xs \<rparr>" for x xs
    by (simp add: touch_def)
  have "touch e = touch (c\<lparr> c_acknowledgements := c_acknowledgements c @ as @ bs \<rparr>)"
    unfolding b up a d by simp
  then show "acknowledged_more c e" unfolding acknowledged_more_def by blast
qed

lemma acknowledge_fold:
  assumes "distinct_ids_in st"
  shows "\<exists>f. fold (acknowledge_on a) is st = st\<lparr> k_components := map f (k_components st) \<rparr>
    \<and> (\<forall>c. c_id (f c) = c_id c \<and> acknowledged_more c (f c))"
  using assms
proof (induction "is" arbitrary: st)
  case Nil
  have "acknowledged_more c c" for c by (auto simp: acknowledged_more_def intro: exI [of _ "[]"])
  then show ?case by (intro exI [of _ "\<lambda>c. c"]) simp
next
  case (Cons i "is")
  obtain f where f: "acknowledge_on a i st = st\<lparr> k_components := map f (k_components st) \<rparr>"
    "\<forall>c. c_id (f c) = c_id c \<and> acknowledged_more c (f c)" using acknowledge_on_row [OF Cons.prems] by blast
  have "map c_id (k_components (acknowledge_on a i st)) = map c_id (k_components st)" using f by simp
  then have "distinct_ids_in (acknowledge_on a i st)" using Cons.prems by (simp only:)
  from Cons.IH [OF this] obtain g where "fold (acknowledge_on a) is (acknowledge_on a i st)
      = (acknowledge_on a i st)\<lparr> k_components := map g (k_components (acknowledge_on a i st)) \<rparr>"
    "\<forall>c. c_id (g c) = c_id c \<and> acknowledged_more c (g c)" by blast
  then show ?case
    by (intro exI [of _ "g \<circ> f"]) (use f in \<open>auto intro: acknowledged_trans\<close>)
qed

lemma acknowledge_step:
  assumes d: "distinct_ids_in st"
  shows "component_step (ke_mint env) (Op_acknowledge i note ver) st (fst (acknowledgeRisk env w i note ver st))"
proof -
  have "component_step (ke_mint env) (Op_acknowledge i note' ver) st (recalculate w s dc (fold (acknowledge_on a) is st))" for note' s dc a "is"
  proof -
    obtain f where f: "fold (acknowledge_on a) is st = st\<lparr> k_components := map f (k_components st) \<rparr>"
      "\<forall>c. c_id (f c) = c_id c \<and> acknowledged_more c (f c)" using acknowledge_fold [OF d] by blast
    have "c_version (f c) = c_version c" for c
    proof -
      obtain as where "touch (f c) = touch (c\<lparr> c_acknowledgements := c_acknowledgements c @ as \<rparr>)"
        using f(2) by (auto simp: acknowledged_more_def)
      from arg_cong [OF this, of c_version] show ?thesis by (simp add: touch_def)
    qed
    then show ?thesis
      by (intro component_stepI [where f = f and news = "[]"]) (use f in \<open>auto simp: acknowledged_more_def\<close>)
  qed
  then show ?thesis
    by (simp add: acknowledgeRisk_def Let_def split: sum.split option.split)
qed

text \<open>Reading, choosing a mode, approving and reopening.\<close>

lemma quiet_steps:
  "component_step (ke_mint env) op st (fst (readCurrent env w st))"
  "component_step (ke_mint env) op st (fst (setMode env m ver st))"
  "component_step (ke_mint env) op st (fst (approve env w ver st))"
  by (auto simp: readCurrent_def createInitial_def setMode_def approve_def Let_def intro!: component_step_same
      split: option.split sum.split)

end
