(* ===== verification/StackSteps.thy ===== *)
theory StackSteps
  imports StackFacts
begin

text \<open>
  How every operation of the stack service moves the components it finds and which it adds: the
  copies of a reopened version, the recommendation loop, and one statement for all operations.
\<close>

section \<open>Copies\<close>

lemma carried_simps [simp]:
  "c_id (carried i v c) = i" "c_version (carried i v c) = v" "c_category (carried i v c) = c_category c"
  "c_status (carried i v c) = (if c_status c = LOCKED then USER_APPROVED else c_status c)"
  by (simp_all add: carried_def)

lemma carried_live: "is_live d \<Longrightarrow> is_live (carried i v d) \<and> c_status (carried i v d) \<noteq> LOCKED"
  by (simp add: is_live_def)

lemma copies_facts:
  "length (copies mint n v cs) = length cs"
  "x \<in> set (copies mint n v cs) \<Longrightarrow> \<exists>k c. n \<le> k \<and> k < n + length cs \<and> c \<in> set cs \<and> x = carried (mint ''cmp'' k) v c"
  by (auto simp: copies_def set_zip) (metis le_add1 nat_add_left_cancel_less nth_mem)

lemma map_id_copies: "map c_id (copies mint n v cs) = map (mint ''cmp'') [n..<n + length cs]"
proof (induction cs arbitrary: n)
  case (Cons c cs)
  have "[n..<n + length (c # cs)] = n # [Suc n..<Suc n + length cs]" by (simp add: upt_conv_Cons del: upt_Suc)
  then show ?case using Cons [of "Suc n"] by (simp add: copies_Cons carried_def del: upt_Suc)
qed (simp add: copies_def)

definition fresh_mint :: "(string \<Rightarrow> nat \<Rightarrow> string) \<Rightarrow> bool" where
  "fresh_mint mint \<longleftrightarrow> (\<forall>p q m n. mint p m = mint q n \<longrightarrow> m = n)"

lemma copies_fresh:
  assumes "fresh_mint mint"
  shows "fresh_ids mint n (n + length cs + 1) (copies mint n v cs)"
proof -
  have "inj (mint ''cmp'')" using assms unfolding fresh_mint_def inj_def by blast
  then have "distinct (map c_id (copies mint n v cs))"
    unfolding map_id_copies distinct_map by (simp add: inj_on_subset [OF _ subset_UNIV])
  moreover have "\<exists>p k. n \<le> k \<and> k < n + length cs + 1 \<and> c_id c = mint p k" if c: "c \<in> set (copies mint n v cs)" for c
  proof -
    obtain k d where "n \<le> k" "k < n + length cs" "c = carried (mint ''cmp'' k) v d" using copies_facts(2) [OF c] by blast
    then have "n \<le> k \<and> k < n + length cs + 1 \<and> c_id c = mint ''cmp'' k" by simp
    then show ?thesis by blast
  qed
  ultimately show ?thesis unfolding fresh_ids_def by blast
qed

lemma copies_live:
  assumes "c \<in> set (copies mint n v (filter is_live cs))"
  shows "is_live c \<and> c_status c \<noteq> LOCKED"
proof -
  obtain i d where "d \<in> set (filter is_live cs)" "c = carried i v d" using copies_facts(2) [OF assms] by blast
  then show ?thesis using carried_live by simp
qed

lemma unlock_step:
  assumes m: "fresh_mint (ke_mint env)"
  shows "component_step (ke_mint env) (Op_unlock ver) st (fst (unlock env ver st))"
proof -
  have "component_step (ke_mint env) (Op_unlock ver) st
      (supersedeSnapshots x y (createSnapshot z (spend_id (carryForward (ke_mint env) v v' st))))" for x y z v v'
  proof -
    let ?live = "filter is_live (listComponents v st)"
    show ?thesis
    proof (rule component_stepI [where f = "\<lambda>c. c" and news = "copies (ke_mint env) (k_used st) v' ?live"])
      show "may_create (Op_unlock ver) c" if "c \<in> set (copies (ke_mint env) (k_used st) v' ?live)" for c
        using copies_live [OF that] by simp
    qed (use copies_fresh [OF m, of "k_used st" ?live v'] in \<open>simp_all add: carryForward_rows Let_def\<close>)
  qed
  then show ?thesis by (simp add: unlock_def Let_def split: sum.split)
qed

section \<open>Rows come from the source of fresh identifiers\<close>

definition minted_rows :: "(string \<Rightarrow> nat \<Rightarrow> string) \<Rightarrow> stack_store \<Rightarrow> bool" where
  "minted_rows mint st = (distinct (map c_id (k_components st))
     \<and> (\<forall>c \<in> set (k_components st). \<exists>p k. k < k_used st \<and> c_id c = mint p k))"

lemma minted_fresh:
  assumes "minted_rows mint st" "fresh_mint mint" "fresh_ids mint (k_used st) n news"
    and "c \<in> set (k_components st)" "d \<in> set news"
  shows "c_id c \<noteq> c_id d"
proof
  assume e: "c_id c = c_id d"
  obtain p k where k: "k < k_used st" "c_id c = mint p k" using assms(1,4) unfolding minted_rows_def by blast
  obtain q l where l: "k_used st \<le> l" "c_id d = mint q l" using assms(3,5) unfolding fresh_ids_def by blast
  have "mint p k = mint q l" using k(2) l(2) e by simp
  then have "k = l" using assms(2) unfolding fresh_mint_def by blast
  then show False using k(1) l(1) by simp
qed

lemma minted_extend:
  assumes "minted_rows mint st" "fresh_mint mint" "fresh_ids mint (k_used st) n news"
    and "k_components st' = map f (k_components st) @ news" "\<And>c. c \<in> set (k_components st) \<Longrightarrow> c_id (f c) = c_id c"
    and "k_used st \<le> n" "n \<le> k_used st'"
  shows "minted_rows mint st'"
proof -
  have ids: "map c_id (k_components st') = map c_id (k_components st) @ map c_id news"
    using assms(5) by (simp add: assms(4))
  have "set (map c_id (k_components st)) \<inter> set (map c_id news) = {}"
    using minted_fresh [OF assms(1-3)] by auto
  then have d: "distinct (map c_id (k_components st'))"
    using assms(1,3) unfolding ids by (simp add: minted_rows_def fresh_ids_def)
  have "\<exists>p k. k < k_used st' \<and> i = mint p k" if i: "i \<in> set (map c_id (k_components st'))" for i
    using i unfolding ids set_append
  proof
    assume "i \<in> set (map c_id (k_components st))"
    then obtain c where "c \<in> set (k_components st)" "i = c_id c" by auto
    then obtain p k where "k < k_used st" "i = mint p k" using assms(1) unfolding minted_rows_def by blast
    moreover from this have "k < k_used st'" using assms(6,7) by linarith
    ultimately show ?thesis by blast
  next
    assume "i \<in> set (map c_id news)"
    then obtain c where "c \<in> set news" "i = c_id c" by auto
    then obtain p k where "k < n" "i = mint p k" using assms(3) unfolding fresh_ids_def by blast
    moreover from this have "k < k_used st'" using assms(7) by linarith
    ultimately show ?thesis by blast
  qed
  then show ?thesis using d unfolding minted_rows_def by simp
qed

lemma step_minted:
  assumes "minted_rows mint st" "fresh_mint mint" "component_step mint op st st'"
  shows "minted_rows mint st'"
  using assms(3) unfolding component_step_def
  by (elim exE conjE, intro minted_extend [OF assms(1,2)]) (assumption | blast | simp)+

lemma fresh_append:
  assumes "fresh_mint mint" "fresh_ids mint m n cs" "m \<le> n" "c_id c = mint p n"
  shows "fresh_ids mint m (Suc n) (cs @ [c])"
proof -
  have "c_id c \<noteq> c_id d" if d: "d \<in> set cs" for d
  proof
    assume e: "c_id c = c_id d"
    obtain q k where k: "k < n" "c_id d = mint q k" using assms(2) d unfolding fresh_ids_def by blast
    have "mint p n = mint q k" using assms(4) k(2) e by simp
    then have "n = k" using assms(1) unfolding fresh_mint_def by blast
    then show False using k(1) by simp
  qed
  moreover have "\<exists>q k. m \<le> k \<and> k < Suc n \<and> c_id d = mint q k" if "d \<in> set cs" for d
    using assms(2) that unfolding fresh_ids_def by (meson less_SucI)
  ultimately show ?thesis using assms(2-4) unfolding fresh_ids_def by auto
qed

section \<open>The recommendation loop\<close>

definition loop_inv ::
  "(string \<Rightarrow> nat \<Rightarrow> string) \<Rightarrow> stack_op \<Rightarrow> stack_store \<Rightarrow> stack_component list \<Rightarrow> technology_category set
   \<Rightarrow> stack_store \<Rightarrow> bool" where
  "loop_inv mint op st comps cats st' = (\<exists>D news.
     D \<subseteq> {c \<in> set comps. is_live c \<and> aiMayReplace (c_status c) \<and> c_category c \<in> cats}
     \<and> k_components st' = map (\<lambda>d. if d \<in> D then bump (with_status SUPERSEDED) d else d) (k_components st) @ news
     \<and> k_used st \<le> k_used st' \<and> fresh_ids mint (k_used st) (k_used st') news \<and> (\<forall>c \<in> set news. may_create op c))"

lemma recommended_from_catalogue:
  "findTechnology i = Some e \<Longrightarrow> fillsCategory e (rc_category r) \<Longrightarrow> from_catalogue (recommended_component j v run r e)"
  using findTechnology_SomeD [of i e]
  by (auto simp: from_catalogue_def recommended_component_def new_component_def Let_def intro!: bexI [of _ e])

abbreviation superseded_in :: "stack_component set \<Rightarrow> stack_component \<Rightarrow> stack_component" where
  "superseded_in D d \<equiv> (if d \<in> D then bump (with_status SUPERSEDED) d else d)"

lemma supersede_more:
  assumes m: "fresh_mint mint" and rows: "minted_rows mint st"
    and k: "k_components st' = map (superseded_in D) (k_components st) @ news"
    and u: "k_used st \<le> k_used st'" and f: "fresh_ids mint (k_used st) (k_used st') news"
    and held: "set held \<subseteq> set (k_components st)" "distinct held" "set held \<inter> D = {}" "list_all is_live held"
  shows "k_components (supersede_all held st') = map (superseded_in (D \<union> set held)) (k_components st) @ news"
proof -
  have "c_id (superseded_in D c) = c_id c" for c by (simp add: bump_def)
  then have "minted_rows mint st'" by (intro minted_extend [OF rows m f k _ u]) simp_all
  then have d: "distinct_ids_in st'" by (simp add: minted_rows_def)
  have "x \<in> set (k_components st')" if x: "x \<in> set held" for x
  proof -
    have "superseded_in D x = x" using x held(3) by auto
    moreover have "superseded_in D x \<in> superseded_in D ` set (k_components st)" using x held(1) by blast
    ultimately show ?thesis unfolding k by simp
  qed
  then have s: "k_components (supersede_all held st') = map (superseded_in (set held)) (k_components st')"
    by (subst supersede_rows [OF d _ held(2)]) auto
  have "bump (with_status SUPERSEDED) c \<notin> set held" for c
    using held(4) by (auto simp: list_all_iff is_live_def bump_def)
  then have "superseded_in (set held) (superseded_in D c) = superseded_in (D \<union> set held) c" for c by simp
  moreover have "superseded_in (set held) x = x" if x: "x \<in> set news" for x
  proof -
    have "x \<notin> set held" using minted_fresh [OF rows m f _ x, of x] held(1) by blast
    then show ?thesis by simp
  qed
  ultimately show ?thesis unfolding s k by (simp add: map_idI)
qed

lemma write_recommendation_step:
  assumes m: "fresh_mint (ke_mint env)" and rows: "minted_rows (ke_mint env) st"
    and comps: "set comps \<subseteq> set (k_components st)" "distinct comps"
    and inv: "loop_inv (ke_mint env) (Op_recommend a b c d) st comps cats (fst acc)"
    and new: "rc_category r \<notin> cats"
  shows "loop_inv (ke_mint env) (Op_recommend a b c d) st comps (insert (rc_category r) cats)
           (fst (write_recommendation env v run comps r acc))"
proof -
  obtain st' filled where acc: "acc = (st', filled)" by (cases acc)
  let ?op = "Op_recommend a b c d"
  obtain D news where D: "D \<subseteq> {c \<in> set comps. is_live c \<and> aiMayReplace (c_status c) \<and> c_category c \<in> cats}"
    and k: "k_components st' = map (superseded_in D) (k_components st) @ news" and u: "k_used st \<le> k_used st'"
    and f: "fresh_ids (ke_mint env) (k_used st) (k_used st') news" and n: "\<forall>c \<in> set news. may_create ?op c"
    using inv unfolding loop_inv_def acc fst_conv by blast
  have "D \<subseteq> {c \<in> set comps. is_live c \<and> aiMayReplace (c_status c) \<and> c_category c \<in> insert (rc_category r) cats}"
    using D by blast
  then have keep: "loop_inv (ke_mint env) ?op st comps (insert (rc_category r) cats) st'"
    unfolding loop_inv_def using k u f n by blast
  show ?thesis
  proof (cases "findTechnology (rc_technologyId r)")
    case None
    then show ?thesis using keep by (simp add: acc write_recommendation_def)
  next
    case (Some e)
    let ?held = "filter (\<lambda>c. c_category c = rc_category r \<and> is_live c) comps"
    show ?thesis
    proof (cases "fillsCategory e (rc_category r) \<and> \<not> list_ex (\<lambda>c. \<not> aiMayReplace (c_status c)) ?held")
      case True
      have out: "set ?held \<inter> D = {}" using D new by auto
      have live: "list_all is_live ?held" by (simp add: list_all_iff)
      have s: "k_components (supersede_all ?held st') = map (superseded_in (D \<union> set ?held)) (k_components st) @ news"
        using comps by (intro supersede_more [OF m rows k u f _ _ out live]) auto
      have "set ?held \<subseteq> {c \<in> set comps. is_live c \<and> aiMayReplace (c_status c) \<and> c_category c \<in> insert (rc_category r) cats}"
        using True unfolding list_ex_iff by auto
      then have D': "D \<union> set ?held \<subseteq> {c \<in> set comps. is_live c \<and> aiMayReplace (c_status c) \<and> c_category c \<in> insert (rc_category r) cats}"
        using D by blast
      define nc where "nc = recommended_component (newId (ke_mint env) ''cmp'' (supersede_all ?held st')) v run r e"
      have w: "fst (write_recommendation env v run comps r acc) = createComponent nc (spend_id (supersede_all ?held st'))"
        using True by (simp add: acc write_recommendation_def Let_def Some nc_def)
      have c: "may_create ?op nc" using recommended_from_catalogue [OF Some] True by (simp add: nc_def)
      have fr: "fresh_ids (ke_mint env) (k_used st) (Suc (k_used st')) (news @ [nc])"
        by (rule fresh_append [OF m f u]) (simp add: nc_def newId_def)
      show ?thesis
        unfolding loop_inv_def w
      proof (intro exI conjI)
        show "D \<union> set ?held \<subseteq> {c \<in> set comps. is_live c \<and> aiMayReplace (c_status c) \<and> c_category c \<in> insert (rc_category r) cats}"
          by (rule D')
        show "k_components (createComponent nc (spend_id (supersede_all ?held st')))
            = map (superseded_in (D \<union> set ?held)) (k_components st) @ (news @ [nc])" using s by simp
        show "\<forall>x \<in> set (news @ [nc]). may_create ?op x" using n c by simp
      qed (use u fr in simp_all)
    next
      case False
      then have "fst (write_recommendation env v run comps r acc) = st'"
        by (auto simp: acc write_recommendation_def Let_def Some)
      then show ?thesis using keep by simp
    qed
  qed
qed

lemma loop_steps:
  assumes m: "fresh_mint (ke_mint env)" and rows: "minted_rows (ke_mint env) st"
    and comps: "set comps \<subseteq> set (k_components st)" "distinct comps"
  shows "loop_inv (ke_mint env) (Op_recommend a b c d) st comps cats (fst acc) \<Longrightarrow> distinct (map rc_category recs)
    \<Longrightarrow> rc_category ` set recs \<inter> cats = {}
    \<Longrightarrow> loop_inv (ke_mint env) (Op_recommend a b c d) st comps (cats \<union> rc_category ` set recs)
          (fst (fold (write_recommendation env v run comps) recs acc))"
proof (induction recs arbitrary: acc cats)
  case (Cons r recs)
  have "loop_inv (ke_mint env) (Op_recommend a b c d) st comps (insert (rc_category r) cats)
      (fst (write_recommendation env v run comps r acc))"
    using Cons.prems by (intro write_recommendation_step [OF m rows comps]) auto
  moreover have "rc_category ` set recs \<inter> insert (rc_category r) cats = {}" using Cons.prems(2,3) by auto
  ultimately show ?case using Cons.IH [of "insert (rc_category r) cats" "write_recommendation env v run comps r acc"] Cons.prems(2)
    by simp
qed simp

lemma loop_inv_step:
  assumes "loop_inv mint (Op_recommend a b c d) st comps cats st'"
  shows "component_step mint (Op_recommend a b c d) st st'"
proof -
  from assms obtain D news where "D \<subseteq> {c \<in> set comps. is_live c \<and> aiMayReplace (c_status c) \<and> c_category c \<in> cats}"
    "k_components st' = map (superseded_in D) (k_components st) @ news"
    "k_used st \<le> k_used st'" "fresh_ids mint (k_used st) (k_used st') news" "\<forall>x \<in> set news. may_create (Op_recommend a b c d) x"
    unfolding loop_inv_def by blast
  then show ?thesis by (intro component_step_rows [where S = D and g = "with_status SUPERSEDED"]) auto
qed

lemma currentSnapshot_components: "k_snapshots st' = k_snapshots st \<Longrightarrow> currentSnapshot st' = currentSnapshot st"
  by (simp add: currentSnapshot_def)

text \<open>The final bookkeeping of a run touches no component.\<close>

definition finish_run :: "string \<Rightarrow> stack_store \<Rightarrow> stack_store" where
  "finish_run run st = (case currentSnapshot st of None \<Rightarrow> st
     | Some f \<Rightarrow> (case updateSnapshot (sn_id f) (sn_recordVersion f) (\<lambda>f. f\<lparr> sn_lastRun := Some run \<rparr>) st of
         None \<Rightarrow> st | Some st' \<Rightarrow> st'))"

lemma finish_run_frame [simp]: "k_components (finish_run run st) = k_components st" "k_used (finish_run run st) = k_used st"
  by (auto simp: finish_run_def split: option.splits dest!: stack_updateSnapshot_frame)

lemma fst_finish: "fst (case currentSnapshot st of None \<Rightarrow> (st, None)
     | Some f \<Rightarrow> (case updateSnapshot (sn_id f) (sn_recordVersion f) (\<lambda>f. f\<lparr> sn_lastRun := Some run \<rparr>) st of
         None \<Rightarrow> (st, None) | Some st' \<Rightarrow> (st', None))) = finish_run run st"
  by (simp add: finish_run_def split: option.splits)

lemma recommend_step:
  assumes m: "fresh_mint (ke_mint env)" and rows: "minted_rows (ke_mint env) st"
  shows "component_step (ke_mint env) (Op_recommend cfg out cats ver) st (fst (recommend env w cfg out cats ver st))"
proof (cases "editable False ver st")
  case (Inr s)
  let ?op = "\<lambda>a b c. Op_recommend a b c ver"
  let ?comps = "listComponents (sn_version s) st"
  have comps: "set ?comps \<subseteq> set (k_components st)" "distinct ?comps"
    using rows by (auto simp: minted_rows_def distinct_listComponents)
  have run: "component_step (ke_mint env) (?op x y z) st (updateRun run f (createRun r (spend_id st)))" for run f r x y z
    by (rule component_step_same) simp_all
  have filled: "component_step (ke_mint env) (?op x y z) st (finish_run run (updateRun run f
      (fst (fold (write_recommendation env (sn_version s) run' ?comps) recs (createRun r (spend_id st), [])))))"
    if "distinct (map rc_category recs)" for run run' f r recs x y z
  proof -
    have "loop_inv (ke_mint env) (?op x y z) st ?comps {} (fst (createRun r (spend_id st), []))"
      unfolding loop_inv_def by (rule exI [of _ "{}"], rule exI [of _ "[]"]) simp
    from loop_steps [OF m rows comps this that]
    have "component_step (ke_mint env) (?op x y z) st
        (fst (fold (write_recommendation env (sn_version s) run' ?comps) recs (createRun r (spend_id st), [])))"
      by (intro loop_inv_step) auto
    then show ?thesis unfolding component_step_def by simp
  qed
  have ok: "distinct (map rc_category recs)" if "recommendation_valid ks cs qs recs" for ks cs qs recs
    using that by (simp add: recommendation_valid_def)
  show ?thesis
    unfolding recommend_def Let_def Inr
    using run filled [OF ok]
    by (auto simp: fst_finish split: option.split)
qed (simp add: recommend_def)

text \<open>
  Every operation: each component it finds keeps its identifier and version, and is left as it was
  or changed as the operation may; what it adds has fresh identifiers.
\<close>

theorem op_step:
  assumes m: "fresh_mint (ke_mint env)" and rows: "minted_rows (ke_mint env) st"
  shows "component_step (ke_mint env) op st (fst (perform_op env w op st))"
proof -
  have d: "distinct_ids_in st" using rows by (simp add: minted_rows_def)
  show ?thesis
    using select_step [OF d] decide_step [OF d] lockComponent_step [OF d] unlockComponent_step [OF d] acknowledge_step [OF d]
      lock_step [OF d] unlock_step [OF m] recommend_step [OF m rows] quiet_steps
    by (cases op) (simp_all del: may_become.simps may_create.simps)
qed

end
