(* ===== verification/StackVersions.thy ===== *)
theory StackVersions
  imports StackSteps
begin

text \<open>
  The versions of a stack: how each operation moves the current one, that rows stay within the
  versions there are, and that every history of operations keeps the store in order.
\<close>

section \<open>The store of a project\<close>

definition minted :: "(string \<Rightarrow> nat \<Rightarrow> string) \<Rightarrow> nat \<Rightarrow> string \<Rightarrow> bool" where
  "minted mint n i \<longleftrightarrow> (\<exists>p k. k < n \<and> i = mint p k)"

definition row_ok :: "nat \<Rightarrow> stack_component \<Rightarrow> bool" where
  "row_ok n c \<longleftrightarrow> c_version c \<le> n \<and> c_status c \<noteq> NOT_DEFINED"

definition rows_ok :: "nat \<Rightarrow> stack_store \<Rightarrow> bool" where
  "rows_ok n st \<longleftrightarrow> list_all (row_ok n) (k_components st)"

definition stack_ok :: "(string \<Rightarrow> nat \<Rightarrow> string) \<Rightarrow> stack_store \<Rightarrow> bool" where
  "stack_ok mint st \<longleftrightarrow>
     version_chain sn_version (\<lambda>s. sn_status s = SN_SUPERSEDED) sn_id (k_snapshots st)
     \<and> minted_rows mint st
     \<and> list_all (\<lambda>s. minted mint (k_used st) (sn_id s)) (k_snapshots st)
     \<and> rows_ok (length (k_snapshots st)) st"

abbreviation stack_chain :: "stack_snapshot list \<Rightarrow> bool" where
  "stack_chain \<equiv> version_chain sn_version (\<lambda>s. sn_status s = SN_SUPERSEDED) sn_id"

lemma stack_ok_empty [simp]: "stack_ok mint empty_stack_store"
  by (simp add: stack_ok_def empty_stack_store_def version_chain_def minted_rows_def rows_ok_def)

lemma ok_chain: "stack_ok mint st \<Longrightarrow> stack_chain (k_snapshots st)"
  and ok_rows: "stack_ok mint st \<Longrightarrow> minted_rows mint st"
  by (simp_all add: stack_ok_def)

lemma current_iff:
  assumes "stack_chain (k_snapshots st)"
  shows "currentSnapshot st = Some s \<longleftrightarrow> (\<exists>us. k_snapshots st = us @ [s])"
  using stack_versions.chain_current_iff [OF assms] by (simp add: currentSnapshot_def)

lemma current_None:
  assumes "stack_chain (k_snapshots st)"
  shows "currentSnapshot st = None \<longleftrightarrow> k_snapshots st = []"
  using current_iff [OF assms] by (cases "k_snapshots st" rule: rev_cases) (auto simp: currentSnapshot_def)

lemma next_version:
  assumes "stack_chain (k_snapshots st)"
  shows "nextSnapshotVersion st = Suc (length (k_snapshots st))"
  using stack_versions.chain_newest [OF assms] by (simp add: nextSnapshotVersion_def)

lemma stack_update_current:
  fixes st :: stack_store
  assumes "stack_chain (us @ [s])" and "k_snapshots st = us @ [s]"
  shows "updateSnapshot (sn_id s) (sn_recordVersion s) f st
    = Some (st\<lparr> k_snapshots := us @ [(f s)\<lparr> sn_recordVersion := sn_recordVersion s + 1 \<rparr>] \<rparr>)"
  unfolding updateSnapshot_def assms(2)
  by (subst stack_versions.chain_update [OF assms(1)]) auto

section \<open>How an operation moves the current version\<close>

text \<open>What an operation other than reopening makes of the current version.\<close>

definition moves_status :: "stack_snapshot_status \<Rightarrow> stack_snapshot_status \<Rightarrow> bool" where
  "moves_status a b \<longleftrightarrow>
     (case a of SN_LOCKED \<Rightarrow> b = SN_LOCKED | SN_APPROVED \<Rightarrow> b \<in> {SN_APPROVED, SN_LOCKED}
      | SN_OUTDATED \<Rightarrow> b = SN_OUTDATED | SN_SUPERSEDED \<Rightarrow> b = SN_SUPERSEDED
      | _ \<Rightarrow> b \<in> {SN_DRAFT, SN_REVIEW_REQUIRED, SN_READY_FOR_APPROVAL, SN_APPROVED})"

definition advances :: "stack_snapshot \<Rightarrow> stack_snapshot \<Rightarrow> bool" where
  "advances s s' \<longleftrightarrow>
     sn_id s' = sn_id s \<and> sn_version s' = sn_version s \<and> sn_baseline s' = sn_baseline s
     \<and> sn_projectTypes s' = sn_projectTypes s \<and> sn_supersededBy s' = sn_supersededBy s
     \<and> (\<exists>ds. sn_decisions s' = sn_decisions s @ ds) \<and> moves_status (sn_status s) (sn_status s')"

lemma stack_advances_refl [simp]: "advances s s"
  by (cases "sn_status s") (simp_all add: advances_def moves_status_def)

lemma advances_live: "advances s s' \<Longrightarrow> sn_status s \<noteq> SN_SUPERSEDED \<Longrightarrow> sn_status s' \<noteq> SN_SUPERSEDED"
  by (cases "sn_status s") (auto simp: advances_def moves_status_def)

definition moves_last :: "stack_snapshot list \<Rightarrow> stack_snapshot list \<Rightarrow> bool" where
  "moves_last ss ss' \<longleftrightarrow> ss' = ss \<or> (\<exists>us s s'. ss = us @ [s] \<and> ss' = us @ [s'] \<and> advances s s')"

lemma moves_last_refl [simp]: "moves_last ss ss"
  by (simp add: moves_last_def)

lemma recalculated_advances: "advances s ((recalculated v d s)\<lparr> sn_recordVersion := n \<rparr>)"
  by (cases "sn_status s") (simp_all add: advances_def recalculated_def moves_status_def nextStatus_def)

lemma recalculate_snapshots:
  fixes st :: stack_store
  assumes "stack_chain (us @ [s])" and "k_snapshots st = us @ [s]"
  shows "k_snapshots (recalculate w t d st)
    = us @ [(recalculated (assemble w st s) d s)\<lparr> sn_recordVersion := sn_recordVersion s + 1 \<rparr>]"
proof -
  have "currentSnapshot st = Some s" using assms by (simp add: current_iff)
  then show ?thesis using stack_update_current [OF assms] by (simp add: recalculate_def)
qed

lemma recalculate_moves:
  fixes st st' :: stack_store
  assumes "stack_chain (k_snapshots st)" "currentSnapshot st = Some s" "k_snapshots st' = k_snapshots st"
  shows "moves_last (k_snapshots st) (k_snapshots (recalculate w t d st'))"
proof -
  obtain us where us: "k_snapshots st = us @ [s]" using assms(1,2) current_iff by blast
  show ?thesis
    using recalculate_snapshots [of us s st' w t d] assms(1,3) us recalculated_advances
    unfolding moves_last_def by auto
qed

lemma write_moves:
  fixes st st' :: stack_store
  assumes "stack_chain (k_snapshots st)" "currentSnapshot st = Some s" "k_snapshots st' = k_snapshots st"
    and "\<And>n. advances s ((f s)\<lparr> sn_recordVersion := n \<rparr>)"
  shows "moves_last (k_snapshots st) (k_snapshots (fst (write_snapshot s f st')))"
proof -
  obtain us where us: "k_snapshots st = us @ [s]" using assms(1,2) current_iff by blast
  have "updateSnapshot (sn_id s) (sn_recordVersion s) f st'
      = Some (st'\<lparr> k_snapshots := us @ [(f s)\<lparr> sn_recordVersion := sn_recordVersion s + 1 \<rparr>] \<rparr>)"
    by (rule stack_update_current) (use assms(1,3) us in auto)
  then show ?thesis using us assms(4) unfolding write_snapshot_def moves_last_def by auto
qed

lemma finish_run_moves:
  fixes st st' :: stack_store
  assumes "stack_chain (k_snapshots st)" "k_snapshots st' = k_snapshots st"
  shows "moves_last (k_snapshots st) (k_snapshots (finish_run run st'))"
proof (cases "currentSnapshot st")
  case None
  then have "currentSnapshot st' = None" using assms(2) by (simp add: currentSnapshot_def)
  then show ?thesis using assms(2) by (simp add: finish_run_def)
next
  case (Some s)
  then have c: "currentSnapshot st' = Some s" using assms(2) by (simp add: currentSnapshot_def)
  obtain us where us: "k_snapshots st = us @ [s]" using assms(1) Some current_iff by blast
  have "updateSnapshot (sn_id s) (sn_recordVersion s) f st'
      = Some (st'\<lparr> k_snapshots := us @ [(f s)\<lparr> sn_recordVersion := sn_recordVersion s + 1 \<rparr>] \<rparr>)" for f
    by (rule stack_update_current) (use assms us in auto)
  moreover have "advances s (s\<lparr> sn_lastRun := Some run, sn_recordVersion := n \<rparr>)" for n
    by (cases "sn_status s") (simp_all add: advances_def moves_status_def)
  ultimately show ?thesis using us c unfolding finish_run_def moves_last_def by auto
qed

lemma fold_frames [simp]:
  "k_snapshots (fold (acknowledge_on a) is st) = k_snapshots st"
  "k_snapshots (fold (lock_live now) cs st) = k_snapshots st"
  "k_snapshots (fst (fold (write_recommendation env v run comps) recs acc)) = k_snapshots (fst acc)"
proof -
  show "k_snapshots (fold (acknowledge_on a) is st) = k_snapshots st"
    by (induction "is" arbitrary: st) (simp_all add: acknowledge_on_def split: option.split)
  show "k_snapshots (fold (lock_live now) cs st) = k_snapshots st"
    by (induction cs arbitrary: st) (simp_all add: lock_live_def)
  have "k_snapshots (fst (write_recommendation env v run comps r acc)) = k_snapshots (fst acc)" for r acc
    by (auto simp: write_recommendation_def Let_def split: prod.split option.split)
  then show "k_snapshots (fst (fold (write_recommendation env v run comps) recs acc)) = k_snapshots (fst acc)"
    by (induction recs arbitrary: acc) simp_all
qed

lemma transition_frame: "transition c s f st = Inr st' \<Longrightarrow> k_snapshots st' = k_snapshots st"
  by (auto simp: transition_def updateComponent_def split: option.splits)

lemma edits_move:
  assumes c: "stack_chain (k_snapshots st)"
  shows "moves_last (k_snapshots st) (k_snapshots (fst (select env w rq ver st)))"
    and "moves_last (k_snapshots st) (k_snapshots (fst (decide env w i dr ver st)))"
    and "moves_last (k_snapshots st) (k_snapshots (fst (lockComponent env w i ver st)))"
    and "moves_last (k_snapshots st) (k_snapshots (fst (unlockComponent env w i ver st)))"
    and "moves_last (k_snapshots st) (k_snapshots (fst (acknowledgeRisk env w i note ver st)))"
proof -
  note R = recalculate_moves [OF c]
  have e: "currentSnapshot st = Some s" if "editable b ver st = Inr s" for b s
    using stack_editable_SomeD [OF that] by simp
  show "moves_last (k_snapshots st) (k_snapshots (fst (select env w rq ver st)))"
    by (auto simp: select_def Let_def split: sum.split option.split prod.split dest!: e intro!: R)
  show "moves_last (k_snapshots st) (k_snapshots (fst (decide env w i dr ver st)))"
    by (auto simp: decide_def Let_def split: sum.split option.split prod.split recommendation_decision.split
        dest!: e dest: transition_frame intro!: R)
  show "moves_last (k_snapshots st) (k_snapshots (fst (lockComponent env w i ver st)))"
    by (auto simp: lockComponent_def split: sum.split option.split dest!: e dest: transition_frame intro!: R)
  show "moves_last (k_snapshots st) (k_snapshots (fst (unlockComponent env w i ver st)))"
    by (auto simp: unlockComponent_def split: sum.split option.split dest!: e intro!: R)
  show "moves_last (k_snapshots st) (k_snapshots (fst (acknowledgeRisk env w i note ver st)))"
    by (auto simp: acknowledgeRisk_def Let_def split: sum.split option.split dest!: e intro!: R)
qed

lemma stamps_move:
  assumes c: "stack_chain (k_snapshots st)"
  shows "moves_last (k_snapshots st) (k_snapshots (fst (setMode env m ver st)))"
    and "moves_last (k_snapshots st) (k_snapshots (fst (approve env w ver st)))"
    and "moves_last (k_snapshots st) (k_snapshots (fst (lock env ver st)))"
    and "moves_last (k_snapshots st) (k_snapshots (fst (recommend env w cfg out cats ver st)))"
proof -
  have e: "currentSnapshot st = Some s" if "editable b ver st = Inr s" for b s
    using stack_editable_SomeD [OF that] by simp
  have v: "currentSnapshot st = Some s" if "versioned ver st = Inr s" for s
    using stack_versioned_SomeD [OF that] by simp
  note W = write_moves [OF c]
  show "moves_last (k_snapshots st) (k_snapshots (fst (setMode env m ver st)))"
  proof -
    have "advances s (s\<lparr> sn_mode := m, sn_decisions := sn_decisions s @ ds, sn_recordVersion := n \<rparr>)" for s ds n
      by (cases "sn_status s") (simp_all add: advances_def moves_status_def)
    then show ?thesis by (auto simp: setMode_def split: sum.split dest!: e intro!: W)
  qed
  show "moves_last (k_snapshots st) (k_snapshots (fst (approve env w ver st)))"
  proof -
    have "advances s (s\<lparr> sn_status := SN_APPROVED, sn_approvedAt := t, sn_decisions := sn_decisions s @ ds, sn_recordVersion := n \<rparr>)"
      if "canApproveStack (sn_status s) bs k" for s t ds n bs k
      using that by (auto simp: advances_def moves_status_def canApproveStack_def)
    then show ?thesis by (auto simp: approve_def Let_def split: sum.split dest!: v intro!: W)
  qed
  show "moves_last (k_snapshots st) (k_snapshots (fst (lock env ver st)))"
  proof -
    have "advances s (s\<lparr> sn_status := SN_LOCKED, sn_lockedAt := t, sn_decisions := sn_decisions s @ ds, sn_recordVersion := n \<rparr>)"
      if "canLockStack (sn_status s)" for s t ds n
      using that by (simp add: advances_def moves_status_def canLockStack_def)
    then show ?thesis by (auto simp: lock_def split: sum.split dest!: v intro!: W)
  qed
  show "moves_last (k_snapshots st) (k_snapshots (fst (recommend env w cfg out cats ver st)))"
    unfolding recommend_def Let_def
    by (auto simp: fst_finish split: sum.split option.split intro!: finish_run_moves [OF c])
qed

section \<open>Rows stay within the versions there are\<close>

lemma rows_frame: "k_components st' = k_components st \<Longrightarrow> rows_ok n st' \<longleftrightarrow> rows_ok n st"
  by (simp add: rows_ok_def)

lemma rows_create [simp]: "rows_ok n (createComponent c st) \<longleftrightarrow> rows_ok n st \<and> row_ok n c"
  by (auto simp: rows_ok_def)

lemma rows_simps [simp]:
  "rows_ok n (recalculate w s d st) = rows_ok n st" "rows_ok n (fst (write_snapshot s f st)) = rows_ok n st"
  "rows_ok n (spend_id st) = rows_ok n st" "rows_ok n (createRun r st) = rows_ok n st" "rows_ok n (updateRun i g st) = rows_ok n st"
  "rows_ok n (finish_run run st) = rows_ok n st" "rows_ok n (createSnapshot z st) = rows_ok n st"
  "rows_ok n (supersedeSnapshots x y st) = rows_ok n st"
  by (simp_all add: rows_ok_def)

lemma updateComponent_ok:
  assumes "rows_ok n st" "updateComponent i v f st = Some st'" "\<And>c. row_ok n c \<Longrightarrow> row_ok n (f c)"
  shows "rows_ok n st'"
proof -
  obtain xs where xs: "find_and_update (\<lambda>c. c_id c = i \<and> c_recordVersion c = v)
      (\<lambda>c. (f c)\<lparr> c_recordVersion := v + 1 \<rparr>) (k_components st) = Some xs" "st' = st\<lparr> k_components := xs \<rparr>"
    using assms(2) by (auto simp: updateComponent_def)
  have bump: "row_ok n ((f c)\<lparr> c_recordVersion := v + 1 \<rparr>)" if "row_ok n c" for c
    using assms(3) [OF that] by (simp add: row_ok_def)
  obtain us x vs where "k_components st = us @ x # vs" "xs = us @ (f x)\<lparr> c_recordVersion := v + 1 \<rparr> # vs"
    using find_and_update_SomeD [OF xs(1)] by blast
  then show ?thesis using assms(1) bump by (simp add: rows_ok_def xs(2))
qed

lemma writeComponent_ok:
  "rows_ok n st \<Longrightarrow> (\<And>c. row_ok n c \<Longrightarrow> row_ok n (f c)) \<Longrightarrow> rows_ok n (writeComponent f c st)"
  by (auto simp: writeComponent_def split: option.split intro: updateComponent_ok)

lemma with_status_ok: "row_ok n c \<Longrightarrow> s \<noteq> NOT_DEFINED \<Longrightarrow> row_ok n (with_status s c)"
  by (simp add: row_ok_def)

lemma supersede_all_ok: "rows_ok n st \<Longrightarrow> rows_ok n (supersede_all cs st)"
proof -
  have "rows_ok n st \<Longrightarrow> rows_ok n (foldl (\<lambda>s c. writeComponent (with_status SUPERSEDED) c s) st cs)"
    by (induction cs arbitrary: st) (auto intro!: writeComponent_ok with_status_ok)
  then show "rows_ok n st \<Longrightarrow> rows_ok n (supersede_all cs st)" by (simp add: supersede_all_def)
qed

lemma transition_ok:
  "transition c s f st = Inr st' \<Longrightarrow> rows_ok n st \<Longrightarrow> s \<noteq> NOT_DEFINED \<Longrightarrow> (\<And>c. row_ok n c \<Longrightarrow> row_ok n (f c)) \<Longrightarrow> rows_ok n st'"
proof -
  assume t: "transition c s f st = Inr st'" and r: "rows_ok n st" and s: "s \<noteq> NOT_DEFINED"
    and f: "\<And>c. row_ok n c \<Longrightarrow> row_ok n (f c)"
  have "updateComponent (c_id c) (c_recordVersion c) (f \<circ> with_status s) st = Some st'"
    using t by (simp add: transition_def split: option.splits)
  then show "rows_ok n st'" by (rule updateComponent_ok [OF r]) (simp add: f with_status_ok s)
qed

lemma folds_ok:
  "rows_ok n st \<Longrightarrow> rows_ok n (fold (acknowledge_on a) is st)"
  "rows_ok n st \<Longrightarrow> rows_ok n (fold (lock_live now) cs st)"
  "rows_ok n (fst acc) \<Longrightarrow> v \<le> n \<Longrightarrow> rows_ok n (fst (fold (write_recommendation env v run comps) recs acc))"
proof -
  have "rows_ok n st \<Longrightarrow> rows_ok n (acknowledge_on a i st)" for i st
    by (auto simp: acknowledge_on_def row_ok_def split: option.split intro!: writeComponent_ok)
  then show "rows_ok n st \<Longrightarrow> rows_ok n (fold (acknowledge_on a) is st)"
    by (induction "is" arbitrary: st) simp_all
  have "rows_ok n st \<Longrightarrow> rows_ok n (lock_live now c st)" for c st
    by (auto simp: lock_live_def row_ok_def intro!: writeComponent_ok)
  then show "rows_ok n st \<Longrightarrow> rows_ok n (fold (lock_live now) cs st)"
    by (induction cs arbitrary: st) simp_all
  have "rows_ok n (fst acc) \<Longrightarrow> v \<le> n \<Longrightarrow> rows_ok n (fst (write_recommendation env v run comps r acc))" for r acc
    by (auto simp: write_recommendation_def Let_def row_ok_def split: prod.split option.split intro!: supersede_all_ok)
  then show "rows_ok n (fst acc) \<Longrightarrow> v \<le> n \<Longrightarrow> rows_ok n (fst (fold (write_recommendation env v run comps) recs acc))"
    by (induction recs arbitrary: acc) simp_all
qed

lemma ops_rows_ok:
  assumes r: "rows_ok n st" and v: "\<And>s. currentSnapshot st = Some s \<Longrightarrow> sn_version s \<le> n" and op: "\<And>v. op \<noteq> Op_unlock v"
  shows "rows_ok n (fst (perform_op env w op st))"
proof (cases op)
  case (Op_select rq ver)
  show ?thesis using r v
    by (auto simp: Op_select select_def Let_def row_ok_def supersede_all_ok split: sum.split option.split prod.split dest!: stack_editable_SomeD)
next
  case (Op_decide i rq ver)
  have t: "transition c s f st = Inr st' \<Longrightarrow> s \<noteq> NOT_DEFINED \<Longrightarrow> (\<And>c. row_ok n c \<Longrightarrow> row_ok n (f c)) \<Longrightarrow> rows_ok n st'" for c s f st'
    using transition_ok r by blast
  show ?thesis using v
    by (auto simp: Op_decide decide_def Let_def r row_ok_def split: sum.split option.split prod.split recommendation_decision.split
        dest!: stack_editable_SomeD dest: t)
next
  case (Op_lockComponent i ver)
  then show ?thesis using r
    by (auto simp: lockComponent_def row_ok_def split: sum.split option.split dest: transition_ok)
next
  case (Op_unlockComponent i ver)
  then show ?thesis using r
    by (auto simp: unlockComponent_def row_ok_def split: sum.split option.split intro!: writeComponent_ok)
next
  case (Op_recommend cfg out cats ver)
  have loop: "rows_ok n (fst (fold (write_recommendation env (sn_version s) run comps) recs (createRun x (spend_id st), [])))"
    if "editable False ver st = Inr s" for s run comps recs x
    using that r v stack_editable_SomeD [OF that] by (intro folds_ok) auto
  show ?thesis
    unfolding Op_recommend perform_op.simps recommend_def Let_def
    using r loop by (auto simp: fst_finish split: sum.split option.split)
qed (use r op in \<open>auto simp: readCurrent_def createInitial_def setMode_def acknowledgeRisk_def approve_def lock_def Let_def
    folds_ok split: option.split sum.split\<close>)

section \<open>Versions\<close>

text \<open>Reopening either does nothing or supersedes the last version and appends a draft.\<close>

lemma unlock_snapshots:
  fixes st :: stack_store
  assumes ok: "stack_ok mint st" and m: "fresh_mint mint" and mint: "ke_mint env = mint" and st: "k_snapshots st = us @ [s]"
    and w: "versioned ver st = Inr s" "sn_status s = SN_LOCKED"
  shows "\<exists>i d. fst (unlock env ver st) = st\<lparr> k_snapshots := us @ [retire_snapshot (Suc (Suc (length us))) s,
              reopened i (Suc (Suc (length us))) d s],
            k_components := k_components st @ copies mint (k_used st) (Suc (Suc (length us))) (filter is_live (listComponents (sn_version s) st)),
            k_used := Suc (k_used st + length (filter is_live (listComponents (sn_version s) st))) \<rparr>
          \<and> i = mint ''stk'' (k_used st + length (filter is_live (listComponents (sn_version s) st)))"
    and "stack_chain (k_snapshots (fst (unlock env ver st)))"
proof -
  have c: "stack_chain (us @ [s])" using ok_chain [OF ok] st by simp
  let ?n = "Suc (Suc (length us))"
  let ?k = "k_used st + length (filter is_live (listComponents (sn_version s) st))"
  let ?d = "decision stack_reopened None None None (ke_now env)"
  let ?t = "reopened (mint ''stk'' ?k) ?n ?d s"
  have t: "sn_version ?t = ?n" "sn_status ?t \<noteq> SN_SUPERSEDED" "sn_id ?t = mint ''stk'' ?k"
    by (simp_all add: reopened_def)
  have fresh: "sn_id ?t \<notin> sn_id ` set (us @ [s])"
  proof
    assume "sn_id ?t \<in> sn_id ` set (us @ [s])"
    then obtain x where "x \<in> set (us @ [s])" "sn_id ?t = sn_id x" by (rule imageE)
    then have "x \<in> set (k_snapshots st)" "sn_id x = mint ''stk'' ?k" unfolding st t(3) by simp_all
    then have "minted mint (k_used st) (mint ''stk'' ?k)" using ok by (auto simp: stack_ok_def list_all_iff)
    then obtain p k where "k < k_used st" "mint ''stk'' ?k = mint p k" by (auto simp: minted_def)
    then show False using m unfolding fresh_mint_def by fastforce
  qed
  note ext = stack_versions.chain_extend [OF c t(1,2) fresh, of ?n]
  have n: "nextSnapshotVersion st = ?n" using next_version [OF ok_chain [OF ok]] st by simp
  have "fst (unlock env ver st) = st\<lparr> k_snapshots := us @ [retire_snapshot ?n s, ?t],
      k_components := k_components st @ copies mint (k_used st) ?n (filter is_live (listComponents (sn_version s) st)),
      k_used := Suc ?k \<rparr>"
    using ext(1) w mint st
    by (simp add: unlock_def Let_def n carryForward_rows supersedeSnapshots_def createSnapshot_def spend_id_def newId_def t(1))
  then show "\<exists>i d. fst (unlock env ver st) = st\<lparr> k_snapshots := us @ [retire_snapshot ?n s, reopened i ?n d s],
            k_components := k_components st @ copies mint (k_used st) ?n (filter is_live (listComponents (sn_version s) st)),
            k_used := Suc ?k \<rparr> \<and> i = mint ''stk'' ?k"
    and "stack_chain (k_snapshots (fst (unlock env ver st)))"
    using ext(2) by auto
qed

lemma unlock_refused: "\<not> (\<exists>s. versioned ver st = Inr s \<and> sn_status s = SN_LOCKED) \<Longrightarrow> fst (unlock env ver st) = st"
  by (auto simp: unlock_def split: sum.split)

lemma op_moves:
  assumes "stack_chain (k_snapshots st)" "\<And>v. op \<noteq> Op_unlock v" "k_snapshots st \<noteq> [] \<or> op \<noteq> Op_read"
  shows "moves_last (k_snapshots st) (k_snapshots (fst (perform_op env w op st)))"
proof (cases op)
  case Op_read
  then have "currentSnapshot st \<noteq> None" using current_None [OF assms(1)] assms(3) by simp
  then show ?thesis by (auto simp: Op_read readCurrent_def)
qed (use assms edits_move [OF assms(1)] stamps_move [OF assms(1)] in auto)

lemma moves_chain:
  assumes "stack_chain ss" "moves_last ss ss'"
  shows "stack_chain ss' \<and> map sn_id ss' = map sn_id ss \<and> length ss' = length ss"
  using assms(2) unfolding moves_last_def
proof (elim disjE exE conjE)
  fix us s s' assume e: "ss = us @ [s]" "ss' = us @ [s']" and a: "advances s s'"
  have "sn_status s \<noteq> SN_SUPERSEDED" using assms(1) e stack_versions.chain_snoc(1) by blast
  then show ?thesis
    using stack_versions.chain_replace [of us s s'] assms(1) e a advances_live [OF a] by (auto simp: advances_def)
qed (use assms(1) in simp)

lemma minted_mono: "minted mint m i \<Longrightarrow> m \<le> n \<Longrightarrow> minted mint n i"
  unfolding minted_def using less_le_trans by blast

lemma stack_op_used:
  assumes "fresh_mint (ke_mint env)" "minted_rows (ke_mint env) st"
  shows "k_used st \<le> k_used (fst (perform_op env w op st))"
  using op_step [OF assms] unfolding component_step_def by blast

lemma op_stack_ok:
  assumes m: "fresh_mint mint" and e: "ke_mint env = mint" and ok: "stack_ok mint st"
  shows "stack_ok mint (fst (perform_op env w op st))"
proof -
  let ?st = "fst (perform_op env w op st)"
  have rows: "minted_rows mint ?st" and used: "k_used st \<le> k_used ?st"
    using step_minted [OF ok_rows [OF ok] m] op_step [of env st op w] stack_op_used [of env st w op] m e ok_rows [OF ok] by auto
  have ids: "list_all (\<lambda>s. minted mint (k_used ?st) (sn_id s)) (k_snapshots st)"
    using ok minted_mono [OF _ used] by (auto simp: stack_ok_def list_all_iff)
  have c: "stack_chain (k_snapshots st)" using ok by (rule ok_chain)
  show ?thesis
  proof (cases "(\<exists>v. op = Op_unlock v) \<or> (k_snapshots st = [] \<and> op = Op_read)")
    case False
    then have "moves_last (k_snapshots st) (k_snapshots ?st)" using op_moves [OF c] by blast
    from moves_chain [OF c this] have mv: "stack_chain (k_snapshots ?st)" "map sn_id (k_snapshots ?st) = map sn_id (k_snapshots st)"
      "length (k_snapshots ?st) = length (k_snapshots st)" by auto
    have "sn_version s \<le> length (k_snapshots st)" if s: "currentSnapshot st = Some s" for s
    proof -
      obtain us where "k_snapshots st = us @ [s]" using s c current_iff by blast
      then show ?thesis using c stack_versions.chain_snoc(3) [of us s] by simp
    qed
    then have "rows_ok (length (k_snapshots ?st)) ?st"
      using ok False ops_rows_ok [of "length (k_snapshots st)" st op env w] unfolding mv(3) stack_ok_def by blast
    moreover have "list_all (\<lambda>i. minted mint (k_used ?st) i) (map sn_id (k_snapshots ?st))"
      unfolding mv(2) using ids by (simp add: list_all_iff)
    ultimately show ?thesis using rows mv(1) by (simp add: stack_ok_def list_all_iff)
  next
    case True
    then show ?thesis
    proof (elim disjE exE conjE)
      assume "k_snapshots st = []" "op = Op_read"
      moreover from this have "currentSnapshot st = None" by (simp add: currentSnapshot_def)
      ultimately show ?thesis
        using ok rows e by (auto simp: readCurrent_def createInitial_def stack_ok_def version_chain_def nextSnapshotVersion_def
          minted_def newId_def rows_ok_def list_all_iff row_ok_def intro: le_SucI)
    next
      fix v assume op: "op = Op_unlock v"
      show ?thesis
      proof (cases "\<exists>s. versioned v st = Inr s \<and> sn_status s = SN_LOCKED")
        case True
        then obtain s where s: "versioned v st = Inr s" "sn_status s = SN_LOCKED" by blast
        then obtain us where us: "k_snapshots st = us @ [s]" using stack_versioned_SomeD c current_iff by blast
        let ?n = "Suc (Suc (length us))"
        let ?live = "filter is_live (listComponents (sn_version s) st)"
        obtain i d where st': "?st = st\<lparr> k_snapshots := us @ [retire_snapshot ?n s, reopened i ?n d s],
            k_components := k_components st @ copies mint (k_used st) ?n ?live, k_used := Suc (k_used st + length ?live) \<rparr>"
          and i: "i = mint ''stk'' (k_used st + length ?live)"
          and ch: "stack_chain (k_snapshots ?st)" using unlock_snapshots [OF ok m e us s] op by auto
        have old: "rows_ok (length us + 2) st" using ok us by (auto simp: stack_ok_def rows_ok_def list_all_iff row_ok_def)
        have "row_ok ?n x" if x: "x \<in> set (copies mint (k_used st) ?n ?live)" for x
        proof -
          obtain k c where "x = carried (mint ''cmp'' k) ?n c" "c \<in> set ?live" using copies_facts(2) [OF x] by blast
          moreover from this have "row_ok (length us + 2) c" using old by (auto simp: rows_ok_def list_all_iff)
          ultimately show ?thesis by (simp add: row_ok_def)
        qed
        moreover have "\<forall>x \<in> set (k_components st). row_ok ?n x" using old by (simp add: rows_ok_def list_all_iff)
        ultimately have "rows_ok (length (k_snapshots ?st)) ?st" by (auto simp: st' rows_ok_def list_all_iff)
        moreover have "list_all (\<lambda>s. minted mint (k_used ?st) (sn_id s)) (k_snapshots ?st)"
        proof -
          have "minted mint (Suc (k_used st + length ?live)) i" unfolding minted_def i by blast
          then show ?thesis using ids us by (simp add: st' retire_snapshot_def reopened_def)
        qed
        ultimately show ?thesis using rows ch by (simp add: stack_ok_def)
      qed (use ok op unlock_refused in simp)
    qed
  qed
qed

lemma stack_history_snoc:
  "stack_history mint (ops @ [(now, w, op)]) st = fst (perform_op \<lparr> ke_mint = mint, ke_now = now \<rparr> w op (stack_history mint ops st))"
  by (simp add: stack_history_def)

lemma stack_history_Cons:
  "stack_history mint ((now, w, op) # ops) st = stack_history mint ops (fst (perform_op \<lparr> ke_mint = mint, ke_now = now \<rparr> w op st))"
  by (simp add: stack_history_def)

lemma stack_history_Nil [simp]: "stack_history mint [] st = st"
  by (simp add: stack_history_def)

lemma history_stack_ok: "fresh_mint mint \<Longrightarrow> stack_ok mint st \<Longrightarrow> stack_ok mint (stack_history mint ops st)"
  by (induction ops rule: rev_induct) (auto simp: stack_history_snoc op_stack_ok)

end
