(* ===== verification/StackGuarantees.thy ===== *)
theory StackGuarantees
  imports StackVersions
begin

text \<open>
  What the stack service guarantees, over any history of its operations: a locked component is left
  alone, the model only fills empty slots, approval is gated, a locked stack is sealed, versions are
  superseded in order, and reopening carries the stack forward. The last section evaluates each on
  one small project.
\<close>

section \<open>A locked component is left alone\<close>

lemma touch_status [simp]: "c_status (touch c) = c_status c"
  by (simp add: touch_def)

lemma acknowledged_more_refl [simp]: "touch c' = touch c \<Longrightarrow> acknowledged_more c c'"
  unfolding acknowledged_more_def by (rule exI [of _ "[]"]) simp

lemma locked_may_become:
  assumes "may_become op c c'" "c_status c = LOCKED" "\<And>v. op \<noteq> Op_unlockComponent (c_id c) v"
  shows "acknowledged_more c c'"
  using assms by (cases op) (auto simp: acknowledged_more_def aiMayReplace_iff isDecided_iff)

definition unlocks :: "string \<Rightarrow> stack_op \<Rightarrow> bool" where
  "unlocks i op = (case op of Op_unlockComponent j _ \<Rightarrow> i = j | _ \<Rightarrow> False)"

lemma locked_step:
  assumes "fresh_mint mint" "stack_ok mint st" "ke_mint env = mint" "c \<in> set (k_components st)" "c_status c = LOCKED"
    and "\<not> unlocks (c_id c) op"
  shows "\<exists>c' \<in> set (k_components (fst (perform_op env w op st))). c_id c' = c_id c \<and> acknowledged_more c c'"
proof -
  obtain f news where f: "k_components (fst (perform_op env w op st)) = map f (k_components st) @ news"
    "\<forall>c \<in> set (k_components st). c_id (f c) = c_id c \<and> c_version (f c) = c_version c \<and> (touch (f c) = touch c \<or> may_become op c (f c))"
    using op_step [of env st op w] assms(1-3) ok_rows unfolding component_step_def by blast
  have "op \<noteq> Op_unlockComponent (c_id c) v" for v using assms(6) by (auto simp: unlocks_def)
  then have "acknowledged_more c (f c)" using f(2) assms(4) locked_may_become [OF _ assms(5)] by fastforce
  then show ?thesis using f assms(4) by (intro bexI [of _ "f c"]) auto
qed

lemma acknowledged_status: "acknowledged_more c c' \<Longrightarrow> c_status c' = c_status c"
proof -
  assume "acknowledged_more c c'"
  then obtain as where "touch c' = touch (c\<lparr> c_acknowledgements := c_acknowledgements c @ as \<rparr>)"
    unfolding acknowledged_more_def by blast
  from arg_cong [OF this, of c_status] show ?thesis by simp
qed

text \<open>
  Property C9. A lock is a wall. Once a component is locked, no history of selections, decisions,
  recommendations by a model, acknowledgements, approvals, locks and reopenings changes anything
  about it but adding acknowledged risks, unless one of the operations unlocks that very component.
\<close>
theorem locked_component_is_a_wall:
  assumes "fresh_mint mint" and "stack_ok mint st" and "c \<in> set (k_components st)" and "c_status c = LOCKED"
    and "list_all (\<lambda>(now, w, op). \<not> unlocks (c_id c) op) ops"
  shows "\<exists>c' \<in> set (k_components (stack_history mint ops st)). c_id c' = c_id c \<and> acknowledged_more c c'"
  using assms(5)
proof (induction ops rule: rev_induct)
  case Nil
  then show ?case using assms(3) by (intro bexI [of _ c]) simp_all
next
  case (snoc x ops)
  obtain now w op where x: "x = (now, w, op)" by (cases x)
  obtain d where d: "d \<in> set (k_components (stack_history mint ops st))" "c_id d = c_id c" "acknowledged_more c d"
    using snoc by auto
  have "\<not> unlocks (c_id d) op" using snoc.prems d(2) by (simp add: x)
  moreover have "c_status d = LOCKED" using acknowledged_status [OF d(3)] assms(4) by simp
  ultimately obtain e where "e \<in> set (k_components (stack_history mint (ops @ [x]) st))" "c_id e = c_id d" "acknowledged_more d e"
    unfolding x stack_history_snoc
    using locked_step [OF assms(1) history_stack_ok [OF assms(1,2)], of "\<lparr> ke_mint = mint, ke_now = now \<rparr>" d ops op w] d(1)
    by auto
  then show ?case using d acknowledged_trans by metis
qed

section \<open>The model fills empty slots only\<close>

definition slot_open :: "nat \<Rightarrow> technology_category \<Rightarrow> stack_store \<Rightarrow> bool" where
  "slot_open v cat st = list_all (\<lambda>c. c_category c = cat \<longrightarrow> c_status c = REJECTED \<or> c_status c = SUPERSEDED \<or> c_status c = NOT_DEFINED)
     (listComponents v st)"

definition suggestion_for :: "stack_world \<Rightarrow> stack_snapshot \<Rightarrow> stack_store \<Rightarrow> stack_component \<Rightarrow> bool" where
  "suggestion_for w s st c = (c_version c = sn_version s \<and> c_status c = AI_RECOMMENDED \<and> c_authority c = A_AI_RECOMMENDATION
     \<and> from_catalogue c \<and> slot_open (sn_version s) (c_category c) st
     \<and> list_ex (\<lambda>e. ca_category e = c_category c \<and> (ca_applicability e = required \<or> ca_applicability e = optional)) (planFor w s))"

lemma fill_slot_open:
  assumes "cat \<in> set (categoriesToFill (planFor w s) (listComponents (sn_version s) st) req)"
  shows "slot_open (sn_version s) cat st"
    and "list_ex (\<lambda>e. ca_category e = cat \<and> (ca_applicability e = required \<or> ca_applicability e = optional)) (planFor w s)"
proof -
  have not: "c_category c \<noteq> cat" if "c \<in> set (listComponents (sn_version s) st)" "isDecided (c_status c) \<or> c_status c = AI_RECOMMENDED" for c
    using assms that by (auto simp: categoriesToFill_def Let_def)
  have "c_status c = REJECTED \<or> c_status c = SUPERSEDED \<or> c_status c = NOT_DEFINED"
    if "c \<in> set (listComponents (sn_version s) st)" "c_category c = cat" for c
    using not [OF that(1)] that(2) by (cases "c_status c") (auto simp: isDecided_iff)
  then show "slot_open (sn_version s) cat st" unfolding slot_open_def list_all_iff by blast
  show "list_ex (\<lambda>e. ca_category e = cat \<and> (ca_applicability e = required \<or> ca_applicability e = optional)) (planFor w s)"
    using assms by (auto simp: categoriesToFill_def Let_def list_ex_iff split: option.splits)
qed

lemma write_recommendation_open:
  assumes op: "slot_open v (rc_category r) st0" and nd: "list_all (\<lambda>c. c_status c \<noteq> NOT_DEFINED) (listComponents v st0)"
  shows "\<exists>news. k_components (fst (write_recommendation env v run (listComponents v st0) r acc)) = k_components (fst acc) @ news
     \<and> (\<forall>c \<in> set news. c_version c = v \<and> c_category c = rc_category r \<and> may_create (Op_recommend a b d e) c)"
proof -
  obtain st filled where acc: "acc = (st, filled)" by (cases acc)
  have held: "filter (\<lambda>c. c_category c = rc_category r \<and> is_live c) (listComponents v st0) = []"
    using op nd by (auto simp: filter_empty_conv slot_open_def list_all_iff is_live_def)
  show ?thesis
  proof (cases "\<exists>x. findTechnology (rc_technologyId r) = Some x \<and> fillsCategory x (rc_category r)")
    case True
    then obtain x where x: "findTechnology (rc_technologyId r) = Some x" "fillsCategory x (rc_category r)" by blast
    let ?c = "recommended_component (newId (ke_mint env) ''cmp'' st) v run r x"
    have "k_components (fst (write_recommendation env v run (listComponents v st0) r acc)) = k_components st @ [?c]"
      by (simp add: acc write_recommendation_def Let_def x held supersede_all_def)
    then show ?thesis using recommended_from_catalogue [OF x] by (intro exI [of _ "[?c]"]) (simp add: acc)
  qed (intro exI [of _ "[]"], auto simp: acc write_recommendation_def Let_def split: option.split)
qed

lemma loop_open:
  assumes "\<forall>r \<in> set recs. slot_open v (rc_category r) st0" "list_all (\<lambda>c. c_status c \<noteq> NOT_DEFINED) (listComponents v st0)"
  shows "\<exists>news. k_components (fst (fold (write_recommendation env v run (listComponents v st0)) recs acc)) = k_components (fst acc) @ news
     \<and> (\<forall>c \<in> set news. c_version c = v \<and> c_category c \<in> rc_category ` set recs \<and> may_create (Op_recommend a b d e) c)"
  using assms(1)
proof (induction recs arbitrary: acc)
  case (Cons r recs)
  let ?acc = "write_recommendation env v run (listComponents v st0) r acc"
  obtain n1 where n1: "k_components (fst ?acc) = k_components (fst acc) @ n1"
    "\<forall>c \<in> set n1. c_version c = v \<and> c_category c = rc_category r \<and> may_create (Op_recommend a b d e) c"
    using write_recommendation_open [OF _ assms(2), of r env run acc a b d e] Cons.prems by auto
  obtain n2 where n2: "k_components (fst (fold (write_recommendation env v run (listComponents v st0)) recs ?acc)) = k_components (fst ?acc) @ n2"
    "\<forall>c \<in> set n2. c_version c = v \<and> c_category c \<in> rc_category ` set recs \<and> may_create (Op_recommend a b d e) c"
    using Cons.IH [of ?acc] Cons.prems by auto
  show ?case by (intro exI [of _ "n1 @ n2"]) (use n1 n2 in auto)
qed simp


section \<open>Approval\<close>

definition stack_approvable :: "stack_world \<Rightarrow> nat \<Rightarrow> stack_store \<Rightarrow> stack_snapshot \<Rightarrow> bool" where
  "stack_approvable w ver st s \<longleftrightarrow>
     sn_recordVersion s = ver \<and> sn_status s \<in> {SN_DRAFT, SN_REVIEW_REQUIRED, SN_READY_FOR_APPROVAL}
     \<and> calculateStackBlockers (blockers_of w st s) = []"

definition approved_as :: "nat \<Rightarrow> stack_snapshot \<Rightarrow> stack_snapshot" where
  "approved_as now s = s\<lparr> sn_status := SN_APPROVED, sn_approvedAt := Some now,
     sn_decisions := sn_decisions s @ [decision stack_approved None None None now],
     sn_recordVersion := sn_recordVersion s + 1 \<rparr>"

lemma gate_nonempty: "calculateStackBlockers (blockers_of w st s) = [] \<Longrightarrow> listComponents (sn_version s) st \<noteq> []"
  by (auto simp: calculateStackBlockers_def blockers_of_def Let_def split: if_splits)

text \<open>
  Property C10. Approving succeeds exactly when the caller has read the latest record of the current
  version, the version is not yet approved, locked or outdated, and nothing stands between the stack
  as it is now and approval; then the version is stamped approved and nothing else in the store
  changes. Refused, it changes nothing.
\<close>
theorem stack_approval_is_gated:
  assumes "stack_ok mint st"
  shows "(snd (approve env w ver st) = None \<longleftrightarrow> (\<exists>s. currentSnapshot st = Some s \<and> stack_approvable w ver st s))
    \<and> (\<forall>s. currentSnapshot st = Some s \<and> stack_approvable w ver st s \<longrightarrow>
          fst (approve env w ver st) = st\<lparr> k_snapshots := butlast (k_snapshots st) @ [approved_as (ke_now env) s] \<rparr>)
    \<and> (snd (approve env w ver st) \<noteq> None \<longrightarrow> fst (approve env w ver st) = st)"
proof -
  have ok: "approve env w ver st = (st\<lparr> k_snapshots := butlast (k_snapshots st) @ [approved_as (ke_now env) s] \<rparr>, None)"
    if s: "currentSnapshot st = Some s" "stack_approvable w ver st s" for s
  proof -
    obtain us where us: "k_snapshots st = us @ [s]" using s(1) current_iff [OF ok_chain [OF assms]] by blast
    have v: "versioned ver st = Inr s" using s by (simp add: versioned_def snapshotOr404_def stack_approvable_def)
    have "canApproveStack (sn_status s) (sw_blockers (assemble w st s)) (length (sw_components (assemble w st s)))"
      using s(2) gate_nonempty [of w st s] by (auto simp: canApproveStack_def assemble_def Let_def stack_approvable_def)
    then show ?thesis
      using s(2) stack_update_current [of us s st] ok_chain [OF assms] us
      by (auto simp: approve_def v Let_def write_snapshot_def approved_as_def stack_approvable_def)
  qed
  have refused: "snd (approve env w ver st) \<noteq> None \<and> fst (approve env w ver st) = st"
    if none: "\<not> (\<exists>s. currentSnapshot st = Some s \<and> stack_approvable w ver st s)"
  proof (cases "versioned ver st")
    case (Inr s)
    then have "currentSnapshot st = Some s" "sn_recordVersion s = ver" using stack_versioned_SomeD by auto
    then show ?thesis
      using none by (auto simp: approve_def Inr Let_def stack_approvable_def canApproveStack_def assemble_def)
  qed (simp add: approve_def)
  have "snd (approve env w ver st) = None \<longleftrightarrow> (\<exists>s. currentSnapshot st = Some s \<and> stack_approvable w ver st s)"
    using ok refused by (metis snd_conv)
  moreover have "snd (approve env w ver st) \<noteq> None \<longrightarrow> fst (approve env w ver st) = st"
    using ok refused by (metis snd_conv)
  ultimately show ?thesis using ok by auto
qed

section \<open>A locked stack is sealed\<close>

definition reopens :: "stack_op \<Rightarrow> bool" where
  "reopens op = (case op of Op_unlock _ \<Rightarrow> True | Op_unlockComponent _ _ \<Rightarrow> True | _ \<Rightarrow> False)"

lemma sealed_step:
  assumes "currentSnapshot st = Some s" "sn_status s = SN_LOCKED" "\<not> reopens op"
  shows "fst (perform_op env w op st) = st"
proof -
  have e: "editable False ver st = Inl STACK_LOCKED" for ver
    using assms by (simp add: editable_def snapshotOr404_def)
  have v: "versioned ver st = Inr s' \<Longrightarrow> s' = s" for ver s'
    using assms(1) stack_versioned_SomeD by fastforce
  show ?thesis
    using assms v
    by (cases op) (auto simp: reopens_def e setMode_def select_def decide_def lockComponent_def acknowledgeRisk_def
        recommend_def readCurrent_def approve_def lock_def canLockStack_def split: sum.split dest!: v)
qed

text \<open>
  Property C14. While a stack is locked nothing in the store changes, whatever requests arrive and
  whatever happens to the project, its baselines and its requirements, until a person unlocks the
  stack or a component; so what it hands to later phases stays the same to the letter.
\<close>
theorem locked_stack_is_sealed:
  assumes "currentSnapshot st = Some s" and "sn_status s = SN_LOCKED"
    and "list_all (\<lambda>(now, w, op). \<not> reopens op) ops"
  shows "stack_history mint ops st = st \<and> authority (stack_history mint ops st) = authority st"
proof -
  have "stack_history mint ops st = st"
    using assms(3)
  proof (induction ops)
    case (Cons x ops)
    then show ?case using sealed_step [OF assms(1,2)] by (cases x) (simp add: stack_history_Cons)
  qed simp
  then show ?thesis by simp
qed

section \<open>Locking and handing down\<close>

definition locked_at :: "nat \<Rightarrow> nat \<Rightarrow> stack_component \<Rightarrow> stack_component" where
  "locked_at v now d = (if c_version d = v \<and> (c_status d = USER_APPROVED \<or> c_status d = USER_SELECTED)
     then bump (\<lambda>c. (with_status LOCKED c)\<lparr> c_lockedAt := Some now \<rparr>) d else d)"

definition handed_down :: "stack_component \<Rightarrow> authoritative_technology" where
  "handed_down c = (technology_of c)\<lparr> at_authority :=
     (if c_status c = USER_APPROVED \<or> c_status c = USER_SELECTED then A_LOCKED_USER_SELECTION else authorityOf (c_status c)) \<rparr>"

lemma locked_at_simps [simp]:
  "c_category (locked_at v now c) = c_category c" "c_version (locked_at v now c) = c_version c"
  "is_live (locked_at v now c) = is_live c" "c_acknowledgements (locked_at v now c) = c_acknowledgements c"
  "c_technologyName (locked_at v now c) = c_technologyName c"
  by (auto simp: locked_at_def bump_def with_status_def is_live_def)

lemma technology_locked: "c_version c = v \<Longrightarrow> technology_of (locked_at v now c) = handed_down c"
  by (auto simp: locked_at_def bump_def with_status_def technology_of_def handed_down_def authorityOf_def)

lemma listComponents_map:
  assumes "\<And>c. c_category (f c) = c_category c \<and> c_version (f c) = c_version c"
  shows "listComponents v (st\<lparr> k_components := map f (k_components st) \<rparr>) = map f (listComponents v st)"
proof -
  have ins: "insort_key (\<lambda>c. category_name (c_category c)) (f x) (map f ys) = map f (insort_key (\<lambda>c. category_name (c_category c)) x ys)" for x ys
    using assms by (induction ys) simp_all
  have sort_map: "sort_key (\<lambda>c. category_name (c_category c)) (map f xs) = map f (sort_key (\<lambda>c. category_name (c_category c)) xs)" for xs
    by (induction xs) (simp_all add: ins)
  show ?thesis using assms by (simp add: listComponents_def filter_map comp_def sort_map)
qed

lemma authority_locked:
  assumes "currentSnapshot st = Some s" "sn_status s = SN_LOCKED" "sn_baseline s = Some (b, bv)" "b \<noteq> []" "bv \<noteq> 0"
    "sn_lockedAt s = Some t" "live = filter is_live (listComponents (sn_version s) st)"
  shows "\<exists>a. authority st = Inr a \<and> da_technologies a = map technology_of live \<and> da_stackVersion a = sn_version s
     \<and> da_baselineId a = b \<and> da_baselineVersion a = bv
     \<and> da_excluded a = map ca_category (filter (\<lambda>e. ca_applicability e \<noteq> not_applicable \<and> ca_category e \<notin> set (map c_category live)) (sn_plan s))"
  using assms by (simp add: authority_def snapshotOr404_def Let_def)

definition lock_stamp :: "nat \<Rightarrow> stack_snapshot \<Rightarrow> stack_snapshot" where
  "lock_stamp now s = s\<lparr> sn_status := SN_LOCKED, sn_lockedAt := Some now,
     sn_decisions := sn_decisions s @ [decision stack_locked None None None now], sn_recordVersion := sn_recordVersion s + 1 \<rparr>"

lemma lock_effect:
  assumes ok: "stack_ok mint st" and s: "currentSnapshot st = Some s" "sn_status s = SN_APPROVED" "sn_recordVersion s = ver"
  shows "lock env ver st = (st\<lparr> k_snapshots := butlast (k_snapshots st) @ [lock_stamp (ke_now env) s],
      k_components := map (locked_at (sn_version s) (ke_now env)) (k_components st) \<rparr>, None)"
    and "currentSnapshot (fst (lock env ver st)) = Some (lock_stamp (ke_now env) s)"
proof -
  obtain us where us: "k_snapshots st = us @ [s]" using s(1) current_iff [OF ok_chain [OF ok]] by blast
  have c: "stack_chain (us @ [s])" using ok_chain [OF ok] us by simp
  have d: "distinct_ids_in st" using ok_rows [OF ok] by (simp add: minted_rows_def)
  let ?st1 = "st\<lparr> k_components := map (locked_at (sn_version s) (ke_now env)) (k_components st) \<rparr>"
  have st1: "fold (lock_live (ke_now env)) (listComponents (sn_version s) st) st = ?st1"
    unfolding lock_rows [OF d] by (simp add: locked_at_def)
  have "updateSnapshot (sn_id s) (sn_recordVersion s) f ?st1
      = Some (?st1\<lparr> k_snapshots := us @ [(f s)\<lparr> sn_recordVersion := sn_recordVersion s + 1 \<rparr>] \<rparr>)" for f
    by (rule stack_update_current [OF c]) (simp add: us)
  then show eff: "lock env ver st = (st\<lparr> k_snapshots := butlast (k_snapshots st) @ [lock_stamp (ke_now env) s],
      k_components := map (locked_at (sn_version s) (ke_now env)) (k_components st) \<rparr>, None)"
    using s us by (simp add: lock_def versioned_def snapshotOr404_def canLockStack_def write_snapshot_def st1 lock_stamp_def)
  have "stack_chain (us @ [lock_stamp (ke_now env) s])"
    by (rule stack_versions.chain_replace [OF c]) (simp_all add: lock_stamp_def)
  then show "currentSnapshot (fst (lock env ver st)) = Some (lock_stamp (ke_now env) s)"
    by (simp add: eff us current_iff)
qed

text \<open>
  Property C12. Locking an approved stack, read at its latest record and pinned to a baseline, makes
  it authoritative: what later phases read names exactly the live components of the version, in the
  order of their categories, each with its own facts, every choice of a person at the authority of a
  lock, and as deliberately excluded exactly the applicable categories with nothing live.
\<close>
theorem locking_hands_down_the_stack:
  assumes "stack_ok mint st" and "currentSnapshot st = Some s" and "sn_status s = SN_APPROVED" and "sn_recordVersion s = ver"
    and "sn_baseline s = Some (b, bv)" and "b \<noteq> []" and "bv \<noteq> 0"
  shows "snd (lock env ver st) = None \<and> (\<exists>a. authority (fst (lock env ver st)) = Inr a
      \<and> da_technologies a = map handed_down (filter is_live (listComponents (sn_version s) st))
      \<and> da_stackVersion a = sn_version s \<and> da_baselineId a = b \<and> da_baselineVersion a = bv
      \<and> set (da_excluded a) = {ca_category e | e. e \<in> set (sn_plan s) \<and> ca_applicability e \<noteq> not_applicable
          \<and> (\<forall>c \<in> set (listComponents (sn_version s) st). is_live c \<longrightarrow> c_category c \<noteq> ca_category e)})"
proof -
  note eff = lock_effect [OF assms(1-4), of env]
  let ?f = "locked_at (sn_version s) (ke_now env)"
  let ?live = "filter is_live (listComponents (sn_version s) st)"
  have "k_components (fst (lock env ver st)) = k_components (st\<lparr> k_components := map ?f (k_components st) \<rparr>)"
    by (simp add: eff(1))
  then have "listComponents (sn_version s) (fst (lock env ver st)) = map ?f (listComponents (sn_version s) st)"
    using listComponents_map [of ?f "sn_version s" st] unfolding listComponents_def by simp
  then have live: "filter is_live (listComponents (sn_version s) (fst (lock env ver st))) = map ?f ?live"
    by (simp add: filter_map comp_def)
  have tech: "map (technology_of \<circ> ?f) ?live = map handed_down ?live"
    by (rule map_cong [OF refl]) (simp add: technology_locked)
  have stamp: "sn_status (lock_stamp n s) = SN_LOCKED" "sn_baseline (lock_stamp n s) = sn_baseline s" "sn_lockedAt (lock_stamp n s) = Some n"
    "sn_version (lock_stamp n s) = sn_version s" "sn_plan (lock_stamp n s) = sn_plan s" for n
    by (simp_all add: lock_stamp_def)
  obtain a where a: "authority (fst (lock env ver st)) = Inr a" "da_technologies a = map technology_of (map ?f ?live)"
    "da_stackVersion a = sn_version s" "da_baselineId a = b" "da_baselineVersion a = bv"
    "da_excluded a = map ca_category (filter (\<lambda>e. ca_applicability e \<noteq> not_applicable \<and> ca_category e \<notin> set (map c_category (map ?f ?live))) (sn_plan s))"
    using authority_locked [OF eff(2), of b bv "ke_now env" "map ?f ?live"] assms(5-7) live stamp by auto
  have "set (map c_category (map ?f ?live)) = {c_category c | c. c \<in> set (listComponents (sn_version s) st) \<and> is_live c}"
    by (auto simp: image_image)
  then have "set (da_excluded a) = {ca_category e | e. e \<in> set (sn_plan s) \<and> ca_applicability e \<noteq> not_applicable
          \<and> (\<forall>c \<in> set (listComponents (sn_version s) st). is_live c \<longrightarrow> c_category c \<noteq> ca_category e)}"
    unfolding a(6) set_map [of ca_category] set_filter by (auto intro!: rev_image_eqI)
  moreover have "da_technologies a = map handed_down ?live" unfolding a(2) map_map tech by (rule refl)
  moreover have "snd (lock env ver st) = None" by (simp add: eff(1))
  ultimately show ?thesis using a(1,3-5) by blast
qed

section \<open>Reopening\<close>

text \<open>A copy keeps everything a component says but its identity, its lock and what it replaced.\<close>

definition unlocked_copy :: "stack_component \<Rightarrow> stack_component \<Rightarrow> bool" where
  "unlocked_copy c c' \<longleftrightarrow>
     c_status c' = (if c_status c = LOCKED then USER_APPROVED else c_status c)
     \<and> (c_status c = LOCKED \<longrightarrow> c_authority c' = authorityOf USER_APPROVED) \<and> c_lockedAt c' = None
     \<and> given (c_technologyId c') = given (c_technologyId c) \<and> c_technologyName c' = c_technologyName c
     \<and> c_category c' = c_category c \<and> c_selectionSource c' = c_selectionSource c \<and> c_mandatory c' = c_mandatory c
     \<and> c_pinned c' = c_pinned c \<and> c_evidence c' = c_evidence c \<and> c_evidenceStrength c' = c_evidenceStrength c
     \<and> c_licence c' = c_licence c \<and> c_costPosture c' = c_costPosture c \<and> c_selfHostable c' = c_selfHostable c
     \<and> c_recommendation c' = c_recommendation c \<and> c_acknowledgements c' = c_acknowledgements c \<and> c_notes c' = c_notes c"

lemma carried_copy: "unlocked_copy c (carried i v c)"
  by (simp add: unlocked_copy_def carried_def given_def authorityOf_def)

text \<open>
  Property C13. Reopening a locked stack supersedes it and starts the next version as a draft with
  the same project types and baseline: the components of the new version are copies, under fresh
  identifiers, of the live ones of the old, each unlocked but otherwise with its facts, evidence and
  acknowledged risks; and every component and every earlier version stays as it was.
\<close>
theorem reopening_carries_the_stack:
  assumes "fresh_mint mint" and "stack_ok mint st" and "ke_mint env = mint" and "versioned ver st = Inr s" and "sn_status s = SN_LOCKED"
  shows "\<exists>s' news. k_snapshots (fst (unlock env ver st)) = butlast (k_snapshots st) @ [retire_snapshot (sn_version s + 1) s, s']
     \<and> k_components (fst (unlock env ver st)) = k_components st @ news
     \<and> currentSnapshot (fst (unlock env ver st)) = Some s' \<and> sn_status s' = SN_DRAFT \<and> sn_version s' = sn_version s + 1
     \<and> sn_projectTypes s' = sn_projectTypes s \<and> sn_baseline s' = sn_baseline s
     \<and> list_all2 unlocked_copy (filter is_live (listComponents (sn_version s) st)) news
     \<and> set (listComponents (sn_version s + 1) (fst (unlock env ver st))) = set news"
proof -
  have c: "stack_chain (k_snapshots st)" by (rule ok_chain [OF assms(2)])
  obtain us where us: "k_snapshots st = us @ [s]" using assms(4) stack_versioned_SomeD c current_iff by blast
  have v: "sn_version s = Suc (length us)" using c us stack_versions.chain_snoc(3) by simp
  let ?live = "filter is_live (listComponents (sn_version s) st)"
  let ?news = "copies mint (k_used st) (sn_version s + 1) ?live"
  obtain i d where un: "k_snapshots (fst (unlock env ver st)) = us @ [retire_snapshot (sn_version s + 1) s, reopened i (sn_version s + 1) d s]"
    "k_components (fst (unlock env ver st)) = k_components st @ ?news" "stack_chain (k_snapshots (fst (unlock env ver st)))"
    using unlock_snapshots [OF assms(2,1,3) us assms(4,5)] by (auto simp: v)
  have cur: "currentSnapshot (fst (unlock env ver st)) = Some (reopened i (sn_version s + 1) d s)"
    using current_iff [OF un(3)] un(1) by simp
  have copied: "list_all2 unlocked_copy cs (copies mint k n cs)" for cs k n
  proof (induction cs arbitrary: k)
    case (Cons c cs)
    then show ?case by (simp add: copies_Cons carried_copy)
  qed (simp add: copies_def)
  have old: "c_version c \<noteq> sn_version s + 1" if c: "c \<in> set (k_components st)" for c
  proof -
    have "row_ok (length (k_snapshots st)) c" using assms(2) c by (simp add: stack_ok_def rows_ok_def list_all_iff)
    then show ?thesis using us v by (simp add: row_ok_def)
  qed
  have new: "c_version c = sn_version s + 1" if c: "c \<in> set ?news" for c
  proof -
    obtain k d where "c = carried (mint ''cmp'' k) (sn_version s + 1) d" using copies_facts(2) [OF c] by blast
    then show ?thesis by simp
  qed
  have set: "set (listComponents (sn_version s + 1) (fst (unlock env ver st))) = set ?news"
    unfolding set_listComponents un(2) set_append using old new by blast
  show ?thesis
  proof (intro exI conjI)
    show "k_snapshots (fst (unlock env ver st)) = butlast (k_snapshots st) @ [retire_snapshot (sn_version s + 1) s, reopened i (sn_version s + 1) d s]"
      by (simp add: un(1) us)
  qed (use un(2) cur set copied in \<open>simp_all add: reopened_def\<close>)
qed

section \<open>Statuses follow the table\<close>

text \<open>
  Property C31. Whatever operation runs, a component keeps its identifier and version and its status
  moves along the table of component statuses or not at all, with one exception: locking the stack
  takes a choice that was never approved straight to locked.
\<close>
theorem statuses_follow_the_table:
  assumes "fresh_mint mint" and "stack_ok mint st" and "ke_mint env = mint" and "c \<in> set (k_components st)"
  shows "\<exists>c' \<in> set (k_components (fst (perform_op env w op st))). c_id c' = c_id c \<and> c_version c' = c_version c
     \<and> (c_status c' = c_status c \<or> canTransitionComponent (c_status c) (c_status c')
        \<or> (\<exists>ver. op = Op_lock ver) \<and> c_status c = USER_SELECTED \<and> c_status c' = LOCKED)"
proof -
  obtain f news where f: "k_components (fst (perform_op env w op st)) = map f (k_components st) @ news"
    "c_id (f c) = c_id c" "c_version (f c) = c_version c" "touch (f c) = touch c \<or> may_become op c (f c)"
    using op_step [of env st op w] assms ok_rows unfolding component_step_def by blast
  have nd: "c_status c \<noteq> NOT_DEFINED" using assms(2,4) by (auto simp: stack_ok_def rows_ok_def row_ok_def list_all_iff)
  have st: "c_status x = c_status y" if "touch x = touch y" for x y
    using arg_cong [OF that, of c_status] by simp
  have "c_status (f c) = c_status c \<or> canTransitionComponent (c_status c) (c_status (f c))
        \<or> (\<exists>ver. op = Op_lock ver) \<and> c_status c = USER_SELECTED \<and> c_status (f c) = LOCKED"
    using f(4)
  proof
    assume "may_become op c (f c)"
    then show ?thesis using nd
      by (cases op; cases "c_status c")
         (auto simp: canTransitionComponent_def is_live_def aiMayReplace_iff isDecided_iff dest!: st
            split: recommendation_decision.splits)
  qed (use st in blast)
  then show ?thesis using f(1-3) assms(4) by (intro bexI [of _ "f c"]) auto
qed

section \<open>A selection\<close>

lemma superseded_slot_is_empty:
  assumes "stack_ok mint st"
  shows "liveInCategory v cat (supersede_all (liveInCategory v cat st) st) = []"
proof -
  obtain ex where e: "ex = liveInCategory v cat st" by blast
  have d: "distinct_ids_in st" using ok_rows [OF assms] by (simp add: minted_rows_def)
  have ex: "set ex \<subseteq> set (k_components st)" "distinct ex"
    using distinct_rows [OF d] by (auto simp: e liveInCategory_def)
  have sup: "supersede_all ex st = st\<lparr> k_components := map (superseded_in (set ex)) (k_components st) \<rparr>"
    by (rule supersede_rows [OF d ex])
  have "\<forall>y \<in> set (k_components (supersede_all ex st)). \<not> (c_version y = v \<and> c_category y = cat \<and> is_live y)"
  proof
    fix y
    assume "y \<in> set (k_components (supersede_all ex st))"
    then obtain x where x: "x \<in> set (k_components st)" "y = superseded_in (set ex) x" unfolding sup by auto
    then show "\<not> (c_version y = v \<and> c_category y = cat \<and> is_live y)"
      using liveInCategory_rows [of x v cat st] by (auto simp: e [symmetric] bump_def is_live_def)
  qed
  then show ?thesis unfolding e [symmetric] by (simp add: liveInCategory_def filter_empty_conv)
qed

text \<open>
  Property C32. A selection that succeeds in a category that holds one technology leaves exactly one
  live component there, the chosen one, under its catalogue name and facts when what was sent or
  typed is in the catalogue and exactly as typed otherwise; and a locked component in the category
  makes it fail.
\<close>
theorem selection_fills_the_slot:
  assumes "stack_ok mint st" and "currentSnapshot st = Some s" and "\<not> allowsMultiple (rq_category rq)"
    and "snd (select env w rq ver st) = None"
  shows "\<exists>c e. liveInCategory (sn_version s) (rq_category rq) (fst (select env w rq ver st)) = [c]
     \<and> resolveTechnology (rq_technologyId rq) (rq_customName rq) = Inr (e, c_technologyName c)
     \<and> c_technologyId c = map_option en_id e \<and> c_status c = USER_SELECTED
     \<and> (\<forall>x. e = Some x \<longrightarrow> fillsCategory x (rq_category rq) \<and> c_licence c = en_licence x)
     \<and> list_all (\<lambda>d. c_status d \<noteq> LOCKED) (liveInCategory (sn_version s) (rq_category rq) st)"
proof -
  obtain ex where e: "ex = liveInCategory (sn_version s) (rq_category rq) st" by blast
  have none: "liveInCategory (sn_version s) (rq_category rq) (supersede_all ex st) = []"
    unfolding e by (rule superseded_slot_is_empty [OF assms(1)])
  obtain s' where s': "editable False ver st = Inr s'" "s' = s"
    using assms(2,4) stack_editable_SomeD [of False ver st] by (cases "editable False ver st") (auto simp: select_def)
  obtain en nm where r: "resolveTechnology (rq_technologyId rq) (rq_customName rq) = Inr (en, nm)"
      "\<not> (case en of None \<Rightarrow> False | Some x \<Rightarrow> \<not> fillsCategory x (rq_category rq))" "\<not> list_ex (\<lambda>c. c_status c = LOCKED) ex"
    and st': "\<exists>v dc i. fst (select env w rq ver st)
      = recalculate w s dc (createComponent (selected_component i (sn_version s) rq en nm) (spend_id (supersede_all ex st)))"
    using assms(3,4) s' by (auto simp: select_def Let_def e [symmetric] split: option.splits if_splits sum.splits prod.splits)
  then obtain dc i where st': "fst (select env w rq ver st)
      = recalculate w s dc (createComponent (selected_component i (sn_version s) rq en nm) (spend_id (supersede_all ex st)))" by blast
  have "liveInCategory (sn_version s) (rq_category rq) (fst (select env w rq ver st)) = [selected_component i (sn_version s) rq en nm]"
    using none by (simp add: st' liveInCategory_def is_live_def)
  moreover have "c_technologyName (selected_component i (sn_version s) rq en nm) = nm"
    "c_technologyId (selected_component i (sn_version s) rq en nm) = map_option en_id en"
    "en = Some x \<Longrightarrow> c_licence (selected_component i (sn_version s) rq en nm) = en_licence x" for x
    by (simp_all add: selected_component_def new_component_def Let_def)
  moreover have "list_all (\<lambda>d. c_status d \<noteq> LOCKED) ex" using r(3) by (auto simp: list_all_iff list_ex_iff)
  moreover have "en = Some x \<Longrightarrow> fillsCategory x (rq_category rq)" for x using r(2) by simp
  ultimately show ?thesis using r(1) unfolding e
    by (intro exI [of _ "selected_component i (sn_version s) rq en nm"] exI [of _ en]) simp
qed

end
