(* ===== verification/StackSamples.thy ===== *)
theory StackSamples
  imports StackGuarantees
begin

text \<open>
  One small project, a website with an approved baseline and technologies that are not in the
  catalogue, and each property of the stack evaluated on it.
\<close>

section \<open>A project\<close>

definition demo_mint :: "string \<Rightarrow> nat \<Rightarrow> string" where
  "demo_mint p n = replicate n CHR ''a''"

definition demo_env :: stack_env where
  "demo_env = \<lparr> ke_mint = demo_mint, ke_now = 9 \<rparr>"

definition demo_world :: stack_world where
  "demo_world = \<lparr> kw_projectTypes = [WEBSITE],
     kw_baselines = [\<lparr> sl_id = ''bl'', sl_version = 1, sl_status = SB_approved, sl_itemIds = [] \<rparr>], kw_items = [] \<rparr>"

definition demo_component :: "nat \<Rightarrow> technology_category \<Rightarrow> stack_component_status \<Rightarrow> stack_component" where
  "demo_component n cat s = new_component (demo_mint [] n) 1 cat None ''Acme'' s (evidence_of USER_PREFERENCE [])
     \<lparr> er_score = 0, er_band = unsupported, er_contributions = [] \<rparr>"

definition demo_snapshot :: "stack_snapshot_status \<Rightarrow> stack_snapshot" where
  "demo_snapshot s =
     \<lparr> sn_id = [], sn_version = 1, sn_status = s, sn_mode = HYBRID, sn_baseline = Some (''bl'', 1),
       sn_projectTypes = [WEBSITE],
       sn_plan = [\<lparr> ca_category = web_frontend, ca_applicability = required, ca_justifiedBy = [] \<rparr>,
                  \<lparr> ca_category = database, ca_applicability = optional, ca_justifiedBy = [] \<rparr>],
       sn_findings = [], sn_highestRisk = RISK_NONE, sn_blockers = [], sn_decisions = [], sn_lastRun = None,
       sn_approvedAt = None, sn_lockedAt = (if s = SN_LOCKED then Some 8 else None), sn_supersededBy = None,
       sn_recordVersion = 0 \<rparr>"

definition demo_store :: "stack_snapshot_status \<Rightarrow> stack_component list \<Rightarrow> stack_store" where
  "demo_store s cs = \<lparr> k_snapshots = [demo_snapshot s], k_components = cs, k_runs = [], k_used = 5 \<rparr>"

lemma demo_fresh: "fresh_mint demo_mint" "fresh_mint (ke_mint demo_env)"
  by (auto simp: fresh_mint_def demo_mint_def demo_env_def)

lemma demo_env_simps [simp]: "ke_mint demo_env = demo_mint" "ke_now demo_env = 9"
  by (simp_all add: demo_env_def)

lemma demo_component_simps [simp]:
  "c_id (demo_component n cat s) = replicate n CHR ''a''" "c_status (demo_component n cat s) = s"
  "c_version (demo_component n cat s) = 1" "c_category (demo_component n cat s) = cat"
  by (simp_all add: demo_component_def new_component_def demo_mint_def)

lemma demo_current: "s \<noteq> SN_SUPERSEDED \<Longrightarrow> currentSnapshot (demo_store s cs) = Some (demo_snapshot s)"
  by (simp add: currentSnapshot_def demo_store_def demo_snapshot_def newest_of_def)

lemma demo_minted: "k < n \<Longrightarrow> minted demo_mint n (replicate k CHR ''a'')"
  unfolding minted_def by (intro exI [of _ "[]"] exI [of _ k]) (simp add: demo_mint_def)

text \<open>The rows of the examples: distinct numbers below the number of identifiers handed out.\<close>

lemma demo_ok:
  assumes "s \<noteq> SN_SUPERSEDED" "cs = map (\<lambda>(n, cat, t). demo_component n cat t) ks" "distinct (map fst ks)"
    and "list_all (\<lambda>(n, cat, t). n < 5 \<and> t \<noteq> NOT_DEFINED) ks"
  shows "stack_ok demo_mint (demo_store s cs)"
proof -
  have "inj (\<lambda>n. replicate n CHR ''a'')" by (rule injI) (metis length_replicate)
  then have "distinct (map (\<lambda>n. replicate n CHR ''a'') (map fst ks))"
    using assms(3) by (metis distinct_map inj_on_subset subset_UNIV)
  moreover have "map c_id cs = map (\<lambda>n. replicate n CHR ''a'') (map fst ks)" unfolding assms(2) by (simp add: case_prod_unfold)
  ultimately have d: "distinct (map c_id cs)" by simp
  have m: "\<exists>p k. k < 5 \<and> c_id c = demo_mint p k" if "c \<in> set cs" for c
    using that assms(2,4) by (auto simp: list_all_iff demo_mint_def)
  have r: "list_all (row_ok 1) cs" using assms(2,4) by (auto simp: list_all_iff row_ok_def)
  show ?thesis
    using assms(1) d m r demo_minted [of 0 5]
    by (simp add: stack_ok_def demo_store_def demo_snapshot_def minted_rows_def rows_ok_def version_chain_def)
qed

section \<open>The catalogue and the rules\<close>


lemma required_categories_can_be_filled_witness:
  "\<exists>e \<in> set TECHNOLOGY_CATALOG. fillsCategory e payment \<and> maturity e \<noteq> deprecated
    \<and> (\<exists>t \<in> set [WEBSITE, ECOMMERCE_PLATFORM]. suitsProjectType e t)"
proof (rule required_categories_can_be_filled)
  show "payment \<in> set (requiredCategories (planCategories [WEBSITE, ECOMMERCE_PLATFORM]))" by code_simp
qed

definition demo_facts :: "string \<Rightarrow> catalog_entry option \<Rightarrow> component_facts" where
  "demo_facts i e = \<lparr> cf_id = i, cf_category = web_frontend, cf_entry = e, cf_active = True \<rparr>"

definition demo_input :: "component_facts list \<Rightarrow> technology_mandate list \<Rightarrow> compatibility_input" where
  "demo_input cs ms = \<lparr> ci_projectTypes = [WEBSITE], ci_components = cs, ci_constraints = EMPTY_CONSTRAINTS\<lparr> mandates := ms \<rparr>,
     ci_required = [web_frontend], ci_justified = [] \<rparr>"

definition demo_mandate :: "string \<Rightarrow> technology_mandate" where
  "demo_mandate t = \<lparr> tm_technologyId = t, tm_category = web_frontend, tm_requirementIds = [''r''] \<rparr>"


lemma two_mandates_for_one_slot_never_clear_witness:
  "blockingFindings (evaluateCompatibility (demo_input [demo_facts ''a'' (Some (hd web_frontend_entries))]
     [demo_mandate (en_id (hd web_frontend_entries)), demo_mandate ''angular''])) \<noteq> []"
proof (rule two_mandates_for_one_slot_never_clear)
  have "fillsCategory (hd web_frontend_entries) d \<Longrightarrow> d = web_frontend" for d
    by (cases d) (simp_all add: fillsCategory_def web_frontend_entries_def entry_def)
  then show "\<forall>x \<in> set (ci_components (demo_input [demo_facts ''a'' (Some (hd web_frontend_entries))]
      [demo_mandate (en_id (hd web_frontend_entries)), demo_mandate ''angular''])). \<forall>e. cf_entry x = Some e
      \<and> en_id e \<in> {tm_technologyId (demo_mandate (en_id (hd web_frontend_entries))), tm_technologyId (demo_mandate ''angular'')}
        \<longrightarrow> (\<forall>d. fillsCategory e d \<longrightarrow> d = web_frontend)"
    by (simp add: demo_input_def demo_facts_def)
  show "tm_technologyId (demo_mandate (en_id (hd web_frontend_entries))) \<noteq> tm_technologyId (demo_mandate ''angular'')"
    "\<not> allowsMultiple web_frontend"
    by code_simp+
qed (simp_all add: demo_input_def demo_mandate_def demo_facts_def)

definition demo_gate :: "stack_component_status \<Rightarrow> stack_blocker_input" where
  "demo_gate s = \<lparr> bi_components = [\<lparr> bc_id = ''a'', bc_category = web_frontend, bc_status = s, bc_acknowledged = [] \<rparr>],
     bi_required = [web_frontend], bi_findings = [], bi_baselineApproved = True, bi_baselineCurrent = True,
     bi_typeConfirmed = True, bi_decidedTypes = [WEBSITE], bi_currentTypes = [WEBSITE] \<rparr>"

lemma stack_gate_exact_witness:
  "calculateStackBlockers (demo_gate USER_APPROVED) = [] \<and> calculateStackBlockers (demo_gate AI_RECOMMENDED) \<noteq> []"
  unfolding stack_gate_exact by (simp add: demo_gate_def live_of_def isDecided_def DECIDED_COMPONENT_STATUSES_def blockingFindings_def)

section \<open>The service\<close>

lemma locked_component_is_a_wall_witness:
  "\<exists>c' \<in> set (k_components (stack_history demo_mint [(1, demo_world, Op_read), (2, demo_world, Op_approve 0), (3, demo_world, Op_lock 1), (4, demo_world, Op_unlock 2)]
      (demo_store SN_DRAFT [demo_component 1 web_frontend LOCKED]))).
      c_id c' = ''a'' \<and> acknowledged_more (demo_component 1 web_frontend LOCKED) c'"
proof -
  have "stack_ok demo_mint (demo_store SN_DRAFT [demo_component 1 web_frontend LOCKED])"
    by (rule demo_ok [of _ _ "[(1, web_frontend, LOCKED)]"]) simp_all
  then show ?thesis
    using locked_component_is_a_wall [OF demo_fresh(1), of "demo_store SN_DRAFT [demo_component 1 web_frontend LOCKED]" "demo_component 1 web_frontend LOCKED"
      "[(1, demo_world, Op_read), (2, demo_world, Op_approve 0), (3, demo_world, Op_lock 1), (4, demo_world, Op_unlock 2)]"]
    by (simp add: demo_store_def unlocks_def)
qed

definition demo_choice :: "stack_snapshot_status \<Rightarrow> stack_store" where
  "demo_choice s = demo_store s [demo_component 1 web_frontend USER_APPROVED]"

lemma demo_choice_ok: "s \<noteq> SN_SUPERSEDED \<Longrightarrow> stack_ok demo_mint (demo_choice s)"
  unfolding demo_choice_def by (rule demo_ok [of _ _ "[(1, web_frontend, USER_APPROVED)]"]) simp_all

lemma demo_choice_current: "s \<noteq> SN_SUPERSEDED \<Longrightarrow> currentSnapshot (demo_choice s) = Some (demo_snapshot s)"
  unfolding demo_choice_def by (rule demo_current)

definition demo_recommendation :: recommendation where
  "demo_recommendation = \<lparr> rc_category = database, rc_technologyId = ''postgresql'', rc_requirementIds = [],
     rc_alternative = None, rc_confidence = 0 \<rparr>"

lemma demo_editable: "s \<noteq> SN_SUPERSEDED \<Longrightarrow> s \<noteq> SN_LOCKED \<Longrightarrow> editable False 0 (demo_choice s) = Inr (demo_snapshot s)"
  by (simp add: editable_def snapshotOr404_def demo_choice_current) (simp add: demo_snapshot_def)

text \<open>A run whose answer passes the checks writes its recommendations one after the other.\<close>

lemma recommend_written:
  assumes "editable False ver st = Inr s" "activeRun st = None"
    and "cats = categoriesToFill (planFor w s) (listComponents (sn_version s) st) req" "cats \<noteq> []"
    and "recommendation_valid (map en_id (allowedEntries (sn_projectTypes s) cats)) cats (evidenceFor w) recs"
  shows "k_components (fst (recommend env w True (Some recs) req ver st))
    = k_components (fst (fold (write_recommendation env (sn_version s) (newId (ke_mint env) ''rec'' st) (listComponents (sn_version s) st)) recs
        (createRun \<lparr> rr_id = newId (ke_mint env) ''rec'' st, rr_stackVersion = sn_version s,
           rr_baselineVersion = (case baselineFor w of None \<Rightarrow> 0 | Some b \<Rightarrow> sl_version b), rr_requested = cats,
           rr_filled = [], rr_status = RUN_running \<rparr> (spend_id st), [])))"
  using assms(2,4,5) unfolding recommend_def Let_def assms(1) assms(3) [symmetric] sum.case by (simp add: fst_finish)

lemma SN_DRAFT_open: "SN_DRAFT \<noteq> SN_SUPERSEDED" "SN_DRAFT \<noteq> SN_LOCKED"
  by simp_all

lemma demo_recommend_names:
  "map c_technologyName (k_components (fst (recommend demo_env demo_world True (Some [demo_recommendation]) (Some [database]) 0 (demo_choice SN_DRAFT))))
     = [''Acme'', ''PostgreSQL'']"
proof -
  have e: "case findTechnology ''postgresql'' of None \<Rightarrow> False | Some e \<Rightarrow> fillsCategory e database \<and> en_name e = ''PostgreSQL''"
    by code_simp
  then obtain e where e: "findTechnology ''postgresql'' = Some e" "fillsCategory e database" "en_name e = ''PostgreSQL''"
    by (auto split: option.splits)
  have v: "sn_version (demo_snapshot SN_DRAFT) = 1" by (simp add: demo_snapshot_def)
  have c: "categoriesToFill (planFor demo_world (demo_snapshot SN_DRAFT)) (listComponents 1 (demo_choice SN_DRAFT)) (Some [database]) = [database]"
    by code_simp
  have a: "recommendation_valid (map en_id (allowedEntries (sn_projectTypes (demo_snapshot SN_DRAFT)) [database])) [database]
      (evidenceFor demo_world) [demo_recommendation]" by code_simp
  have r: "activeRun (demo_choice SN_DRAFT) = None" by (simp add: activeRun_def demo_choice_def demo_store_def)
  have l: "listComponents 1 (demo_choice SN_DRAFT) = [demo_component 1 web_frontend USER_APPROVED]"
    by (simp add: listComponents_def demo_choice_def demo_store_def)
  have d: "rc_category demo_recommendation = database" "rc_technologyId demo_recommendation = ''postgresql''"
    by (simp_all add: demo_recommendation_def)
  have n: "c_technologyName (recommended_component i k run x e) = ''PostgreSQL''" for i k run x
    by (simp add: recommended_component_def new_component_def Let_def e)
  have "k_components (fst (recommend demo_env demo_world True (Some [demo_recommendation]) (Some [database]) 0 (demo_choice SN_DRAFT)))
      = [demo_component 1 web_frontend USER_APPROVED, recommended_component (newId demo_mint ''cmp'' (spend_id (demo_choice SN_DRAFT))) 1
          (newId demo_mint ''rec'' (demo_choice SN_DRAFT)) demo_recommendation e]"
    by (subst recommend_written [OF demo_editable [OF SN_DRAFT_open] r, of "[database]"])
      (use a c in \<open>simp_all add: v l write_recommendation_def d e supersede_all_def Let_def newId_def spend_id_def createRun_def
         createComponent_def del: One_nat_def\<close>, simp add: demo_choice_def demo_store_def)
  then show ?thesis by (simp add: n) (simp add: demo_component_def new_component_def)
qed


lemma stack_approval_is_gated_witness:
  "snd (approve demo_env demo_world 0 (demo_choice SN_REVIEW_REQUIRED)) = None
   \<and> fst (approve demo_env demo_world 0 (demo_choice SN_REVIEW_REQUIRED))
     = (demo_choice SN_REVIEW_REQUIRED)\<lparr> k_snapshots := [approved_as 9 (demo_snapshot SN_REVIEW_REQUIRED)] \<rparr>
   \<and> fst (approve demo_env demo_world 1 (demo_choice SN_REVIEW_REQUIRED)) = demo_choice SN_REVIEW_REQUIRED"
proof -
  have a: "stack_approvable demo_world 0 (demo_choice SN_REVIEW_REQUIRED) (demo_snapshot SN_REVIEW_REQUIRED)" by code_simp
  have n: "snd (approve demo_env demo_world 1 (demo_choice SN_REVIEW_REQUIRED)) \<noteq> None"
    by (simp add: approve_def versioned_def snapshotOr404_def demo_choice_current) (simp add: demo_snapshot_def)
  have c: "currentSnapshot (demo_choice SN_REVIEW_REQUIRED) = Some (demo_snapshot SN_REVIEW_REQUIRED)" by (simp add: demo_choice_current)
  note g = stack_approval_is_gated [OF demo_choice_ok [of SN_REVIEW_REQUIRED], where env = demo_env and w = demo_world]
  have "butlast (k_snapshots (demo_choice SN_REVIEW_REQUIRED)) = []" by (simp add: demo_choice_def demo_store_def)
  moreover have "SN_REVIEW_REQUIRED \<noteq> SN_SUPERSEDED" by simp
  ultimately show ?thesis using g [where ver = 0] g [where ver = 1] a n c by auto
qed

lemma locked_stack_is_sealed_witness:
  "stack_history demo_mint [(1, demo_world, Op_lock 0), (2, demo_world, Op_mode HYBRID 0), (3, demo_world, Op_lockComponent ''a'' 0)] (demo_choice SN_LOCKED)
     = demo_choice SN_LOCKED"
  by (rule conjunct1 [OF locked_stack_is_sealed [OF demo_choice_current]]) (simp_all add: demo_snapshot_def reopens_def)

lemma locking_hands_down_the_stack_witness:
  "\<exists>a. authority (fst (lock demo_env 0 (demo_choice SN_APPROVED))) = Inr a
     \<and> map at_technologyName (da_technologies a) = [''Acme''] \<and> map at_authority (da_technologies a) = [A_LOCKED_USER_SELECTION]
     \<and> set (da_excluded a) = {database}"
proof -
  let ?s = "demo_snapshot SN_APPROVED" and ?st = "demo_choice SN_APPROVED"
  have "filter is_live (listComponents (sn_version ?s) ?st) = [demo_component 1 web_frontend USER_APPROVED]"
    "set (listComponents (sn_version ?s) ?st) = {demo_component 1 web_frontend USER_APPROVED}"
    by (simp_all add: listComponents_def demo_choice_def demo_store_def demo_snapshot_def is_live_def)
  moreover have "is_live (demo_component 1 web_frontend USER_APPROVED)" by (simp add: is_live_def)
  moreover have "c_technologyName (demo_component n cat s) = ''Acme''" for n cat s by (simp add: demo_component_def new_component_def)
  moreover have "sn_plan ?s = [\<lparr> ca_category = web_frontend, ca_applicability = required, ca_justifiedBy = [] \<rparr>,
      \<lparr> ca_category = database, ca_applicability = optional, ca_justifiedBy = [] \<rparr>]" by (simp add: demo_snapshot_def)
  moreover note locking_hands_down_the_stack [OF demo_choice_ok demo_choice_current, of SN_APPROVED 0 "''bl''" 1 demo_env]
  ultimately show ?thesis
    by (auto simp: demo_snapshot_def handed_down_def technology_of_def
        intro!: exI [of _ "\<lparr> ca_category = database, ca_applicability = optional, ca_justifiedBy = [] \<rparr>"])
qed

lemma reopening_carries_the_stack_witness:
  "\<exists>s' news. k_snapshots (fst (unlock demo_env 0 (demo_choice SN_LOCKED))) = [retire_snapshot 2 (demo_snapshot SN_LOCKED), s']
     \<and> sn_status s' = SN_DRAFT \<and> sn_version s' = 2
     \<and> list_all2 unlocked_copy [demo_component 1 web_frontend USER_APPROVED] news"
proof -
  have v: "versioned 0 (demo_choice SN_LOCKED) = Inr (demo_snapshot SN_LOCKED)"
    by (simp add: versioned_def snapshotOr404_def demo_choice_current) (simp add: demo_snapshot_def)
  have "filter is_live (listComponents 1 (demo_choice SN_LOCKED)) = [demo_component 1 web_frontend USER_APPROVED]"
    by (simp add: listComponents_def demo_choice_def demo_store_def is_live_def)
  moreover have "sn_version (demo_snapshot SN_LOCKED) = 1" "sn_status (demo_snapshot SN_LOCKED) = SN_LOCKED" by (simp_all add: demo_snapshot_def)
  moreover have "butlast (k_snapshots (demo_choice SN_LOCKED)) = []" by (simp add: demo_choice_def demo_store_def)
  ultimately show ?thesis
    using reopening_carries_the_stack [OF demo_fresh(1) demo_choice_ok demo_env_simps(1) v] by (auto simp: numeral_2_eq_2)
qed

lemma statuses_follow_the_table_witness:
  "\<exists>c' \<in> set (k_components (fst (perform_op demo_env demo_world (Op_unlockComponent ''a'' 0) (demo_choice SN_APPROVED)))).
     c_id c' = ''a'' \<and> (c_status c' = USER_APPROVED \<or> canTransitionComponent USER_APPROVED (c_status c'))"
proof -
  have "demo_component 1 web_frontend USER_APPROVED \<in> set (k_components (demo_choice SN_APPROVED))" by (simp add: demo_choice_def demo_store_def)
  from statuses_follow_the_table [OF demo_fresh(1) demo_choice_ok demo_env_simps(1) this, of demo_world "Op_unlockComponent ''a'' 0"]
  show ?thesis by auto
qed

definition demo_request :: select_request where
  "demo_request = \<lparr> rq_category = web_frontend, rq_technologyId = None, rq_customName = Some '' reactjs'', rq_source = USER,
     rq_mandatory = False, rq_version = None, rq_notes = None, rq_requirementIds = [] \<rparr>"

lemma demo_resolved:
  "resolveTechnology (rq_technologyId demo_request) (rq_customName demo_request) = Inr (Some (hd web_frontend_entries), ''React'')"
  by code_simp

lemma demo_selected: "snd (select demo_env demo_world demo_request 0 (demo_choice SN_DRAFT)) = None"
proof -
  have "map_option ca_applicability (find (\<lambda>e. ca_category e = web_frontend) (planFor demo_world (demo_snapshot SN_DRAFT))) = Some required"
    by code_simp
  then obtain a where a: "find (\<lambda>e. ca_category e = web_frontend) (planFor demo_world (demo_snapshot SN_DRAFT)) = Some a"
    "ca_applicability a = required" by (auto split: option.splits)
  have f: "fillsCategory (hd web_frontend_entries) web_frontend" "\<not> allowsMultiple web_frontend" by code_simp+
  have l: "liveInCategory (sn_version (demo_snapshot SN_DRAFT)) web_frontend (demo_choice SN_DRAFT) = [demo_component 1 web_frontend USER_APPROVED]"
    by (simp add: liveInCategory_def demo_choice_def demo_store_def demo_snapshot_def is_live_def)
  have n: "\<not> maxComponents \<le> countComponents (sn_version (demo_snapshot SN_DRAFT))
      (supersede_all [demo_component 1 web_frontend USER_APPROVED] (demo_choice SN_DRAFT))" by code_simp
  have q: "rq_category demo_request = web_frontend" "requirementsExist demo_world (rq_requirementIds demo_request)"
    by (simp_all add: demo_request_def requirementsExist_def)
  show ?thesis by (simp add: select_def demo_editable demo_resolved a f l n q Let_def del: One_nat_def)
qed

lemma selection_fills_the_slot_witness:
  "map c_technologyName (liveInCategory 1 web_frontend (fst (select demo_env demo_world demo_request 0 (demo_choice SN_DRAFT)))) = [''React'']
   \<and> list_all (\<lambda>c. c_status c = USER_SELECTED) (liveInCategory 1 web_frontend (fst (select demo_env demo_world demo_request 0 (demo_choice SN_DRAFT))))"
proof -
  have r: "rq_category demo_request = web_frontend" "\<not> allowsMultiple web_frontend" "sn_version (demo_snapshot SN_DRAFT) = 1" by code_simp+
  show ?thesis
    using selection_fills_the_slot [OF demo_choice_ok demo_choice_current, of SN_DRAFT demo_request demo_env demo_world 0] demo_selected
    unfolding r demo_resolved using r(2) by auto
qed

end
