(* ===== verification/StackFindings.thy ===== *)
theory StackFindings
  imports StackSamples
begin

text \<open>
  Where the technology-stack workflow departs from what its comments, tables and names say: pins
  that nothing ever moves, suggestions in an approved stack, a locked stack that is opened at one
  component, and writes to components of versions that are over.
\<close>

section \<open>Pins that nothing moves\<close>

definition pinned_as :: "stack_snapshot \<Rightarrow> stack_store \<Rightarrow> bool" where
  "pinned_as s st = (\<exists>s'. currentSnapshot st = Some s' \<and> sn_baseline s' = sn_baseline s \<and> sn_projectTypes s' = sn_projectTypes s)"

lemma pins_step:
  assumes m: "fresh_mint mint" and ok: "stack_ok mint st" and e: "ke_mint env = mint" and p: "pinned_as s st"
  shows "pinned_as s (fst (perform_op env w op st))"
proof -
  obtain t where t: "currentSnapshot st = Some t" "sn_baseline t = sn_baseline s" "sn_projectTypes t = sn_projectTypes s"
    using p by (auto simp: pinned_as_def)
  obtain us where us: "k_snapshots st = us @ [t]" using t(1) current_iff [OF ok_chain [OF ok]] by blast
  have c: "stack_chain (k_snapshots (fst (perform_op env w op st)))" by (rule ok_chain [OF op_stack_ok [OF m e ok]])
  have adv: "\<exists>t'. k_snapshots (fst (perform_op env w op st)) = us @ [t'] \<and> advances t t'" if "\<And>v. op \<noteq> Op_unlock v"
  proof -
    have "moves_last (us @ [t]) (k_snapshots (fst (perform_op env w op st)))"
      using op_moves [OF ok_chain [OF ok] that] us by simp
    then show ?thesis unfolding moves_last_def by (auto intro: exI [of _ t])
  qed
  show ?thesis
  proof (cases "\<exists>v. op = Op_unlock v")
    case True
    then obtain v where op: "op = Op_unlock v" by blast
    show ?thesis
    proof (cases "versioned v st = Inr t \<and> sn_status t = SN_LOCKED")
      case True
      then obtain i d where "k_snapshots (fst (unlock env v st)) = us @ [retire_snapshot (Suc (Suc (length us))) t, reopened i (Suc (Suc (length us))) d t]"
        using unlock_snapshots(1) [OF ok m e us, of v] by auto
      then have "k_snapshots (fst (perform_op env w op st)) = (us @ [retire_snapshot (Suc (Suc (length us))) t]) @ [reopened i (Suc (Suc (length us))) d t]"
        by (simp add: op)
      then have "currentSnapshot (fst (perform_op env w op st)) = Some (reopened i (Suc (Suc (length us))) d t)"
        using current_iff [OF c] by blast
      then show ?thesis using t by (simp add: pinned_as_def reopened_def)
    next
      case False
      have "fst (unlock env v st) = st"
        using False unlock_refused stack_versioned_SomeD t(1) by (metis option.inject)
      then show ?thesis using p by (simp add: op)
    qed
  next
    case False
    then obtain t' where "k_snapshots (fst (perform_op env w op st)) = us @ [t']" "advances t t'" using adv by blast
    then show ?thesis using c t by (auto simp: pinned_as_def current_iff advances_def)
  qed
qed

text \<open>What an approval needs of the pins.\<close>

definition pins_hold :: "stack_world \<Rightarrow> stack_snapshot \<Rightarrow> bool" where
  "pins_hold w s = (mset (sn_projectTypes s) = mset (kw_projectTypes w)
     \<and> (\<exists>b. approvedBaseline w = Some b \<and> (\<forall>p. sn_baseline s = Some p \<longrightarrow> snd p = 0 \<or> snd p = sl_version b)))"

lemma approved_pins:
  assumes "snd (approve env w ver st) = None" "currentSnapshot st = Some s"
  shows "pins_hold w s"
proof -
  have "versioned ver st = Inr s" using assms stack_versioned_SomeD by (cases "versioned ver st") (auto simp: approve_def)
  then have "calculateStackBlockers (blockers_of w st s) = []"
    using assms(1) by (auto simp: approve_def Let_def canApproveStack_def assemble_def split: if_splits)
  then have "bi_baselineCurrent (blockers_of w st s)" "sameTypes (bi_decidedTypes (blockers_of w st s)) (bi_currentTypes (blockers_of w st s))"
    by (auto simp: calculateStackBlockers_def Let_def split: if_splits)
  then show ?thesis
    by (auto simp: blockers_of_def baselineIsCurrent_def pins_hold_def sameTypes_iff split: option.splits)
qed

text \<open>
  Property C34. The project types and the baseline a stack was first created with are never pinned
  again: no operation, reopening included, changes them. Once the project has other types, or its
  approved baseline another version, no history of operations lets the stack be approved, although
  reviewing it is what the blocker asks for.
\<close>
theorem moved_pins_block_the_stack:
  assumes "fresh_mint mint" and "stack_ok mint st" and "currentSnapshot st = Some s" and "\<not> pins_hold w s"
  shows "snd (approve env w ver (stack_history mint ops st)) \<noteq> None"
proof -
  have "pinned_as s (stack_history mint ops st)"
  proof (induction ops rule: rev_induct)
    case Nil
    then show ?case using assms(3) by (simp add: pinned_as_def)
  next
    case (snoc x ops)
    obtain now w' op where x: "x = (now, w', op)" by (cases x)
    show ?case
      unfolding x stack_history_snoc
      by (rule pins_step [OF assms(1) history_stack_ok [OF assms(1,2)] _ snoc.IH]) simp
  qed
  then obtain t where "currentSnapshot (stack_history mint ops st) = Some t" "sn_baseline t = sn_baseline s"
    "sn_projectTypes t = sn_projectTypes s" by (auto simp: pinned_as_def)
  moreover from this have "\<not> pins_hold w t" using assms(4) by (simp add: pins_hold_def)
  ultimately show ?thesis using approved_pins by blast
qed

lemma moved_pins_block_the_stack_witness:
  "snd (approve demo_env (demo_world\<lparr> kw_projectTypes := [WEBSITE, BACKEND_API] \<rparr>) 3
     (stack_history demo_mint [(1, demo_world, Op_unlock 0), (2, demo_world, Op_mode HYBRID 0)] (demo_choice SN_LOCKED))) \<noteq> None"
proof (rule moved_pins_block_the_stack [OF demo_fresh(1) demo_choice_ok demo_choice_current])
  show "\<not> pins_hold (demo_world\<lparr> kw_projectTypes := [WEBSITE, BACKEND_API] \<rparr>) (demo_snapshot SN_LOCKED)"
    by (simp add: pins_hold_def demo_snapshot_def)
qed simp_all

section \<open>A suggestion nobody read is locked\<close>

text \<open>
  Locking looks at the status alone. A suggestion in an approved stack is handed down with the rest,
  at the authority of a suggestion.
\<close>
lemma locked_suggestion_is_handed_down:
  assumes "stack_ok mint st" and "currentSnapshot st = Some s" and "sn_status s = SN_APPROVED" and "sn_recordVersion s = ver"
    and "sn_baseline s = Some (b, bv)" and "b \<noteq> []" and "bv \<noteq> 0"
    and "c \<in> set (k_components st)" and "c_version c = sn_version s" and "c_status c = AI_RECOMMENDED"
  shows "snd (lock env ver st) = None
    \<and> (\<exists>a. authority (fst (lock env ver st)) = Inr a
         \<and> (\<exists>t \<in> set (da_technologies a). at_technologyName t = c_technologyName c \<and> at_authority t = A_AI_RECOMMENDATION))"
proof -
  note eff = lock_effect [OF assms(1-4), of env]
  let ?st = "fst (lock env ver st)"
  have "locked_at (sn_version s) (ke_now env) c = c" using assms(10) by (simp add: locked_at_def)
  then have "c \<in> set (map (locked_at (sn_version s) (ke_now env)) (k_components st))"
    using assms(8) unfolding set_map by (metis imageI)
  then have "c \<in> set (k_components ?st)" unfolding eff(1) by simp
  then have l: "c \<in> set (filter is_live (listComponents (sn_version s) ?st))"
    using assms(9,10) by (simp add: set_listComponents is_live_def)
  have stamp: "sn_status (lock_stamp n s) = SN_LOCKED" "sn_baseline (lock_stamp n s) = Some (b, bv)"
    "sn_lockedAt (lock_stamp n s) = Some n" "sn_version (lock_stamp n s) = sn_version s" for n
    using assms(5) by (simp_all add: lock_stamp_def)
  obtain a where "authority ?st = Inr a" "da_technologies a = map technology_of (filter is_live (listComponents (sn_version s) ?st))"
    using authority_locked [OF eff(2) stamp(1,2) assms(6,7) stamp(3) refl] unfolding stamp(4) by blast
  moreover have "technology_of c \<in> set (map technology_of (filter is_live (listComponents (sn_version s) ?st)))"
    using l unfolding set_map by (rule imageI)
  moreover have "at_technologyName (technology_of c) = c_technologyName c" "at_authority (technology_of c) = A_AI_RECOMMENDATION"
    using assms(10) by (simp_all add: technology_of_def authorityOf_def)
  moreover have "snd (lock env ver st) = None" by (simp add: eff(1))
  ultimately show ?thesis by metis
qed

lemma findComponent_row:
  assumes "distinct_ids_in st" "c \<in> set (k_components st)"
  shows "findComponent (c_id c) st = Some c"
proof (cases "findComponent (c_id c) st")
  case None
  then show ?thesis using assms(2) unfolding findComponent_def find_None_iff by blast
next
  case (Some d)
  then show ?thesis using findComponent_SomeD [OF Some] row_unique [OF assms(1), of d c] assms(2) by simp
qed

section \<open>Opening a locked stack at one component\<close>

text \<open>
  Unlocking a component is allowed in a locked stack, and leaves the stack locked with a component
  that is not: nothing can lock it again, since every other request finds the stack locked.
\<close>
lemma unlocked_inside_locked:
  assumes "stack_ok mint st" and "currentSnapshot st = Some s" and "sn_status s = SN_LOCKED" and "sn_recordVersion s = ver"
    and "c \<in> set (k_components st)" and "c_status c = LOCKED"
  shows "\<exists>s'. snd (unlockComponent env w (c_id c) ver st) = None
    \<and> currentSnapshot (fst (unlockComponent env w (c_id c) ver st)) = Some s' \<and> sn_status s' = SN_LOCKED
    \<and> (\<exists>d \<in> set (k_components (fst (unlockComponent env w (c_id c) ver st))). c_id d = c_id c \<and> c_status d = USER_APPROVED)
    \<and> snd (lockComponent env' w' (c_id c) ver' (fst (unlockComponent env w (c_id c) ver st))) = Some STACK_LOCKED"
proof -
  have d: "distinct_ids_in st" using ok_rows [OF assms(1)] by (simp add: minted_rows_def)
  obtain us where us: "k_snapshots st = us @ [s]" using assms(2) current_iff [OF ok_chain [OF assms(1)]] by blast
  have chain: "stack_chain (us @ [s])" using ok_chain [OF assms(1)] us by simp
  have f: "findComponent (c_id c) st = Some c" by (rule findComponent_row [OF d assms(5)])
  have e: "editable True ver st = Inr s" using assms(2,4) by (simp add: editable_def snapshotOr404_def)
  define st1 where "st1 = writeComponent (\<lambda>c. (with_status USER_APPROVED c)\<lparr> c_lockedAt := None \<rparr>) c st"
  have st1: "k_snapshots st1 = us @ [s]"
    "k_components st1 = map (\<lambda>x. if x = c then bump (\<lambda>c. (with_status USER_APPROVED c)\<lparr> c_lockedAt := None \<rparr>) c else x) (k_components st)"
    unfolding st1_def writeComponent_row [OF d assms(5)] by (simp_all add: us)
  define dc where "dc = decision component_unlocked (Some (c_category c)) (Some (c_technologyName c)) None (ke_now env)"
  define st2 where "st2 = recalculate w s dc st1"
  have un: "unlockComponent env w (c_id c) ver st = (st2, None)"
    using assms(6) by (simp add: unlockComponent_def e f st2_def st1_def dc_def)
  define s' where "s' = (recalculated (assemble w st1 s) dc s)\<lparr> sn_recordVersion := sn_recordVersion s + 1 \<rparr>"
  have s2: "k_snapshots st2 = us @ [s']" unfolding st2_def s'_def by (rule recalculate_snapshots [OF chain st1(1)])
  have l: "sn_status s' = SN_LOCKED" using assms(3) by (simp add: s'_def recalculated_def nextStatus_def)
  have "stack_chain (k_snapshots st2)"
    unfolding s2 by (rule stack_versions.chain_replace [OF chain]) (use l in \<open>simp_all add: s'_def recalculated_def\<close>)
  then have cur: "currentSnapshot st2 = Some s'" using s2 by (simp add: current_iff)
  have "\<exists>x \<in> set (k_components st2). c_id x = c_id c \<and> c_status x = USER_APPROVED"
    using assms(5) by (auto simp: st2_def st1(2) bump_def with_status_def)
  moreover have "snd (lockComponent env' w' (c_id c) ver' st2) = Some STACK_LOCKED"
    using cur l by (simp add: lockComponent_def editable_def snapshotOr404_def)
  ultimately show ?thesis using cur l by (simp add: un)
qed

section \<open>Components of versions that are over\<close>

text \<open>
  A component is looked up by its identifier alone: with the current version open, the lock of a
  component of an earlier one is set.
\<close>
lemma superseded_component_is_locked:
  assumes "stack_ok mint st" and "currentSnapshot st = Some s" and "sn_status s \<noteq> SN_LOCKED" and "sn_recordVersion s = ver"
    and "c \<in> set (k_components st)" and "c_status c = USER_APPROVED" and "c_version c \<noteq> sn_version s"
  shows "snd (lockComponent env w (c_id c) ver st) = None
    \<and> (\<exists>d \<in> set (k_components (fst (lockComponent env w (c_id c) ver st))).
          c_id d = c_id c \<and> c_version d \<noteq> sn_version s \<and> c_status d = LOCKED)"
proof -
  have d: "distinct_ids_in st" using ok_rows [OF assms(1)] by (simp add: minted_rows_def)
  have f: "findComponent (c_id c) st = Some c" by (rule findComponent_row [OF d assms(5)])
  have e: "editable False ver st = Inr s" using assms(2-4) by (simp add: editable_def snapshotOr404_def)
  have "canTransitionComponent USER_APPROVED LOCKED" by (simp add: canTransitionComponent_def)
  then show ?thesis
    using assms(5-7) by (auto simp: lockComponent_def e f transition_row [OF d assms(5)] bump_def with_status_def)
qed

section \<open>A refused selection\<close>

text \<open>
  At the limit of components a selection supersedes what the category holds before it is refused.
\<close>
lemma refused_selection_supersedes:
  assumes "stack_ok mint st" and "currentSnapshot st = Some s" and "snd (select env w rq ver st) = Some COMPONENT_LIMIT_REACHED"
    and "\<not> allowsMultiple (rq_category rq)"
  shows "liveInCategory (sn_version s) (rq_category rq) (fst (select env w rq ver st)) = []"
proof -
  let ?ex = "liveInCategory (sn_version s) (rq_category rq) st"
  have "editable False ver st = Inr s \<or> (\<exists>x. editable False ver st = Inl x \<and> x \<noteq> COMPONENT_LIMIT_REACHED)"
    using assms(2) by (simp add: editable_def snapshotOr404_def)
  then have e: "editable False ver st = Inr s" using assms(3) by (auto simp: select_def)
  have "x \<noteq> COMPONENT_LIMIT_REACHED" if "resolveTechnology i n = Inl x" for i n x
    using that by (auto simp: resolveTechnology_def Let_def split: option.splits)
  then have "fst (select env w rq ver st) = supersede_all ?ex st"
    using assms(3,4) unfolding select_def e sum.case Let_def by (simp split: option.splits if_splits sum.splits prod.splits)
  then show ?thesis using superseded_slot_is_empty [OF assms(1)] by simp
qed

end
