(* ===== verification/Spec2Isabelle.thy ===== *)
theory Spec2Isabelle
  imports InferenceEndpoint DocumentFindings ExtractionWorker RateLimit FeatureCsv EstimationFindings StackFindings
begin

text \<open>
  Verification library of the requirement-document generator, a TypeScript monorepo that turns
  uploaded material into a requirement baseline, a technology stack, an effort and schedule estimate,
  and a set of controlled documents. The shared rules are pure functions under
  packages/contracts/src (\<open>contracts\<close> below), the stateful services are under apps/api/src
  (\<open>api\<close>); the web application under apps/web only displays what they decide.

  How the parts interact. A project's sources are uploaded and read by a background worker that
  claims jobs from a queue stored in the database. What was read is analysed, with or without a
  language model behind an inference endpoint the operator configures, into requirement items that
  are approved as a baseline. A technology stack is chosen slot by slot, with or without suggestions
  of a model, approved, and locked, which hands it to the later phases. From baseline and stack the estimation
  service derives one line per requirement, overhead lines and dependencies, schedules them on the
  working calendar against the team's capacity, judges feasibility and gates approval. The document
  engine composes seven kinds of documents from all of it, keeps every version and marks documents
  out of date when what they were built on moves.

  Theories and what they model:

  \<^item> \<open>Prelude\<close>, \<open>JsNumber\<close>: the language. Strings, insertion-ordered maps, array sorting, status
    tables as the locale \<open>status_table\<close>; IEEE 754 doubles as rationals with rounding to nearest even,
    \<open>toFixed\<close>, decimal literals, parsing, and the error bounds of sums.
  \<^item> \<open>InferenceEndpoint\<close> (contracts/analysis/inference-endpoint.contract.ts): URL splitting, IPv4 and IPv6
    literals, and the policy. Shown: what production accepts is private, resolution checks are exact,
    and the classifier is the lookup of the 32-bit address in the special-purpose registry.
  \<^item> \<open>SourceLifecycle\<close>, \<open>JobQueue\<close>, \<open>ExtractionWorker\<close> (contracts/requirements/source-status.ts,
    api/requirements/queue): the queue's conditional writes, one pass of the worker with the actions
    users take meanwhile, and the drain loop. Shown: exclusive claims, unique keys, backoff and limits,
    agreement of job and source, termination of a tick.
  \<^item> \<open>RateLimit\<close> (api/abuse/rate-limit.store.ts): fixed windows with eviction; exactness and bound.
  \<^item> \<open>DependencyGraph\<close>, \<open>Calendar\<close>, \<open>Scheduling\<close> (contracts/estimation): the iterative cycle search,
    working-day arithmetic, and the scheduler's topological order, forward and backward passes. Shown:
    cycle detection is exact, dependencies and capacity are kept, every task is placed once.
  \<^item> \<open>EffortModel\<close>, \<open>Estimator\<close>, \<open>Feasibility\<close> (contracts/estimation, api/estimation/estimation-engine.ts):
    hours from complexity, their split over roles, ranges, capacity, staffing, verdict and gate.
  \<^item> \<open>EstimationStore\<close>, \<open>EstimationService\<close> (api/estimation): the store as lists of documents and every
    operation of the service as a function from store and project to store and error; a history is a
    list of operations, each with the project as it then is. \<open>EstimationFacts\<close> has the frames and
    the invariant of the version history, \<open>EstimationGuarantees\<close> the properties over histories,
    \<open>EstimationFindings\<close> the divergences.
  \<^item> \<open>VersionedRows\<close>: the history of versions both stores keep, as the locale \<open>versioned_rows\<close>:
    conditional writes, the newest row that is not superseded, and the chain of versions without a
    gap. Interpreted on the snapshots of the estimate (\<open>EstimationFacts\<close>) and of the stack
    (\<open>StackStore\<close>).
  \<^item> \<open>StackCatalog\<close>, \<open>StackRules\<close> (contracts/stack, api/stack/constraints.service.ts): categories, the
    plans of the project types, the reviewed catalogue entry by entry, authority, evidence,
    compatibility, blockers, and the constraints read out of requirement text. \<open>StackCatalogFacts\<close>: every
    label resolves to its own entry and every required category can be filled. \<open>StackRulesFacts\<close>: when
    a stack has no blocking finding and when its gate is open, exactly.
  \<^item> \<open>StackStore\<close>, \<open>StackService\<close> (api/stack): the repository, every operation of the service and the
    recommendation run, with errors as values, and what later phases read. \<open>StackFacts\<close>, \<open>StackSteps\<close>:
    what an operation may make of a component and which components it may create. \<open>StackVersions\<close>: the
    invariant of the store. \<open>StackGuarantees\<close>: locks, suggestions, approval, sealing, handing down and
    reopening over histories; \<open>StackSamples\<close> evaluates them on one project, \<open>StackFindings\<close> has the
    divergences.
  \<^item> \<open>FeatureListing\<close>, \<open>FeatureCsv\<close> (contracts/documents): the feature listing, its coverage and the CSV
    export with its validator and spreadsheet neutralisation.
  \<^item> \<open>DocumentLifecycle\<close>, \<open>DocumentDependency\<close>, \<open>DocumentRows\<close>, \<open>DocumentBlockers\<close> (contracts/documents):
    statuses, the dependency table and its propagation (over the locale \<open>document_graph\<close>), keyed rows,
    blockers. \<open>DocumentStore\<close>, \<open>DocumentEngine\<close> (api/documents): repository and every writing operation.
    \<open>DocumentHistory\<close>, \<open>DocumentSteps\<close>, \<open>DocumentRuns\<close>: frames, the archive invariant, operation
    sequences. \<open>DocumentGuarantees\<close>, \<open>DocumentFindings\<close>: the promises of each operation and runs in
    which the code departs from what it says.

  State and errors. A collection of the database is the list of its documents in insertion order, a
  filter of a query is a filter, a conditional write (id and expected record version) changes the
  first match or fails, and a unique index is a hypothesis where it is needed. Operations of one
  project are taken one after the other; within one, what the code reads is what it had written.
  An error is a constructor of the component's error type.

  Parameters, for code not under src/ or for choices outside the program: \<open>collate\<close> and \<open>pick\<close>
  (\<open>localeCompare\<close>, order of equal database keys), the source of random identifiers (hypothesis: no
  identifier comes twice), storage, conversion and text extraction (\<open>reader\<close>), the composers and
  field schemas of the documents (\<open>engine\<close>), and what a model run gives back. Where a claim depends
  on one of them its hypothesis is in the statement.

  Bounds and fuel. Loops with a bound of the code keep it as the recursion argument (5000 steps of the
  calendar search, enough for every calendar the schema accepts: \<open>nextWorkingDay_is_first\<close>). The
  graph search, Kahn's loop and the CSV splitter are total with explicit measures; the worker's drain
  loop is a while with a proof that it ends. Hours and dates are proved within the bounds the schemas
  give, where double arithmetic is exact or its error is bounded.

  Not modelled: the web application, which displays what the services decide; controllers, modules,
  configuration, logging, metrics and audit events, which are glue around the framework; Mongo schemas
  beyond the collections above; prompts, providers and the model pipeline of the analysis, whose
  outcome is what a language model says (the pure analysis contracts and the project workspace with
  its hashed secrets and sessions are left for want of room, not of meaning); text extraction itself,
  done by libraries; the composers and renderers of the documents, which write prose from data the
  engine treats as a parameter; administration and retention, queries over the database; prose of every
  kind (labels, explanations, summaries). The manifest lists each part with the reason.
\<close>

end
